(* ===== verification/Prelude.thy ===== *)
theory Prelude
  imports Main "HOL-Library.List_Lexorder" "HOL-Library.Char_ord"
begin

text \<open>
  Shared vocabulary of the development: the error values of the chain, results of fallible Go
  functions, loops over slices and stores, machine integers, the ordered key-value store that
  backs every keeper, Go maps, and the few \<open>strings\<close> functions the code uses.
\<close>

named_theorems res_simps \<open>inversion of results: what a successful or failed step came from\<close>
named_theorems kv_simps \<open>lookups after updates of the key-value store\<close>
named_theorems int_simps \<open>machine integers inside their range\<close>

section \<open>Errors and results\<close>

text \<open>
  The sentinel errors the modules return. Wrapping keeps the sentinel and adds text; the text
  is dropped here. \<open>Errorf\<close> is a plain \<open>fmt.Errorf\<close>, \<open>External\<close> an error that comes from
  code outside the repository, \<open>Panic\<close> a Go panic that is not recovered.
\<close>

datatype error =
    Panic string | External string | Errorf string
  | ErrNotFound
  | ErrInvalidAddress | ErrUnknownRequest | ErrInvalidRequest | ErrInvalidCoins | ErrConflict
  | ErrUnauthorizedSdk | ErrInsufficientFunds | ErrTxDecode | ErrInvalidGasLimit
  | ErrUnknownAddress | ErrInvalidPubKey | ErrInvalidType | ErrLogic
  | ErrUnknownExtensionOptions | InvalidArgument | StatusNotFound | StatusInternal
  | ErrNoValidatorFound | ErrInvalidSigner
  | ErrInvalidExchangeRate | ErrNoVotingPermission | ErrUnknownDenom | ErrInvalidTwapLookback
  | ErrNoTwapData | ErrAggregateVoteInvalidRate
  | ErrDenomExists | ErrUnauthorized | ErrInvalidDenom | ErrInvalidCreator
  | ErrInvalidAuthorityMetadata | ErrInvalidGenesis | ErrSubdenomTooLong | ErrCreatorTooLong
  | ErrDenomDoesNotExist | ErrCapabilityNotEnabled
  | ErrInvalidFeeTokenMetadata | ErrInvalidParams
  | ErrInvalidExpeditedProposal | ErrInsufficientStake | ErrUnauthorizedKii

type_synonym 'a res = "error + 'a"

fun bindR :: "'a res \<Rightarrow> ('a \<Rightarrow> 'b res) \<Rightarrow> 'b res" where
  "bindR (Inl e) f = Inl e"
| "bindR (Inr x) f = f x"

definition wrapR :: "error \<Rightarrow> 'a res \<Rightarrow> 'a res" where
  \<comment> \<open>\<open>errors.Wrap\<close> of a sentinel around the text of another error\<close>
  "wrapR e r = (case r of Inl _ \<Rightarrow> Inl e | Inr x \<Rightarrow> Inr x)"

lemma wrapR_Inr_iff [simp, res_simps]: "wrapR e r = Inr x \<longleftrightarrow> r = Inr x"
  by (cases r) (auto simp: wrapR_def)

lemma wrapR_simps [simp]: "wrapR e (Inl e') = Inl e" "wrapR e (Inr x) = Inr x"
  by (simp_all add: wrapR_def)

lemma bindR_cong [fundef_cong]:
  assumes "m = m'" and "\<And>x. m' = Inr x \<Longrightarrow> f x = f' x"
  shows "bindR m f = bindR m' f'"
  using assms by (cases m') auto

lemma bindR_Inr_iff [res_simps]:
  "bindR m f = Inr y \<longleftrightarrow> (\<exists>x. m = Inr x \<and> f x = Inr y)"
  by (cases m) auto

lemma bindR_Inl_iff:
  "bindR m f = Inl e \<longleftrightarrow> m = Inl e \<or> (\<exists>x. m = Inr x \<and> f x = Inl e)"
  by (cases m) auto

lemma bindR_InrE:
  assumes "bindR m f = Inr y"
  obtains x where "m = Inr x" and "f x = Inr y"
  using assms by (cases m) auto

definition the_or :: "error \<Rightarrow> 'a option \<Rightarrow> 'a res" where
  "the_or e x = (case x of None \<Rightarrow> Inl e | Some y \<Rightarrow> Inr y)"

lemma the_or_simps [simp]: "the_or e None = Inl e" "the_or e (Some x) = Inr x"
  by (simp_all add: the_or_def)

lemma the_or_Inr_iff [res_simps]: "the_or e x = Inr y \<longleftrightarrow> x = Some y"
  by (cases x) auto

lemma the_or_Inl_iff: "the_or e x = Inl e' \<longleftrightarrow> x = None \<and> e' = e"
  by (cases x) auto

definition is_ok :: "'a res \<Rightarrow> bool" where
  "is_ok r = (case r of Inl _ \<Rightarrow> False | Inr _ \<Rightarrow> True)"

lemma is_ok_simps [simp]: "is_ok (Inr x)" "\<not> is_ok (Inl e)"
  by (simp_all add: is_ok_def)

lemma is_ok_iff: "is_ok r \<longleftrightarrow> (\<exists>x. r = Inr x)"
  by (cases r) auto

section \<open>Loops\<close>

text \<open>
  \<open>foldR\<close> is a \<open>for range\<close> loop that returns on the first error; \<open>mapR\<close> one that builds a
  slice; \<open>walkR\<close> is \<open>collections.Map.Walk\<close>: the callback says whether to stop.
\<close>

fun foldR :: "('a \<Rightarrow> 's \<Rightarrow> 's res) \<Rightarrow> 'a list \<Rightarrow> 's \<Rightarrow> 's res" where
  "foldR f [] s = Inr s"
| "foldR f (x # xs) s = bindR (f x s) (foldR f xs)"

fun mapR :: "('a \<Rightarrow> 'b res) \<Rightarrow> 'a list \<Rightarrow> 'b list res" where
  "mapR f [] = Inr []"
| "mapR f (x # xs) = bindR (f x) (\<lambda>y. bindR (mapR f xs) (\<lambda>ys. Inr (y # ys)))"

fun walkR :: "('a \<Rightarrow> 's \<Rightarrow> (bool \<times> 's) res) \<Rightarrow> 'a list \<Rightarrow> 's \<Rightarrow> 's res" where
  "walkR f [] s = Inr s"
| "walkR f (x # xs) s =
     bindR (f x s) (\<lambda>(stop, s'). if stop then Inr s' else walkR f xs s')"

lemma foldR_cong [fundef_cong]:
  assumes "xs = ys" and "s = t" and "\<And>x s. x \<in> set ys \<Longrightarrow> f x s = g x s"
  shows "foldR f xs s = foldR g ys t"
proof -
  have "foldR f ys t = foldR g ys t"
    using assms(3)
  proof (induction ys arbitrary: t)
    case (Cons y ys)
    then show ?case by (cases "g y t") auto
  qed simp
  with assms(1,2) show ?thesis by simp
qed

lemma foldR_append: "foldR f (xs @ ys) s = bindR (foldR f xs s) (foldR f ys)"
proof (induction xs arbitrary: s)
  case (Cons x xs)
  then show ?case by (cases "f x s") auto
qed simp

lemma foldR_inv:
  assumes "foldR f xs s = Inr s'" and "P s"
    and "\<And>x s s'. x \<in> set xs \<Longrightarrow> P s \<Longrightarrow> f x s = Inr s' \<Longrightarrow> P s'"
  shows "P s'"
  using assms
proof (induction xs arbitrary: s)
  case (Cons x xs)
  from Cons.prems(1) obtain t where t: "f x s = Inr t" "foldR f xs t = Inr s'"
    by (auto simp: res_simps)
  have "P t" using Cons.prems(2,3) t(1) by auto
  with t(2) show ?case using Cons.prems(3) by (auto intro: Cons.IH)
qed simp

lemma foldR_total:
  assumes "\<And>x s. x \<in> set xs \<Longrightarrow> P s \<Longrightarrow> \<exists>s'. f x s = Inr s' \<and> P s'" and "P s"
  shows "\<exists>s'. foldR f xs s = Inr s' \<and> P s'"
  using assms
proof (induction xs arbitrary: s)
  case (Cons x xs)
  from Cons.prems obtain t where t: "f x s = Inr t" "P t" by fastforce
  with Cons show ?case by auto
qed simp

lemma foldR_pure: "foldR (\<lambda>x s. Inr (g x s)) xs s = Inr (fold g xs s)"
  by (induction xs arbitrary: s) auto

lemma mapR_length: "mapR f xs = Inr ys \<Longrightarrow> length ys = length xs"
  by (induction xs arbitrary: ys) (auto simp: res_simps)

lemma mapR_set: "mapR f xs = Inr ys \<Longrightarrow> y \<in> set ys \<Longrightarrow> \<exists>x \<in> set xs. f x = Inr y"
  by (induction xs arbitrary: ys) (auto simp: res_simps)

lemma mapR_Inr_iff: "mapR f xs = Inr ys \<longleftrightarrow> list_all2 (\<lambda>x y. f x = Inr y) xs ys"
proof (induction xs arbitrary: ys)
  case Nil
  then show ?case by auto
next
  case (Cons x xs)
  then show ?case by (cases ys) (auto simp: res_simps)
qed

lemma walkR_inv:
  assumes "walkR f xs s = Inr s'" and "P s"
    and "\<And>x s stop s'. x \<in> set xs \<Longrightarrow> P s \<Longrightarrow> f x s = Inr (stop, s') \<Longrightarrow> P s'"
  shows "P s'"
  using assms
proof (induction xs arbitrary: s)
  case (Cons x xs)
  from Cons.prems(1) obtain stop t where t: "f x s = Inr (stop, t)"
      and r: "if stop then s' = t else walkR f xs t = Inr s'"
    by (auto simp: res_simps split: if_splits)
  have pt: "P t" by (rule Cons.prems(3) [OF _ Cons.prems(2) t]) simp
  show ?case
  proof (cases stop)
    case False
    then have w: "walkR f xs t = Inr s'" using r by simp
    show ?thesis
    proof (rule Cons.IH [OF w pt])
      fix y u b v
      assume "y \<in> set xs" "P u" "f y u = Inr (b, v)"
      then show "P v" by (intro Cons.prems(3) [of y u b v]) simp_all
    qed
  qed (use r pt in simp)
qed simp

lemma walkR_nostop:
  assumes "\<And>x s. f x s = bindR (g x s) (\<lambda>s'. Inr (False, s'))"
  shows "walkR f xs s = foldR g xs s"
proof (induction xs arbitrary: s)
  case (Cons x xs)
  then show ?case by (cases "g x s") (auto simp: assms)
qed simp

end
