(* ===== verification/Machine.thy ===== *)
theory Machine
  imports Prelude "HOL-Library.Log_Nat"
begin

text \<open>
  Go's fixed-width integers and binary64 floats. An \<open>int64\<close> or \<open>uint64\<close> is an \<open>int\<close> whose
  arithmetic is wrapped explicitly by \<open>i64\<close> and \<open>u64\<close>; \<open>/\<close> truncates towards zero. A finite,
  non-negative \<open>float64\<close> is a pair \<open>(m, e)\<close> that stands for \<open>m * 2 ^ e\<close>, produced by
  round-to-nearest-even at 53 bits as IEEE 754 prescribes for \<open>strconv.ParseFloat\<close>, for
  \<open>math.Sqrt\<close> and for \<open>+\<close> and \<open>/\<close>. The exponent is not bounded: the values the code forms
  (variances of 315-bit decimals, durations in seconds) lie far inside the range of normal
  binary64 numbers.
\<close>

section \<open>Integers\<close>

definition i64 :: "int \<Rightarrow> int" where
  "i64 x = (x + 2 ^ 63) mod 2 ^ 64 - 2 ^ 63"

definition u64 :: "int \<Rightarrow> int" where
  "u64 x = x mod 2 ^ 64"

definition tdiv :: "int \<Rightarrow> int \<Rightarrow> int" where
  "tdiv a b = sgn a * sgn b * (\<bar>a\<bar> div \<bar>b\<bar>)"

lemma i64_id [int_simps]: "- (2 ^ 63) \<le> x \<Longrightarrow> x < 2 ^ 63 \<Longrightarrow> i64 x = x"
  by (simp add: i64_def)

lemma i64_bounds: "- (2 ^ 63) \<le> i64 x" "i64 x < 2 ^ 63"
proof -
  have "0 \<le> (x + 2 ^ 63) mod 2 ^ 64" "(x + 2 ^ 63) mod 2 ^ 64 < (2 ^ 64 :: int)"
    by (auto intro: pos_mod_sign pos_mod_bound)
  then show "- (2 ^ 63) \<le> i64 x" "i64 x < 2 ^ 63"
    unfolding i64_def by simp_all
qed

lemma u64_id [int_simps]: "0 \<le> x \<Longrightarrow> x < 2 ^ 64 \<Longrightarrow> u64 x = x"
  by (simp add: u64_def)

lemma u64_bounds: "0 \<le> u64 x" "u64 x < 2 ^ 64"
  by (simp_all add: u64_def)

lemma tdiv_nonneg [int_simps]: "0 \<le> a \<Longrightarrow> 0 < b \<Longrightarrow> tdiv a b = a div b"
  by (cases "a = 0") (simp_all add: tdiv_def)

lemma tdiv_0 [simp]: "tdiv 0 b = 0"
  by (simp add: tdiv_def)

lemma tdiv_half_nonneg: "0 \<le> t \<Longrightarrow> tdiv t 2 = t div 2"
  by (simp add: tdiv_nonneg)

section \<open>Rounding\<close>

text \<open>The integer nearest to \<open>a / b\<close> for \<open>0 < b\<close>, ties to even.\<close>

definition round_half_even :: "int \<Rightarrow> int \<Rightarrow> int" where
  "round_half_even a b =
     (let q = a div b; r = a mod b
      in if 2 * r < b then q else if b < 2 * r then q + 1 else if even q then q else q + 1)"

lemma round_half_even_nearest:
  assumes "0 < b"
  shows "2 * \<bar>b * round_half_even a b - a\<bar> \<le> b"
proof -
  have a: "a = b * (a div b) + a mod b" "0 \<le> a mod b" "a mod b < b"
    using assms by auto
  consider (down) "round_half_even a b = a div b" "2 * (a mod b) \<le> b"
    | (up) "round_half_even a b = a div b + 1" "b \<le> 2 * (a mod b)"
    by (cases "2 * (a mod b)" b rule: linorder_cases; cases "even (a div b)")
      (simp_all add: round_half_even_def Let_def)
  then show ?thesis
  proof cases
    case down
    have "b * (a div b) - a = - (a mod b)" using a(1) by linarith
    with down(1) have eq: "b * round_half_even a b - a = - (a mod b)" by (simp only:)
    show ?thesis unfolding eq using down(2) a(2) by simp
  next
    case up
    have "b * (a div b + 1) - a = b - a mod b" using a(1) by (simp only: distrib_left)
    with up(1) have eq: "b * round_half_even a b - a = b - a mod b" by (simp only:)
    show ?thesis unfolding eq using up(2) a(3) by simp
  qed
qed

lemma round_half_even_exact [simp]: "0 < b \<Longrightarrow> round_half_even (b * q) b = q"
  by (auto simp: round_half_even_def)

lemma round_half_even_0 [simp]: "0 < b \<Longrightarrow> round_half_even 0 b = 0"
  by (auto simp: round_half_even_def Let_def)

lemma round_half_even_mono:
  assumes "0 < b" and "a \<le> a'"
  shows "round_half_even a b \<le> round_half_even a' b"
proof (cases "a div b = a' div b")
  case True
  have "a mod b \<le> a' mod b"
    using assms True by (simp add: minus_div_mult_eq_mod [symmetric])
  with True show ?thesis by (auto simp: round_half_even_def Let_def)
next
  case False
  have "a div b \<le> a' div b"
    using assms by (simp add: zdiv_mono1)
  with False have "a div b + 1 \<le> a' div b" by simp
  then show ?thesis by (auto simp: round_half_even_def Let_def)
qed

lemma round_half_even_nonneg: "0 < b \<Longrightarrow> 0 \<le> a \<Longrightarrow> 0 \<le> round_half_even a b"
  using round_half_even_mono [of b 0 a] by simp

section \<open>Integer square root\<close>

function isqrt :: "int \<Rightarrow> int" where
  "isqrt n =
     (if n \<le> 0 then 0
      else let r = 2 * isqrt (n div 4) in if (r + 1) * (r + 1) \<le> n then r + 1 else r)"
  by pat_completeness auto
termination
  by (relation "measure nat") auto

declare isqrt.simps [simp del]

lemma isqrt_nonneg: "0 \<le> isqrt n"
proof (induction n rule: isqrt.induct)
  case (1 n)
  then show ?case by (auto simp: isqrt.simps [of n] Let_def)
qed

lemma isqrt_correct:
  "0 \<le> n \<Longrightarrow> isqrt n * isqrt n \<le> n \<and> n < (isqrt n + 1) * (isqrt n + 1)"
proof (induction n rule: isqrt.induct)
  case (1 n)
  show ?case
  proof (cases "n = 0")
    case False
    define q where "q = isqrt (n div 4)"
    have q: "q * q \<le> n div 4" "n div 4 < (q + 1) * (q + 1)"
      using 1 False unfolding q_def by auto
    have "4 * (q * q) \<le> n" using q(1) by linarith
    moreover have "n < 4 * ((q + 1) * (q + 1))" using q(2) by linarith
    ultimately show ?thesis
      using False "1.prems"
      by (auto simp: isqrt.simps [of n] Let_def q_def [symmetric] algebra_simps)
  qed (simp add: isqrt.simps)
qed

section \<open>Binary64\<close>

type_synonym float64 = "int \<times> int"

definition scale2 :: "int \<Rightarrow> int \<Rightarrow> int \<times> int" where
  \<comment> \<open>\<open>p * 2 ^ e\<close> as a fraction\<close>
  "scale2 p e = (if 0 \<le> e then (p * 2 ^ nat e, 1) else (p, 2 ^ nat (- e)))"

definition f64_of_frac :: "int \<Rightarrow> int \<Rightarrow> float64" where
  \<comment> \<open>\<open>p / q\<close> for \<open>0 \<le> p\<close> and \<open>0 < q\<close>, rounded to 53 bits\<close>
  "f64_of_frac p q =
     (if p = 0 then (0, 0)
      else let e0 = bitlen p - bitlen q - 53;
               (a0, b0) = scale2 p (- e0);
               e = (if 2 ^ 53 * (b0 * q) \<le> a0 then e0 + 1 else e0);
               (a, b) = scale2 p (- e)
           in (round_half_even a (b * q), e))"

definition f64_frac :: "float64 \<Rightarrow> int \<times> int" where
  "f64_frac x = scale2 (fst x) (snd x)"

definition f64_add :: "float64 \<Rightarrow> float64 \<Rightarrow> float64" where
  "f64_add x y =
     (let (a, b) = f64_frac x; (c, d) = f64_frac y in f64_of_frac (a * d + c * b) (b * d))"

definition f64_div :: "float64 \<Rightarrow> float64 \<Rightarrow> float64" where
  "f64_div x y =
     (let (a, b) = f64_frac x; (c, d) = f64_frac y in f64_of_frac (a * d) (b * c))"

definition f64_trunc :: "float64 \<Rightarrow> int" where
  "f64_trunc x = (let (a, b) = f64_frac x in a div b)"

text \<open>
  \<open>math.Sqrt\<close>: an integer square root with more than 55 bits and a sticky bit for the rest,
  rounded once.
\<close>

definition f64_sqrt :: "float64 \<Rightarrow> float64" where
  "f64_sqrt x =
     (let m = fst x; e = snd x;
          s = (if even e then 120 else 121);
          M = m * 2 ^ s;
          r = isqrt M;
          sticky = (if r * r = M then 0 else 1);
          (a, b) = scale2 (2 * r + sticky) ((e - int s) div 2)
      in f64_of_frac a (2 * b))"

text \<open>\<open>fmt.Sprintf("%f")\<close> keeps six decimals: the value is returned in units of \<open>10^-6\<close>.\<close>

definition f64_fixed6 :: "float64 \<Rightarrow> int" where
  "f64_fixed6 x = (let (a, b) = f64_frac x in round_half_even (a * 10 ^ 6) b)"

lemma scale2_pos: "0 < snd (scale2 p e)"
  by (simp add: scale2_def)

lemma scale2_nonneg: "0 \<le> p \<Longrightarrow> 0 \<le> fst (scale2 p e)"
  by (simp add: scale2_def)

lemma f64_of_frac_nonneg: "0 \<le> p \<Longrightarrow> 0 < q \<Longrightarrow> 0 \<le> fst (f64_of_frac p q)"
  unfolding f64_of_frac_def Let_def case_prod_beta
  by (auto intro!: round_half_even_nonneg mult_pos_pos scale2_nonneg scale2_pos)

lemma f64_fixed6_nonneg: "0 \<le> fst x \<Longrightarrow> 0 \<le> f64_fixed6 x"
  unfolding f64_fixed6_def f64_frac_def Let_def case_prod_beta
  by (auto intro!: round_half_even_nonneg mult_nonneg_nonneg scale2_nonneg scale2_pos)

lemma f64_sqrt_nonneg: "0 \<le> fst (f64_sqrt x)"
  unfolding f64_sqrt_def Let_def case_prod_beta
  by (intro f64_of_frac_nonneg scale2_nonneg) (auto simp: scale2_pos isqrt_nonneg)

lemma f64_trunc_nonneg: "0 \<le> fst x \<Longrightarrow> 0 \<le> f64_trunc x"
  unfolding f64_trunc_def f64_frac_def Let_def case_prod_beta
  by (simp add: scale2_nonneg scale2_pos less_imp_le pos_imp_zdiv_nonneg_iff)

end
