(* ===== verification/Store.thy ===== *)
theory Store
  imports Prelude
begin

text \<open>
  The typed stores of the keepers (\<open>collections.Map\<close>, a raw \<open>KVStore\<close>) and Go maps are both
  association lists kept in ascending key order: \<open>Walk\<close> and the store iterators visit keys in
  that order. \<open>Set\<close>, \<open>Get\<close>, \<open>Has\<close>, \<open>Remove\<close> and \<open>Clear\<close> on such a store fail only through
  the lookup of a missing key (\<open>ErrNotFound\<close>). A \<open>range\<close> over a Go map has no fixed order:
  where the order could matter the model takes it as an argument.
\<close>

type_synonym ('k, 'v) kv = "('k \<times> 'v) list"

abbreviation kv_get :: "('k, 'v) kv \<Rightarrow> 'k \<Rightarrow> 'v option" where
  "kv_get \<equiv> map_of"

abbreviation kv_keys :: "('k, 'v) kv \<Rightarrow> 'k list" where
  "kv_keys \<equiv> map fst"

fun kv_set :: "'k::linorder \<Rightarrow> 'v \<Rightarrow> ('k, 'v) kv \<Rightarrow> ('k, 'v) kv" where
  "kv_set k v [] = [(k, v)]"
| "kv_set k v (p # m) =
     (if k < fst p then (k, v) # p # m
      else if k = fst p then (k, v) # m
      else p # kv_set k v m)"

definition kv_remove :: "'k \<Rightarrow> ('k, 'v) kv \<Rightarrow> ('k, 'v) kv" where
  "kv_remove k m = filter (\<lambda>p. fst p \<noteq> k) m"

definition kv_has :: "('k, 'v) kv \<Rightarrow> 'k \<Rightarrow> bool" where
  "kv_has m k = (kv_get m k \<noteq> None)"

definition kv_ok :: "('k::linorder, 'v) kv \<Rightarrow> bool" where
  "kv_ok m = sorted_wrt (<) (map fst m)"

lemma kv_get_set [simp, kv_simps]: "kv_get (kv_set k v m) = (kv_get m)(k \<mapsto> v)"
  by (induction m) (auto simp: fun_eq_iff)

lemma kv_get_remove [simp, kv_simps]: "kv_get (kv_remove k m) = (kv_get m)(k := None)"
  by (induction m) (auto simp: kv_remove_def fun_eq_iff)

lemma keys_set_kv_set [simp]: "fst ` set (kv_set k v m) = insert k (fst ` set m)"
  by (induction m) auto

lemma keys_set_kv_remove [simp]: "fst ` set (kv_remove k m) = fst ` set m - {k}"
  by (auto simp: kv_remove_def)

lemma set_kv_set_subset: "set (kv_set k v m) \<subseteq> insert (k, v) (set m)"
  by (induction m) auto

lemma set_kv_setD: "p \<in> set (kv_set k v m) \<Longrightarrow> p = (k, v) \<or> p \<in> set m"
  by (drule subsetD [OF set_kv_set_subset]) simp

lemma kv_set_all: "P (k, v) \<Longrightarrow> \<forall>p \<in> set m. P p \<Longrightarrow> \<forall>p \<in> set (kv_set k v m). P p"
  by (auto dest!: set_kv_setD)

lemma set_kv_remove_subset: "set (kv_remove k m) \<subseteq> set m"
  by (auto simp: kv_remove_def)

lemma kv_get_None_iff: "kv_get m k = None \<longleftrightarrow> k \<notin> fst ` set m"
  by (rule map_of_eq_None_iff)

lemma kv_has_iff: "kv_has m k \<longleftrightarrow> k \<in> fst ` set m"
  by (simp add: kv_has_def map_of_eq_None_iff)

lemma kv_ok_Nil [simp]: "kv_ok []"
  by (simp add: kv_ok_def)

lemma kv_ok_Cons: "kv_ok (p # m) \<longleftrightarrow> (\<forall>q \<in> set m. fst p < fst q) \<and> kv_ok m"
  by (auto simp: kv_ok_def)

lemma kv_ok_set [simp]: "kv_ok m \<Longrightarrow> kv_ok (kv_set k v m)"
proof (induction m)
  case Nil
  then show ?case by (simp add: kv_ok_def)
next
  case (Cons p m)
  have "\<And>q. q \<in> set (kv_set k v m) \<Longrightarrow> fst q = k \<or> fst q \<in> fst ` set m"
    using keys_set_kv_set [of k v m] by blast
  with Cons show ?case by (fastforce simp: kv_ok_Cons)
qed

lemma kv_ok_filter [simp]: "kv_ok m \<Longrightarrow> kv_ok (filter P m)"
  unfolding kv_ok_def by (induction m) auto

lemma kv_ok_remove [simp]: "kv_ok m \<Longrightarrow> kv_ok (kv_remove k m)"
  by (simp add: kv_remove_def)

lemma kv_ok_distinct: "kv_ok m \<Longrightarrow> distinct (map fst m)"
  by (simp add: kv_ok_def strict_sorted_iff)

lemma kv_get_in: "kv_ok m \<Longrightarrow> (k, v) \<in> set m \<longleftrightarrow> kv_get m k = Some v"
  by (simp add: kv_ok_distinct)

lemma kv_get_filter:
  "kv_ok m \<Longrightarrow> kv_get (filter (\<lambda>p. P (fst p)) m) k = (if P k then kv_get m k else None)"
  by (induction m) (auto simp: kv_ok_Cons)

text \<open>A store is determined by what it returns: two stores with the same lookups are equal.\<close>

lemma kv_ext:
  assumes ok: "kv_ok m" "kv_ok m'" and eq: "kv_get m = kv_get m'"
  shows "m = m'"
proof (rule map_sorted_distinct_set_unique [where f = fst])
  have set_eq: "set m = set m'"
  proof (rule set_eqI)
    fix p
    show "p \<in> set m \<longleftrightarrow> p \<in> set m'"
      using ok eq by (cases p) (simp add: kv_get_in)
  qed
  then show "set m = set m'" .
  show "inj_on fst (set m \<union> set m')"
    using kv_ok_distinct [OF ok(1)] set_eq by (simp add: distinct_map)
qed (use ok in \<open>auto simp: kv_ok_def strict_sorted_iff\<close>)

section \<open>The store as an interface\<close>

text \<open>
  What the keepers rely on: a lookup sees the last write, a removal only its key, the keys are
  walked in ascending order and each once.
\<close>

locale ordered_store =
  fixes get :: "'m \<Rightarrow> 'k::linorder \<Rightarrow> 'v option"
    and put :: "'k \<Rightarrow> 'v \<Rightarrow> 'm \<Rightarrow> 'm"
    and del :: "'k \<Rightarrow> 'm \<Rightarrow> 'm"
    and walk :: "'m \<Rightarrow> ('k \<times> 'v) list"
    and inv :: "'m \<Rightarrow> bool"
  assumes get_put: "get (put k v m) = (get m)(k \<mapsto> v)"
    and get_del: "get (del k m) = (get m)(k := None)"
    and walk_iff: "inv m \<Longrightarrow> (k, v) \<in> set (walk m) \<longleftrightarrow> get m k = Some v"
    and walk_sorted: "inv m \<Longrightarrow> sorted_wrt (<) (map fst (walk m))"
    and inv_put: "inv m \<Longrightarrow> inv (put k v m)"
    and inv_del: "inv m \<Longrightarrow> inv (del k m)"
begin

lemma put_other: "k' \<noteq> k \<Longrightarrow> get (put k v m) k' = get m k'"
  by (simp add: get_put)

lemma put_same: "get (put k v m) k = Some v"
  by (simp add: get_put)

lemma del_same: "get (del k m) k = None"
  by (simp add: get_del)

lemma dels_get: "get (fold del ks m) k = (if k \<in> set ks then None else get m k)"
  by (induction ks arbitrary: m) (auto simp: get_del)

lemma dels_inv: "inv m \<Longrightarrow> inv (fold del ks m)"
  by (induction ks arbitrary: m) (auto simp: inv_del)

lemma puts_get:
  "get (fold (\<lambda>p. put (fst p) (snd p)) ps m) k =
     (case map_of (rev ps) k of None \<Rightarrow> get m k | Some v \<Rightarrow> Some v)"
  by (induction ps arbitrary: m)
    (auto simp: get_put map_add_def map_of_append split: option.splits)

lemma puts_inv: "inv m \<Longrightarrow> inv (fold (\<lambda>p. put (fst p) (snd p)) ps m)"
  by (induction ps arbitrary: m) (auto simp: inv_put)

lemma walk_distinct: "inv m \<Longrightarrow> distinct (map fst (walk m))"
  by (drule walk_sorted) (simp add: strict_sorted_iff)

lemma walk_get: "inv m \<Longrightarrow> map_of (walk m) = get m"
proof
  fix k
  assume i: "inv m"
  show "map_of (walk m) k = get m k"
    using walk_iff [OF i, of k] walk_distinct [OF i]
    by (metis map_of_eq_Some_iff not_None_eq)
qed

end

interpretation kvs: ordered_store kv_get kv_set kv_remove "\<lambda>m. m" kv_ok
  by unfold_locales (auto simp: kv_get_in kv_ok_def [symmetric])

lemmas kv_folds = kvs.dels_get kvs.dels_inv kvs.puts_get kvs.puts_inv

text \<open>Rebuilding a store from its own entries gives it back.\<close>

lemma kv_rebuild:
  assumes "kv_ok m"
  shows "fold (\<lambda>p. kv_set (fst p) (snd p)) m [] = m"
proof (rule kv_ext)
  show "kv_ok (fold (\<lambda>p. kv_set (fst p) (snd p)) m [])"
    by (rule kvs.puts_inv) simp
  have "kv_get (rev m) = kv_get m"
    using kv_ok_distinct [OF assms]
    by (subst map_of_inject_set) (simp_all add: rev_map [symmetric])
  then show "kv_get (fold (\<lambda>p. kv_set (fst p) (snd p)) m []) = kv_get m"
    by (auto simp: kvs.puts_get fun_eq_iff split: option.splits)
qed (rule assms)

end
