(* ===== verification/GoStrings.thy ===== *)
theory GoStrings
  imports Prelude "HOL-Library.Sublist"
begin

text \<open>
  The functions of Go's \<open>strings\<close> package the modules call. A Go string is its bytes, one
  \<^typ>\<open>char\<close> each.
\<close>

fun split_on :: "'a \<Rightarrow> 'a list \<Rightarrow> 'a list list" where
  \<comment> \<open>\<open>strings.Split\<close> with a one-byte separator\<close>
  "split_on c [] = [[]]"
| "split_on c (x # xs) =
     (if x = c then [] # split_on c xs
      else case split_on c xs of [] \<Rightarrow> [[x]] | y # ys \<Rightarrow> (x # y) # ys)"

fun join_with :: "'a \<Rightarrow> 'a list list \<Rightarrow> 'a list" where
  \<comment> \<open>\<open>strings.Join\<close>\<close>
  "join_with c [] = []"
| "join_with c [x] = x"
| "join_with c (x # y # ys) = x @ c # join_with c (y # ys)"

definition contains_char :: "string \<Rightarrow> char \<Rightarrow> bool" where
  "contains_char s c = List.member s c"

text \<open>
  \<open>strings.TrimSpace\<close>: the white space of \<open>unicode.IsSpace\<close>, in UTF-8.
\<close>

definition go_spaces :: "string list" where
  "go_spaces =
     map (\<lambda>n. [char_of n]) [9, 10, 11, 12, 13, 32 :: nat] @
     map (map char_of)
       ([[194, 133], [194, 160], [225, 154, 128], [226, 128, 168], [226, 128, 169],
         [226, 128, 175], [226, 129, 159], [227, 128, 128]] @
        map (\<lambda>n. [226, 128, n]) [128 ..< 139 :: nat])"

fun strip_one :: "string list \<Rightarrow> string \<Rightarrow> string option" where
  "strip_one [] s = None"
| "strip_one (p # ps) s = (if prefix p s then Some (drop (length p) s) else strip_one ps s)"

lemma strip_one_shorter:
  "strip_one ps s = Some t \<Longrightarrow> [] \<notin> set ps \<Longrightarrow> length t < length s"
proof (induction ps)
  case (Cons p ps)
  then show ?case by (cases "prefix p s") (auto simp: prefix_def)
qed simp

function trim_with :: "string list \<Rightarrow> string \<Rightarrow> string" where
  "trim_with ps s =
     (if [] \<in> set ps then s
      else case strip_one ps s of None \<Rightarrow> s | Some t \<Rightarrow> trim_with ps t)"
  by pat_completeness auto
termination
  by (relation "measure (\<lambda>(ps, s). length s)") (auto simp: strip_one_shorter)

declare trim_with.simps [simp del]

definition trim_space :: "string \<Rightarrow> string" where
  "trim_space s = rev (trim_with (map rev go_spaces) (rev (trim_with go_spaces s)))"

definition to_upper :: "string \<Rightarrow> string" where
  \<comment> \<open>\<open>strings.ToUpper\<close> on the ASCII letters, the only letters of a valid denom\<close>
  "to_upper s = map (\<lambda>c. if CHR ''a'' \<le> c \<and> c \<le> CHR ''z'' then char_of (of_char c - 32 :: nat) else c) s"

lemma split_on_nonempty [simp]: "split_on c s \<noteq> []"
  by (induction s) (auto split: list.splits)

lemma join_with_Cons: "ys \<noteq> [] \<Longrightarrow> join_with c (x # ys) = x @ c # join_with c ys"
  by (cases ys) auto

lemma join_split [simp]: "join_with c (split_on c s) = s"
proof (induction s)
  case (Cons x s)
  obtain y ys where ys: "split_on c s = y # ys"
    using split_on_nonempty by (metis neq_Nil_conv)
  with Cons.IH show ?case by (cases ys) auto
qed simp

lemma split_on_nosep: "c \<notin> set s \<Longrightarrow> split_on c s = [s]"
  by (induction s) auto

lemma split_on_append: "c \<notin> set s \<Longrightarrow> split_on c (s @ c # t) = s # split_on c t"
  by (induction s) auto

lemma split_join:
  "xs \<noteq> [] \<Longrightarrow> \<forall>x \<in> set xs. c \<notin> set x \<Longrightarrow> split_on c (join_with c xs) = xs"
proof (induction c xs rule: join_with.induct)
  case (3 c x y ys)
  then show ?case by (simp add: split_on_append)
qed (auto simp: split_on_nosep)

lemma split_on_parts: "x \<in> set (split_on c s) \<Longrightarrow> c \<notin> set x"
proof (induction s arbitrary: x)
  case (Cons a s)
  obtain y ys where ys: "split_on c s = y # ys"
    using split_on_nonempty by (metis neq_Nil_conv)
  with Cons show ?case by (auto split: if_splits)
qed simp

lemma length_split_on: "length (split_on c s) = Suc (length (filter (\<lambda>x. x = c) s))"
proof (induction s)
  case (Cons a s)
  then show ?case by (cases "split_on c s") auto
qed simp

lemma join_with_subset: "x \<in> set xs \<Longrightarrow> set x \<subseteq> set (join_with c xs)"
  by (induction c xs rule: join_with.induct) auto

lemma append_sep_inj:
  assumes "a @ c # s = b @ c # t" "c \<notin> set s" "c \<notin> set t"
  shows "a = b \<and> s = t"
proof -
  have "takeWhile (\<lambda>x. x \<noteq> c) (rev (a @ c # s)) = rev s"
    "takeWhile (\<lambda>x. x \<noteq> c) (rev (b @ c # t)) = rev t"
    using assms(2,3) by (auto simp: takeWhile_append)
  with assms(1) show ?thesis by simp
qed

end
