(* ===== verification/Sdk.thy ===== *)
theory Sdk
  imports Machine Store GoStrings
begin

text \<open>
  The interfaces of the code that is not in the repository: the decimals and integers of
  \<open>cosmossdk.io/math\<close>, addresses and coins of the Cosmos SDK, the bank and staking keepers.
  Each is a record of operations that the definitions of the modules take as an argument.
  What the proofs rely on is stated as a locale of laws; \<open>legacy_dec\<close> here and the instances
  of theory \<open>Chain\<close> satisfy the laws, so no hypothesis about outside code is empty.
\<close>

section \<open>Decimals\<close>

text \<open>
  A \<open>math.LegacyDec\<close> is a fixed-point number with 18 decimals: the model holds the number of
  \<open>10 ^ -18\<close> units, so comparisons are comparisons of integers. \<open>math.Int\<close> is an \<open>int\<close>. The
  arithmetic, with its rounding and its overflow panics, is outside code.
\<close>

type_synonym dec = int

definition dec_unit :: int where
  "dec_unit = 10 ^ 18"

definition dec_with_prec :: "int \<Rightarrow> nat \<Rightarrow> dec" where
  \<comment> \<open>\<open>LegacyNewDecWithPrec i p\<close> for \<open>p \<le> 18\<close>\<close>
  "dec_with_prec i p = i * 10 ^ (18 - p)"

record dec_ops =
  dec_Add :: "dec \<Rightarrow> dec \<Rightarrow> dec res"
  dec_Sub :: "dec \<Rightarrow> dec \<Rightarrow> dec res"
  dec_Mul :: "dec \<Rightarrow> dec \<Rightarrow> dec res"
  dec_Quo :: "dec \<Rightarrow> dec \<Rightarrow> dec res"
  dec_MulInt64 :: "dec \<Rightarrow> int \<Rightarrow> dec res"
  dec_QuoInt64 :: "dec \<Rightarrow> int \<Rightarrow> dec res"
  dec_RoundInt :: "dec \<Rightarrow> int res"
  dec_TruncateInt :: "dec \<Rightarrow> int res"
  dec_Power :: "dec \<Rightarrow> int \<Rightarrow> dec res"
  dec_OfInt :: "int \<Rightarrow> dec res"
  dec_PrecisionBits :: int

text \<open>
  The documented arithmetic: sums and integer products are exact, \<open>QuoInt64\<close> truncates, \<open>Mul\<close>
  rounds to the nearest unit and is monotone, division by zero panics, and nothing panics while
  the numbers stay inside 315 bits.
\<close>

locale decimals =
  fixes D :: dec_ops
  assumes add_exact: "dec_Add D a b = Inr c \<Longrightarrow> c = a + b"
    and add_total: "\<bar>a + b\<bar> < 2 ^ 315 \<Longrightarrow> dec_Add D a b = Inr (a + b)"
    and sub_exact: "dec_Sub D a b = Inr c \<Longrightarrow> c = a - b"
    and sub_total: "\<bar>a - b\<bar> < 2 ^ 315 \<Longrightarrow> dec_Sub D a b = Inr (a - b)"
    and mul_nearest: "dec_Mul D a b = Inr c \<Longrightarrow> 2 * \<bar>dec_unit * c - a * b\<bar> \<le> dec_unit"
    and mul_mono: "dec_Mul D a b = Inr c \<Longrightarrow> dec_Mul D a b' = Inr c' \<Longrightarrow> 0 \<le> a \<Longrightarrow> b \<le> b' \<Longrightarrow> c \<le> c'"
    and mul_sign: "dec_Mul D a b = Inr c \<Longrightarrow> 0 \<le> a \<Longrightarrow> 0 \<le> b \<Longrightarrow> 0 \<le> c"
    and mul_total: "\<bar>a * b\<bar> < 2 ^ 315 \<Longrightarrow> \<exists>c. dec_Mul D a b = Inr c"
    and quo_zero: "\<exists>m. dec_Quo D a 0 = Inl (Panic m)"
    and mulint_exact: "dec_MulInt64 D a i = Inr c \<Longrightarrow> c = a * i"
    and mulint_total: "\<bar>a * i\<bar> < 2 ^ 315 \<Longrightarrow> dec_MulInt64 D a i = Inr (a * i)"
    and quoint_trunc: "i \<noteq> 0 \<Longrightarrow> dec_QuoInt64 D a i = Inr (tdiv a i)"
begin

lemma add_iff: "\<bar>a + b\<bar> < 2 ^ 315 \<Longrightarrow> dec_Add D a b = Inr c \<longleftrightarrow> c = a + b"
  using add_total add_exact by blast

lemma mul_square_nonneg: "dec_Mul D a a = Inr c \<Longrightarrow> 0 \<le> c"
proof (rule ccontr)
  assume m: "dec_Mul D a a = Inr c" and "\<not> 0 \<le> c"
  then have "dec_unit * c \<le> - dec_unit" and "0 \<le> a * a" and "0 < dec_unit"
    by (auto simp: dec_unit_def)
  moreover have "2 * \<bar>dec_unit * c - a * a\<bar> \<le> dec_unit" using m by (rule mul_nearest)
  ultimately show False by arith
qed

lemma quoint_nonneg: "0 \<le> a \<Longrightarrow> 0 < i \<Longrightarrow> dec_QuoInt64 D a i = Inr (a div i)"
  by (simp add: quoint_trunc tdiv_nonneg)

end

text \<open>The arithmetic as documented, with banker's rounding; panics beyond 315 bits.\<close>

definition dec_chk :: "int \<Rightarrow> dec res" where
  "dec_chk x = (if \<bar>x\<bar> < 2 ^ 315 then Inr x else Inl (Panic ''Int overflow''))"

definition legacy_dec :: dec_ops where
  "legacy_dec =
     \<lparr>dec_Add = (\<lambda>a b. dec_chk (a + b)),
      dec_Sub = (\<lambda>a b. dec_chk (a - b)),
      dec_Mul = (\<lambda>a b. dec_chk (round_half_even (a * b) dec_unit)),
      dec_Quo = (\<lambda>a b. if b = 0 then Inl (Panic ''division by zero'')
                       else dec_chk (round_half_even (tdiv (a * dec_unit * dec_unit) b) dec_unit)),
      dec_MulInt64 = (\<lambda>a i. dec_chk (a * i)),
      dec_QuoInt64 = (\<lambda>a i. if i = 0 then Inl (Panic ''division by zero'') else Inr (tdiv a i)),
      dec_RoundInt = (\<lambda>a. Inr (round_half_even a dec_unit)),
      dec_TruncateInt = (\<lambda>a. Inr (tdiv a dec_unit)),
      dec_Power = (\<lambda>a n. dec_chk (fold (\<lambda>_ x. round_half_even (x * a) dec_unit) [0 ..< nat n] dec_unit)),
      dec_OfInt = (\<lambda>i. Inr (i * dec_unit)),
      dec_PrecisionBits = 60\<rparr>"

lemma dec_chk_Inr_iff: "dec_chk x = Inr y \<longleftrightarrow> \<bar>x\<bar> < 2 ^ 315 \<and> y = x"
  by (auto simp: dec_chk_def)

lemma round_half_even_small:
  assumes "\<bar>x\<bar> < 2 ^ 315"
  shows "\<bar>round_half_even x dec_unit\<bar> < 2 ^ 315"
proof -
  have u: "0 < dec_unit" "dec_unit \<ge> 2" by (simp_all add: dec_unit_def)
  have "2 * \<bar>dec_unit * round_half_even x dec_unit - x\<bar> \<le> dec_unit"
    using u(1) by (rule round_half_even_nearest)
  then have "2 * \<bar>dec_unit * round_half_even x dec_unit\<bar> \<le> 2 * \<bar>x\<bar> + dec_unit"
    by arith
  then have "2 * (dec_unit * \<bar>round_half_even x dec_unit\<bar>) \<le> 2 * \<bar>x\<bar> + dec_unit"
    using u(1) by (simp add: abs_mult)
  then have "dec_unit * \<bar>round_half_even x dec_unit\<bar> < dec_unit * 2 ^ 315"
    using assms by (simp add: dec_unit_def)
  then show ?thesis using u(1) by simp
qed

interpretation legacy: decimals legacy_dec
proof unfold_locales
  fix a b b' c c' :: int
  have u: "0 < dec_unit" by (simp add: dec_unit_def)
  show "dec_Mul legacy_dec a b = Inr c \<Longrightarrow> 2 * \<bar>dec_unit * c - a * b\<bar> \<le> dec_unit"
    by (auto simp: legacy_dec_def dec_chk_Inr_iff round_half_even_nearest [OF u])
  show "dec_Mul legacy_dec a b = Inr c \<Longrightarrow> dec_Mul legacy_dec a b' = Inr c' \<Longrightarrow>
      0 \<le> a \<Longrightarrow> b \<le> b' \<Longrightarrow> c \<le> c'"
    by (auto simp: legacy_dec_def dec_chk_Inr_iff intro!: round_half_even_mono [OF u] mult_left_mono)
  show "dec_Mul legacy_dec a b = Inr c \<Longrightarrow> 0 \<le> a \<Longrightarrow> 0 \<le> b \<Longrightarrow> 0 \<le> c"
    by (auto simp: legacy_dec_def dec_chk_Inr_iff intro!: round_half_even_nonneg [OF u])
  show "\<bar>a * b\<bar> < 2 ^ 315 \<Longrightarrow> \<exists>c. dec_Mul legacy_dec a b = Inr c"
    using round_half_even_small [of "a * b"] by (auto simp: legacy_dec_def dec_chk_Inr_iff)
qed (auto simp: legacy_dec_def dec_chk_def split: if_splits)

end
