(* ===== verification/Chain.thy ===== *)
theory Chain
  imports Sdk
begin

text \<open>
  Block context, addresses, coins, and the bank and staking keepers the modules call through
  their \<open>expected_keepers.go\<close> interfaces. All of it is outside code: records of operations over
  an abstract state, laws as locales, and the instances \<open>toy_codec\<close> and \<open>ledger_bank\<close> that
  satisfy them.
\<close>

section \<open>Block context\<close>

text \<open>
  A \<open>time.Time\<close> is the number of nanoseconds since its zero value (January 1 of the year 1), so
  \<open>IsZero\<close> is comparison with 0.
\<close>

record ctx =
  BlockHeight :: int
  BlockTime :: int
  IsCheckTx :: bool
  IsReCheckTx :: bool

definition time_Unix :: "int \<Rightarrow> int" where
  "time_Unix t = t div 10 ^ 9 - 62135596800"

definition time_UnixMilli :: "int \<Rightarrow> int" where
  "time_UnixMilli t = t div 10 ^ 6 - 62135596800000"

section \<open>Addresses\<close>

type_synonym addr = string

record addr_codec =
  AccAddressFromBech32 :: "string \<Rightarrow> addr res"
  AccAddressString :: "addr \<Rightarrow> string"
  ValAddressFromBech32 :: "string \<Rightarrow> addr res"
  ValAddressString :: "addr \<Rightarrow> string"

definition valid_addr :: "addr \<Rightarrow> bool" where
  "valid_addr a = (a \<noteq> [] \<and> length a \<le> 255)"

locale bech32 =
  fixes C :: addr_codec
  assumes acc_roundtrip: "valid_addr a \<Longrightarrow> AccAddressFromBech32 C (AccAddressString C a) = Inr a"
    and val_roundtrip: "valid_addr a \<Longrightarrow> ValAddressFromBech32 C (ValAddressString C a) = Inr a"
    and acc_valid: "AccAddressFromBech32 C s = Inr a \<Longrightarrow> valid_addr a"
    and val_valid: "ValAddressFromBech32 C s = Inr a \<Longrightarrow> valid_addr a"
begin

lemma acc_string_inj:
  "valid_addr a \<Longrightarrow> valid_addr b \<Longrightarrow> AccAddressString C a = AccAddressString C b \<Longrightarrow> a = b"
  using acc_roundtrip by (metis sum.inject(2))

lemma val_string_inj:
  "valid_addr a \<Longrightarrow> valid_addr b \<Longrightarrow> ValAddressString C a = ValAddressString C b \<Longrightarrow> a = b"
  using val_roundtrip by (metis sum.inject(2))

lemma acc_not_empty: "AccAddressFromBech32 C s = Inr a \<Longrightarrow> a \<noteq> []"
  using acc_valid by (auto simp: valid_addr_def)

end

fun toy_parse :: "char \<Rightarrow> string \<Rightarrow> addr res" where
  "toy_parse p [] = Inl (External ''empty address string'')"
| "toy_parse p (c # a) =
     (if c = p \<and> valid_addr a then Inr a else Inl (External ''decoding bech32 failed''))"

definition toy_codec :: addr_codec where
  "toy_codec =
     \<lparr>AccAddressFromBech32 = toy_parse (CHR ''k''), AccAddressString = (\<lambda>a. CHR ''k'' # a),
      ValAddressFromBech32 = toy_parse (CHR ''v''), ValAddressString = (\<lambda>a. CHR ''v'' # a)\<rparr>"

interpretation toy_addr: bech32 toy_codec
proof unfold_locales
  fix s a
  show "AccAddressFromBech32 toy_codec s = Inr a \<Longrightarrow> valid_addr a"
    by (cases s) (auto simp: toy_codec_def split: if_splits)
  show "ValAddressFromBech32 toy_codec s = Inr a \<Longrightarrow> valid_addr a"
    by (cases s) (auto simp: toy_codec_def split: if_splits)
qed (simp_all add: toy_codec_def)

section \<open>Coins\<close>

record coin =
  coin_Denom :: string
  coin_Amount :: int

type_synonym coins = "coin list"

definition amount_of :: "coins \<Rightarrow> string \<Rightarrow> int" where
  "amount_of cs d = sum_list (map coin_Amount (filter (\<lambda>c. coin_Denom c = d) cs))"

lemma amount_of_single [simp]:
  "amount_of [c] d = (if coin_Denom c = d then coin_Amount c else 0)"
  by (simp add: amount_of_def)

lemma amount_of_Nil [simp]: "amount_of [] d = 0"
  by (simp add: amount_of_def)

section \<open>Bank\<close>

record denom_unit =
  du_Denom :: string
  du_Exponent :: int
  du_Aliases :: "string list"

record metadata =
  md_Description :: string
  md_DenomUnits :: "denom_unit list"
  md_Base :: string
  md_Display :: string
  md_Name :: string
  md_Symbol :: string

record 'b bank_ops =
  bank_GetDenomMetaData :: "'b \<Rightarrow> string \<Rightarrow> metadata option"
  bank_SetDenomMetaData :: "metadata \<Rightarrow> 'b \<Rightarrow> 'b"
  bank_MintCoins :: "string \<Rightarrow> coins \<Rightarrow> 'b \<Rightarrow> 'b res"
  bank_BurnCoins :: "string \<Rightarrow> coins \<Rightarrow> 'b \<Rightarrow> 'b res"
  bank_SendCoins :: "addr \<Rightarrow> addr \<Rightarrow> coins \<Rightarrow> 'b \<Rightarrow> 'b res"
  bank_SendCoinsFromModuleToAccount :: "string \<Rightarrow> addr \<Rightarrow> coins \<Rightarrow> 'b \<Rightarrow> 'b res"
  bank_SendCoinsFromAccountToModule :: "addr \<Rightarrow> string \<Rightarrow> coins \<Rightarrow> 'b \<Rightarrow> 'b res"
  bank_SendCoinsFromModuleToModule :: "string \<Rightarrow> string \<Rightarrow> coins \<Rightarrow> 'b \<Rightarrow> 'b res"
  bank_GetBalance :: "'b \<Rightarrow> addr \<Rightarrow> string \<Rightarrow> int"
  bank_GetSupply :: "'b \<Rightarrow> string \<Rightarrow> int"
  bank_BlockedAddr :: "addr \<Rightarrow> bool"
  bank_ModuleAddr :: "string \<Rightarrow> addr"

definition moved :: "'b bank_ops \<Rightarrow> addr \<Rightarrow> addr \<Rightarrow> coins \<Rightarrow> 'b \<Rightarrow> 'b \<Rightarrow> bool" where
  "moved B f t cs b b' \<longleftrightarrow>
     (\<forall>a d. bank_GetBalance B b' a d =
        bank_GetBalance B b a d - (if a = f then amount_of cs d else 0)
          + (if a = t then amount_of cs d else 0)) \<and>
     (\<forall>d. bank_GetSupply B b' d = bank_GetSupply B b d) \<and>
     (\<forall>d. bank_GetDenomMetaData B b' d = bank_GetDenomMetaData B b d)"

definition issued :: "'b bank_ops \<Rightarrow> string \<Rightarrow> int \<Rightarrow> coins \<Rightarrow> 'b \<Rightarrow> 'b \<Rightarrow> bool" where
  \<comment> \<open>\<open>sg\<close> is 1 for minting and -1 for burning\<close>
  "issued B m sg cs b b' \<longleftrightarrow>
     (\<forall>a d. bank_GetBalance B b' a d =
        bank_GetBalance B b a d + (if a = bank_ModuleAddr B m then sg * amount_of cs d else 0)) \<and>
     (\<forall>d. bank_GetSupply B b' d = bank_GetSupply B b d + sg * amount_of cs d) \<and>
     (\<forall>d. bank_GetDenomMetaData B b' d = bank_GetDenomMetaData B b d)"

locale bank =
  fixes B :: "'b bank_ops"
  assumes get_set_meta: "bank_GetDenomMetaData B (bank_SetDenomMetaData B md b) d =
      (if d = md_Base md then Some md else bank_GetDenomMetaData B b d)"
    and bal_set_meta: "bank_GetBalance B (bank_SetDenomMetaData B md b) = bank_GetBalance B b"
    and supply_set_meta: "bank_GetSupply B (bank_SetDenomMetaData B md b) = bank_GetSupply B b"
    and mint: "bank_MintCoins B m cs b = Inr b' \<Longrightarrow> issued B m 1 cs b b'"
    and burn: "bank_BurnCoins B m cs b = Inr b' \<Longrightarrow> issued B m (- 1) cs b b'"
    and send: "bank_SendCoins B f t cs b = Inr b' \<Longrightarrow> moved B f t cs b b'"
    and send_m2a: "bank_SendCoinsFromModuleToAccount B m t cs b = Inr b' \<Longrightarrow>
      moved B (bank_ModuleAddr B m) t cs b b'"
    and send_a2m: "bank_SendCoinsFromAccountToModule B f m cs b = Inr b' \<Longrightarrow>
      moved B f (bank_ModuleAddr B m) cs b b'"
    and send_m2m: "bank_SendCoinsFromModuleToModule B m m' cs b = Inr b' \<Longrightarrow>
      moved B (bank_ModuleAddr B m) (bank_ModuleAddr B m') cs b b'"
begin

lemma mint_then_send:
  assumes "bank_MintCoins B m cs b = Inr b1"
    and "bank_SendCoinsFromModuleToAccount B m t cs b1 = Inr b2"
  shows "bank_GetBalance B b2 a d = bank_GetBalance B b a d + (if a = t then amount_of cs d else 0)"
    and "bank_GetSupply B b2 d = bank_GetSupply B b d + amount_of cs d"
    and "bank_GetDenomMetaData B b2 d = bank_GetDenomMetaData B b d"
  using mint [OF assms(1)] send_m2a [OF assms(2)] by (auto simp: issued_def moved_def)

lemma send_then_burn:
  assumes "bank_SendCoinsFromAccountToModule B f m cs b = Inr b1"
    and "bank_BurnCoins B m cs b1 = Inr b2"
  shows "bank_GetBalance B b2 a d = bank_GetBalance B b a d - (if a = f then amount_of cs d else 0)"
    and "bank_GetSupply B b2 d = bank_GetSupply B b d - amount_of cs d"
    and "bank_GetDenomMetaData B b2 d = bank_GetDenomMetaData B b d"
  using send_a2m [OF assms(1)] burn [OF assms(2)] by (auto simp: issued_def moved_def)

end

text \<open>A ledger that satisfies the laws: balances, supply and metadata as tables, and the nonces of
  the accounts, which the bank does not touch.\<close>

record ledger =
  lg_bal :: "addr \<Rightarrow> string \<Rightarrow> int"
  lg_supply :: "string \<Rightarrow> int"
  lg_meta :: "(string, metadata) kv"
  lg_nonce :: "addr \<Rightarrow> int"

definition lg_module :: "string \<Rightarrow> addr" where
  "lg_module m = ''module/'' @ m"

definition covered :: "(string \<Rightarrow> int) \<Rightarrow> coins \<Rightarrow> bool" where
  "covered bal cs = (\<forall>c \<in> set cs. 0 \<le> coin_Amount c \<and> amount_of cs (coin_Denom c) \<le> bal (coin_Denom c))"

definition lg_issue :: "int \<Rightarrow> string \<Rightarrow> coins \<Rightarrow> ledger \<Rightarrow> ledger res" where
  "lg_issue sg m cs b =
     (if sg = 1 \<or> covered (lg_bal b (lg_module m)) cs
      then Inr (b\<lparr>lg_bal := (\<lambda>a d. lg_bal b a d + (if a = lg_module m then sg * amount_of cs d else 0)),
                  lg_supply := (\<lambda>d. lg_supply b d + sg * amount_of cs d)\<rparr>)
      else Inl ErrInsufficientFunds)"

definition lg_send :: "addr \<Rightarrow> addr \<Rightarrow> coins \<Rightarrow> ledger \<Rightarrow> ledger res" where
  "lg_send f t cs b =
     (if covered (lg_bal b f) cs
      then Inr (b\<lparr>lg_bal := (\<lambda>a d. lg_bal b a d - (if a = f then amount_of cs d else 0)
                                 + (if a = t then amount_of cs d else 0))\<rparr>)
      else Inl ErrInsufficientFunds)"

definition ledger_bank :: "ledger bank_ops" where
  "ledger_bank =
     \<lparr>bank_GetDenomMetaData = (\<lambda>b. kv_get (lg_meta b)),
      bank_SetDenomMetaData = (\<lambda>md b. b\<lparr>lg_meta := kv_set (md_Base md) md (lg_meta b)\<rparr>),
      bank_MintCoins = lg_issue 1,
      bank_BurnCoins = lg_issue (- 1),
      bank_SendCoins = lg_send,
      bank_SendCoinsFromModuleToAccount = (\<lambda>m. lg_send (lg_module m)),
      bank_SendCoinsFromAccountToModule = (\<lambda>a m. lg_send a (lg_module m)),
      bank_SendCoinsFromModuleToModule = (\<lambda>m m'. lg_send (lg_module m) (lg_module m')),
      bank_GetBalance = lg_bal,
      bank_GetSupply = lg_supply,
      bank_BlockedAddr = (\<lambda>a. take 7 a = ''module/''),
      bank_ModuleAddr = lg_module\<rparr>"

definition empty_ledger :: ledger where
  "empty_ledger = \<lparr>lg_bal = (\<lambda>_ _. 0), lg_supply = (\<lambda>_. 0), lg_meta = [], lg_nonce = (\<lambda>_. 0)\<rparr>"

interpretation ledger: bank ledger_bank
  by unfold_locales
    (auto simp: ledger_bank_def issued_def moved_def lg_issue_def lg_send_def fun_eq_iff
      split: if_splits)

section \<open>Staking\<close>

record validator_i =
  IsBonded :: bool
  IsJailed :: bool
  GetOperator :: string
  GetConsensusPower :: "int \<Rightarrow> int"
  GetConsAddr :: "addr res"
  TokensFromSharesTruncated :: "dec \<Rightarrow> dec res"

text \<open>
  \<open>Validator\<close> may return a nil validator without an error; \<open>TotalBondedTokens\<close> also returns an
  error, which the caller drops, so only its value is here.
\<close>

record 's staking_ops =
  stk_Validator :: "'s \<Rightarrow> addr \<Rightarrow> validator_i option res"
  stk_ValidatorsPowerStore :: "'s \<Rightarrow> addr list res"
  stk_TotalBondedTokens :: "'s \<Rightarrow> int"
  stk_PowerReduction :: "'s \<Rightarrow> int"
  stk_TokensToConsensusPower :: "int \<Rightarrow> int \<Rightarrow> int"
  stk_Slash :: "addr \<Rightarrow> int \<Rightarrow> int \<Rightarrow> dec \<Rightarrow> 's \<Rightarrow> 's res"

definition deref :: "'a option \<Rightarrow> 'a res" where
  \<comment> \<open>a method call through a nil interface or pointer panics\<close>
  "deref x = the_or (Panic ''nil pointer dereference'') x"

lemma deref_simps [simp]: "deref (Some x) = Inr x" "deref None = Inl (Panic ''nil pointer dereference'')"
  by (simp_all add: deref_def)

lemma deref_Inr_iff [res_simps]: "deref x = Inr y \<longleftrightarrow> x = Some y"
  by (cases x) auto

text \<open>A staking keeper for the examples: a table of validators, and a log of slashes.\<close>

record toy_staking =
  ts_vals :: "(addr, validator_i) kv"
  ts_slashed :: "(addr \<times> int) list"

definition toy_validator :: "addr \<Rightarrow> int \<Rightarrow> validator_i" where
  "toy_validator a p =
     \<lparr>IsBonded = True, IsJailed = False, GetOperator = CHR ''v'' # a,
      GetConsensusPower = (\<lambda>r. p), GetConsAddr = Inr a, TokensFromSharesTruncated = (\<lambda>x. Inr x)\<rparr>"

definition toy_staking_ops :: "toy_staking staking_ops" where
  "toy_staking_ops =
     \<lparr>stk_Validator = (\<lambda>s a. Inr (kv_get (ts_vals s) a)),
      stk_ValidatorsPowerStore = (\<lambda>s. Inr (kv_keys (ts_vals s))),
      stk_TotalBondedTokens = (\<lambda>s. sum_list (map (\<lambda>p. GetConsensusPower (snd p) 1) (ts_vals s))),
      stk_PowerReduction = (\<lambda>_. 1),
      stk_TokensToConsensusPower = (\<lambda>t r. t div r),
      stk_Slash = (\<lambda>c h p f s. Inr (s\<lparr>ts_slashed := (c, p) # ts_slashed s\<rparr>))\<rparr>"

end
