(* ===== verification/OracleTypes.thy ===== *)
theory OracleTypes
  imports Chain
begin

text \<open>
  \<open>x/oracle/types\<close>: the stored data, the parameters with their validation, the exchange-rate
  strings of a vote and the messages with \<open>ValidateBasic\<close>; \<open>x/oracle/utils/period.go\<close>.
\<close>

section \<open>Stored data\<close>

record oracle_Denom =
  Name :: string

record oracle_Params =
  VotePeriod :: int
  VoteThreshold :: dec
  RewardBand :: dec
  Whitelist :: "oracle_Denom list"
  SlashFraction :: dec
  SlashWindow :: int
  MinValidPerWindow :: dec
  LookbackDuration :: int

record ExchangeRateTuple =
  tup_Denom :: string
  tup_ExchangeRate :: dec

record AggregateVote =
  ExchangeRateTuples :: "ExchangeRateTuple list"
  agg_Voter :: string

record OracleExchangeRate =
  ExchangeRate :: dec
  LastUpdate :: int
  LastUpdateTimestamp :: int

record PriceSnapshotItem =
  psi_Denom :: string
  psi_OracleExchangeRate :: OracleExchangeRate

record PriceSnapshot =
  SnapshotTimestamp :: int
  PriceSnapshotItems :: "PriceSnapshotItem list"

record OracleTwap =
  twap_Denom :: string
  Twap :: dec
  LookbackSeconds :: int

record VotePenaltyCounter =
  MissCount :: int
  AbstainCount :: int
  SuccessCount :: int

definition NewVotePenaltyCounter :: "int \<Rightarrow> int \<Rightarrow> int \<Rightarrow> VotePenaltyCounter" where
  "NewVotePenaltyCounter missCount abstainCount successCount =
     \<lparr>MissCount = missCount, AbstainCount = abstainCount, SuccessCount = successCount\<rparr>"

definition NewPriceSnapshot :: "int \<Rightarrow> PriceSnapshotItem list \<Rightarrow> PriceSnapshot" where
  "NewPriceSnapshot snapshotTimestamp priceSnapshotItems =
     \<lparr>SnapshotTimestamp = snapshotTimestamp, PriceSnapshotItems = priceSnapshotItems\<rparr>"

definition NewPriceSnapshotItem :: "string \<Rightarrow> OracleExchangeRate \<Rightarrow> PriceSnapshotItem" where
  "NewPriceSnapshotItem denom exchangeRate =
     \<lparr>psi_Denom = denom, psi_OracleExchangeRate = exchangeRate\<rparr>"

definition DenomList_Contains :: "oracle_Denom list \<Rightarrow> string \<Rightarrow> bool" where
  "DenomList_Contains dl denom = list_ex (\<lambda>d. Name d = denom) dl"

section \<open>Vote periods\<close>

definition BlocksPerMinute :: int where "BlocksPerMinute = 17"
definition BlocksPerHour :: int where "BlocksPerHour = BlocksPerMinute * 60"
definition BlocksPerDay :: int where "BlocksPerDay = BlocksPerHour * 24"

definition IsPeriodLastBlock :: "ctx \<Rightarrow> int \<Rightarrow> bool res" where
  "IsPeriodLastBlock c blocksPerPeriod =
     (let nextBlockHeight = u64 (i64 (BlockHeight c + 1))
      in if blocksPerPeriod = 0 then Inl (Panic ''integer divide by zero'')
         else Inr (nextBlockHeight mod blocksPerPeriod = 0))"

section \<open>Parameters\<close>

definition DefaultWhitelist :: "oracle_Denom list" where
  "DefaultWhitelist = map (\<lambda>n. \<lparr>Name = n\<rparr>)
     [''ubtc'', ''ueth'', ''usol'', ''uxrp'', ''ubnb'', ''uusdt'', ''uusdc'', ''utrx'']"

definition oracle_DefaultParams :: oracle_Params where
  "oracle_DefaultParams =
     \<lparr>VotePeriod = 2,
      VoteThreshold = dec_with_prec 667 3,
      RewardBand = dec_with_prec 2 2,
      Whitelist = DefaultWhitelist,
      SlashFraction = dec_with_prec 0 4,
      SlashWindow = BlocksPerDay * 2,
      MinValidPerWindow = dec_with_prec 5 2,
      LookbackDuration = 3600\<rparr>"

definition oracle_Params_Validate :: "oracle_Params \<Rightarrow> unit res" where
  "oracle_Params_Validate p =
     (if VotePeriod p = 0 then Inl (Errorf ''VotePeriod must be > 0'')
      else if VoteThreshold p \<le> dec_with_prec 33 2
      then Inl (Errorf ''VoteThreshold must be greater than 33 percent'')
      else if dec_unit < RewardBand p \<or> RewardBand p < 0
      then Inl (Errorf ''RewardBand must be between [0, 1]'')
      else if dec_unit < SlashFraction p \<or> SlashFraction p < 0
      then Inl (Errorf ''SlashFraction must be between [0, 1]'')
      else if SlashWindow p < VotePeriod p
      then Inl (Errorf ''SlashWindow must be greater than or equal with VotePeriod'')
      else if SlashWindow p mod VotePeriod p \<noteq> 0
      then Inl (Errorf ''SlashWindow must be divisible by VotePeriod'')
      else if dec_unit < MinValidPerWindow p \<or> MinValidPerWindow p < 0
      then Inl (Errorf ''MinValidPerWindow must be between [0, 1]'')
      else foldR (\<lambda>denom _. if Name denom = [] then Inl (Errorf ''Whitelist Denom must have name'')
                           else Inr ()) (Whitelist p) ())"

definition oracle_params_ok :: "oracle_Params \<Rightarrow> bool" where
  "oracle_params_ok p \<longleftrightarrow>
     VotePeriod p \<noteq> 0 \<and> dec_with_prec 33 2 < VoteThreshold p \<and>
     0 \<le> RewardBand p \<and> RewardBand p \<le> dec_unit \<and>
     0 \<le> SlashFraction p \<and> SlashFraction p \<le> dec_unit \<and>
     VotePeriod p \<le> SlashWindow p \<and> VotePeriod p dvd SlashWindow p \<and>
     0 \<le> MinValidPerWindow p \<and> MinValidPerWindow p \<le> dec_unit \<and>
     (\<forall>d \<in> set (Whitelist p). Name d \<noteq> [])"

lemma foldR_check_iff:
  "foldR (\<lambda>x _. if P x then Inl e else Inr ()) xs () = Inr () \<longleftrightarrow> (\<forall>x \<in> set xs. \<not> P x)"
  by (induction xs) auto

lemma oracle_Params_Validate_iff [simp]:
  "oracle_Params_Validate p = Inr () \<longleftrightarrow> oracle_params_ok p"
  by (auto simp: oracle_Params_Validate_def oracle_params_ok_def foldR_check_iff)

section \<open>Exchange-rate strings\<close>

text \<open>\<open>sdk.ParseDecCoin\<close> is outside code: an argument that yields the denom and the amount.\<close>

type_synonym parse_coin = "string \<Rightarrow> (string \<times> dec) res"

fun parse_tuples :: "parse_coin \<Rightarrow> string list \<Rightarrow> string list \<Rightarrow> ExchangeRateTuple list res" where
  "parse_tuples P seen [] = Inr []"
| "parse_tuples P seen (s # ss) =
     bindR (P s) (\<lambda>(denom, amount).
       if List.member seen denom then Inl (Errorf ''duplicate denom'')
       else bindR (parse_tuples P (denom # seen) ss) (\<lambda>rest.
         Inr (\<lparr>tup_Denom = denom, tup_ExchangeRate = amount\<rparr> # rest)))"

definition ParseExchangeRateTuples :: "parse_coin \<Rightarrow> string \<Rightarrow> ExchangeRateTuple list res" where
  "ParseExchangeRateTuples P s =
     (let exchangeRateStr = trim_space s
      in if exchangeRateStr = [] then Inr []
         else parse_tuples P [] (split_on (CHR '','') exchangeRateStr))"

definition NewAggregateExchangeRateVote ::
  "addr_codec \<Rightarrow> ExchangeRateTuple list \<Rightarrow> addr \<Rightarrow> AggregateVote res" where
  "NewAggregateExchangeRateVote C exchangeRateTuples voter =
     bindR (foldR (\<lambda>t _. if \<not> 0 < tup_ExchangeRate t
                         then Inl (Errorf ''exchange rate must be greater than zero'')
                         else Inr ()) exchangeRateTuples ())
       (\<lambda>_. Inr \<lparr>ExchangeRateTuples = exchangeRateTuples,
                 agg_Voter = ValAddressString C voter\<rparr>)"

lemma parse_tuples_spec:
  "parse_tuples P seen ss = Inr ts \<Longrightarrow>
     map (\<lambda>t. Inr (tup_Denom t, tup_ExchangeRate t)) ts = map P ss \<and>
     distinct (map tup_Denom ts) \<and> set (map tup_Denom ts) \<inter> set seen = {}"
proof (induction P seen ss arbitrary: ts rule: parse_tuples.induct)
  case (2 P seen s ss)
  from "2.prems" obtain d a rest where
      P: "P s = Inr (d, a)" and d: "d \<notin> set seen"
      and rest: "parse_tuples P (d # seen) ss = Inr rest"
      and ts: "ts = \<lparr>tup_Denom = d, tup_ExchangeRate = a\<rparr> # rest"
    by (auto simp: res_simps split: if_splits)
  from "2.IH" [OF P refl _ rest] d
  have IH: "map (\<lambda>t. Inr (tup_Denom t, tup_ExchangeRate t)) rest = map P ss"
      "distinct (map tup_Denom rest)" "set (map tup_Denom rest) \<inter> set (d # seen) = {}"
    by auto
  with ts P d show ?case by auto
qed auto

lemma NewAggregate_iff:
  "NewAggregateExchangeRateVote C ts v = Inr g \<longleftrightarrow>
     (\<forall>t \<in> set ts. 0 < tup_ExchangeRate t) \<and>
     g = \<lparr>ExchangeRateTuples = ts, agg_Voter = ValAddressString C v\<rparr>"
  unfolding NewAggregateExchangeRateVote_def
  using foldR_check_iff [of "\<lambda>t. \<not> 0 < tup_ExchangeRate t" _ ts]
  by (auto simp: res_simps)

section \<open>Messages\<close>

record MsgAggregateExchangeRateVote =
  agm_ExchangeRates :: string
  agm_Feeder :: string
  agm_Validator :: string

record MsgDelegateFeedConsent =
  dfc_ValidatorOwner :: string
  dfc_Delegate :: string

record oracle_MsgUpdateParams =
  oup_Authority :: string
  oup_Params :: oracle_Params

definition NewMsgAggregateExchangeRateVote ::
  "addr_codec \<Rightarrow> string \<Rightarrow> addr \<Rightarrow> addr \<Rightarrow> MsgAggregateExchangeRateVote" where
  "NewMsgAggregateExchangeRateVote C exchangeRate feeder validator =
     \<lparr>agm_ExchangeRates = exchangeRate, agm_Feeder = AccAddressString C feeder,
      agm_Validator = ValAddressString C validator\<rparr>"

definition NewMsgDelegateFeedConsent :: "addr_codec \<Rightarrow> addr \<Rightarrow> addr \<Rightarrow> MsgDelegateFeedConsent" where
  "NewMsgDelegateFeedConsent C validatorOwner feederAddress =
     \<lparr>dfc_ValidatorOwner = AccAddressString C validatorOwner,
      dfc_Delegate = AccAddressString C feederAddress\<rparr>"

definition MsgAggregate_ValidateBasic ::
  "dec_ops \<Rightarrow> addr_codec \<Rightarrow> parse_coin \<Rightarrow> MsgAggregateExchangeRateVote \<Rightarrow> unit res" where
  "MsgAggregate_ValidateBasic D C P msg =
     bindR (wrapR ErrInvalidAddress (AccAddressFromBech32 C (agm_Feeder msg))) (\<lambda>_.
     bindR (wrapR ErrInvalidAddress (ValAddressFromBech32 C (agm_Validator msg))) (\<lambda>_.
     if length (agm_ExchangeRates msg) = 0 then Inl ErrUnknownRequest
     else if 4096 < length (agm_ExchangeRates msg) then Inl ErrInvalidRequest
     else bindR (wrapR ErrInvalidCoins (ParseExchangeRateTuples P (agm_ExchangeRates msg))) (\<lambda>exchangeRates.
       foldR (\<lambda>rate _.
         if 255 + dec_PrecisionBits D < bitlen \<bar>tup_ExchangeRate rate\<bar>
         then Inl ErrInvalidExchangeRate else Inr ()) exchangeRates ())))"

definition MsgDelegate_ValidateBasic :: "addr_codec \<Rightarrow> MsgDelegateFeedConsent \<Rightarrow> unit res" where
  "MsgDelegate_ValidateBasic C msg =
     bindR (wrapR ErrInvalidAddress (AccAddressFromBech32 C (dfc_ValidatorOwner msg))) (\<lambda>_.
     bindR (wrapR ErrInvalidAddress (AccAddressFromBech32 C (dfc_Delegate msg))) (\<lambda>_.
     Inr ()))"

section \<open>Properties\<close>

text \<open>
  \<open>ParseExchangeRateTuples\<close> returns, in order, exactly what \<open>sdk.ParseDecCoin\<close> makes of the
  comma-separated pieces of the trimmed string, one tuple per piece, and never two tuples for
  one denom: a piece that repeats a denom makes the whole string an error.
\<close>

lemma ParseExchangeRateTuples_correct:
  assumes "ParseExchangeRateTuples P s = Inr ts" and "trim_space s \<noteq> []"
  shows "map (\<lambda>t. Inr (tup_Denom t, tup_ExchangeRate t)) ts = map P (split_on (CHR '','') (trim_space s))
    \<and> length ts = Suc (length (filter (\<lambda>c. c = CHR '','') (trim_space s)))
    \<and> distinct (map tup_Denom ts)"
proof -
  have p: "parse_tuples P [] (split_on (CHR '','') (trim_space s)) = Inr ts"
    using assms by (simp add: ParseExchangeRateTuples_def Let_def)
  note spec = parse_tuples_spec [OF p]
  then have "length ts = length (split_on (CHR '','') (trim_space s))"
    by (metis length_map)
  with spec show ?thesis by (simp add: length_split_on)
qed

lemma ParseExchangeRateTuples_correct_witness:
  "distinct (map tup_Denom [\<lparr>tup_Denom = ''1a'', tup_ExchangeRate = 7\<rparr>,
                            \<lparr>tup_Denom = ''2b'', tup_ExchangeRate = 7\<rparr>])"
proof -
  have t: "trim_space ''1a,2b'' = ''1a,2b''"
    by (simp add: trim_space_def trim_with.simps go_spaces_def char_of_def bit_numeral_rec)
  have h: "ParseExchangeRateTuples (\<lambda>x. Inr (x, 7)) ''1a,2b'' =
      Inr [\<lparr>tup_Denom = ''1a'', tup_ExchangeRate = 7\<rparr>, \<lparr>tup_Denom = ''2b'', tup_ExchangeRate = 7\<rparr>]"
    by (simp add: ParseExchangeRateTuples_def t)
  show ?thesis
    using ParseExchangeRateTuples_correct [OF h] by (simp add: t)
qed

text \<open>
  parameters that pass \<open>Params.Validate\<close> make both period checks of the begin and end
  blockers total (no division by zero at any height), and a block in which the begin blocker
  slashes (the last of a slash window) is always a block in which the end blocker tallies (the
  last of a vote period).
\<close>

lemma valid_params_periods:
  assumes "oracle_Params_Validate p = Inr ()" and "0 \<le> VotePeriod p"
  shows "\<exists>v w. IsPeriodLastBlock c (VotePeriod p) = Inr v \<and>
    IsPeriodLastBlock c (SlashWindow p) = Inr w \<and> (w \<longrightarrow> v)"
proof -
  have ok: "VotePeriod p \<noteq> 0" "VotePeriod p \<le> SlashWindow p" "VotePeriod p dvd SlashWindow p"
    using assms(1) by (simp_all add: oracle_params_ok_def)
  then have "SlashWindow p \<noteq> 0" using assms(2) by linarith
  with ok show ?thesis
    by (auto simp: IsPeriodLastBlock_def Let_def mod_eq_0_iff_dvd intro: dvd_trans)
qed

lemma valid_params_periods_witness:
  "\<exists>v. IsPeriodLastBlock \<lparr>BlockHeight = 48959, BlockTime = 0, IsCheckTx = False, IsReCheckTx = False\<rparr>
      (VotePeriod oracle_DefaultParams) = Inr v"
proof -
  have "oracle_Params_Validate oracle_DefaultParams = Inr ()" "0 \<le> VotePeriod oracle_DefaultParams"
    by (simp_all add: oracle_params_ok_def oracle_DefaultParams_def dec_with_prec_def
        dec_unit_def BlocksPerDay_def BlocksPerHour_def BlocksPerMinute_def DefaultWhitelist_def)
  from valid_params_periods [OF this] show ?thesis by blast
qed

end
