(* ===== verification/OracleBallot.thy ===== *)
theory OracleBallot
  imports OracleTypes "HOL-Library.Multiset"
begin

text \<open>
  \<open>x/oracle/types/ballot.go\<close>: claims, votes and the ballot of one denom with its weighted
  median, cross rates and standard deviation. \<open>sort.Sort\<close> is not stable in Go: it is an argument
  \<open>srt\<close>, of which the locale \<open>ballot_sort\<close> only says that it sorts by rate and permutes.
\<close>

section \<open>Claims and votes\<close>

record Claim =
  cl_Power :: int
  cl_Weight :: int
  WinCount :: int
  DidVote :: bool
  Recipient :: addr

definition NewClaim :: "int \<Rightarrow> int \<Rightarrow> int \<Rightarrow> bool \<Rightarrow> addr \<Rightarrow> Claim" where
  "NewClaim power' weight winCount didVote recipient =
     \<lparr>cl_Power = power', cl_Weight = power', WinCount = winCount, DidVote = didVote,
      Recipient = recipient\<rparr>"

record VoteForTally =
  vft_Denom :: string
  vft_ExchangeRate :: dec
  Voter :: addr
  Power :: int

definition NewVoteForTally :: "dec \<Rightarrow> string \<Rightarrow> addr \<Rightarrow> int \<Rightarrow> VoteForTally" where
  "NewVoteForTally rate denom voter power' =
     \<lparr>vft_Denom = denom, vft_ExchangeRate = rate, Voter = voter, Power = power'\<rparr>"

type_synonym ballot = "VoteForTally list"

section \<open>Operations of a ballot\<close>

definition ToMap :: "ballot \<Rightarrow> (addr, dec) kv" where
  "ToMap ex = fold (\<lambda>vote m. if 0 < vft_ExchangeRate vote
                            then kv_set (Voter vote) (vft_ExchangeRate vote) m else m) ex []"

definition ballot_Less :: "VoteForTally \<Rightarrow> VoteForTally \<Rightarrow> bool" where
  "ballot_Less v w = (vft_ExchangeRate v < vft_ExchangeRate w)"

definition ballot_Power :: "ballot \<Rightarrow> int" where
  "ballot_Power ex = foldl (\<lambda>totalPower vote. i64 (totalPower + Power vote)) 0 ex"

fun ballot_IsSorted :: "ballot \<Rightarrow> bool" where
  \<comment> \<open>\<open>sort.IsSorted\<close>: no element is less than the one before it\<close>
  "ballot_IsSorted [] = True"
| "ballot_IsSorted [v] = True"
| "ballot_IsSorted (v # w # vs) = (\<not> ballot_Less w v \<and> ballot_IsSorted (w # vs))"

fun median_loop :: "int \<Rightarrow> int \<Rightarrow> ballot \<Rightarrow> dec option" where
  "median_loop half pivot [] = None"
| "median_loop half pivot (vote # vs) =
     (let pivot' = i64 (pivot + Power vote)
      in if half \<le> pivot' then Some (vft_ExchangeRate vote) else median_loop half pivot' vs)"

definition WeightedMedianWithAssertion :: "ballot \<Rightarrow> dec res" where
  "WeightedMedianWithAssertion ex =
     (if \<not> ballot_IsSorted ex then Inl (Panic ''ballot must be sorted'')
      else case median_loop (tdiv (ballot_Power ex) 2) 0 ex of
        None \<Rightarrow> Inr 0
      | Some rate \<Rightarrow> Inr rate)"

definition cross_vote :: "dec_ops \<Rightarrow> (addr, dec) kv \<Rightarrow> VoteForTally \<Rightarrow> VoteForTally" where
  "cross_vote D bases vote =
     (case kv_get bases (Voter vote) of
        Some exchangeRateBase \<Rightarrow>
          if 0 < vft_ExchangeRate vote
          then (case dec_Quo D exchangeRateBase (vft_ExchangeRate vote) of
                  Inr r \<Rightarrow> vote\<lparr>vft_ExchangeRate := r\<rparr>
                | Inl _ \<Rightarrow> vote\<lparr>vft_ExchangeRate := 0, Power := 0\<rparr>)
          else vote\<lparr>vft_ExchangeRate := 0, Power := 0\<rparr>
      | None \<Rightarrow> vote\<lparr>vft_ExchangeRate := 0, Power := 0\<rparr>)"

definition ToCrossRate :: "dec_ops \<Rightarrow> ballot \<Rightarrow> (addr, dec) kv \<Rightarrow> ballot" where
  "ToCrossRate D ex bases = map (cross_vote D bases) ex"

definition ToCrossRateWithSort ::
  "dec_ops \<Rightarrow> (ballot \<Rightarrow> ballot) \<Rightarrow> ballot \<Rightarrow> (addr, dec) kv \<Rightarrow> ballot" where
  "ToCrossRateWithSort D srt ex bases = srt (ToCrossRate D ex bases)"

fun deviation_sum :: "dec_ops \<Rightarrow> dec \<Rightarrow> ballot \<Rightarrow> dec \<Rightarrow> dec res" where
  "deviation_sum D median [] acc = Inr acc"
| "deviation_sum D median (vote # vs) acc =
     bindR (dec_Sub D (vft_ExchangeRate vote) median) (\<lambda>deviation.
     bindR (dec_Mul D deviation deviation) (\<lambda>square.
     bindR (dec_Add D acc square) (deviation_sum D median vs)))"

text \<open>
  \<open>ParseFloat\<close>, \<open>math.Sqrt\<close> and \<open>"%f"\<close> on a variance. A negative variance (which no squares
  give) would make the float NaN, its decimal nil, and the first use of that a panic.
\<close>

definition sqrt_dec :: "dec \<Rightarrow> dec res" where
  "sqrt_dec variance =
     (if variance < 0 then Inl (Panic ''nil decimal'')
      else Inr (f64_fixed6 (f64_sqrt (f64_of_frac variance (10 ^ 18))) * 10 ^ 12))"

definition StandardDeviation :: "dec_ops \<Rightarrow> ballot \<Rightarrow> dec \<Rightarrow> dec res" where
  "StandardDeviation D ex median =
     (if length ex = 0 then Inr 0
      else case bindR (deviation_sum D median ex 0) (\<lambda>acc. dec_QuoInt64 D acc (int (length ex))) of
        Inl _ \<Rightarrow> Inr 0
      | Inr variance \<Rightarrow> sqrt_dec variance)"

section \<open>Sorting as an interface\<close>

locale ballot_sort =
  fixes srt :: "ballot \<Rightarrow> ballot"
  assumes srt_perm: "mset (srt ex) = mset ex"
    and srt_sorted: "sorted (map vft_ExchangeRate (srt ex))"
begin

lemma srt_set [simp]: "set (srt ex) = set ex"
  using srt_perm by (metis set_mset_mset)

lemma srt_length [simp]: "length (srt ex) = length ex"
  using srt_perm by (metis size_mset)

end

lemma IsSorted_iff: "ballot_IsSorted ex \<longleftrightarrow> sorted (map vft_ExchangeRate ex)"
proof (induction ex rule: ballot_IsSorted.induct)
  case (3 v w vs)
  then show ?case by (fastforce simp: ballot_Less_def not_less)
qed auto

definition isort_ballot :: "ballot \<Rightarrow> ballot" where
  \<comment> \<open>insertion sort, what \<open>sort.Sort\<close> runs on at most twelve elements\<close>
  "isort_ballot ex = sort_key vft_ExchangeRate ex"

interpretation isort: ballot_sort isort_ballot
  by unfold_locales (simp_all add: isort_ballot_def)

context ballot_sort
begin

lemma srt_IsSorted [simp]: "ballot_IsSorted (srt ex)"
  by (simp add: IsSorted_iff srt_sorted)

lemma cross_sorted: "ballot_IsSorted (ToCrossRateWithSort D srt ex bases)"
  by (simp add: ToCrossRateWithSort_def)

lemma cross_members:
  "set (ToCrossRateWithSort D srt ex bases) = cross_vote D bases ` set ex"
  by (simp add: ToCrossRateWithSort_def ToCrossRate_def)

end

section \<open>The weighted median\<close>

definition power_where :: "(dec \<Rightarrow> bool) \<Rightarrow> ballot \<Rightarrow> int" where
  "power_where Q ex = sum_list (map Power (filter (\<lambda>v. Q (vft_ExchangeRate v)) ex))"

definition total_power :: "ballot \<Rightarrow> int" where
  "total_power ex = sum_list (map Power ex)"

text \<open>A ballot whose powers cannot overflow: not negative, with a sum inside \<open>int64\<close>.\<close>

definition powers_ok :: "ballot \<Rightarrow> bool" where
  "powers_ok ex \<longleftrightarrow> (\<forall>v \<in> set ex. 0 \<le> Power v) \<and> total_power ex < 2 ^ 63"

lemma total_nonneg: "\<forall>v \<in> set ex. 0 \<le> Power v \<Longrightarrow> 0 \<le> total_power ex"
  unfolding total_power_def by (rule sum_list_nonneg) auto

lemma foldl_power:
  assumes "\<forall>v \<in> set ex. 0 \<le> Power v" "0 \<le> p" "p + total_power ex < 2 ^ 63"
  shows "foldl (\<lambda>t v. i64 (t + Power v)) p ex = p + total_power ex"
  using assms
proof (induction ex arbitrary: p)
  case (Cons v vs)
  have "0 \<le> total_power vs" using Cons.prems(1) by (auto intro: total_nonneg)
  moreover have "i64 (p + Power v) = p + Power v"
    using Cons.prems calculation by (auto simp: total_power_def intro!: i64_id)
  ultimately show ?case
    using Cons.prems Cons.IH [of "p + Power v"] by (simp add: total_power_def)
qed (simp add: total_power_def)

lemma ballot_Power_eq: "powers_ok ex \<Longrightarrow> ballot_Power ex = total_power ex"
  using foldl_power [of ex 0] by (simp add: ballot_Power_def powers_ok_def)

lemma median_loop_split:
  assumes "\<forall>v \<in> set ex. 0 \<le> Power v" "0 \<le> p" "p + total_power ex < 2 ^ 63"
    and "median_loop h p ex = Some r"
  shows "\<exists>xs v ys. ex = xs @ v # ys \<and> vft_ExchangeRate v = r \<and>
    h \<le> p + total_power xs + Power v \<and> (xs \<noteq> [] \<longrightarrow> p + total_power xs < h)"
  using assms
proof (induction ex arbitrary: p)
  case (Cons v vs)
  have nn: "0 \<le> total_power vs" using Cons.prems(1) by (auto intro: total_nonneg)
  then have i: "i64 (p + Power v) = p + Power v"
    using Cons.prems by (auto simp: total_power_def intro!: i64_id)
  show ?case
  proof (cases "h \<le> p + Power v")
    case True
    then have "vft_ExchangeRate v = r" using Cons.prems(4) i by simp
    with True show ?thesis
      by (intro exI [of _ "[]"] exI [of _ v] exI [of _ vs]) (simp add: total_power_def)
  next
    case False
    then have m: "median_loop h (p + Power v) vs = Some r" using Cons.prems(4) i by simp
    have "\<forall>v \<in> set vs. 0 \<le> Power v" "0 \<le> p + Power v" "p + Power v + total_power vs < 2 ^ 63"
      using Cons.prems by (auto simp: total_power_def)
    from Cons.IH [OF this m] obtain xs u ys where
        "vs = xs @ u # ys" "vft_ExchangeRate u = r"
        "h \<le> p + Power v + total_power xs + Power u"
        "xs \<noteq> [] \<longrightarrow> p + Power v + total_power xs < h"
      by blast
    with False show ?thesis
      by (intro exI [of _ "v # xs"] exI [of _ u] exI [of _ ys])
        (cases xs, auto simp: total_power_def)
  qed
qed simp

lemma median_loop_total:
  assumes "\<forall>v \<in> set ex. 0 \<le> Power v" "0 \<le> p" "p + total_power ex < 2 ^ 63"
    and "h \<le> p + total_power ex" "ex \<noteq> []"
  shows "\<exists>r. median_loop h p ex = Some r"
  using assms
proof (induction ex arbitrary: p)
  case (Cons v vs)
  have nn: "0 \<le> total_power vs" using Cons.prems(1) by (auto intro: total_nonneg)
  then have i: "i64 (p + Power v) = p + Power v"
    using Cons.prems by (auto simp: total_power_def intro!: i64_id)
  show ?case
  proof (cases "h \<le> p + Power v")
    case False
    have "vs \<noteq> []" using False Cons.prems(4) by (auto simp: total_power_def)
    moreover have "\<forall>v \<in> set vs. 0 \<le> Power v" "0 \<le> p + Power v"
        "p + Power v + total_power vs < 2 ^ 63" "h \<le> p + Power v + total_power vs"
      using Cons.prems by (auto simp: total_power_def)
    ultimately show ?thesis using Cons.IH [of "p + Power v"] False i by simp
  qed (simp add: i)
qed simp

lemma power_where_le_part:
  assumes "sorted (map vft_ExchangeRate (xs @ v # ys))" "\<forall>v \<in> set (xs @ v # ys). 0 \<le> Power v"
  shows "power_where (\<lambda>x. x < vft_ExchangeRate v) (xs @ v # ys) \<le> total_power xs"
    and "total_power xs + Power v \<le> power_where (\<lambda>x. x \<le> vft_ExchangeRate v) (xs @ v # ys)"
proof -
  let ?r = "vft_ExchangeRate v"
  have le: "\<forall>u \<in> set xs. vft_ExchangeRate u \<le> ?r" and ge: "\<forall>u \<in> set ys. ?r \<le> vft_ExchangeRate u"
    using assms(1) by (auto simp: sorted_append)
  have "filter (\<lambda>u. vft_ExchangeRate u < ?r) ys = []" using ge by (auto simp: filter_empty_conv)
  then have "power_where (\<lambda>x. x < ?r) (xs @ v # ys) = power_where (\<lambda>x. x < ?r) xs"
    by (simp add: power_where_def)
  also have "\<dots> \<le> total_power xs"
    using assms(2) unfolding power_where_def total_power_def
    by (induction xs) (auto simp: add_increasing)
  finally show "power_where (\<lambda>x. x < ?r) (xs @ v # ys) \<le> total_power xs" .
  have "filter (\<lambda>u. vft_ExchangeRate u \<le> ?r) xs = xs" using le by (auto simp: filter_id_conv)
  moreover have "0 \<le> sum_list (map Power (filter (\<lambda>u. vft_ExchangeRate u \<le> ?r) ys))"
    using assms(2) by (intro sum_list_nonneg) auto
  ultimately show "total_power xs + Power v \<le> power_where (\<lambda>x. x \<le> ?r) (xs @ v # ys)"
    by (simp add: power_where_def total_power_def)
qed

definition is_median :: "ballot \<Rightarrow> dec \<Rightarrow> bool" where
  "is_median ex m \<longleftrightarrow>
     m \<in> vft_ExchangeRate ` set ex \<and>
     total_power ex div 2 \<le> power_where (\<lambda>x. x \<le> m) ex \<and>
     ((\<exists>v \<in> set ex. vft_ExchangeRate v < m) \<longrightarrow> power_where (\<lambda>x. x < m) ex < total_power ex div 2)"

lemma median_is_median:
  assumes "powers_ok ex" "sorted (map vft_ExchangeRate ex)" "ex \<noteq> []"
  shows "\<exists>m. WeightedMedianWithAssertion ex = Inr m \<and> is_median ex m"
proof -
  let ?h = "total_power ex div 2"
  have nn: "\<forall>v \<in> set ex. 0 \<le> Power v" and t: "0 \<le> total_power ex" "total_power ex < 2 ^ 63"
    using assms(1) by (auto simp: powers_ok_def total_nonneg)
  have h: "tdiv (ballot_Power ex) 2 = ?h"
    using assms(1) t by (simp add: ballot_Power_eq tdiv_nonneg)
  have "?h \<le> total_power ex" using t by linarith
  then obtain m where m: "median_loop ?h 0 ex = Some m"
    using median_loop_total [OF nn, of 0 ?h] t assms(3) by auto
  then have "WeightedMedianWithAssertion ex = Inr m"
    using assms(2) h by (simp add: WeightedMedianWithAssertion_def IsSorted_iff)
  moreover have "is_median ex m"
  proof -
    obtain xs v ys where ex: "ex = xs @ v # ys" and v: "vft_ExchangeRate v = m"
        and ge: "?h \<le> total_power xs + Power v" and lt: "xs \<noteq> [] \<longrightarrow> total_power xs < ?h"
      using median_loop_split [OF nn, of 0 ?h m] t m by auto
    note part = power_where_le_part [of xs v ys]
    have p: "power_where (\<lambda>x. x < m) ex \<le> total_power xs"
        "total_power xs + Power v \<le> power_where (\<lambda>x. x \<le> m) ex"
      using part assms(2) nn unfolding ex v by blast+
    have "xs \<noteq> []" if "u \<in> set ex" "vft_ExchangeRate u < m" for u
      using that assms(2) v unfolding ex by (auto simp: sorted_append)
    with p ge lt v ex show ?thesis by (fastforce simp: is_median_def)
  qed
  ultimately show ?thesis by blast
qed

lemma is_median_unique:
  assumes "is_median ex m" "is_median ex m'" "\<forall>v \<in> set ex. 0 \<le> Power v"
  shows "m = m'"
proof (rule ccontr)
  have mono: "power_where (\<lambda>x. x \<le> a) ex \<le> power_where (\<lambda>x. x < b) ex" if "a < b" for a b
    using assms(3) that unfolding power_where_def
    by (induction ex) (auto intro: order_trans)
  assume "m \<noteq> m'"
  then consider "m < m'" | "m' < m" by linarith
  then show False
  proof cases
    case 1
    with assms mono [of m m'] show False by (force simp: is_median_def)
  next
    case 2
    with assms mono [of m' m] show False by (force simp: is_median_def)
  qed
qed

lemma total_power_alt: "total_power ex = sum_mset (image_mset Power (mset ex))"
  by (simp add: total_power_def sum_mset_sum_list [symmetric])

lemma power_where_alt:
  "power_where Q ex = sum_mset (image_mset Power (filter_mset (\<lambda>v. Q (vft_ExchangeRate v)) (mset ex)))"
  by (simp add: power_where_def sum_mset_sum_list [symmetric])

lemma total_power_mset: "mset ex = mset ey \<Longrightarrow> total_power ex = total_power ey"
  by (simp add: total_power_alt)

lemma power_where_mset: "mset ex = mset ey \<Longrightarrow> power_where Q ex = power_where Q ey"
  by (simp add: power_where_alt)

lemma powers_ok_mset: "mset ex = mset ey \<Longrightarrow> powers_ok ex = powers_ok ey"
  using total_power_mset [of ex ey] mset_eq_setD [of ex ey] by (simp add: powers_ok_def)

lemma is_median_mset: "mset ex = mset ey \<Longrightarrow> is_median ex m \<longleftrightarrow> is_median ey m"
  using total_power_mset [of ex ey] power_where_mset [of ex ey] mset_eq_setD [of ex ey]
  by (simp add: is_median_def)

lemma median_mset:
  assumes "powers_ok ex" "sorted (map vft_ExchangeRate ex)" "sorted (map vft_ExchangeRate ey)"
    and "mset ex = mset ey"
  shows "WeightedMedianWithAssertion ex = WeightedMedianWithAssertion ey"
proof (cases "ex = []")
  case False
  have ok: "powers_ok ey" "ey \<noteq> []" "\<forall>v \<in> set ey. 0 \<le> Power v"
    using assms False powers_ok_mset [OF assms(4)] by (auto simp: powers_ok_def)
  obtain m where m: "WeightedMedianWithAssertion ex = Inr m" "is_median ex m"
    using median_is_median [OF assms(1,2) False] by blast
  obtain m' where m': "WeightedMedianWithAssertion ey = Inr m'" "is_median ey m'"
    using median_is_median [OF ok(1) assms(3) ok(2)] by blast
  have "m = m'"
    using is_median_unique [of ey m m'] m(2) m'(2) is_median_mset [OF assms(4)] ok(3) by blast
  with m m' show ?thesis by simp
qed (use assms in simp)

section \<open>Cross rates\<close>

lemma cross_vote_frame [simp]:
  "Voter (cross_vote D bases v) = Voter v" "vft_Denom (cross_vote D bases v) = vft_Denom v"
  by (simp_all add: cross_vote_def split: option.splits sum.splits)

lemma cross_vote_Power:
  "Power (cross_vote D bases v) = 0 \<or> Power (cross_vote D bases v) = Power v"
  by (simp add: cross_vote_def split: option.splits sum.splits)

lemma cross_power_bound:
  assumes "\<forall>v \<in> set ex. 0 \<le> Power v"
  shows "(\<forall>v \<in> set (ToCrossRate D ex bases). 0 \<le> Power v) \<and>
    total_power (ToCrossRate D ex bases) \<le> total_power ex"
  using assms
proof (induction ex)
  case (Cons v vs)
  have "0 \<le> Power (cross_vote D bases v)" "Power (cross_vote D bases v) \<le> Power v"
    using cross_vote_Power [of D bases v] Cons.prems by auto
  with Cons show ?case by (simp add: ToCrossRate_def total_power_def)
qed (simp add: ToCrossRate_def total_power_def)

lemma cross_powers_ok: "powers_ok ex \<Longrightarrow> powers_ok (ToCrossRate D ex bases)"
  using cross_power_bound [of ex D bases] by (auto simp: powers_ok_def)

section \<open>Standard deviation\<close>

context decimals
begin

lemma deviation_sum_nonneg:
  "deviation_sum D m ex acc = Inr t \<Longrightarrow> 0 \<le> acc \<Longrightarrow> 0 \<le> t"
proof (induction ex arbitrary: acc)
  case (Cons v vs)
  then obtain d q a where "dec_Mul D d d = Inr q" "dec_Add D acc q = Inr a"
      and t: "deviation_sum D m vs a = Inr t"
    by (auto simp: res_simps)
  then have "0 \<le> a"
    using mul_square_nonneg add_exact Cons.prems(2) by fastforce
  with t show ?case by (rule Cons.IH)
qed simp

lemma sqrt_dec_nonneg: "0 \<le> v \<Longrightarrow> \<exists>d. sqrt_dec v = Inr d \<and> 0 \<le> d"
  by (simp add: sqrt_dec_def f64_fixed6_nonneg f64_sqrt_nonneg)

lemma StandardDeviation_total: "\<exists>d. StandardDeviation D ex m = Inr d \<and> 0 \<le> d"
proof (cases "bindR (deviation_sum D m ex 0) (\<lambda>acc. dec_QuoInt64 D acc (int (length ex)))")
  case (Inl e)
  then show ?thesis by (simp add: StandardDeviation_def)
next
  case (Inr v)
  show ?thesis
  proof (cases "ex = []")
    case False
    obtain t where t: "deviation_sum D m ex 0 = Inr t" "dec_QuoInt64 D t (int (length ex)) = Inr v"
      using Inr by (auto simp: res_simps)
    have "0 \<le> t" using t(1) by (rule deviation_sum_nonneg) simp
    then have "v = t div int (length ex)" using t(2) False by (simp add: quoint_nonneg)
    then have "0 \<le> v" using \<open>0 \<le> t\<close> False by (simp add: pos_imp_zdiv_nonneg_iff)
    then show ?thesis using Inr False sqrt_dec_nonneg [of v] by (simp add: StandardDeviation_def)
  qed (simp add: StandardDeviation_def)
qed

end

section \<open>Properties\<close>

text \<open>
  C36: on a sorted, non-empty ballot whose powers do not overflow, \<open>WeightedMedianWithAssertion\<close>
  returns the rate of one of the votes, such that the votes at or below it hold at least half of
  the total power rounded down to an integer, and, unless it is the lowest rate, the votes strictly
  below it hold less than that.  For an odd total the half that is reached is rounded down: of
  powers 1 and 2 the rate of power 1 wins, which is less than half of the power.
\<close>

theorem WeightedMedian_correct:
  assumes "powers_ok ex" and "ballot_IsSorted ex" and "ex \<noteq> []"
  shows "\<exists>m. WeightedMedianWithAssertion ex = Inr m \<and> m \<in> vft_ExchangeRate ` set ex \<and>
    total_power ex div 2 \<le> power_where (\<lambda>x. x \<le> m) ex \<and>
    ((\<exists>v \<in> set ex. vft_ExchangeRate v < m) \<longrightarrow> power_where (\<lambda>x. x < m) ex < total_power ex div 2)"
  using median_is_median [OF assms(1) _ assms(3)] assms(2) by (simp add: IsSorted_iff is_median_def)

definition sample_vote :: "dec \<Rightarrow> addr \<Rightarrow> int \<Rightarrow> VoteForTally" where
  "sample_vote r a p = NewVoteForTally r ''uatom'' a p"

theorem WeightedMedian_correct_witness:
  "WeightedMedianWithAssertion [sample_vote 3 ''a'' 4, sample_vote 5 ''b'' 9, sample_vote 8 ''c'' 2] = Inr 5
    \<and> (\<exists>m. WeightedMedianWithAssertion
          [sample_vote 3 ''a'' 4, sample_vote 5 ''b'' 9, sample_vote 8 ''c'' 2] = Inr m)"
proof
  show "WeightedMedianWithAssertion
      [sample_vote 3 ''a'' 4, sample_vote 5 ''b'' 9, sample_vote 8 ''c'' 2] = Inr 5"
    by code_simp
  have "powers_ok [sample_vote 3 ''a'' 4, sample_vote 5 ''b'' 9, sample_vote 8 ''c'' 2]"
      "ballot_IsSorted [sample_vote 3 ''a'' 4, sample_vote 5 ''b'' 9, sample_vote 8 ''c'' 2]"
    by code_simp+
  from WeightedMedian_correct [OF this]
  show "\<exists>m. WeightedMedianWithAssertion
      [sample_vote 3 ''a'' 4, sample_vote 5 ''b'' 9, sample_vote 8 ''c'' 2] = Inr m"
    by blast
qed

text \<open>
  Go's \<open>sort.Sort\<close> leaves the order of equal rates open, but the weighted median of a ballot
  does not depend on it: any two correct sorts of the same votes give the same price, so all
  validators compute the same one.
\<close>

lemma median_independent_of_sort:
  assumes "ballot_sort srt" and "ballot_sort srt'" and "powers_ok ex"
  shows "WeightedMedianWithAssertion (srt ex) = WeightedMedianWithAssertion (srt' ex)"
proof (rule median_mset)
  show "mset (srt ex) = mset (srt' ex)"
    using assms by (simp add: ballot_sort.srt_perm)
  show "powers_ok (srt ex)"
    using assms(3) powers_ok_mset [OF ballot_sort.srt_perm [OF assms(1)], of ex] by simp
qed (simp_all add: ballot_sort.srt_sorted assms)

definition rsort_ballot :: "ballot \<Rightarrow> ballot" where
  "rsort_ballot ex = sort_key vft_ExchangeRate (rev ex)"

lemma median_independent_of_sort_witness:
  "WeightedMedianWithAssertion (isort_ballot [sample_vote 5 ''a'' 4, sample_vote 5 ''b'' 9, sample_vote 3 ''c'' 7]) =
   WeightedMedianWithAssertion (rsort_ballot [sample_vote 5 ''a'' 4, sample_vote 5 ''b'' 9, sample_vote 3 ''c'' 7])"
proof (rule median_independent_of_sort [where srt = isort_ballot and srt' = rsort_ballot])
  show "ballot_sort isort_ballot" by (rule isort.ballot_sort_axioms)
  show "ballot_sort rsort_ballot" by unfold_locales (simp_all add: rsort_ballot_def)
  show "powers_ok [sample_vote 5 ''a'' 4, sample_vote 5 ''b'' 9, sample_vote 3 ''c'' 7]" by code_simp
qed

text \<open>
  \<open>ToCrossRate\<close> never panics, keeps one vote per voter in order, and treats as an abstention
  (rate and power zero) exactly the votes that have no positive reference rate of the same
  voter, are not positive themselves, or whose quotient overflows; every other vote keeps its
  power and gets reference rate divided by rate. The powers of the result cannot overflow when
  those of the ballot could not.
\<close>

lemma ToCrossRate_correct:
  assumes "powers_ok ex"
  shows "map Voter (ToCrossRate D ex bases) = map Voter ex \<and> powers_ok (ToCrossRate D ex bases) \<and>
    (\<forall>i < length ex. \<forall>b r.
       kv_get bases (Voter (ex ! i)) = Some b \<longrightarrow> 0 < vft_ExchangeRate (ex ! i) \<longrightarrow>
       dec_Quo D b (vft_ExchangeRate (ex ! i)) = Inr r \<longrightarrow>
       ToCrossRate D ex bases ! i = (ex ! i)\<lparr>vft_ExchangeRate := r\<rparr>) \<and>
    (\<forall>i < length ex.
       kv_get bases (Voter (ex ! i)) = None \<or> vft_ExchangeRate (ex ! i) \<le> 0 \<or>
       (\<exists>b e. kv_get bases (Voter (ex ! i)) = Some b \<and>
              dec_Quo D b (vft_ExchangeRate (ex ! i)) = Inl e) \<longrightarrow>
       ToCrossRate D ex bases ! i = (ex ! i)\<lparr>vft_ExchangeRate := 0, Power := 0\<rparr>)"
  using cross_powers_ok [OF assms]
  by (auto simp: ToCrossRate_def cross_vote_def split: option.splits sum.splits)

lemma ToCrossRate_correct_witness:
  "powers_ok (ToCrossRate legacy_dec [sample_vote 5 ''a'' 4, sample_vote 0 ''b'' 9] [(''a'', 10)])
   \<and> ToCrossRate legacy_dec [sample_vote 5 ''a'' 4, sample_vote 0 ''b'' 9] [(''a'', 10)]
     = [sample_vote (2 * 10 ^ 18) ''a'' 4, sample_vote 0 ''b'' 0]"
proof
  have "powers_ok [sample_vote 5 ''a'' 4, sample_vote 0 ''b'' 9]" by code_simp
  from ToCrossRate_correct [OF this]
  show "powers_ok (ToCrossRate legacy_dec [sample_vote 5 ''a'' 4, sample_vote 0 ''b'' 9] [(''a'', 10)])"
    by blast
  show "ToCrossRate legacy_dec [sample_vote 5 ''a'' 4, sample_vote 0 ''b'' 9] [(''a'', 10)]
     = [sample_vote (2 * 10 ^ 18) ''a'' 4, sample_vote 0 ''b'' 0]" by code_simp
qed

text \<open>
  \<open>StandardDeviation\<close> always returns a decimal that is not negative: every panic of the
  decimal arithmetic is recovered as zero, and the square root is never taken of a negative
  variance.
\<close>

lemma StandardDeviation_never_fails:
  assumes "decimals D"
  shows "\<exists>d. StandardDeviation D ex median = Inr d \<and> 0 \<le> d"
  using decimals.StandardDeviation_total [OF assms] .

lemma StandardDeviation_never_fails_witness:
  "\<exists>d. StandardDeviation legacy_dec [sample_vote (10 ^ 18) ''a'' 4, sample_vote (3 * 10 ^ 18) ''b'' 9]
     (2 * 10 ^ 18) = Inr d \<and> 0 \<le> d"
  by (rule StandardDeviation_never_fails) (rule legacy.decimals_axioms)

text \<open>
  The half of the total power is rounded down before it is compared, so a third of the power can
  decide the median; a single unit of power decides nothing at all.
\<close>

lemma median_below_half:
  "WeightedMedianWithAssertion [sample_vote 1 ''a'' 1, sample_vote 2 ''b'' 2] = Inr 1"
  "WeightedMedianWithAssertion [sample_vote 0 ''a'' 0, sample_vote 2 ''b'' 1] = Inr 0"
  by code_simp+

end
