(* ===== verification/OracleKeeper.thy ===== *)
theory OracleKeeper
  imports OracleBallot
begin

text \<open>
  \<open>x/oracle/keeper/keeper.go\<close> and \<open>vote_target.go\<close>: the keeper with its stores, and every
  operation on them: exchange rates, feeder delegation, penalty counters, price snapshots and
  time-weighted averages.
\<close>

section \<open>Keeper and state\<close>

datatype oracle_event =
    EvExchangeRateUpdate string dec
  | EvAggregateVote string string
  | EvFeedDelegate string
  | EvMessage string
  | EvEndSlashWindow addr int int int

record ('b, 's) oracle_Keeper =
  ok_dec :: dec_ops
  ok_codec :: addr_codec
  ok_bank :: "'b bank_ops"
  ok_StakingKeeper :: "'s staking_ops"
  ok_authority :: string

record ('b, 's) oracle_state =
  ork_Params :: "oracle_Params option"
  ork_ExchangeRate :: "(string, OracleExchangeRate) kv"
  ork_FeederDelegation :: "(addr, string) kv"
  ork_VotePenaltyCounter :: "(addr, VotePenaltyCounter) kv"
  ork_AggregateExchangeRateVote :: "(addr, AggregateVote) kv"
  ork_VoteTarget :: "(string, oracle_Denom) kv"
  ork_PriceSnapshot :: "(int, PriceSnapshot) kv"
  ork_SpamPreventionCounter :: "(addr, int) kv"
  ork_bank :: 'b
  ork_staking :: 's
  ork_events :: "oracle_event list"

definition oracle_NewKeeper ::
  "dec_ops \<Rightarrow> addr_codec \<Rightarrow> 'b bank_ops \<Rightarrow> 's staking_ops \<Rightarrow> addr option \<Rightarrow> string \<Rightarrow>
   ('b, 's) oracle_Keeper res" where
  \<comment> \<open>the module address, if set, is \<open>GetModuleAddress\<close>'s answer\<close>
  "oracle_NewKeeper D C B S moduleAddr auth =
     (if moduleAddr = None then Inl (Panic ''oracle module account has not been set'')
      else case AccAddressFromBech32 C auth of
        Inl _ \<Rightarrow> Inl (Panic ''invalid authority address'')
      | Inr _ \<Rightarrow> Inr \<lparr>ok_dec = D, ok_codec = C, ok_bank = B, ok_StakingKeeper = S,
                      ok_authority = auth\<rparr>)"

definition oracle_GetParams :: "('b, 's) oracle_state \<Rightarrow> oracle_Params res" where
  "oracle_GetParams st = the_or ErrNotFound (ork_Params st)"

definition oracle_emit :: "oracle_event \<Rightarrow> ('b, 's) oracle_state \<Rightarrow> ('b, 's) oracle_state" where
  "oracle_emit e st = st\<lparr>ork_events := ork_events st @ [e]\<rparr>"

section \<open>Exchange rates\<close>

definition SetBaseExchangeRateWithDefault ::
  "ctx \<Rightarrow> string \<Rightarrow> dec \<Rightarrow> ('b, 's) oracle_state \<Rightarrow> ('b, 's) oracle_state" where
  "SetBaseExchangeRateWithDefault c denom exchangeRate st =
     (let rate = \<lparr>ExchangeRate = exchangeRate, LastUpdate = BlockHeight c,
                  LastUpdateTimestamp = time_UnixMilli (BlockTime c)\<rparr>
      in st\<lparr>ork_ExchangeRate := kv_set denom rate (ork_ExchangeRate st)\<rparr>)"

definition SetBaseExchangeRateWithEvent ::
  "ctx \<Rightarrow> string \<Rightarrow> dec \<Rightarrow> ('b, 's) oracle_state \<Rightarrow> ('b, 's) oracle_state" where
  "SetBaseExchangeRateWithEvent c denom exchangeRate st =
     oracle_emit (EvExchangeRateUpdate denom exchangeRate)
       (SetBaseExchangeRateWithDefault c denom exchangeRate st)"

definition RemoveExcessFeeds :: "('b, 's) oracle_state \<Rightarrow> ('b, 's) oracle_state" where
  "RemoveExcessFeeds st =
     (let excessActives = map (\<lambda>p. (fst p, ())) (ork_ExchangeRate st);
          excessActives = fold kv_remove (kv_keys (ork_VoteTarget st)) excessActives;
          activesToClear = kv_keys excessActives
      in st\<lparr>ork_ExchangeRate := fold kv_remove activesToClear (ork_ExchangeRate st)\<rparr>)"

section \<open>Feeders\<close>

definition GetFeederDelegationOrDefault ::
  "('b, 's) oracle_Keeper \<Rightarrow> ('b, 's) oracle_state \<Rightarrow> addr \<Rightarrow> addr res" where
  "GetFeederDelegationOrDefault k st valAddr =
     (case kv_get (ork_FeederDelegation st) valAddr of
        None \<Rightarrow> Inr valAddr
      | Some accAddressString \<Rightarrow> AccAddressFromBech32 (ok_codec k) accAddressString)"

definition ValidateFeeder ::
  "('b, 's) oracle_Keeper \<Rightarrow> ('b, 's) oracle_state \<Rightarrow> addr \<Rightarrow> addr \<Rightarrow> unit res" where
  "ValidateFeeder k st feederAddr valAddr =
     bindR (if feederAddr \<noteq> valAddr
            then bindR (GetFeederDelegationOrDefault k st valAddr) (\<lambda>delegator.
                   if delegator \<noteq> feederAddr then Inl ErrNoVotingPermission else Inr ())
            else Inr ()) (\<lambda>_.
     bindR (wrapR ErrNoValidatorFound (stk_Validator (ok_StakingKeeper k) (ork_staking st) valAddr)) (\<lambda>v.
     if valAddr = [] then Inl ErrNoValidatorFound
     else bindR (deref v) (\<lambda>validator.
       if \<not> IsBonded validator then Inl ErrNoValidatorFound else Inr ())))"

section \<open>Penalty counters\<close>

definition GetVotePenaltyCounterOrDefault ::
  "('b, 's) oracle_state \<Rightarrow> addr \<Rightarrow> VotePenaltyCounter" where
  "GetVotePenaltyCounterOrDefault st operator =
     (case kv_get (ork_VotePenaltyCounter st) operator of
        None \<Rightarrow> \<lparr>MissCount = 0, AbstainCount = 0, SuccessCount = 0\<rparr>
      | Some votePenaltyCounter \<Rightarrow> votePenaltyCounter)"

definition set_counter ::
  "addr \<Rightarrow> VotePenaltyCounter \<Rightarrow> ('b, 's) oracle_state \<Rightarrow> ('b, 's) oracle_state" where
  "set_counter operator v st =
     st\<lparr>ork_VotePenaltyCounter := kv_set operator v (ork_VotePenaltyCounter st)\<rparr>"

definition IncrementMissCount :: "addr \<Rightarrow> ('b, 's) oracle_state \<Rightarrow> ('b, 's) oracle_state" where
  "IncrementMissCount operator st =
     (let cur = GetVotePenaltyCounterOrDefault st operator
      in set_counter operator (cur\<lparr>MissCount := u64 (MissCount cur + 1)\<rparr>) st)"

definition IncrementAbstainCount :: "addr \<Rightarrow> ('b, 's) oracle_state \<Rightarrow> ('b, 's) oracle_state" where
  "IncrementAbstainCount operator st =
     (let cur = GetVotePenaltyCounterOrDefault st operator
      in set_counter operator (cur\<lparr>AbstainCount := u64 (AbstainCount cur + 1)\<rparr>) st)"

definition IncrementSuccessCount :: "addr \<Rightarrow> ('b, 's) oracle_state \<Rightarrow> ('b, 's) oracle_state" where
  "IncrementSuccessCount operator st =
     (let cur = GetVotePenaltyCounterOrDefault st operator
      in set_counter operator (cur\<lparr>SuccessCount := u64 (SuccessCount cur + 1)\<rparr>) st)"

section \<open>Snapshots\<close>

definition GetPriceSnapshotOrDefault :: "('b, 's) oracle_state \<Rightarrow> int \<Rightarrow> PriceSnapshot" where
  "GetPriceSnapshotOrDefault st timestamp =
     (case kv_get (ork_PriceSnapshot st) timestamp of
        None \<Rightarrow> \<lparr>SnapshotTimestamp = 0, PriceSnapshotItems = []\<rparr>
      | Some priceSnapshot \<Rightarrow> priceSnapshot)"

definition snapshot_stale :: "ctx \<Rightarrow> int \<Rightarrow> PriceSnapshot \<Rightarrow> bool" where
  "snapshot_stale c lookBackDuration snapshot \<longleftrightarrow>
     i64 (SnapshotTimestamp snapshot + i64 lookBackDuration) < time_Unix (BlockTime c)"

definition AddPriceSnapshot ::
  "ctx \<Rightarrow> PriceSnapshot \<Rightarrow> ('b, 's) oracle_state \<Rightarrow> ('b, 's) oracle_state res" where
  "AddPriceSnapshot c snapshot st =
     bindR (oracle_GetParams st) (\<lambda>params.
     let lookBackDuration = LookbackDuration params;
         snapshots = kv_set (SnapshotTimestamp snapshot) snapshot (ork_PriceSnapshot st)
     in bindR (walkR (\<lambda>(_, s) timestampsToDelete.
               if snapshot_stale c lookBackDuration s
               then Inr (False, timestampsToDelete @ [SnapshotTimestamp s])
               else Inr (True, timestampsToDelete)) snapshots []) (\<lambda>timestampsToDelete.
        Inr (st\<lparr>ork_PriceSnapshot := fold kv_remove timestampsToDelete snapshots\<rparr>)))"

definition IteratePriceSnapshotsReverse ::
  "(PriceSnapshot \<Rightarrow> 'a \<Rightarrow> (bool \<times> 'a) res) \<Rightarrow> ('b, 's) oracle_state \<Rightarrow> 'a \<Rightarrow> 'a res" where
  "IteratePriceSnapshotsReverse handler st a =
     walkR (\<lambda>(_, snapshot). handler snapshot) (rev (ork_PriceSnapshot st)) a"

definition SetSpamPreventionCounterWithDefault ::
  "ctx \<Rightarrow> addr \<Rightarrow> ('b, 's) oracle_state \<Rightarrow> ('b, 's) oracle_state" where
  "SetSpamPreventionCounterWithDefault c valAddr st =
     st\<lparr>ork_SpamPreventionCounter := kv_set valAddr (BlockHeight c) (ork_SpamPreventionCounter st)\<rparr>"

definition GetVoteTargets :: "('b, 's) oracle_state \<Rightarrow> string list" where
  "GetVoteTargets st = kv_keys (ork_VoteTarget st)"

section \<open>Time-weighted average prices\<close>

definition ValidateLookBackSeconds :: "('b, 's) oracle_state \<Rightarrow> int \<Rightarrow> unit res" where
  "ValidateLookBackSeconds st lookBackSeconds =
     bindR (oracle_GetParams st) (\<lambda>params.
     if LookbackDuration params < lookBackSeconds \<or> lookBackSeconds = 0
     then Inl ErrInvalidTwapLookback else Inr ())"

type_synonym twap_acc = "(string, dec) kv \<times> (string, int) kv"

definition twap_item ::
  "dec_ops \<Rightarrow> (string, oracle_Denom) kv \<Rightarrow> int \<Rightarrow> PriceSnapshotItem \<Rightarrow> twap_acc \<Rightarrow> twap_acc res" where
  "twap_item D targets timeTraversed priceItem = (\<lambda>(twapByDenom, durationByDenom).
     let denom = psi_Denom priceItem
     in if \<not> kv_has targets denom then Inr (twapByDenom, durationByDenom)
        else
          let twapAverage = (case kv_get twapByDenom denom of None \<Rightarrow> 0 | Some x \<Rightarrow> x);
              denomDuration = (case kv_get twapByDenom denom of None \<Rightarrow> 0
                 | Some _ \<Rightarrow> (case kv_get durationByDenom denom of None \<Rightarrow> 0 | Some x \<Rightarrow> x));
              durationDifference = i64 (timeTraversed - denomDuration);
              exchangeRate = ExchangeRate (psi_OracleExchangeRate priceItem)
          in bindR (dec_MulInt64 D exchangeRate durationDifference) (\<lambda>weighted.
             bindR (dec_Add D twapAverage weighted) (\<lambda>twapAverage'.
             Inr (kv_set denom twapAverage' twapByDenom,
                  kv_set denom timeTraversed durationByDenom))))"

definition twap_snapshot ::
  "dec_ops \<Rightarrow> (string, oracle_Denom) kv \<Rightarrow> int \<Rightarrow> int \<Rightarrow> PriceSnapshot \<Rightarrow> twap_acc \<Rightarrow>
   (bool \<times> twap_acc) res" where
  "twap_snapshot D targets currentTime lookBackSeconds snapshot acc =
     (let start = i64 (currentTime - i64 lookBackSeconds);
          stop = (SnapshotTimestamp snapshot < start);
          snapshotTimestamp = (if stop then start else SnapshotTimestamp snapshot);
          timeTraversed = i64 (currentTime - snapshotTimestamp)
      in bindR (foldR (twap_item D targets timeTraversed) (PriceSnapshotItems snapshot) acc) (\<lambda>acc'.
         Inr (stop, acc')))"

definition twap_result :: "dec_ops \<Rightarrow> (string, int) kv \<Rightarrow> string \<times> dec \<Rightarrow> OracleTwap res" where
  "twap_result D durationByDenom = (\<lambda>(denomKey, denomTimeWeightedSum).
     let denomDuration = (case kv_get durationByDenom denomKey of None \<Rightarrow> 0 | Some x \<Rightarrow> x)
     in bindR (if denomDuration \<noteq> 0 then dec_QuoInt64 D denomTimeWeightedSum denomDuration else Inr 0)
          (\<lambda>denomTwap. Inr \<lparr>twap_Denom = denomKey, Twap = denomTwap,
                            LookbackSeconds = denomDuration\<rparr>))"

definition CalculateTwaps ::
  "dec_ops \<Rightarrow> ctx \<Rightarrow> ('b, 's) oracle_state \<Rightarrow> int \<Rightarrow> OracleTwap list res" where
  "CalculateTwaps D c st lookBackSeconds =
     (let currentTime = time_Unix (BlockTime c)
      in bindR (ValidateLookBackSeconds st lookBackSeconds) (\<lambda>_.
         let targetsMap = ork_VoteTarget st
         in bindR (IteratePriceSnapshotsReverse
                     (twap_snapshot D targetsMap currentTime lookBackSeconds) st ([], []))
              (\<lambda>(twapByDenom, durationByDenom).
            bindR (mapR (twap_result D durationByDenom) twapByDenom) (\<lambda>oracleTwaps.
            if length oracleTwaps = 0 then Inl ErrNoTwapData else Inr oracleTwaps))))"

section \<open>Lemmas on the keeper operations\<close>

text \<open>The stores and what they always satisfy.\<close>

definition oracle_stores_ok :: "('b, 's) oracle_state \<Rightarrow> bool" where
  "oracle_stores_ok st \<longleftrightarrow>
     kv_ok (ork_ExchangeRate st) \<and> kv_ok (ork_FeederDelegation st) \<and>
     kv_ok (ork_VotePenaltyCounter st) \<and> kv_ok (ork_AggregateExchangeRateVote st) \<and>
     kv_ok (ork_VoteTarget st) \<and> kv_ok (ork_PriceSnapshot st) \<and>
     kv_ok (ork_SpamPreventionCounter st) \<and>
     (\<forall>p \<in> set (ork_PriceSnapshot st). SnapshotTimestamp (snd p) = fst p)"

lemma RemoveExcessFeeds_get:
  "kv_get (ork_ExchangeRate (RemoveExcessFeeds st)) d =
     (if kv_has (ork_VoteTarget st) d then kv_get (ork_ExchangeRate st) d else None)"
proof -
  let ?ex = "fold kv_remove (kv_keys (ork_VoteTarget st)) (map (\<lambda>p. (fst p, ())) (ork_ExchangeRate st))"
  have "kv_get (map (\<lambda>p. (fst p, ())) m) d = (if d \<in> fst ` set m then Some () else None)"
    for m :: "(string, OracleExchangeRate) kv"
    by (induction m) auto
  then have "d \<in> set (kv_keys ?ex) \<longleftrightarrow>
      d \<notin> set (kv_keys (ork_VoteTarget st)) \<and> d \<in> fst ` set (ork_ExchangeRate st)"
    using kv_get_None_iff [of ?ex d] by (auto simp: kvs.dels_get split: if_splits)
  then show ?thesis
    by (auto simp: RemoveExcessFeeds_def Let_def kvs.dels_get kv_has_iff kv_get_None_iff)
qed

lemma RemoveExcessFeeds_ok [simp]: "oracle_stores_ok st \<Longrightarrow> oracle_stores_ok (RemoveExcessFeeds st)"
  by (simp add: oracle_stores_ok_def RemoveExcessFeeds_def Let_def kvs.dels_inv)

lemma fold_kv_remove_filter: "fold kv_remove ks m = filter (\<lambda>p. fst p \<notin> set ks) m"
  by (induction ks arbitrary: m) (auto simp: kv_remove_def intro!: filter_cong)

lemma walk_stale:
  "walkR (\<lambda>(_, s) acc. if stale s then Inr (False, acc @ [ts s]) else Inr (True, acc)) m acc =
     Inr (acc @ map (\<lambda>p. ts (snd p)) (takeWhile (\<lambda>p. stale (snd p)) m))"
  by (induction m arbitrary: acc) auto

lemma takeWhile_removed:
  assumes "kv_ok m" and "\<forall>p \<in> set m. ts (snd p) = fst p"
    and "\<And>p q. p \<in> set m \<Longrightarrow> q \<in> set m \<Longrightarrow> fst p < fst q \<Longrightarrow> stale (snd q) \<Longrightarrow> stale (snd p)"
  shows "fold kv_remove (map (\<lambda>p. ts (snd p)) (takeWhile (\<lambda>p. stale (snd p)) m)) m =
    filter (\<lambda>p. \<not> stale (snd p)) m"
proof -
  have "p \<in> set (takeWhile (\<lambda>p. stale (snd p)) m)" if "p \<in> set m" "stale (snd p)" for p
    using that assms(1,3)
  proof (induction m)
    case (Cons q m)
    show ?case
    proof (cases "p = q")
      case False
      then have "p \<in> set m" "fst q < fst p" using Cons.prems by (auto simp: kv_ok_Cons)
      moreover have "stale (snd q)"
        using Cons.prems(4) [of q p] calculation Cons.prems(2) by simp
      ultimately show ?thesis
        using Cons.IH Cons.prems by (auto simp: kv_ok_Cons)
    qed (use Cons.prems in simp)
  qed simp
  moreover have "stale (snd p)" if "p \<in> set (takeWhile (\<lambda>p. stale (snd p)) m)" for p
    using that by (rule set_takeWhileD [THEN conjunct2])
  moreover have "p \<in> set m" if "p \<in> set (takeWhile (\<lambda>p. stale (snd p)) m)" for p
    using that by (rule set_takeWhileD [THEN conjunct1])
  moreover have "p = q" if "p \<in> set m" "q \<in> set m" "fst p = fst q" for p q
    using that kv_ok_distinct [OF assms(1)] by (metis eq_key_imp_eq_value prod.collapse)
  ultimately have "(fst p \<notin> (\<lambda>p. ts (snd p)) ` set (takeWhile (\<lambda>p. stale (snd p)) m)) = (\<not> stale (snd p))"
    if "p \<in> set m" for p
    using that assms(2) by (smt (verit, best) image_iff)
  then show ?thesis
    unfolding fold_kv_remove_filter by (intro filter_cong) auto
qed

definition unix_ok :: "int \<Rightarrow> bool" where
  \<comment> \<open>a timestamp or duration far from the bounds of \<open>int64\<close>\<close>
  "unix_ok t \<longleftrightarrow> 0 \<le> t \<and> t < 2 ^ 62"

lemma AddPriceSnapshot_keeps_fresh:
  assumes ok: "oracle_stores_ok st" and p: "ork_Params st = Some p"
    and lb: "unix_ok (LookbackDuration p)" "unix_ok (SnapshotTimestamp snapshot)"
      "\<forall>q \<in> set (ork_PriceSnapshot st). unix_ok (fst q)"
  shows "AddPriceSnapshot c snapshot st =
    Inr (st\<lparr>ork_PriceSnapshot :=
      filter (\<lambda>q. time_Unix (BlockTime c) \<le> fst q + LookbackDuration p)
        (kv_set (SnapshotTimestamp snapshot) snapshot (ork_PriceSnapshot st))\<rparr>)"
proof -
  let ?m = "kv_set (SnapshotTimestamp snapshot) snapshot (ork_PriceSnapshot st)"
  let ?stale = "snapshot_stale c (LookbackDuration p)"
  have m: "kv_ok ?m" using ok by (simp add: oracle_stores_ok_def)
  have all: "\<forall>q \<in> set ?m. SnapshotTimestamp (snd q) = fst q \<and> unix_ok (fst q)"
    using ok lb by (intro kv_set_all) (auto simp: oracle_stores_ok_def)
  have stale: "?stale (snd q) \<longleftrightarrow> fst q + LookbackDuration p < time_Unix (BlockTime c)"
    if "q \<in> set ?m" for q
  proof -
    have "i64 (LookbackDuration p) = LookbackDuration p"
      using lb(1) by (auto simp: unix_ok_def intro!: i64_id)
    moreover have "i64 (fst q + LookbackDuration p) = fst q + LookbackDuration p"
      using lb(1) all that by (auto simp: unix_ok_def intro!: i64_id)
    ultimately show ?thesis using all that by (simp add: snapshot_stale_def)
  qed
  have "fold kv_remove (map (\<lambda>q. SnapshotTimestamp (snd q)) (takeWhile (\<lambda>q. ?stale (snd q)) ?m)) ?m =
      filter (\<lambda>q. \<not> ?stale (snd q)) ?m"
    by (rule takeWhile_removed [OF m]) (use all stale in auto)
  also have "\<dots> = filter (\<lambda>q. time_Unix (BlockTime c) \<le> fst q + LookbackDuration p) ?m"
    by (intro filter_cong) (auto simp: stale not_less)
  finally show ?thesis
    by (simp add: AddPriceSnapshot_def oracle_GetParams_def p Let_def walk_stale)
qed

lemma AddPriceSnapshot_ok:
  assumes "AddPriceSnapshot c snapshot st = Inr st'" and "oracle_stores_ok st"
  shows "oracle_stores_ok st'"
proof -
  let ?m = "kv_set (SnapshotTimestamp snapshot) snapshot (ork_PriceSnapshot st)"
  obtain ks where st': "st' = st\<lparr>ork_PriceSnapshot := fold kv_remove ks ?m\<rparr>"
    using assms(1) by (auto simp: AddPriceSnapshot_def Let_def res_simps)
  have "\<forall>q \<in> set ?m. SnapshotTimestamp (snd q) = fst q"
    using assms(2) by (intro kv_set_all) (auto simp: oracle_stores_ok_def)
  then show ?thesis
    using assms(2) by (auto simp: st' oracle_stores_ok_def kvs.dels_inv fold_kv_remove_filter)
qed

lemma ValidateFeeder_iff:
  "ValidateFeeder k st f v = Inr () \<longleftrightarrow>
     v \<noteq> [] \<and>
     (f = v \<or> (\<exists>s. kv_get (ork_FeederDelegation st) v = Some s \<and>
                   AccAddressFromBech32 (ok_codec k) s = Inr f)) \<and>
     (\<exists>val. stk_Validator (ok_StakingKeeper k) (ork_staking st) v = Inr (Some val) \<and> IsBonded val)"
  by (auto simp: ValidateFeeder_def GetFeederDelegationOrDefault_def res_simps
      split: option.splits if_splits)

section \<open>Bounds of the averages\<close>

text \<open>
  While snapshots are visited from the newest to the oldest, the sum of a denom is bounded by the
  lowest and the highest price seen times the duration covered so far.
\<close>

definition twap_inv :: "(string, oracle_Denom) kv \<Rightarrow> dec \<Rightarrow> dec \<Rightarrow> int \<Rightarrow> twap_acc \<Rightarrow> bool" where
  "twap_inv targets lo hi T acc \<longleftrightarrow>
     kv_ok (fst acc) \<and>
     (\<forall>d s. kv_get (fst acc) d = Some s \<longrightarrow>
        kv_has targets d \<and>
        (\<exists>t. kv_get (snd acc) d = Some t \<and> 0 \<le> t \<and> t \<le> T \<and> lo * t \<le> s \<and> s \<le> hi * t))"

definition snapshot_in :: "dec \<Rightarrow> dec \<Rightarrow> PriceSnapshot \<Rightarrow> bool" where
  "snapshot_in lo hi s \<longleftrightarrow>
     (\<forall>i \<in> set (PriceSnapshotItems s). lo \<le> ExchangeRate (psi_OracleExchangeRate i) \<and>
        ExchangeRate (psi_OracleExchangeRate i) \<le> hi)"

lemma twap_inv_mono: "twap_inv tg lo hi T acc \<Longrightarrow> T \<le> T' \<Longrightarrow> twap_inv tg lo hi T' acc"
  unfolding twap_inv_def by (meson order_trans)

context decimals
begin

lemma twap_item_inv:
  assumes inv: "twap_inv tg lo hi T acc" and T: "0 \<le> T" "T < 2 ^ 63"
    and r: "lo \<le> ExchangeRate (psi_OracleExchangeRate i)" "ExchangeRate (psi_OracleExchangeRate i) \<le> hi"
    and step: "twap_item D tg T i acc = Inr acc'"
  shows "twap_inv tg lo hi T acc'"
proof (cases "kv_has tg (psi_Denom i)")
  case False
  then show ?thesis using step inv by (cases acc) (simp add: twap_item_def Let_def)
next
  case True
  let ?d = "psi_Denom i" and ?r = "ExchangeRate (psi_OracleExchangeRate i)"
  obtain tw du where acc: "acc = (tw, du)" by (cases acc)
  define s where "s = (case kv_get tw ?d of None \<Rightarrow> 0 | Some x \<Rightarrow> x)"
  define t where "t = (case kv_get tw ?d of None \<Rightarrow> 0
    | Some _ \<Rightarrow> (case kv_get du ?d of None \<Rightarrow> 0 | Some x \<Rightarrow> x))"
  have st0: "0 \<le> t \<and> t \<le> T \<and> lo * t \<le> s \<and> s \<le> hi * t"
  proof (cases "kv_get tw ?d")
    case None
    then show ?thesis using T(1) by (simp add: s_def t_def)
  next
    case (Some x)
    then obtain t' where "kv_get du ?d = Some t'" "0 \<le> t'" "t' \<le> T" "lo * t' \<le> x" "x \<le> hi * t'"
      using inv unfolding twap_inv_def acc by fastforce
    with Some show ?thesis by (simp add: s_def t_def)
  qed
  then have st: "0 \<le> t" "t \<le> T" "lo * t \<le> s" "s \<le> hi * t" by auto
  then have i: "i64 (T - t) = T - t" using T by (intro i64_id) auto
  have eq: "twap_item D tg T i acc = bindR (dec_MulInt64 D ?r (T - t)) (\<lambda>w.
      bindR (dec_Add D s w) (\<lambda>x. Inr (kv_set ?d x tw, kv_set ?d T du)))"
    using True i by (simp add: acc twap_item_def s_def t_def Let_def)
  obtain w x where wx: "dec_MulInt64 D ?r (T - t) = Inr w" "dec_Add D s w = Inr x"
      and acc'': "acc' = (kv_set ?d x tw, kv_set ?d T du)"
    using step unfolding eq by (auto simp: res_simps)
  have acc': "acc' = (kv_set ?d (s + w) tw, kv_set ?d T du)"
    using add_exact [OF wx(2)] acc'' by simp
  have "w = ?r * (T - t)" using wx(1) by (rule mulint_exact)
  note w = this
  have "lo * (T - t) \<le> ?r * (T - t)" "?r * (T - t) \<le> hi * (T - t)"
    using r st(2) by (auto intro: mult_right_mono)
  then have "lo * T \<le> s + w" "s + w \<le> hi * T"
    using st(3,4) unfolding w by (auto simp: algebra_simps)
  then show ?thesis
    using inv True T(1) unfolding acc acc' by (auto simp: twap_inv_def)
qed

lemma twap_items_inv:
  assumes "twap_inv tg lo hi T acc" "0 \<le> T" "T < 2 ^ 63"
    and "\<forall>i \<in> set items. lo \<le> ExchangeRate (psi_OracleExchangeRate i) \<and>
          ExchangeRate (psi_OracleExchangeRate i) \<le> hi"
    and "foldR (twap_item D tg T) items acc = Inr acc'"
  shows "twap_inv tg lo hi T acc'"
  using assms(5,1) by (rule foldR_inv) (use assms(2-4) twap_item_inv in blast)

lemma twap_walk_inv:
  assumes "twap_inv tg lo hi T acc" "0 \<le> T" "T \<le> L" "unix_ok L" "unix_ok now"
    and "sorted_wrt (>) (map fst xs)"
    and "\<forall>p \<in> set xs. SnapshotTimestamp (snd p) = fst p \<and> unix_ok (fst p) \<and> fst p \<le> now - T \<and>
      snapshot_in lo hi (snd p)"
    and "walkR (\<lambda>(_, s). twap_snapshot D tg now L s) xs acc = Inr acc'"
  shows "twap_inv tg lo hi L acc'"
  using assms
proof (induction xs arbitrary: T acc)
  case Nil
  then show ?case using twap_inv_mono by auto
next
  case (Cons p xs)
  let ?ts = "fst p" and ?start = "now - L"
  have ts: "SnapshotTimestamp (snd p) = ?ts" "unix_ok ?ts" "?ts \<le> now - T" "snapshot_in lo hi (snd p)"
    using Cons.prems(7) by auto
  have i: "i64 L = L" "i64 (now - L) = ?start" "i64 (now - ?ts) = now - ?ts" "i64 (now - ?start) = L"
    using Cons.prems(4,5) ts(2) by (auto simp: unix_ok_def intro!: i64_id)
  let ?T' = "if ?ts < ?start then L else now - ?ts"
  have T': "T \<le> ?T'" "0 \<le> ?T'" "?T' < 2 ^ 63" "?T' \<le> L"
    using Cons.prems(2-5) ts by (auto simp: unix_ok_def)
  obtain acc1 where acc1: "foldR (twap_item D tg ?T') (PriceSnapshotItems (snd p)) acc = Inr acc1"
      and rest: "if ?ts < ?start then acc' = acc1
        else walkR (\<lambda>(_, s). twap_snapshot D tg now L s) xs acc1 = Inr acc'"
  proof -
    have "twap_snapshot D tg now L (snd p) acc =
        bindR (foldR (twap_item D tg ?T') (PriceSnapshotItems (snd p)) acc)
          (\<lambda>a. Inr (?ts < ?start, a))"
      using ts(1) i by (simp add: twap_snapshot_def)
    then show ?thesis
      using Cons.prems(8) that by (cases p) (auto simp: res_simps split: if_splits)
  qed
  have inv1: "twap_inv tg lo hi ?T' acc1"
    using twap_items_inv [OF twap_inv_mono [OF Cons.prems(1) T'(1)] T'(2,3) _ acc1] ts(4)
    by (simp add: snapshot_in_def)
  show ?case
  proof (cases "?ts < ?start")
    case True
    then show ?thesis using inv1 rest by simp
  next
    case False
    have "\<forall>q \<in> set xs. fst q \<le> now - ?T'"
      using Cons.prems(6) False by (auto intro: less_imp_le)
    then show ?thesis
      using Cons.IH [OF inv1 T'(2,4) Cons.prems(4,5)] Cons.prems(6,7) rest False by simp
  qed
qed

lemma CalculateTwaps_bounds:
  assumes run: "CalculateTwaps D c st L = Inr twaps"
    and ok: "oracle_stores_ok st" and now: "unix_ok (time_Unix (BlockTime c))" and L: "unix_ok L"
    and snaps: "\<forall>p \<in> set (ork_PriceSnapshot st). unix_ok (fst p) \<and>
      fst p \<le> time_Unix (BlockTime c) \<and> snapshot_in lo hi (snd p)"
    and lo: "0 \<le> lo" and t: "t \<in> set twaps"
  shows "kv_has (ork_VoteTarget st) (twap_Denom t) \<and>
    0 \<le> LookbackSeconds t \<and> LookbackSeconds t \<le> L \<and>
    (if LookbackSeconds t = 0 then Twap t = 0 else lo \<le> Twap t \<and> Twap t \<le> hi)"
proof -
  let ?now = "time_Unix (BlockTime c)" and ?tg = "ork_VoteTarget st"
  obtain tw du where w: "walkR (\<lambda>(_, s). twap_snapshot D ?tg ?now L s)
        (rev (ork_PriceSnapshot st)) ([], []) = Inr (tw, du)"
      and m: "mapR (twap_result D du) tw = Inr twaps"
    using run by (auto simp: CalculateTwaps_def IteratePriceSnapshotsReverse_def Let_def res_simps
        split: if_splits)
  have "sorted_wrt (>) (map fst (rev (ork_PriceSnapshot st)))"
    using ok by (simp add: oracle_stores_ok_def kv_ok_def rev_map [symmetric] sorted_wrt_rev)
  then have inv: "twap_inv ?tg lo hi L (tw, du)"
    using twap_walk_inv [of ?tg lo hi 0 "([], [])" L ?now "rev (ork_PriceSnapshot st)" "(tw, du)"]
      ok now L snaps w by (auto simp: twap_inv_def unix_ok_def oracle_stores_ok_def)
  obtain d s where ds: "(d, s) \<in> set tw" "twap_result D du (d, s) = Inr t"
    using mapR_set [OF m t] by auto
  then have "kv_get tw d = Some s" using inv by (auto simp: twap_inv_def kv_get_in)
  then obtain u where u: "kv_get du d = Some u" "0 \<le> u" "u \<le> L" "lo * u \<le> s" "s \<le> hi * u"
      and tg: "kv_has ?tg d"
    using inv by (auto simp: twap_inv_def)
  show ?thesis
  proof (cases "u = 0")
    case True
    then show ?thesis using ds(2) u tg by (auto simp: twap_result_def Let_def)
  next
    case False
    have "0 \<le> s" using lo u(2,4) by (meson mult_nonneg_nonneg order_trans)
    then have "dec_QuoInt64 D s u = Inr (s div u)" using u(2) False by (intro quoint_nonneg) auto
    moreover have "lo \<le> s div u" "s div u \<le> hi"
      using zdiv_mono1 [OF u(4), of u] zdiv_mono1 [OF u(5), of u] u(2) False by auto
    ultimately show ?thesis using ds(2) u tg False by (auto simp: twap_result_def Let_def)
  qed
qed

end

section \<open>Properties\<close>

text \<open>Sample data for the witnesses.\<close>

definition sample_keeper :: "(ledger, toy_staking) oracle_Keeper" where
  "sample_keeper =
     \<lparr>ok_dec = legacy_dec, ok_codec = toy_codec, ok_bank = ledger_bank,
      ok_StakingKeeper = toy_staking_ops, ok_authority = ''kgov''\<rparr>"

definition sample_rate :: "dec \<Rightarrow> OracleExchangeRate" where
  "sample_rate r = \<lparr>ExchangeRate = r, LastUpdate = 1, LastUpdateTimestamp = 1000\<rparr>"

definition sample_snapshot :: "int \<Rightarrow> dec \<Rightarrow> PriceSnapshot" where
  "sample_snapshot t r = NewPriceSnapshot t [NewPriceSnapshotItem ''ubtc'' (sample_rate r)]"

definition sample_state :: "(ledger, toy_staking) oracle_state" where
  "sample_state =
     \<lparr>ork_Params = Some oracle_DefaultParams,
      ork_ExchangeRate = [(''old'', sample_rate 5), (''ubtc'', sample_rate 7)],
      ork_FeederDelegation = [(''alice'', ''kbob'')],
      ork_VotePenaltyCounter = [],
      ork_AggregateExchangeRateVote = [],
      ork_VoteTarget = [(''ubtc'', \<lparr>Name = ''ubtc''\<rparr>)],
      ork_PriceSnapshot = [(100, sample_snapshot 100 30), (5000, sample_snapshot 5000 60)],
      ork_SpamPreventionCounter = [],
      ork_bank = empty_ledger,
      ork_staking = \<lparr>ts_vals = [(''alice'', toy_validator ''alice'' 10)], ts_slashed = []\<rparr>,
      ork_events = []\<rparr>"

definition sample_ctx :: "int \<Rightarrow> int \<Rightarrow> ctx" where
  \<comment> \<open>a block at a height and a Unix time in seconds\<close>
  "sample_ctx h t = \<lparr>BlockHeight = h, BlockTime = (t + 62135596800) * 10 ^ 9,
                     IsCheckTx = False, IsReCheckTx = False\<rparr>"

lemma sample_ctx_unix [simp]: "time_Unix (BlockTime (sample_ctx h t)) = t"
  by (simp add: sample_ctx_def time_Unix_def)

lemma sample_state_ok: "oracle_stores_ok sample_state"
  by (simp add: oracle_stores_ok_def sample_state_def kv_ok_Cons sample_snapshot_def
      NewPriceSnapshot_def)

text \<open>
  \<open>ValidateFeeder\<close> accepts exactly a bonded validator of the staking module that votes for
  itself, or the account its stored delegation names; in particular, without a delegation nobody
  but the validator is accepted.
\<close>

lemma ValidateFeeder_correct:
  "ValidateFeeder k st feeder val = Inr () \<longleftrightarrow>
     val \<noteq> [] \<and>
     (feeder = val \<or> (\<exists>s. kv_get (ork_FeederDelegation st) val = Some s \<and>
                         AccAddressFromBech32 (ok_codec k) s = Inr feeder)) \<and>
     (\<exists>v. stk_Validator (ok_StakingKeeper k) (ork_staking st) val = Inr (Some v) \<and> IsBonded v)"
  by (rule ValidateFeeder_iff)

text \<open>
  \<open>RemoveExcessFeeds\<close> keeps exactly the exchange rates of the denoms that are vote targets,
  unchanged, removes every other rate, and changes no other store.
\<close>

lemma RemoveExcessFeeds_correct:
  "kv_get (ork_ExchangeRate (RemoveExcessFeeds st)) d =
     (if kv_has (ork_VoteTarget st) d then kv_get (ork_ExchangeRate st) d else None) \<and>
   RemoveExcessFeeds st = st\<lparr>ork_ExchangeRate := ork_ExchangeRate (RemoveExcessFeeds st)\<rparr>"
  by (simp add: RemoveExcessFeeds_get) (simp add: RemoveExcessFeeds_def Let_def)

text \<open>
  \<open>AddPriceSnapshot\<close> succeeds, stores the new snapshot, and afterwards the store holds
  exactly the snapshots (the new one included) that are not older than the look-back duration:
  although the walk stops at the first fresh snapshot, no stale one survives behind it and no
  fresh one is deleted.
\<close>

lemma AddPriceSnapshot_correct:
  assumes "oracle_stores_ok st" and "ork_Params st = Some p"
    and "unix_ok (LookbackDuration p)" and "unix_ok (SnapshotTimestamp snapshot)"
    and "\<forall>q \<in> set (ork_PriceSnapshot st). unix_ok (fst q)"
  shows "AddPriceSnapshot c snapshot st =
    Inr (st\<lparr>ork_PriceSnapshot :=
      filter (\<lambda>q. time_Unix (BlockTime c) \<le> fst q + LookbackDuration p)
        (kv_set (SnapshotTimestamp snapshot) snapshot (ork_PriceSnapshot st))\<rparr>)"
  using assms by (rule AddPriceSnapshot_keeps_fresh)

lemma AddPriceSnapshot_correct_witness:
  "AddPriceSnapshot (sample_ctx 10 6000) (sample_snapshot 6000 90) sample_state =
    Inr (sample_state\<lparr>ork_PriceSnapshot := [(5000, sample_snapshot 5000 60), (6000, sample_snapshot 6000 90)]\<rparr>)"
proof -
  have p: "ork_Params sample_state = Some oracle_DefaultParams" by (simp add: sample_state_def)
  have h: "unix_ok (LookbackDuration oracle_DefaultParams)"
      "unix_ok (SnapshotTimestamp (sample_snapshot 6000 90))"
      "\<forall>q \<in> set (ork_PriceSnapshot sample_state). unix_ok (fst q)"
    by (simp_all add: unix_ok_def oracle_DefaultParams_def sample_snapshot_def NewPriceSnapshot_def
        sample_state_def)
  show ?thesis
    using AddPriceSnapshot_correct [OF sample_state_ok p h, of "sample_ctx 10 6000"]
    by (simp add: oracle_DefaultParams_def sample_state_def sample_snapshot_def NewPriceSnapshot_def)
qed

text \<open>
  C37: every time-weighted average \<open>CalculateTwaps\<close> returns is for a vote target, covers a
  duration of at most the requested look-back, and, when that duration is not zero, lies between
  the lowest and the highest price recorded in the snapshots; over no duration it is zero.
\<close>

theorem CalculateTwaps_correct:
  assumes "decimals D" and "CalculateTwaps D c st lookBackSeconds = Inr twaps"
    and "oracle_stores_ok st" and "unix_ok (time_Unix (BlockTime c))" and "unix_ok lookBackSeconds"
    and "\<forall>p \<in> set (ork_PriceSnapshot st). unix_ok (fst p) \<and>
      fst p \<le> time_Unix (BlockTime c) \<and> snapshot_in lo hi (snd p)"
    and "0 \<le> lo" and "t \<in> set twaps"
  shows "kv_has (ork_VoteTarget st) (twap_Denom t) \<and>
    0 \<le> LookbackSeconds t \<and> LookbackSeconds t \<le> lookBackSeconds \<and>
    (if LookbackSeconds t = 0 then Twap t = 0 else lo \<le> Twap t \<and> Twap t \<le> hi)"
  using assms by (rule decimals.CalculateTwaps_bounds)

theorem CalculateTwaps_correct_witness:
  "CalculateTwaps legacy_dec (sample_ctx 10 5010) sample_state 30 =
     Inr [\<lparr>twap_Denom = ''ubtc'', Twap = 40, LookbackSeconds = 30\<rparr>] \<and> 30 \<le> (40 :: int) \<and> 40 \<le> (60 :: int)"
proof -
  have run: "CalculateTwaps legacy_dec (sample_ctx 10 5010) sample_state 30 =
      Inr [\<lparr>twap_Denom = ''ubtc'', Twap = 40, LookbackSeconds = 30\<rparr>]"
    by code_simp
  have now: "unix_ok (time_Unix (BlockTime (sample_ctx 10 5010)))" "unix_ok 30"
    by (simp_all add: unix_ok_def)
  have snaps: "\<forall>p \<in> set (ork_PriceSnapshot sample_state). unix_ok (fst p) \<and>
      fst p \<le> time_Unix (BlockTime (sample_ctx 10 5010)) \<and> snapshot_in 30 60 (snd p)"
    by (simp add: sample_state_def unix_ok_def snapshot_in_def sample_snapshot_def
        NewPriceSnapshot_def NewPriceSnapshotItem_def sample_rate_def)
  show ?thesis
    using CalculateTwaps_correct [OF legacy.decimals_axioms run sample_state_ok now snaps, of
        "\<lparr>twap_Denom = ''ubtc'', Twap = 40, LookbackSeconds = 30\<rparr>"] run
    by simp
qed

end
