(* ===== verification/OracleTally.thy ===== *)
theory OracleTally
  imports OracleKeeper
begin

text \<open>
  \<open>x/oracle/keeper/ballot.go\<close> and \<open>x/oracle/tally.go\<close>: ballots per denom, the whitelist, the
  reference denom and the tally of one ballot. Go maps are stores in key order; where a loop
  ranges over one and the order could matter, the order is the argument \<open>order\<close>, and the lemmas
  show that it does not matter.
\<close>

type_synonym claims = "(string, Claim) kv"
type_synonym vote_map = "(string, ballot) kv"

definition zero_claim :: Claim where
  "zero_claim = \<lparr>cl_Power = 0, cl_Weight = 0, WinCount = 0, DidVote = False, Recipient = []\<rparr>"

section \<open>Ballots per denom\<close>

definition ballot_of :: "vote_map \<Rightarrow> string \<Rightarrow> ballot" where
  "ballot_of votes denom = (case kv_get votes denom of None \<Rightarrow> [] | Some b \<Rightarrow> b)"

definition add_vote :: "addr \<Rightarrow> int \<Rightarrow> ExchangeRateTuple \<Rightarrow> vote_map \<Rightarrow> vote_map" where
  "add_vote voterAddr claimPower tuple votes =
     (let tmpPower = (if \<not> 0 < tup_ExchangeRate tuple then 0 else claimPower);
          vote = NewVoteForTally (tup_ExchangeRate tuple) (tup_Denom tuple) voterAddr tmpPower
      in kv_set (tup_Denom tuple) (ballot_of votes (tup_Denom tuple) @ [vote]) votes)"

definition OrganizeBallotByDenom ::
  "(ballot \<Rightarrow> ballot) \<Rightarrow> ('b, 's) oracle_state \<Rightarrow> claims \<Rightarrow> vote_map" where
  "OrganizeBallotByDenom srt st validatorClaimMap =
     (let votes = fold (\<lambda>(voterAddr, aggregateVote) votes.
            case kv_get validatorClaimMap (agg_Voter aggregateVote) of
              None \<Rightarrow> votes
            | Some claim \<Rightarrow>
                fold (add_vote voterAddr (cl_Power claim)) (ExchangeRateTuples aggregateVote) votes)
            (ork_AggregateExchangeRateVote st) []
      in map (\<lambda>(denom, ballot). (denom, srt ballot)) votes)"

section \<open>Whitelist\<close>

definition whitelist_metadata :: "string \<Rightarrow> metadata res" where
  "whitelist_metadata base =
     (if base = [] then Inl (Panic ''slice bounds out of range'')
      else
        let display = tl base; nameSymbol = to_upper display
        in Inr \<lparr>md_Description = display,
                md_DenomUnits =
                  [\<lparr>du_Denom = ''u'' @ display, du_Exponent = 0, du_Aliases = [''micro'' @ display]\<rparr>,
                   \<lparr>du_Denom = ''m'' @ display, du_Exponent = 3, du_Aliases = [''mili'' @ display]\<rparr>,
                   \<lparr>du_Denom = display, du_Exponent = 6, du_Aliases = []\<rparr>],
                md_Base = base, md_Display = display, md_Name = nameSymbol, md_Symbol = nameSymbol\<rparr>)"

definition whitelist_item ::
  "('b, 's) oracle_Keeper \<Rightarrow> oracle_Denom \<Rightarrow> ('b, 's) oracle_state \<Rightarrow> ('b, 's) oracle_state res" where
  "whitelist_item k item st =
     (let st' = st\<lparr>ork_VoteTarget := kv_set (Name item) item (ork_VoteTarget st)\<rparr>
      in case bank_GetDenomMetaData (ok_bank k) (ork_bank st') (Name item) of
           Some _ \<Rightarrow> Inr st'
         | None \<Rightarrow> bindR (whitelist_metadata (Name item)) (\<lambda>bankMetadata.
             Inr (st'\<lparr>ork_bank := bank_SetDenomMetaData (ok_bank k) bankMetadata (ork_bank st')\<rparr>)))"

definition ApplyWhitelist ::
  "('b, 's) oracle_Keeper \<Rightarrow> oracle_Denom list \<Rightarrow> (string, oracle_Denom) kv \<Rightarrow>
   ('b, 's) oracle_state \<Rightarrow> ('b, 's) oracle_state res" where
  "ApplyWhitelist k whitelist voteTargets st =
     (let updateRequire = (length voteTargets \<noteq> length whitelist \<or>
            list_ex (\<lambda>item. \<not> kv_has voteTargets (Name item)) whitelist)
      in if updateRequire
         then foldR (whitelist_item k) whitelist (st\<lparr>ork_VoteTarget := []\<rparr>)
         else Inr st)"

section \<open>Reference denom\<close>

definition ballotIsPassing :: "ballot \<Rightarrow> int \<Rightarrow> int \<times> bool" where
  "ballotIsPassing ballot thresholdVotes =
     (let ballotPower = ballot_Power ballot
      in (ballotPower, ballotPower \<noteq> 0 \<and> thresholdVotes \<le> ballotPower))"

record pick_state =
  pk_reference :: string
  pk_highest :: int
  pk_below :: vote_map
  pk_targets :: "(string, oracle_Denom) kv"
  pk_votes :: vote_map

definition pick_step :: "int \<Rightarrow> string \<Rightarrow> pick_state \<Rightarrow> pick_state" where
  "pick_step thresholdVotes denom p =
     (case kv_get (pk_votes p) denom of
        None \<Rightarrow> p
      | Some ballot \<Rightarrow>
          if \<not> kv_has (pk_targets p) denom
          then p\<lparr>pk_votes := kv_remove denom (pk_votes p)\<rparr>
          else
            let (ballotPower, ok) = ballotIsPassing ballot thresholdVotes
            in if \<not> ok
               then p\<lparr>pk_below := kv_set denom ballot (pk_below p),
                      pk_targets := kv_remove denom (pk_targets p),
                      pk_votes := kv_remove denom (pk_votes p)\<rparr>
               else
                 let p' = (if pk_highest p < ballotPower \<or> pk_highest p = 0
                           then p\<lparr>pk_reference := denom, pk_highest := ballotPower\<rparr> else p)
                 in if ballotPower = pk_highest p' \<and> denom < pk_reference p'
                    then p'\<lparr>pk_reference := denom\<rparr> else p')"

definition threshold_votes :: "('b, 's) oracle_Keeper \<Rightarrow> ('b, 's) oracle_state \<Rightarrow> int res" where
  "threshold_votes k st =
     (let S = ok_StakingKeeper k;
          powerReductionFactor = stk_PowerReduction S (ork_staking st);
          totalBondedTokens = stk_TotalBondedTokens S (ork_staking st);
          totalBondedPower = stk_TokensToConsensusPower S totalBondedTokens powerReductionFactor
      in case oracle_GetParams st of
           Inl _ \<Rightarrow> Inl (Panic ''params not found'')
         | Inr params \<Rightarrow>
             bindR (dec_MulInt64 (ok_dec k) (VoteThreshold params) totalBondedPower)
               (dec_RoundInt (ok_dec k)))"

definition pickReferenceDenom ::
  "string list \<Rightarrow> ('b, 's) oracle_Keeper \<Rightarrow> ('b, 's) oracle_state \<Rightarrow> (string, oracle_Denom) kv \<Rightarrow>
   vote_map \<Rightarrow> pick_state res" where
  "pickReferenceDenom order k st voteTargets voteMap =
     bindR (threshold_votes k st) (\<lambda>thresholdVotes.
       Inr (fold (pick_step thresholdVotes) order
         \<lparr>pk_reference = [], pk_highest = 0, pk_below = [], pk_targets = voteTargets,
          pk_votes = voteMap\<rparr>))"

section \<open>Tally\<close>

definition tally_wins :: "dec_ops \<Rightarrow> dec \<Rightarrow> dec \<Rightarrow> VoteForTally \<Rightarrow> bool res" where
  "tally_wins D weightedMedian rewardSpread vote =
     bindR (dec_Sub D weightedMedian rewardSpread) (\<lambda>lower.
     if lower \<le> vft_ExchangeRate vote
     then bindR (dec_Add D weightedMedian rewardSpread) (\<lambda>upper. Inr (vft_ExchangeRate vote \<le> upper))
     else Inr False)"

definition tally_mark :: "addr_codec \<Rightarrow> VoteForTally \<Rightarrow> bool \<Rightarrow> claims \<Rightarrow> claims" where
  "tally_mark C vote wins validatorClaimMap =
     (let voter = ValAddressString C (Voter vote);
          claim = (case kv_get validatorClaimMap voter of None \<Rightarrow> zero_claim | Some x \<Rightarrow> x);
          claim = (if wins then claim\<lparr>cl_Weight := i64 (cl_Weight claim + Power vote),
                                      WinCount := i64 (WinCount claim + 1)\<rparr> else claim)
      in kv_set voter (claim\<lparr>DidVote := True\<rparr>) validatorClaimMap)"

definition reward_spread :: "dec_ops \<Rightarrow> ballot \<Rightarrow> dec \<Rightarrow> dec \<Rightarrow> dec res" where
  "reward_spread D ex rewardBand weightedMedian =
     bindR (StandardDeviation D ex weightedMedian) (\<lambda>standardDeviation.
     bindR (dec_QuoInt64 D rewardBand 2) (\<lambda>half.
     bindR (dec_Mul D weightedMedian half) (\<lambda>rewardSpread.
     Inr (if rewardSpread < standardDeviation then standardDeviation else rewardSpread))))"

definition Tally ::
  "dec_ops \<Rightarrow> addr_codec \<Rightarrow> ballot \<Rightarrow> dec \<Rightarrow> claims \<Rightarrow> (dec \<times> claims) res" where
  "Tally D C ex rewardBand validatorClaimMap =
     bindR (WeightedMedianWithAssertion ex) (\<lambda>weightedMedian.
     bindR (reward_spread D ex rewardBand weightedMedian) (\<lambda>rewardSpread.
     bindR (foldR (\<lambda>vote claims. bindR (tally_wins D weightedMedian rewardSpread vote) (\<lambda>wins.
              Inr (tally_mark C vote wins claims))) ex validatorClaimMap) (\<lambda>claims.
     Inr (weightedMedian, claims))))"

section \<open>Lemmas on the reference denom\<close>

definition passing :: "int \<Rightarrow> (string, oracle_Denom) kv \<Rightarrow> vote_map \<Rightarrow> string \<Rightarrow> bool" where
  "passing thr tg vm d \<longleftrightarrow>
     kv_has tg d \<and> kv_has vm d \<and> snd (ballotIsPassing (ballot_of vm d) thr)"

definition best_denom :: "int \<Rightarrow> (string, oracle_Denom) kv \<Rightarrow> vote_map \<Rightarrow> string set \<Rightarrow> string \<Rightarrow> int \<Rightarrow> bool" where
  "best_denom thr tg vm ks ref high \<longleftrightarrow>
     (if \<exists>d \<in> ks. passing thr tg vm d
      then ref \<in> ks \<and> passing thr tg vm ref \<and> high = ballot_Power (ballot_of vm ref) \<and>
        (\<forall>d \<in> ks. passing thr tg vm d \<longrightarrow> ballot_Power (ballot_of vm d) < high \<or>
                   ballot_Power (ballot_of vm d) = high \<and> ref \<le> d)
      else ref = [] \<and> high = 0)"

lemma passing_nonzero: "passing thr tg vm d \<Longrightarrow> ballot_Power (ballot_of vm d) \<noteq> 0"
  by (simp add: passing_def ballotIsPassing_def Let_def)

lemma best_denom_skip:
  "\<not> passing thr tg vm d \<Longrightarrow> best_denom thr tg vm (insert d ks) ref high \<longleftrightarrow>
     best_denom thr tg vm ks ref high"
  by (auto simp: best_denom_def)

lemma best_denom_step:
  assumes d: "passing thr tg vm d" and b: "best_denom thr tg vm ks ref high"
  shows "best_denom thr tg vm (insert d ks)
    (let pw = ballot_Power (ballot_of vm d);
         (ref', high') = (if high < pw \<or> high = 0 then (d, pw) else (ref, high))
     in if pw = high' \<and> d < ref' then d else ref')
    (let pw = ballot_Power (ballot_of vm d) in if high < pw \<or> high = 0 then pw else high)"
proof (cases "\<exists>x \<in> ks. passing thr tg vm x")
  case True
  then have r: "ref \<in> ks" "passing thr tg vm ref" "high = ballot_Power (ballot_of vm ref)"
      "\<forall>x \<in> ks. passing thr tg vm x \<longrightarrow> ballot_Power (ballot_of vm x) < high \<or>
                   ballot_Power (ballot_of vm x) = high \<and> ref \<le> x"
    using b by (auto simp: best_denom_def)
  have h: "high \<noteq> 0" using passing_nonzero [OF r(2)] r(3) by simp
  let ?pw = "ballot_Power (ballot_of vm d)"
  consider "high < ?pw" | "?pw = high" "d < ref" | "?pw = high" "\<not> d < ref" | "?pw < high"
    by linarith
  then show ?thesis
  proof cases
    case 1
    then show ?thesis using d r h unfolding best_denom_def by (auto simp: Let_def)
  next
    case 2
    then show ?thesis using d r h unfolding best_denom_def by (auto simp: Let_def)
  next
    case 3
    then show ?thesis using d r h unfolding best_denom_def by (auto simp: Let_def not_less)
  next
    case 4
    then show ?thesis using d r h unfolding best_denom_def by (auto simp: Let_def)
  qed
next
  case False
  then show ?thesis using d b by (auto simp: best_denom_def Let_def)
qed

definition pick_inv ::
  "int \<Rightarrow> (string, oracle_Denom) kv \<Rightarrow> vote_map \<Rightarrow> string set \<Rightarrow> pick_state \<Rightarrow> bool" where
  "pick_inv thr tg vm ks p \<longleftrightarrow>
     kv_ok (pk_votes p) \<and> kv_ok (pk_targets p) \<and> kv_ok (pk_below p) \<and>
     (\<forall>d. kv_get (pk_votes p) d = (if d \<in> ks \<and> \<not> passing thr tg vm d then None else kv_get vm d)) \<and>
     (\<forall>d. kv_get (pk_targets p) d =
        (if d \<in> ks \<and> kv_has vm d \<and> \<not> passing thr tg vm d then None else kv_get tg d)) \<and>
     (\<forall>d. kv_get (pk_below p) d =
        (if d \<in> ks \<and> kv_has tg d \<and> \<not> passing thr tg vm d then kv_get vm d else None)) \<and>
     best_denom thr tg vm ks (pk_reference p) (pk_highest p)"

lemma pick_step_inv:
  assumes inv: "pick_inv thr tg vm ks p" and d: "d \<notin> ks"
  shows "pick_inv thr tg vm (insert d ks) (pick_step thr d p)"
proof -
  have v: "kv_get (pk_votes p) d = kv_get vm d" and t: "kv_get (pk_targets p) d = kv_get tg d"
    using inv d by (auto simp: pick_inv_def)
  have tt: "kv_has (pk_targets p) d = kv_has tg d" using t by (simp add: kv_has_def)
  consider (none) "kv_get vm d = None"
    | (off) b where "kv_get vm d = Some b" "\<not> kv_has tg d"
    | (below) b where "kv_get vm d = Some b" "kv_has tg d" "\<not> snd (ballotIsPassing b thr)"
    | (pass) b where "kv_get vm d = Some b" "kv_has tg d" "snd (ballotIsPassing b thr)"
    by (cases "kv_get vm d") auto
  then show ?thesis
  proof cases
    case none
    then have "\<not> passing thr tg vm d" by (simp add: passing_def kv_has_def)
    then show ?thesis using none v inv
      by (auto simp: pick_step_def pick_inv_def best_denom_skip kv_has_def)
  next
    case off
    then have "\<not> passing thr tg vm d" by (simp add: passing_def)
    then show ?thesis using off v tt inv
      by (auto simp: pick_step_def pick_inv_def best_denom_skip kv_has_def)
  next
    case below
    then have "\<not> passing thr tg vm d" by (simp add: passing_def ballot_of_def)
    then show ?thesis using below v tt inv
      by (auto simp: pick_step_def pick_inv_def best_denom_skip kv_has_def split: prod.splits)
  next
    case pass
    then have d': "passing thr tg vm d" "ballot_of vm d = b"
      by (simp_all add: passing_def ballot_of_def kv_has_def)
    let ?q = "pick_step thr d p"
    have q: "pk_votes ?q = pk_votes p" "pk_targets ?q = pk_targets p" "pk_below ?q = pk_below p"
      using pass v tt by (auto simp: pick_step_def Let_def split: prod.splits)
    have rf: "best_denom thr tg vm (insert d ks) (pk_reference ?q) (pk_highest ?q)"
    proof -
      have "pk_reference ?q = (let pw = ballot_Power (ballot_of vm d);
            (ref', high') = (if pk_highest p < pw \<or> pk_highest p = 0 then (d, pw)
                             else (pk_reference p, pk_highest p))
          in if pw = high' \<and> d < ref' then d else ref')"
          "pk_highest ?q = (let pw = ballot_Power (ballot_of vm d)
            in if pk_highest p < pw \<or> pk_highest p = 0 then pw else pk_highest p)"
        using pass v tt d'(2) by (auto simp: pick_step_def ballotIsPassing_def Let_def)
      then show ?thesis
        using best_denom_step [OF d'(1), of ks "pk_reference p" "pk_highest p"] inv
        by (simp only: pick_inv_def)
    qed
    show ?thesis using inv rf d'(1) unfolding pick_inv_def q by auto
  qed
qed

lemma pick_fold_inv:
  "distinct ks \<Longrightarrow> set ks \<inter> done = {} \<Longrightarrow> pick_inv thr tg vm done p \<Longrightarrow>
     pick_inv thr tg vm (done \<union> set ks) (fold (pick_step thr) ks p)"
proof (induction ks arbitrary: p "done")
  case (Cons d ks)
  then have "pick_inv thr tg vm (insert d done) (pick_step thr d p)"
    by (intro pick_step_inv) auto
  then show ?case using Cons.IH [of "insert d done"] Cons.prems(1,2) by auto
qed simp

lemma pick_result:
  assumes "kv_ok tg" "kv_ok vm" "mset order = mset (kv_keys vm)"
    and p_def: "p = fold (pick_step thr) order
      \<lparr>pk_reference = [], pk_highest = 0, pk_below = [], pk_targets = tg, pk_votes = vm\<rparr>"
  shows "pk_votes p = filter (\<lambda>(d, _). passing thr tg vm d) vm"
    and "pk_below p = filter (\<lambda>(d, _). kv_has tg d \<and> \<not> passing thr tg vm d) vm"
    and "pk_targets p = filter (\<lambda>(d, _). \<not> (kv_has vm d \<and> \<not> passing thr tg vm d)) tg"
    and "best_denom thr tg vm (set (kv_keys vm)) (pk_reference p) (pk_highest p)"
proof -
  have "distinct order" and ks: "set order = set (kv_keys vm)"
    using assms(2,3) kv_ok_distinct mset_eq_imp_distinct_iff mset_eq_setD by blast+
  have "pick_inv thr tg vm {} \<lparr>pk_reference = [], pk_highest = 0, pk_below = [],
      pk_targets = tg, pk_votes = vm\<rparr>"
    using assms(1,2) by (simp add: pick_inv_def best_denom_def)
  then have "pick_inv thr tg vm ({} \<union> set order) p"
    unfolding p_def using \<open>distinct order\<close> by (intro pick_fold_inv) auto
  then have inv: "pick_inv thr tg vm (set (kv_keys vm)) p"
    using ks by simp
  have in_keys: "kv_get vm d \<noteq> None \<longleftrightarrow> d \<in> set (kv_keys vm)"
      "d \<notin> set (kv_keys vm) \<Longrightarrow> kv_get vm d = None" for d
    by (simp_all add: map_of_eq_None_iff)
  show "pk_votes p = filter (\<lambda>(d, _). passing thr tg vm d) vm"
    using inv assms(2) kv_get_filter [OF assms(2), of "passing thr tg vm"] in_keys
    by (intro kv_ext) (auto simp: pick_inv_def case_prod_unfold fun_eq_iff)
  show "pk_below p = filter (\<lambda>(d, _). kv_has tg d \<and> \<not> passing thr tg vm d) vm"
    using inv assms(2) kv_get_filter [OF assms(2), of "\<lambda>d. kv_has tg d \<and> \<not> passing thr tg vm d"] in_keys
    by (intro kv_ext) (auto simp: pick_inv_def case_prod_unfold fun_eq_iff)
  show "pk_targets p = filter (\<lambda>(d, _). \<not> (kv_has vm d \<and> \<not> passing thr tg vm d)) tg"
    using inv assms(1) in_keys
      kv_get_filter [OF assms(1), of "\<lambda>d. \<not> (kv_has vm d \<and> \<not> passing thr tg vm d)"]
    by (intro kv_ext) (auto simp: pick_inv_def case_prod_unfold fun_eq_iff kv_has_def)
  show "best_denom thr tg vm (set (kv_keys vm)) (pk_reference p) (pk_highest p)"
    using inv by (simp add: pick_inv_def)
qed

section \<open>Lemmas on the tally\<close>

lemma kv_set_commute: "k \<noteq> k' \<Longrightarrow> kv_set k v (kv_set k' v' m) = kv_set k' v' (kv_set k v m)"
  by (induction m) auto

lemma kv_set_twice: "kv_set k v (kv_set k v' m) = kv_set k v m"
  by (induction m) auto

lemma tally_mark_get:
  "kv_get (tally_mark C v w cl) x =
     (if x = ValAddressString C (Voter v)
      then (let c = (case kv_get cl x of None \<Rightarrow> zero_claim | Some c \<Rightarrow> c)
            in Some (if w then c\<lparr>cl_Weight := i64 (cl_Weight c + Power v),
                               WinCount := i64 (WinCount c + 1), DidVote := True\<rparr>
                     else c\<lparr>DidVote := True\<rparr>))
      else kv_get cl x)"
  by (simp add: tally_mark_def Let_def)

lemma tally_mark_commute:
  "tally_mark C v a (tally_mark C w b cl) = tally_mark C w b (tally_mark C v a cl)"
proof (cases "ValAddressString C (Voter v) = ValAddressString C (Voter w)")
  case True
  have "i64 (i64 (x + y) + z) = i64 (i64 (x + z) + y)" for x y z
    by (simp add: i64_def algebra_simps mod_simps)
  then show ?thesis using True by (simp add: tally_mark_def Let_def kv_set_twice)
next
  case False
  then show ?thesis by (simp add: tally_mark_def Let_def kv_set_commute)
qed

text \<open>Every failure of the comparisons is the same one, so a permuted ballot fails the same way.\<close>

lemma foldR_check_mark:
  "foldR (\<lambda>x s. bindR (w x) (\<lambda>b. Inr (g x b s))) xs s =
     (case mapR w xs of Inl e \<Rightarrow> Inl e | Inr bs \<Rightarrow> Inr (fold (\<lambda>(x, b). g x b) (zip xs bs) s))"
proof (induction xs arbitrary: s)
  case (Cons x xs)
  then show ?case
    by (cases "w x"; cases "mapR w xs") auto
qed simp

lemma mapR_one_error:
  assumes "\<And>x e. x \<in> set xs \<Longrightarrow> w x = Inl e \<Longrightarrow> e = e0"
  shows "mapR w xs = (if \<forall>x \<in> set xs. is_ok (w x) then Inr (map (\<lambda>x. projr (w x)) xs) else Inl e0)"
  using assms
proof (induction xs)
  case (Cons x xs)
  have "mapR w xs = (if \<forall>x \<in> set xs. is_ok (w x) then Inr (map (\<lambda>x. projr (w x)) xs) else Inl e0)"
    by (rule Cons.IH) (use Cons.prems in auto)
  then show ?case using Cons.prems [of x] by (cases "w x") auto
qed simp

lemma tally_wins_error:
  "\<exists>e0. \<forall>v e. tally_wins D m sp v = Inl e \<longrightarrow> e = e0"
  by (cases "dec_Sub D m sp"; cases "dec_Add D m sp") (auto simp: tally_wins_def)

lemma tally_marks_mset:
  assumes "mset ex = mset ey"
  shows "foldR (\<lambda>v cl. bindR (tally_wins D m sp v) (\<lambda>b. Inr (tally_mark C v b cl))) ex cl =
         foldR (\<lambda>v cl. bindR (tally_wins D m sp v) (\<lambda>b. Inr (tally_mark C v b cl))) ey cl"
proof -
  obtain e0 where e0: "\<And>v e. tally_wins D m sp v = Inl e \<Longrightarrow> e = e0"
    using tally_wins_error by blast
  have z: "fold (\<lambda>(x, b). tally_mark C x b) (zip zs (map f zs)) cl =
      fold (\<lambda>x. tally_mark C x (f x)) zs cl" for f zs
    by (induction zs arbitrary: cl) auto
  have "fold (\<lambda>v. tally_mark C v (projr (tally_wins D m sp v))) ex =
        fold (\<lambda>v. tally_mark C v (projr (tally_wins D m sp v))) ey"
    using assms by (intro fold_multiset_equiv) (auto simp: fun_eq_iff tally_mark_commute)
  moreover have "set ex = set ey" using assms by (rule mset_eq_setD)
  ultimately show ?thesis
    by (simp add: foldR_check_mark z mapR_one_error [where w = "tally_wins D m sp", OF e0])
qed

lemma deviation_sum_rates:
  "map vft_ExchangeRate ex = map vft_ExchangeRate ey \<Longrightarrow>
     deviation_sum D m ex acc = deviation_sum D m ey acc"
proof (induction ex arbitrary: ey acc)
  case (Cons v vs)
  then obtain w ws where "ey = w # ws" "vft_ExchangeRate v = vft_ExchangeRate w"
      "map vft_ExchangeRate vs = map vft_ExchangeRate ws"
    by (cases ey) auto
  moreover from this(3) have "deviation_sum D m vs = deviation_sum D m ws"
    using Cons.IH by (auto simp: fun_eq_iff)
  ultimately show ?case by simp
qed simp

lemma rates_mset:
  assumes "sorted (map vft_ExchangeRate ex)" "sorted (map vft_ExchangeRate ey)" "mset ex = mset ey"
  shows "map vft_ExchangeRate ex = map vft_ExchangeRate ey"
  using assms properties_for_sort [of "map vft_ExchangeRate ex"] by (metis mset_map properties_for_sort)

definition sim_ballot :: "ballot \<Rightarrow> ballot \<Rightarrow> bool" where
  "sim_ballot ex ey \<longleftrightarrow> mset ex = mset ey \<and> powers_ok ex \<and>
     sorted (map vft_ExchangeRate ex) \<and> sorted (map vft_ExchangeRate ey)"

lemma Tally_sim:
  assumes "sim_ballot ex ey"
  shows "Tally D C ex band cl = Tally D C ey band cl"
proof -
  have p: "mset ex = mset ey" "powers_ok ex" "sorted (map vft_ExchangeRate ex)"
      "sorted (map vft_ExchangeRate ey)"
    using assms by (simp_all add: sim_ballot_def)
  have r: "map vft_ExchangeRate ex = map vft_ExchangeRate ey"
    using p(3,4,1) by (rule rates_mset)
  then have "length ex = length ey" by (metis length_map)
  with r have "StandardDeviation D ex m = StandardDeviation D ey m" for m
    using deviation_sum_rates [OF r] by (simp add: StandardDeviation_def)
  then show ?thesis
    using median_mset [OF p(2,3,4,1)] tally_marks_mset [OF p(1)]
    by (simp add: Tally_def reward_spread_def)
qed

lemma i64_idem [simp]: "i64 (i64 x) = i64 x"
  using i64_bounds [of x] by (intro i64_id) auto

text \<open>What the marks of a tally leave in the claim of one voter.\<close>

lemma tally_marks_claim:
  fixes cl C w ps
  defines "cl' \<equiv> fold (\<lambda>(x, b). tally_mark C x b) ps cl"
    and "mine \<equiv> filter (\<lambda>(x, b). ValAddressString C (Voter x) = w) ps"
    and "c \<equiv> (case kv_get cl w of None \<Rightarrow> zero_claim | Some c \<Rightarrow> c)"
  shows "if mine = [] then kv_get cl' w = kv_get cl w
    else \<exists>c'. kv_get cl' w = Some c' \<and> DidVote c' \<and> Recipient c' = Recipient c \<and>
      cl_Power c' = cl_Power c \<and> i64 (WinCount c') = i64 (WinCount c + int (length (filter snd mine)))"
  unfolding assms
proof (induction ps arbitrary: cl)
  case (Cons p ps)
  obtain x b where p: "p = (x, b)" by (cases p)
  have i64_cong: "i64 y = i64 (i64 (a + 1) + n) \<Longrightarrow> i64 y = i64 (a + (1 + n))" for y a n
    by (simp add: i64_def mod_simps algebra_simps)
  show ?case
  proof (cases "ValAddressString C (Voter x) = w")
    case False
    have "kv_get (tally_mark C x b cl) w = kv_get cl w"
      using False by (auto simp: tally_mark_get)
    then show ?thesis
      using Cons.IH [of "tally_mark C x b cl"] False by (simp add: p del: filter_filter split: if_splits)
  next
    case True
    then show ?thesis using Cons.IH [of "tally_mark C x b cl"]
      by (cases b) (auto simp: p tally_mark_get Let_def simp del: filter_filter
          split: if_splits intro!: i64_cong)
  qed
qed simp

context decimals
begin

lemma tally_wins_iff:
  "tally_wins D m sp v = Inr b \<Longrightarrow> b \<longleftrightarrow> \<bar>vft_ExchangeRate v - m\<bar> \<le> sp"
  by (auto simp: tally_wins_def res_simps dest!: sub_exact add_exact split: if_splits)

end

section \<open>Properties\<close>

text \<open>
  whatever order Go ranges over the map of ballots in, \<open>pickReferenceDenom\<close> keeps exactly the
  ballots of vote targets that reach the threshold, moves the other ballots of vote targets to
  the below-threshold map and drops their denoms from the vote targets, and names as reference
  the passing denom of highest power, the alphabetically first among equals (none when none
  passes).
\<close>

lemma pickReferenceDenom_correct:
  assumes "pickReferenceDenom order k st voteTargets voteMap = Inr p"
    and "threshold_votes k st = Inr thr"
    and "kv_ok voteTargets" and "kv_ok voteMap" and "mset order = mset (kv_keys voteMap)"
  shows "pk_votes p = filter (\<lambda>(d, _). passing thr voteTargets voteMap d) voteMap \<and>
    pk_below p = filter (\<lambda>(d, _). kv_has voteTargets d \<and> \<not> passing thr voteTargets voteMap d) voteMap \<and>
    pk_targets p = filter (\<lambda>(d, _). \<not> (kv_has voteMap d \<and> \<not> passing thr voteTargets voteMap d)) voteTargets \<and>
    (if pk_votes p = [] then pk_reference p = []
     else kv_has (pk_votes p) (pk_reference p) \<and>
       (\<forall>(d, b) \<in> set (pk_votes p).
          ballot_Power b < ballot_Power (ballot_of voteMap (pk_reference p)) \<or>
          ballot_Power b = ballot_Power (ballot_of voteMap (pk_reference p)) \<and> pk_reference p \<le> d))"
proof -
  have p: "p = fold (pick_step thr) order \<lparr>pk_reference = [], pk_highest = 0, pk_below = [],
      pk_targets = voteTargets, pk_votes = voteMap\<rparr>"
    using assms(1,2) by (simp add: pickReferenceDenom_def)
  note r = pick_result [OF assms(3,4,5) p]
  have b: "ballot_of voteMap d = b" if "(d, b) \<in> set voteMap" for d b
    using that kv_get_in [OF assms(4)] by (simp add: ballot_of_def)
  show ?thesis
    using r b unfolding best_denom_def
    by (auto simp: filter_empty_conv kv_has_iff image_iff split: if_splits)
qed

definition sample_ballots :: vote_map where
  "sample_ballots =
     [(''ubtc'', [sample_vote 5 ''alice'' 10]), (''ueth'', [sample_vote 7 ''alice'' 10]),
      (''usol'', [sample_vote 9 ''bob'' 1])]"

definition sample_targets :: "(string, oracle_Denom) kv" where
  "sample_targets = map (\<lambda>n. (n, \<lparr>Name = n\<rparr>)) [''ubtc'', ''ueth'', ''usol'']"

lemma pickReferenceDenom_correct_witness:
  "\<exists>p. pickReferenceDenom [''usol'', ''ueth'', ''ubtc''] sample_keeper sample_state sample_targets
      sample_ballots = Inr p \<and> kv_keys (pk_votes p) = [''ubtc'', ''ueth''] \<and> kv_keys (pk_below p) = [''usol'']"
proof -
  have t: "threshold_votes sample_keeper sample_state = Inr 7" by code_simp
  obtain p where p: "pickReferenceDenom [''usol'', ''ueth'', ''ubtc''] sample_keeper sample_state
      sample_targets sample_ballots = Inr p"
    using t by (simp add: pickReferenceDenom_def)
  have ok: "kv_ok sample_targets" "kv_ok sample_ballots"
    by (simp_all add: kv_ok_def sample_targets_def sample_ballots_def)
  have m: "mset [''usol'', ''ueth'', ''ubtc''] = mset (kv_keys sample_ballots)"
    by (simp add: sample_ballots_def)
  have e: "kv_keys (filter (\<lambda>(d, _). passing 7 sample_targets sample_ballots d) sample_ballots) =
        [''ubtc'', ''ueth'']"
      "kv_keys (filter (\<lambda>(d, _). kv_has sample_targets d \<and>
        \<not> passing 7 sample_targets sample_ballots d) sample_ballots) = [''usol'']"
    by code_simp+
  note c = pickReferenceDenom_correct [OF p t ok m]
  have below: "kv_keys (pk_below p) = [''usol'']"
    unfolding c [THEN conjunct2, THEN conjunct1] by (rule e(2))
  have v: "kv_keys (pk_votes p) = [''ubtc'', ''ueth'']"
    unfolding c [THEN conjunct1] by (rule e(1))
  show ?thesis by (intro exI conjI) (rule p v below)+
qed

text \<open>
  C35: \<open>Tally\<close> returns the weighted median, marks every voter of the ballot, and nobody else, as
  having voted, and counts a win for exactly the votes whose distance from the median is at most
  a spread that is never below the standard deviation; power and recipient of a claim never
  change.
\<close>

theorem Tally_correct:
  assumes "decimals D" and "Tally D C ex band claims = Inr (m, claims')"
  shows "WeightedMedianWithAssertion ex = Inr m \<and>
    (\<exists>sd spread. StandardDeviation D ex m = Inr sd \<and> reward_spread D ex band m = Inr spread \<and>
      sd \<le> spread \<and>
      (\<forall>w. let votes = filter (\<lambda>v. ValAddressString C (Voter v) = w) ex;
               c = (case kv_get claims w of None \<Rightarrow> zero_claim | Some c \<Rightarrow> c)
           in if votes = [] then kv_get claims' w = kv_get claims w
              else \<exists>c'. kv_get claims' w = Some c' \<and> DidVote c' \<and> Recipient c' = Recipient c \<and>
                cl_Power c' = cl_Power c \<and>
                i64 (WinCount c') = i64 (WinCount c +
                  int (length (filter (\<lambda>v. \<bar>vft_ExchangeRate v - m\<bar> \<le> spread) votes)))))"
proof -
  obtain spread where m: "WeightedMedianWithAssertion ex = Inr m"
      and sp: "reward_spread D ex band m = Inr spread"
      and marks: "foldR (\<lambda>v cl. bindR (tally_wins D m spread v) (\<lambda>b. Inr (tally_mark C v b cl))) ex
        claims = Inr claims'"
    using assms(2) by (auto simp: Tally_def res_simps)
  obtain sd where sd: "StandardDeviation D ex m = Inr sd" "sd \<le> spread"
    using sp by (auto simp: reward_spread_def res_simps split: if_splits)
  obtain bs where bs: "mapR (tally_wins D m spread) ex = Inr bs"
      and cl': "claims' = fold (\<lambda>(x, b). tally_mark C x b) (zip ex bs) claims"
    using marks by (auto simp: foldR_check_mark split: sum.splits)
  have z: "bs = map (\<lambda>v. \<bar>vft_ExchangeRate v - m\<bar> \<le> spread) ex"
    using bs decimals.tally_wins_iff [OF assms(1)]
    by (auto simp: mapR_Inr_iff list_all2_conv_all_nth intro!: nth_equalityI)
  have f: "filter (\<lambda>(x, b). ValAddressString C (Voter x) = w) (zip ex (map g ex)) =
      map (\<lambda>x. (x, g x)) (filter (\<lambda>v. ValAddressString C (Voter v) = w) ex)" for w g
    by (induction ex) auto
  have l: "length (filter snd (map (\<lambda>x. (x, g x)) xs)) = length (filter g xs)"
    for g :: "VoteForTally \<Rightarrow> bool" and xs
    by (induction xs) auto
  show ?thesis
    using m sd sp tally_marks_claim [of C _ "zip ex bs" claims]
    unfolding cl' z f l Let_def map_is_Nil_conv by blast
qed

theorem Tally_correct_witness:
  "Tally legacy_dec toy_codec [sample_vote (10 ^ 18) ''a'' 4, sample_vote (10 ^ 20) ''b'' 9]
     (2 * 10 ^ 16) [] = Inr (10 ^ 20, snd (projr (Tally legacy_dec toy_codec
       [sample_vote (10 ^ 18) ''a'' 4, sample_vote (10 ^ 20) ''b'' 9] (2 * 10 ^ 16) []))) \<and>
   WeightedMedianWithAssertion [sample_vote (10 ^ 18) ''a'' 4, sample_vote (10 ^ 20) ''b'' 9] = Inr (10 ^ 20)"
proof
  let ?ex = "[sample_vote (10 ^ 18) ''a'' 4, sample_vote (10 ^ 20) ''b'' 9]"
  show t: "Tally legacy_dec toy_codec ?ex (2 * 10 ^ 16) [] =
      Inr (10 ^ 20, snd (projr (Tally legacy_dec toy_codec ?ex (2 * 10 ^ 16) [])))"
    by code_simp
  show "WeightedMedianWithAssertion ?ex = Inr (10 ^ 20)"
    using Tally_correct [OF legacy.decimals_axioms t] by blast
qed

end
