(* ===== verification/OracleSlash.thy ===== *)
theory OracleSlash
  imports OracleTally
begin

text \<open>
  \<open>x/oracle/keeper/slash.go\<close>: at the end of a slash window every validator whose share of
  successful votes is below the minimum is slashed, and the counters are reset. The walk visits
  the counters as they were when it started.
\<close>

definition ValidatorUpdateDelay :: int where "ValidatorUpdateDelay = 1"

definition total_votes :: "VotePenaltyCounter \<Rightarrow> int" where
  "total_votes v = u64 (u64 (SuccessCount v + AbstainCount v) + MissCount v)"

definition slash_validator ::
  "('b, 's) oracle_Keeper \<Rightarrow> int \<Rightarrow> int \<Rightarrow> dec \<Rightarrow> addr \<Rightarrow> 's \<Rightarrow> 's res" where
  "slash_validator k powerReduction distributionHeight slashFraction operator s =
     (let S = ok_StakingKeeper k
      in bindR (wrapR (Panic ''validator'') (stk_Validator S s operator)) (\<lambda>v.
         bindR (deref v) (\<lambda>validator.
         if IsBonded validator \<and> \<not> IsJailed validator
         then bindR (wrapR (Panic ''consensus address'') (GetConsAddr validator)) (\<lambda>consAddr.
                stk_Slash S consAddr distributionHeight (GetConsensusPower validator powerReduction)
                  slashFraction s)
         else Inr s)))"

definition slash_counter ::
  "('b, 's) oracle_Keeper \<Rightarrow> oracle_Params \<Rightarrow> int \<Rightarrow> int \<Rightarrow> addr \<times> VotePenaltyCounter \<Rightarrow>
   ('b, 's) oracle_state \<Rightarrow> (bool \<times> ('b, 's) oracle_state) res" where
  "slash_counter k params powerReduction distributionHeight = (\<lambda>(operator, votePenaltyCounter) st.
     let successCount = SuccessCount votePenaltyCounter;
         abstainCount = AbstainCount votePenaltyCounter;
         missCount = MissCount votePenaltyCounter;
         totalVotes = total_votes votePenaltyCounter
     in if totalVotes = 0 then Inr (False, st)
        else bindR (dec_QuoInt64 (ok_dec k) (i64 successCount * dec_unit) (i64 totalVotes)) (\<lambda>validVoteRate.
          bindR (if validVoteRate < MinValidPerWindow params
                 then bindR (slash_validator k powerReduction distributionHeight (SlashFraction params)
                               operator (ork_staking st)) (\<lambda>s. Inr (st\<lparr>ork_staking := s\<rparr>))
                 else Inr st) (\<lambda>st.
          let st = oracle_emit (EvEndSlashWindow operator missCount abstainCount successCount) st
          in Inr (False, st\<lparr>ork_VotePenaltyCounter := kv_remove operator (ork_VotePenaltyCounter st)\<rparr>))))"

definition SlashAndResetCounters ::
  "('b, 's) oracle_Keeper \<Rightarrow> ctx \<Rightarrow> ('b, 's) oracle_state \<Rightarrow> ('b, 's) oracle_state res" where
  "SlashAndResetCounters k c st =
     (let height = BlockHeight c;
          distributionHeight = i64 (i64 (height - ValidatorUpdateDelay) - 1)
      in bindR (oracle_GetParams st) (\<lambda>params.
         let powerReduction = stk_PowerReduction (ok_StakingKeeper k) (ork_staking st)
         in walkR (slash_counter k params powerReduction distributionHeight) (ork_VotePenaltyCounter st) st))"

section \<open>Lemmas\<close>

text \<open>A counter whose three counts add up without overflow.\<close>

definition counter_ok :: "VotePenaltyCounter \<Rightarrow> bool" where
  "counter_ok v \<longleftrightarrow> 0 \<le> MissCount v \<and> 0 \<le> AbstainCount v \<and> 0 \<le> SuccessCount v \<and>
     SuccessCount v + AbstainCount v + MissCount v < 2 ^ 63"

text \<open>What a window means for a validator, stated on the exact share of its successful votes and on
  the interface of the staking module: below the minimum the validator must exist, and it is
  slashed for the height two blocks back with its consensus power when it is bonded and not
  jailed; otherwise nothing happens to the staking state.\<close>

definition below_minimum :: "oracle_Params \<Rightarrow> VotePenaltyCounter \<Rightarrow> bool" where
  "below_minimum p v \<longleftrightarrow>
     SuccessCount v * dec_unit < MinValidPerWindow p * (SuccessCount v + AbstainCount v + MissCount v)"

definition sentenced ::
  "('b, 's) oracle_Keeper \<Rightarrow> oracle_Params \<Rightarrow> int \<Rightarrow> int \<Rightarrow> addr \<Rightarrow> VotePenaltyCounter \<Rightarrow> 's \<Rightarrow> 's \<Rightarrow> bool" where
  "sentenced k p powerReduction height operator v s s' \<longleftrightarrow>
     (if below_minimum p v
      then \<exists>validator. stk_Validator (ok_StakingKeeper k) s operator = Inr (Some validator) \<and>
        (if IsBonded validator \<and> \<not> IsJailed validator
         then \<exists>consAddr. GetConsAddr validator = Inr consAddr \<and>
           stk_Slash (ok_StakingKeeper k) consAddr (height - 2) (GetConsensusPower validator powerReduction)
             (SlashFraction p) s = Inr s'
         else s' = s)
      else s' = s)"

inductive judged ::
  "('b, 's) oracle_Keeper \<Rightarrow> oracle_Params \<Rightarrow> int \<Rightarrow> int \<Rightarrow> (addr \<times> VotePenaltyCounter) list \<Rightarrow>
   's \<Rightarrow> 's \<Rightarrow> bool" for k p powerReduction height where
  judged_Nil: "judged k p powerReduction height [] s s"
| judged_Cons: "sentenced k p powerReduction height a v s s1 \<Longrightarrow>
    judged k p powerReduction height xs s1 s' \<Longrightarrow> judged k p powerReduction height ((a, v) # xs) s s'"

inductive_cases judged_NilE: "judged k p powerReduction height [] s s'"
inductive_cases judged_ConsE: "judged k p powerReduction height ((a, v) # xs) s s'"

text \<open>The code's slashing of one validator, by the cases of its record.\<close>

lemma sentenced_iff:
  "sentenced k p powerReduction h a v s s' \<longleftrightarrow>
     (if below_minimum p v then slash_validator k powerReduction (h - 2) (SlashFraction p) a s = Inr s'
      else s' = s)"
  by (auto simp: sentenced_def slash_validator_def Let_def res_simps)

lemma counter_total:
  "counter_ok v \<Longrightarrow> total_votes v = SuccessCount v + AbstainCount v + MissCount v"
  by (simp add: counter_ok_def total_votes_def u64_def)


lemma div_less_mult: "0 < t \<Longrightarrow> x div t < m \<longleftrightarrow> x < m * (t :: int)"
proof
  assume t: "0 < t" and "x div t < m"
  show "x < m * t"
  proof (rule ccontr)
    assume "\<not> x < m * t"
    then have "m * t div t \<le> x div t" using t by (intro zdiv_mono1) auto
    with t \<open>x div t < m\<close> show False by simp
  qed
next
  assume t: "0 < t" and x: "x < m * t"
  have "x div t * t + x mod t = x" "0 \<le> x mod t" using t by simp_all
  then have "x div t * t < m * t" using x by linarith
  then show "x div t < m" using t by simp
qed

lemma key_of_filter:
  assumes "distinct (map fst xs)" and "(k, v) \<in> set xs"
  shows "k \<in> set (map fst (filter (\<lambda>(a, v). Q v) xs)) \<longleftrightarrow> Q v"
proof
  assume "k \<in> set (map fst (filter (\<lambda>(a, v). Q v) xs))"
  then obtain v' where "(k, v') \<in> set xs" "Q v'" by auto
  with assms show "Q v" by (metis eq_key_imp_eq_value)
qed (use assms in force)

context decimals
begin

lemma slash_counter_step:
  assumes "ok_dec k = D" and "counter_ok v" and "- (2 ^ 62) \<le> h" "h < 2 ^ 62"
    and "slash_counter k p pr (h - 2) (a, v) st = Inr (stop, st')"
  shows "\<not> stop \<and> (if total_votes v = 0 then st' = st
    else \<exists>s. sentenced k p pr h a v (ork_staking st) s \<and>
      st' = st\<lparr>ork_staking := s,
              ork_events := ork_events st @ [EvEndSlashWindow a (MissCount v) (AbstainCount v) (SuccessCount v)],
              ork_VotePenaltyCounter := kv_remove a (ork_VotePenaltyCounter st)\<rparr>)"
proof (cases "total_votes v = 0")
  case False
  let ?t = "SuccessCount v + AbstainCount v + MissCount v"
  have t: "total_votes v = ?t" using assms(2) by (rule counter_total)
  then have b: "0 < ?t" "?t < 2 ^ 63" "0 \<le> SuccessCount v" "SuccessCount v < 2 ^ 63"
    using assms(2) False by (auto simp: counter_ok_def)
  then have i: "i64 (SuccessCount v) = SuccessCount v" "i64 ?t = ?t"
    by (auto intro: i64_id)
  have q: "dec_QuoInt64 D (SuccessCount v * dec_unit) ?t = Inr (SuccessCount v * dec_unit div ?t)"
    using b by (intro quoint_nonneg) (auto simp: dec_unit_def)
  have j: "SuccessCount v * dec_unit div ?t < MinValidPerWindow p \<longleftrightarrow>
      SuccessCount v * dec_unit < MinValidPerWindow p * ?t"
    using b(1) by (rule div_less_mult)
  show ?thesis
    using assms(5) False unfolding slash_counter_def sentenced_iff below_minimum_def
    by (auto simp: Let_def t i q j assms(1) res_simps oracle_emit_def split: if_splits)
qed (use assms in \<open>auto simp: slash_counter_def Let_def\<close>)

lemma slash_walk:
  assumes "ok_dec k = D" and "- (2 ^ 62) \<le> h" "h < 2 ^ 62"
    and "\<forall>(a, v) \<in> set xs. counter_ok v"
    and "walkR (slash_counter k p pr (h - 2)) xs st = Inr st'"
  shows "\<exists>s. judged k p pr h xs (ork_staking st) s \<and>
    st' = st\<lparr>ork_staking := s,
      ork_events := ork_events st @ map (\<lambda>(a, v). EvEndSlashWindow a (MissCount v) (AbstainCount v)
        (SuccessCount v)) (filter (\<lambda>(a, v). total_votes v \<noteq> 0) xs),
      ork_VotePenaltyCounter := fold kv_remove (map fst (filter (\<lambda>(a, v). total_votes v \<noteq> 0) xs))
        (ork_VotePenaltyCounter st)\<rparr>"
  using assms(4,5)
proof (induction xs arbitrary: st)
  case (Cons x xs)
  obtain a v where x: "x = (a, v)" by (cases x)
  obtain stop st1 where st1: "slash_counter k p pr (h - 2) (a, v) st = Inr (stop, st1)"
      and rest: "if stop then st' = st1 else walkR (slash_counter k p pr (h - 2)) xs st1 = Inr st'"
    using Cons.prems(2) by (auto simp: x res_simps split: if_splits)
  have v: "counter_ok v" using Cons.prems(1) by (simp add: x)
  note step = slash_counter_step [OF assms(1) v assms(2,3) st1]
  have IH: "\<exists>s. judged k p pr h xs (ork_staking st1) s \<and>
    st' = st1\<lparr>ork_staking := s,
      ork_events := ork_events st1 @ map (\<lambda>(a, v). EvEndSlashWindow a (MissCount v) (AbstainCount v)
        (SuccessCount v)) (filter (\<lambda>(a, v). total_votes v \<noteq> 0) xs),
      ork_VotePenaltyCounter := fold kv_remove (map fst (filter (\<lambda>(a, v). total_votes v \<noteq> 0) xs))
        (ork_VotePenaltyCounter st1)\<rparr>"
    using Cons.IH [of st1] Cons.prems(1) rest step by simp
  show ?case
  proof (cases "total_votes v = 0")
    case True
    then have "SuccessCount v = 0" "SuccessCount v + AbstainCount v + MissCount v = 0"
      using counter_total [OF v] v by (auto simp: counter_ok_def)
    then have "sentenced k p pr h a v (ork_staking st) (ork_staking st)"
      by (simp add: sentenced_def below_minimum_def)
    then show ?thesis using IH step True by (auto simp: x intro: judged_Cons)
  next
    case False
    then obtain s1 where s1: "sentenced k p pr h a v (ork_staking st) s1" "ork_staking st1 = s1"
      using step by auto
    moreover obtain s where "judged k p pr h xs s1 s"
      "st' = st1\<lparr>ork_staking := s,
        ork_events := ork_events st1 @ map (\<lambda>(a, v). EvEndSlashWindow a (MissCount v) (AbstainCount v)
          (SuccessCount v)) (filter (\<lambda>(a, v). total_votes v \<noteq> 0) xs),
        ork_VotePenaltyCounter := fold kv_remove (map fst (filter (\<lambda>(a, v). total_votes v \<noteq> 0) xs))
          (ork_VotePenaltyCounter st1)\<rparr>"
      using IH s1(2) by blast
    ultimately show ?thesis
      using step False by (intro exI [of _ s]) (auto simp: x intro: judged_Cons)
  qed
qed (auto intro: judged_Nil)

end

section \<open>Properties\<close>

text \<open>
  C30: At the end of a slash window the validators with a counter are judged in the order of their
  addresses.  The bonded and not jailed ones whose successful votes are fewer than the minimum
  share of all their votes, by the exact test (the truncated division of the code changes no
  decision), are slashed by the slash fraction on their consensus power, with the slash dated two
  blocks back; for every other one, jailed or unbonded ones below the minimum too, the staking
  state stays as it is.  Every counter with votes is reported with its three counts and removed,
  one without votes stays, and nothing else changes.
\<close>

theorem SlashAndResetCounters_correct:
  assumes "decimals (ok_dec k)" and "SlashAndResetCounters k c st = Inr st'"
    and "ork_Params st = Some p" and "kv_ok (ork_VotePenaltyCounter st)"
    and "\<forall>(a, v) \<in> set (ork_VotePenaltyCounter st). counter_ok v"
    and "- (2 ^ 62) \<le> BlockHeight c" and "BlockHeight c < 2 ^ 62"
  shows "\<exists>s. judged k p (stk_PowerReduction (ok_StakingKeeper k) (ork_staking st)) (BlockHeight c)
        (ork_VotePenaltyCounter st) (ork_staking st) s \<and>
    st' = st\<lparr>ork_staking := s,
      ork_events := ork_events st @ map (\<lambda>(a, v). EvEndSlashWindow a (MissCount v) (AbstainCount v)
        (SuccessCount v)) (filter (\<lambda>(a, v). total_votes v \<noteq> 0) (ork_VotePenaltyCounter st)),
      ork_VotePenaltyCounter := filter (\<lambda>(a, v). total_votes v = 0) (ork_VotePenaltyCounter st)\<rparr>"
proof -
  let ?xs = "ork_VotePenaltyCounter st"
  have h: "i64 (i64 (BlockHeight c - ValidatorUpdateDelay) - 1) = BlockHeight c - 2"
    using assms(6,7) by (simp add: ValidatorUpdateDelay_def i64_id)
  have d: "fst p \<notin> set (map fst (filter (\<lambda>(a, v). total_votes v \<noteq> 0) ?xs)) \<longleftrightarrow> total_votes (snd p) = 0"
    if "p \<in> set ?xs" for p
    using that key_of_filter [OF kv_ok_distinct [OF assms(4)], of "fst p" "snd p" "\<lambda>v. total_votes v \<noteq> 0"]
    by simp
  have r: "fold kv_remove (map fst (filter (\<lambda>(a, v). total_votes v \<noteq> 0) ?xs)) ?xs =
      filter (\<lambda>(a, v). total_votes v = 0) ?xs"
    unfolding fold_kv_remove_filter using d by (intro filter_cong) auto
  have "walkR (slash_counter k p (stk_PowerReduction (ok_StakingKeeper k) (ork_staking st))
      (BlockHeight c - 2)) ?xs st = Inr st'"
    using assms(2,3) by (simp add: SlashAndResetCounters_def oracle_GetParams_def h Let_def)
  from decimals.slash_walk [OF assms(1) refl assms(6,7,5) this] show ?thesis
    unfolding r .
qed

text \<open>Alice is bonded and below the minimum, Bob has no votes, Carol is below the minimum and
  jailed, Dave has enough successful votes.\<close>

definition slash_counters :: "(addr \<times> VotePenaltyCounter) list" where
  "slash_counters =
     [(''alice'', \<lparr>MissCount = 30, AbstainCount = 70, SuccessCount = 5\<rparr>),
      (''bob'', \<lparr>MissCount = 0, AbstainCount = 0, SuccessCount = 0\<rparr>),
      (''carol'', \<lparr>MissCount = 99, AbstainCount = 1, SuccessCount = 0\<rparr>),
      (''dave'', \<lparr>MissCount = 0, AbstainCount = 1, SuccessCount = 99\<rparr>)]"

definition slash_staking :: toy_staking where
  "slash_staking =
     \<lparr>ts_vals = [(''alice'', toy_validator ''alice'' 10),
        (''carol'', (toy_validator ''carol'' 20)\<lparr>IsJailed := True\<rparr>), (''dave'', toy_validator ''dave'' 30)],
      ts_slashed = []\<rparr>"

definition slash_state :: "(ledger, toy_staking) oracle_state" where
  "slash_state = sample_state\<lparr>ork_VotePenaltyCounter := slash_counters, ork_staking := slash_staking\<rparr>"

lemma slash_sentences:
  assumes "judged sample_keeper oracle_DefaultParams pr h slash_counters slash_staking s"
  shows "ts_slashed s = [(''alice'', 10)]"
proof -
  have below: "below_minimum oracle_DefaultParams (snd (slash_counters ! 0))"
    "\<not> below_minimum oracle_DefaultParams (snd (slash_counters ! 1))"
    "below_minimum oracle_DefaultParams (snd (slash_counters ! 2))"
    "\<not> below_minimum oracle_DefaultParams (snd (slash_counters ! 3))"
    by code_simp+
  obtain s1 s2 s3 where steps:
    "sentenced sample_keeper oracle_DefaultParams pr h ''alice'' (snd (slash_counters ! 0)) slash_staking s1"
    "sentenced sample_keeper oracle_DefaultParams pr h ''bob'' (snd (slash_counters ! 1)) s1 s2"
    "sentenced sample_keeper oracle_DefaultParams pr h ''carol'' (snd (slash_counters ! 2)) s2 s3"
    "sentenced sample_keeper oracle_DefaultParams pr h ''dave'' (snd (slash_counters ! 3)) s3 s"
    using assms unfolding slash_counters_def by (elim judged_ConsE judged_NilE) simp
  have "s1 = slash_staking\<lparr>ts_slashed := [(''alice'', 10)]\<rparr>"
    using steps(1) below(1)
    by (simp add: sentenced_def sample_keeper_def toy_staking_ops_def slash_staking_def toy_validator_def)
  moreover have "s2 = s1" "s = s3"
    using steps(2,4) below(2,4) by (simp_all add: sentenced_def)
  ultimately show ?thesis
    using steps(3) below(3)
    by (simp add: sentenced_def sample_keeper_def toy_staking_ops_def slash_staking_def toy_validator_def)
qed

theorem SlashAndResetCounters_correct_witness:
  "\<exists>st'. SlashAndResetCounters sample_keeper (sample_ctx 48959 6000) slash_state = Inr st' \<and>
     kv_keys (ork_VotePenaltyCounter st') = [''bob''] \<and> ts_slashed (ork_staking st') = [(''alice'', 10)]"
proof -
  obtain st' where st': "SlashAndResetCounters sample_keeper (sample_ctx 48959 6000) slash_state = Inr st'"
  proof -
    have "is_ok (SlashAndResetCounters sample_keeper (sample_ctx 48959 6000) slash_state)"
      by code_simp
    then show ?thesis
      using that by (cases "SlashAndResetCounters sample_keeper (sample_ctx 48959 6000) slash_state") auto
  qed
  have h: "ork_Params slash_state = Some oracle_DefaultParams" "kv_ok (ork_VotePenaltyCounter slash_state)"
      "\<forall>(a, v) \<in> set (ork_VotePenaltyCounter slash_state). counter_ok v"
      "- (2 ^ 62) \<le> BlockHeight (sample_ctx 48959 6000)" "BlockHeight (sample_ctx 48959 6000) < 2 ^ 62"
    by (simp_all add: slash_state_def slash_counters_def sample_state_def kv_ok_def counter_ok_def sample_ctx_def)
  have d: "decimals (ok_dec sample_keeper)"
    by (simp add: sample_keeper_def legacy.decimals_axioms)
  obtain s where s: "judged sample_keeper oracle_DefaultParams
      (stk_PowerReduction (ok_StakingKeeper sample_keeper) (ork_staking slash_state))
      (BlockHeight (sample_ctx 48959 6000)) (ork_VotePenaltyCounter slash_state) (ork_staking slash_state) s"
    "ork_staking st' = s"
    "ork_VotePenaltyCounter st' = filter (\<lambda>(a, v). total_votes v = 0) (ork_VotePenaltyCounter slash_state)"
    using SlashAndResetCounters_correct [OF d st' h] by (elim exE conjE) (rule that, assumption, simp_all)
  have "kv_keys (filter (\<lambda>(a, v). total_votes v = 0) (ork_VotePenaltyCounter slash_state)) = [''bob'']"
    by code_simp
  then have "kv_keys (ork_VotePenaltyCounter st') = [''bob'']" using s(3) by (simp only:)
  moreover have eq: "ork_VotePenaltyCounter slash_state = slash_counters" "ork_staking slash_state = slash_staking"
    by (simp_all add: slash_state_def)
  have "ts_slashed (ork_staking st') = [(''alice'', 10)]"
    unfolding s(2) by (rule slash_sentences [OF s(1) [unfolded eq]])
  ultimately show ?thesis using st' by (intro exI [of _ st'] conjI)
qed

end
