(* ===== verification/OracleAbci.thy ===== *)
theory OracleAbci
  imports OracleSlash
begin

text \<open>
  \<open>x/oracle/abci.go\<close>: the end blocker closes a vote period (claims, ballots, tallies, counters,
  whitelist, snapshot) and the begin blocker a slash window. Go ranges over the maps of ballots
  and claims in an order that changes from run to run: it is the argument \<open>rng\<close>, and the sort of
  a ballot the argument \<open>srt\<close>.
\<close>

section \<open>End blocker\<close>

definition register_validator ::
  "('b, 's) oracle_Keeper \<Rightarrow> ('b, 's) oracle_state \<Rightarrow> int \<Rightarrow> addr \<Rightarrow> claims \<Rightarrow> claims res" where
  "register_validator k st powerReduction valAddr validatorClaimMap =
     bindR (stk_Validator (ok_StakingKeeper k) (ork_staking st) valAddr) (\<lambda>v.
     bindR (deref v) (\<lambda>validator.
     if IsBonded validator
     then
       let valPower = GetConsensusPower validator powerReduction;
           operator = GetOperator validator;
           operatorAddr = (case ValAddressFromBech32 (ok_codec k) operator of Inl _ \<Rightarrow> [] | Inr a \<Rightarrow> a)
       in Inr (kv_set operator (NewClaim valPower 0 0 False operatorAddr) validatorClaimMap)
     else Inr validatorClaimMap))"

definition collect_claims ::
  "('b, 's) oracle_Keeper \<Rightarrow> ('b, 's) oracle_state \<Rightarrow> claims res" where
  "collect_claims k st =
     bindR (stk_ValidatorsPowerStore (ok_StakingKeeper k) (ork_staking st)) (\<lambda>iterator.
     let powerReduction = stk_PowerReduction (ok_StakingKeeper k) (ork_staking st)
     in foldR (register_validator k st powerReduction) iterator [])"

definition tally_denom ::
  "(ballot \<Rightarrow> ballot) \<Rightarrow> ('b, 's) oracle_Keeper \<Rightarrow> ctx \<Rightarrow> dec \<Rightarrow> string \<Rightarrow> vote_map \<Rightarrow> dec \<Rightarrow> string \<Rightarrow>
   claims \<times> ('b, 's) oracle_state \<Rightarrow> (claims \<times> ('b, 's) oracle_state) res" where
  "tally_denom srt k c rewardBand referenceDenom voteMap exchangeRateRD denom = (\<lambda>(validatorClaimMap, st).
     let D = ok_dec k;
         votingMapRD = ToMap (ballot_of voteMap referenceDenom);
         votingTally = ballot_of voteMap denom;
         votingTally = (if denom \<noteq> referenceDenom
                        then ToCrossRateWithSort D srt votingTally votingMapRD else votingTally)
     in bindR (Tally D (ok_codec k) votingTally rewardBand validatorClaimMap)
          (\<lambda>(exchangeRate, validatorClaimMap).
        if exchangeRate = 0 then Inr (validatorClaimMap, st)
        else bindR (if denom \<noteq> referenceDenom then dec_Quo D exchangeRateRD exchangeRate
                    else Inr exchangeRate) (\<lambda>exchangeRate.
          Inr (validatorClaimMap, SetBaseExchangeRateWithEvent c denom exchangeRate st))))"

definition tally_reference ::
  "(ballot \<Rightarrow> ballot) \<Rightarrow> ('b, 's) oracle_Keeper \<Rightarrow> ctx \<Rightarrow> dec \<Rightarrow> string \<Rightarrow> vote_map \<Rightarrow>
   claims \<times> ('b, 's) oracle_state \<Rightarrow> (claims \<times> ('b, 's) oracle_state) res" where
  "tally_reference srt k c rewardBand referenceDenom voteMap s =
     (if referenceDenom \<noteq> []
      then bindR (WeightedMedianWithAssertion (ballot_of voteMap referenceDenom)) (\<lambda>exchangeRateRD.
        foldR (tally_denom srt k c rewardBand referenceDenom voteMap exchangeRateRD)
          (kv_keys voteMap) s)
      else Inr s)"

definition tally_below ::
  "('b, 's) oracle_Keeper \<Rightarrow> dec \<Rightarrow> vote_map \<Rightarrow> claims \<Rightarrow> claims res" where
  "tally_below k rewardBand belowThresholdVoteMap validatorClaimMap =
     foldR (\<lambda>denom validatorClaimMap.
         bindR (Tally (ok_dec k) (ok_codec k) (ballot_of belowThresholdVoteMap denom) rewardBand
                  validatorClaimMap) (\<lambda>(_, validatorClaimMap). Inr validatorClaimMap))
       (kv_keys belowThresholdVoteMap) validatorClaimMap"

definition count_claim :: "int \<Rightarrow> Claim \<Rightarrow> ('b, 's) oracle_state \<Rightarrow> ('b, 's) oracle_state" where
  "count_claim nTargets claim st =
     (if WinCount claim = nTargets then IncrementSuccessCount (Recipient claim) st
      else if \<not> DidVote claim then IncrementAbstainCount (Recipient claim) st
      else IncrementMissCount (Recipient claim) st)"

definition take_snapshot ::
  "ctx \<Rightarrow> ('b, 's) oracle_state \<Rightarrow> ('b, 's) oracle_state res" where
  "take_snapshot c st =
     (let priceSnapshotItems =
            map (\<lambda>(denom, exchangeRate). \<lparr>psi_Denom = denom, psi_OracleExchangeRate = exchangeRate\<rparr>)
              (ork_ExchangeRate st)
      in if 0 < length priceSnapshotItems
         then AddPriceSnapshot c \<lparr>SnapshotTimestamp = time_Unix (BlockTime c),
                                  PriceSnapshotItems = priceSnapshotItems\<rparr> st
         else Inr st)"

definition EndBlocker ::
  "(string list \<Rightarrow> string list) \<Rightarrow> (ballot \<Rightarrow> ballot) \<Rightarrow> ('b, 's) oracle_Keeper \<Rightarrow> ctx \<Rightarrow>
   ('b, 's) oracle_state \<Rightarrow> ('b, 's) oracle_state res" where
  "EndBlocker rng srt k c st =
     bindR (oracle_GetParams st) (\<lambda>params.
     bindR (IsPeriodLastBlock c (VotePeriod params)) (\<lambda>lastBlock.
     if \<not> lastBlock then Inr st
     else
       bindR (collect_claims k st) (\<lambda>validatorClaimMap.
       let voteTargets = ork_VoteTarget st;
           voteMap = OrganizeBallotByDenom srt st validatorClaimMap
       in bindR (pickReferenceDenom (rng (kv_keys voteMap)) k st voteTargets voteMap) (\<lambda>p.
       bindR (tally_reference srt k c (RewardBand params) (pk_reference p) (pk_votes p)
                (validatorClaimMap, st)) (\<lambda>(validatorClaimMap, st).
       bindR (tally_below k (RewardBand params) (pk_below p) validatorClaimMap) (\<lambda>validatorClaimMap.
       let claim_of = (\<lambda>key. case kv_get validatorClaimMap key of None \<Rightarrow> zero_claim | Some x \<Rightarrow> x);
           st = fold (\<lambda>key. count_claim (int (length (pk_targets p))) (claim_of key))
                  (rng (kv_keys validatorClaimMap)) st;
           st = st\<lparr>ork_AggregateExchangeRateVote := []\<rparr>
       in bindR (ApplyWhitelist k (Whitelist params) (pk_targets p) st) (take_snapshot c)))))))"

section \<open>Begin blocker\<close>

definition BeginBlocker ::
  "('b, 's) oracle_Keeper \<Rightarrow> ctx \<Rightarrow> ('b, 's) oracle_state \<Rightarrow> ('b, 's) oracle_state res" where
  "BeginBlocker k c st =
     bindR (oracle_GetParams st) (\<lambda>params.
     bindR (IsPeriodLastBlock c (SlashWindow params)) (\<lambda>lastBlock.
     if lastBlock
     then bindR (SlashAndResetCounters k c st) (\<lambda>st. Inr (RemoveExcessFeeds st))
     else Inr st))"

section \<open>Lemmas: ballots up to the order of equal rates\<close>

definition sim_votes :: "vote_map \<Rightarrow> vote_map \<Rightarrow> bool" where
  "sim_votes vm vm' \<longleftrightarrow> list_all2 (\<lambda>p q. fst p = fst q \<and> sim_ballot (snd p) (snd q)) vm vm'"

lemma sim_ballot_Nil [simp]: "sim_ballot [] []"
  by (simp add: sim_ballot_def powers_ok_def total_power_def)

lemma sim_votes_keys: "sim_votes vm vm' \<Longrightarrow> kv_keys vm = kv_keys vm'"
  by (auto simp: sim_votes_def list_all2_conv_all_nth intro!: nth_equalityI)

lemma sim_votes_ok: "sim_votes vm vm' \<Longrightarrow> kv_ok vm \<longleftrightarrow> kv_ok vm'"
  by (simp add: kv_ok_def sim_votes_keys)

lemma sim_votes_get:
  "sim_votes vm vm' \<Longrightarrow> rel_option sim_ballot (kv_get vm d) (kv_get vm' d)"
  unfolding sim_votes_def by (induction vm vm' rule: list_all2_induct) auto

lemma sim_votes_ballot: "sim_votes vm vm' \<Longrightarrow> sim_ballot (ballot_of vm d) (ballot_of vm' d)"
  using sim_votes_get [of vm vm' d]
  by (cases "kv_get vm d"; cases "kv_get vm' d") (auto simp: ballot_of_def)

lemma sim_votes_has: "sim_votes vm vm' \<Longrightarrow> kv_has vm d \<longleftrightarrow> kv_has vm' d"
  using sim_votes_get [of vm vm' d] by (cases "kv_get vm d"; cases "kv_get vm' d") (auto simp: kv_has_def)

lemma sim_ballot_Power: "sim_ballot ex ey \<Longrightarrow> ballot_Power ex = ballot_Power ey"
  using powers_ok_mset [of ex ey] total_power_mset [of ex ey]
  by (simp add: sim_ballot_def ballot_Power_eq)

lemma sim_votes_passing: "sim_votes vm vm' \<Longrightarrow> passing thr tg vm = passing thr tg vm'"
  using sim_ballot_Power [OF sim_votes_ballot] sim_votes_has
  by (fastforce simp: passing_def ballotIsPassing_def Let_def fun_eq_iff)

lemma sim_votes_filter:
  "sim_votes vm vm' \<Longrightarrow> sim_votes (filter (\<lambda>(d, _). Q d) vm) (filter (\<lambda>(d, _). Q d) vm')"
  unfolding sim_votes_def by (induction vm vm' rule: list_all2_induct) (auto simp: case_prod_unfold)

lemma best_denom_unique:
  assumes "best_denom thr tg vm ks r h" and "best_denom thr tg vm ks r' h'"
  shows "r = r' \<and> h = h'"
proof (cases "\<exists>d \<in> ks. passing thr tg vm d")
  case True
  with assms show ?thesis unfolding best_denom_def by (metis antisym less_asym less_irrefl)
next
  case False
  with assms show ?thesis by (auto simp: best_denom_def)
qed

lemma pick_sim:
  assumes ok: "kv_ok tg" "kv_ok vm" and sim: "sim_votes vm vm'"
    and o: "mset order = mset (kv_keys vm)" "mset order' = mset (kv_keys vm')"
  shows "rel_sum (=) (\<lambda>p p'. pk_reference p = pk_reference p' \<and> pk_targets p = pk_targets p' \<and>
      sim_votes (pk_below p) (pk_below p') \<and> sim_votes (pk_votes p) (pk_votes p'))
    (pickReferenceDenom order k st tg vm) (pickReferenceDenom order' k st tg vm')"
proof (cases "threshold_votes k st")
  case (Inr thr)
  let ?s = "\<lambda>vm. \<lparr>pk_reference = [], pk_highest = 0, pk_below = [], pk_targets = tg, pk_votes = vm\<rparr>"
  let ?p = "fold (pick_step thr) order (?s vm)" and ?p' = "fold (pick_step thr) order' (?s vm')"
  have ok': "kv_ok vm'" using ok(2) sim by (simp add: sim_votes_ok)
  note r = pick_result [OF ok o(1) refl, of thr] and r' = pick_result [OF ok(1) ok' o(2) refl, of thr]
  note ps = sim_votes_passing [OF sim, of thr tg]
  have "best_denom thr tg vm' ks a b \<longleftrightarrow> best_denom thr tg vm ks a b" for ks a b
    using sim_ballot_Power [OF sim_votes_ballot [OF sim]] by (simp add: best_denom_def ps)
  then have "pk_reference ?p = pk_reference ?p'"
    using best_denom_unique [OF r(4)] r'(4) sim_votes_keys [OF sim] by metis
  moreover have "pk_targets ?p = pk_targets ?p'"
    by (simp add: r r' ps sim_votes_has [OF sim])
  moreover have "sim_votes (pk_below ?p) (pk_below ?p')" "sim_votes (pk_votes ?p) (pk_votes ?p')"
    unfolding r r' ps by (rule sim_votes_filter [OF sim])+
  ultimately show ?thesis using Inr by (simp add: pickReferenceDenom_def)
qed (simp add: pickReferenceDenom_def)

text \<open>The rate map of a ballot: the last positive rate of a voter, whatever the order of equal rates.\<close>

lemma ToMap_fold_get:
  "kv_get (fold (\<lambda>vote m. if 0 < vft_ExchangeRate vote
      then kv_set (Voter vote) (vft_ExchangeRate vote) m else m) ex m) w =
   (case rev (filter (\<lambda>v. Voter v = w \<and> 0 < vft_ExchangeRate v) ex) of
      [] \<Rightarrow> kv_get m w | v # _ \<Rightarrow> Some (vft_ExchangeRate v))"
  by (induction ex arbitrary: m) (auto split: list.splits)

lemma ToMap_ok [simp]: "kv_ok (ToMap ex)"
proof -
  have "kv_ok m \<Longrightarrow> kv_ok (fold (\<lambda>vote m. if 0 < vft_ExchangeRate vote
      then kv_set (Voter vote) (vft_ExchangeRate vote) m else m) ex m)" for m
    by (induction ex arbitrary: m) auto
  then show ?thesis by (simp add: ToMap_def)
qed

lemma ToMap_sim:
  assumes "sim_ballot ex ey"
  shows "ToMap ex = ToMap ey"
proof (rule kv_ext)
  show "kv_get (ToMap ex) = kv_get (ToMap ey)"
  proof
    fix w
    let ?P = "\<lambda>v. Voter v = w \<and> 0 < vft_ExchangeRate v"
    have "map vft_ExchangeRate (filter ?P ex) = map vft_ExchangeRate (filter ?P ey)"
      using assms by (intro rates_mset) (auto simp: sim_ballot_def intro: sorted_filter)
    then have "map vft_ExchangeRate (rev (filter ?P ex)) = map vft_ExchangeRate (rev (filter ?P ey))"
      by (simp add: rev_map [symmetric])
    then show "kv_get (ToMap ex) w = kv_get (ToMap ey) w"
      unfolding ToMap_def ToMap_fold_get by (auto split: list.splits)
  qed
qed simp_all

lemma cross_sim:
  assumes "sim_ballot ex ey" and "ballot_sort srt" and "ballot_sort srt'"
  shows "sim_ballot (ToCrossRateWithSort D srt ex b) (ToCrossRateWithSort D srt' ey b)"
proof -
  have "mset (ToCrossRate D ex b) = mset (ToCrossRate D ey b)"
    using assms(1) by (simp add: sim_ballot_def ToCrossRate_def)
  moreover have "powers_ok (ToCrossRate D ex b)"
    using assms(1) by (simp add: sim_ballot_def cross_powers_ok)
  ultimately show ?thesis
    using ballot_sort.srt_perm [OF assms(2)] ballot_sort.srt_perm [OF assms(3)]
      ballot_sort.srt_sorted [OF assms(2)] ballot_sort.srt_sorted [OF assms(3)]
      powers_ok_mset [OF ballot_sort.srt_perm [OF assms(2)]]
    by (simp add: sim_ballot_def ToCrossRateWithSort_def)
qed

lemma tally_denom_sim:
  assumes "sim_votes vm vm'" "ballot_sort srt" "ballot_sort srt'"
  shows "tally_denom srt k c band ref vm rd d s = tally_denom srt' k c band ref vm' rd d s"
proof -
  have b: "sim_ballot (ballot_of vm x) (ballot_of vm' x)" for x
    using assms(1) by (rule sim_votes_ballot)
  have "sim_ballot
      (if d \<noteq> ref then ToCrossRateWithSort (ok_dec k) srt (ballot_of vm d) (ToMap (ballot_of vm ref))
       else ballot_of vm d)
      (if d \<noteq> ref then ToCrossRateWithSort (ok_dec k) srt' (ballot_of vm' d) (ToMap (ballot_of vm' ref))
       else ballot_of vm' d)"
    using b cross_sim [OF b assms(2,3)] by (simp add: ToMap_sim [OF b])
  from Tally_sim [OF this] show ?thesis by (simp add: tally_denom_def Let_def)
qed

lemma tally_reference_sim:
  assumes "sim_votes vm vm'" "ballot_sort srt" "ballot_sort srt'"
  shows "tally_reference srt k c band ref vm s = tally_reference srt' k c band ref vm' s"
proof -
  have b: "sim_ballot (ballot_of vm ref) (ballot_of vm' ref)"
    using assms(1) by (rule sim_votes_ballot)
  then have "WeightedMedianWithAssertion (ballot_of vm ref) = WeightedMedianWithAssertion (ballot_of vm' ref)"
    by (intro median_mset) (auto simp: sim_ballot_def)
  moreover have "tally_denom srt k c band ref vm rd = tally_denom srt' k c band ref vm' rd" for rd
    using tally_denom_sim [OF assms] by (intro ext)
  ultimately show ?thesis
    using sim_votes_keys [OF assms(1)] by (simp add: tally_reference_def)
qed

lemma tally_below_sim: "sim_votes vm vm' \<Longrightarrow> tally_below k band vm cl = tally_below k band vm' cl"
  using Tally_sim [OF sim_votes_ballot] sim_votes_keys by (simp add: tally_below_def)

section \<open>Lemmas: the ballots of a block\<close>

definition raw_ballots :: "('b, 's) oracle_state \<Rightarrow> claims \<Rightarrow> vote_map" where
  "raw_ballots st cl = OrganizeBallotByDenom (\<lambda>b. b) st cl"

lemma Organize_raw:
  "OrganizeBallotByDenom srt st cl = map (\<lambda>(d, b). (d, srt b)) (raw_ballots st cl)"
  by (simp add: raw_ballots_def OrganizeBallotByDenom_def Let_def case_prod_unfold)

lemma add_vote_ok: "kv_ok vm \<Longrightarrow> kv_ok (add_vote a w t vm)"
  by (simp add: add_vote_def Let_def)

lemma add_votes_ok: "kv_ok vm \<Longrightarrow> kv_ok (fold (add_vote a w) ts vm)"
  by (induction ts arbitrary: vm) (auto simp: add_vote_ok)

lemma raw_ballots_ok: "kv_ok (raw_ballots st cl)"
proof -
  have "kv_ok vm \<Longrightarrow> kv_ok (fold (\<lambda>(a, v) vm. case kv_get cl (agg_Voter v) of None \<Rightarrow> vm
      | Some claim \<Rightarrow> fold (add_vote a (cl_Power claim)) (ExchangeRateTuples v) vm) xs vm)"
    for xs :: "(addr \<times> AggregateVote) list" and vm
    by (induction xs arbitrary: vm) (auto simp: add_votes_ok split: option.splits)
  then show ?thesis by (simp add: raw_ballots_def OrganizeBallotByDenom_def Let_def)
qed

lemma Organize_keys: "kv_keys (OrganizeBallotByDenom srt st cl) = kv_keys (raw_ballots st cl)"
  by (simp add: Organize_raw comp_def case_prod_unfold)

lemma Organize_ok: "kv_ok (OrganizeBallotByDenom srt st cl)"
  using raw_ballots_ok [of st cl] by (simp add: kv_ok_def Organize_keys)

lemma Organize_sim:
  assumes "ballot_sort srt" "ballot_sort srt'" and "\<forall>(d, b) \<in> set (raw_ballots st cl). powers_ok b"
  shows "sim_votes (OrganizeBallotByDenom srt st cl) (OrganizeBallotByDenom srt' st cl)"
proof -
  have "sim_ballot (srt b) (srt' b)" if "powers_ok b" for b
    using that ballot_sort.srt_perm [OF assms(1)] ballot_sort.srt_perm [OF assms(2)]
      ballot_sort.srt_sorted [OF assms(1)] ballot_sort.srt_sorted [OF assms(2)]
      powers_ok_mset [OF ballot_sort.srt_perm [OF assms(1)]]
    by (simp add: sim_ballot_def)
  then show ?thesis
    using assms(3) unfolding sim_votes_def Organize_raw
    by (auto simp: list_all2_map1 list_all2_map2 case_prod_unfold list_all2_same)
qed

section \<open>Lemmas: counting the claims\<close>

lemma counter_get:
  "GetVotePenaltyCounterOrDefault (set_counter a v st) b =
     (if b = a then v else GetVotePenaltyCounterOrDefault st b)"
  by (simp add: GetVotePenaltyCounterOrDefault_def set_counter_def)

lemma set_counter_commute:
  "a \<noteq> b \<Longrightarrow> set_counter a v (set_counter b w st) = set_counter b w (set_counter a v st)"
  by (simp add: set_counter_def kv_set_commute)

lemma set_counter_twice: "set_counter a v (set_counter a w st) = set_counter a v st"
  by (simp add: set_counter_def kv_set_twice)

definition bump :: "int \<Rightarrow> Claim \<Rightarrow> VotePenaltyCounter \<Rightarrow> VotePenaltyCounter" where
  "bump n claim v =
     (if WinCount claim = n then v\<lparr>SuccessCount := u64 (SuccessCount v + 1)\<rparr>
      else if \<not> DidVote claim then v\<lparr>AbstainCount := u64 (AbstainCount v + 1)\<rparr>
      else v\<lparr>MissCount := u64 (MissCount v + 1)\<rparr>)"

lemma count_claim_bump:
  "count_claim n claim st = set_counter (Recipient claim)
     (bump n claim (GetVotePenaltyCounterOrDefault st (Recipient claim))) st"
  by (simp add: count_claim_def bump_def IncrementSuccessCount_def IncrementAbstainCount_def
      IncrementMissCount_def Let_def)

lemma bump_commute: "bump n a (bump n b v) = bump n b (bump n a v)"
  by (simp add: bump_def)

lemma count_claim_commute:
  "count_claim n a (count_claim n b st) = count_claim n b (count_claim n a st)"
proof (cases "Recipient a = Recipient b")
  case True
  then show ?thesis by (simp add: count_claim_bump counter_get set_counter_twice bump_commute)
next
  case False
  then show ?thesis by (simp add: count_claim_bump counter_get set_counter_commute)
qed

lemma count_claims_order:
  assumes "mset ks = mset ks'"
  shows "fold (\<lambda>key. count_claim n (f key)) ks = fold (\<lambda>key. count_claim n (f key)) ks'"
  using assms by (intro fold_multiset_equiv) (auto simp: fun_eq_iff count_claim_commute)

section \<open>Lemmas: whose counters the end blocker touches\<close>

definition claims_like :: "claims \<Rightarrow> claims \<Rightarrow> bool" where
  "claims_like cl cl' \<longleftrightarrow> kv_ok cl' \<and>
     (\<forall>x. map_option Recipient (kv_get cl' x) = map_option Recipient (kv_get cl x))"

definition voters_in :: "addr_codec \<Rightarrow> claims \<Rightarrow> ballot \<Rightarrow> bool" where
  "voters_in C cl b \<longleftrightarrow> (\<forall>v \<in> set b. kv_has cl (ValAddressString C (Voter v)))"

definition votes_named :: "addr_codec \<Rightarrow> ('b, 's) oracle_state \<Rightarrow> bool" where
  "votes_named C st \<longleftrightarrow>
     (\<forall>(a, v) \<in> set (ork_AggregateExchangeRateVote st). agg_Voter v = ValAddressString C a)"

lemma claims_like_has: "claims_like cl cl' \<Longrightarrow> kv_has cl' x \<longleftrightarrow> kv_has cl x"
  by (metis claims_like_def kv_has_def map_option_is_None)

lemma tally_mark_like:
  assumes "claims_like cl cl'" "kv_has cl (ValAddressString C (Voter v))"
  shows "claims_like cl (tally_mark C v w cl')"
proof -
  have h: "kv_has cl' (ValAddressString C (Voter v))" using assms claims_like_has by blast
  have "map_option Recipient (kv_get (tally_mark C v w cl') x) = map_option Recipient (kv_get cl' x)" for x
    using h by (auto simp: tally_mark_get kv_has_def Let_def)
  moreover have "kv_ok (tally_mark C v w cl')"
    using assms(1) by (simp add: tally_mark_def claims_like_def Let_def)
  ultimately show ?thesis using assms(1) by (simp add: claims_like_def)
qed

lemma Tally_like:
  assumes "Tally D C ex band cl' = Inr (m, cl2)" "claims_like cl cl'" "voters_in C cl ex"
  shows "claims_like cl cl2"
proof -
  obtain sp where "foldR (\<lambda>v cl. bindR (tally_wins D m sp v) (\<lambda>b. Inr (tally_mark C v b cl))) ex cl' = Inr cl2"
    using assms(1) by (auto simp: Tally_def res_simps)
  then show ?thesis
  proof (rule foldR_inv [where P = "claims_like cl"])
    fix v s s'
    assume "v \<in> set ex" "claims_like cl s" "bindR (tally_wins D m sp v) (\<lambda>b. Inr (tally_mark C v b s)) = Inr s'"
    then show "claims_like cl s'"
      using assms(3) tally_mark_like by (fastforce simp: res_simps voters_in_def)
  qed (rule assms(2))
qed

lemma cross_voters: "ballot_sort srt \<Longrightarrow> voters_in C cl ex \<Longrightarrow> voters_in C cl (ToCrossRateWithSort D srt ex b)"
  by (auto simp: voters_in_def ballot_sort.cross_members)

text \<open>The part of the state that neither a tally, the whitelist nor a snapshot writes.\<close>

definition same_counters :: "('b, 's) oracle_state \<Rightarrow> ('b, 's) oracle_state \<Rightarrow> bool" where
  "same_counters st st' \<longleftrightarrow> ork_VotePenaltyCounter st' = ork_VotePenaltyCounter st \<and>
     ork_AggregateExchangeRateVote st' = ork_AggregateExchangeRateVote st"

lemma same_counters_refl [simp]: "same_counters st st"
  by (simp add: same_counters_def)

lemma tally_denom_like:
  assumes "ballot_sort srt" and "voters_in (ok_codec k) cl (ballot_of vm d)"
    and "tally_denom srt k c band ref vm rd d (cl', st') = Inr (cl2, st2)"
    and "claims_like cl cl'" "same_counters st st'"
  shows "claims_like cl cl2 \<and> same_counters st st2"
proof -
  let ?b = "if d \<noteq> ref then ToCrossRateWithSort (ok_dec k) srt (ballot_of vm d) (ToMap (ballot_of vm ref))
    else ballot_of vm d"
  have "voters_in (ok_codec k) cl ?b" using assms(2) cross_voters [OF assms(1)] by auto
  moreover obtain m where "Tally (ok_dec k) (ok_codec k) ?b band cl' = Inr (m, cl2)"
      and "same_counters st st2"
    using assms(3,5)
    by (auto simp: tally_denom_def Let_def res_simps SetBaseExchangeRateWithEvent_def oracle_emit_def
        SetBaseExchangeRateWithDefault_def same_counters_def split: if_splits)
  ultimately show ?thesis using Tally_like assms(4) by blast
qed

lemma tally_reference_like:
  assumes srt: "ballot_sort srt" and v: "\<And>d. voters_in (ok_codec k) cl (ballot_of vm d)"
    and run: "tally_reference srt k c band ref vm (cl, st) = Inr (cl2, st2)" and ok: "kv_ok cl"
  shows "claims_like cl cl2 \<and> same_counters st st2"
proof (cases "ref = []")
  case True
  then show ?thesis using run ok by (simp add: tally_reference_def claims_like_def)
next
  case False
  then obtain rd where "foldR (tally_denom srt k c band ref vm rd) (kv_keys vm) (cl, st) = Inr (cl2, st2)"
    using run by (auto simp: tally_reference_def res_simps)
  from foldR_inv [OF this, of "\<lambda>(cl', st'). claims_like cl cl' \<and> same_counters st st'"]
  show ?thesis
    using tally_denom_like [OF srt v] ok by (fastforce simp: claims_like_def)
qed

lemma tally_below_like:
  assumes "\<And>d. voters_in (ok_codec k) cl (ballot_of vm d)"
    and "tally_below k band vm cl1 = Inr cl2" and "claims_like cl cl1"
  shows "claims_like cl cl2"
  using assms(2) unfolding tally_below_def
  by (rule foldR_inv) (use assms(1,3) Tally_like in \<open>auto simp: res_simps\<close>)

lemma raw_voters:
  assumes "votes_named C st"
  shows "voters_in C cl (ballot_of (raw_ballots st cl) d)"
proof -
  have add: "\<forall>d. voters_in C cl (ballot_of (add_vote a w t vm) d)"
    if "\<forall>d. voters_in C cl (ballot_of vm d)" "kv_has cl (ValAddressString C a)" for a w t vm
    using that by (auto simp: add_vote_def Let_def voters_in_def ballot_of_def NewVoteForTally_def)
  have adds: "\<forall>d. voters_in C cl (ballot_of (fold (add_vote a w) ts vm) d)"
    if "\<forall>d. voters_in C cl (ballot_of vm d)" "kv_has cl (ValAddressString C a)" for a w ts vm
    using that by (induction ts arbitrary: vm) (simp_all add: add)
  have "\<forall>d. voters_in C cl (ballot_of (fold (\<lambda>(a, v) vm. case kv_get cl (agg_Voter v) of None \<Rightarrow> vm
      | Some claim \<Rightarrow> fold (add_vote a (cl_Power claim)) (ExchangeRateTuples v) vm) xs vm) d)"
    if "\<forall>d. voters_in C cl (ballot_of vm d)" "\<forall>(a, v) \<in> set xs. agg_Voter v = ValAddressString C a"
    for xs :: "(addr \<times> AggregateVote) list" and vm
    using that
  proof (induction xs arbitrary: vm)
    case (Cons x xs)
    obtain a v where x: "x = (a, v)" by (cases x)
    have "\<forall>d. voters_in C cl (ballot_of (case kv_get cl (agg_Voter v) of None \<Rightarrow> vm
        | Some claim \<Rightarrow> fold (add_vote a (cl_Power claim)) (ExchangeRateTuples v) vm) d)"
      using Cons.prems adds by (auto simp: x kv_has_def split: option.split)
    from Cons.IH [OF this] Cons.prems(2) show ?case by (simp add: x)
  qed simp
  from this [of "[]"] show ?thesis
    using assms by (simp add: raw_ballots_def OrganizeBallotByDenom_def Let_def votes_named_def
        voters_in_def ballot_of_def)
qed

lemma Organize_voters:
  assumes "votes_named C st" "ballot_sort srt"
  shows "voters_in C cl (ballot_of (OrganizeBallotByDenom srt st cl) d)"
proof -
  have "kv_get (OrganizeBallotByDenom srt st cl) d = map_option srt (kv_get (raw_ballots st cl) d)"
    unfolding Organize_raw by (simp add: map_of_map comp_def)
  then show ?thesis
    using raw_voters [OF assms(1), of cl d] ballot_sort.srt_set [OF assms(2)]
    by (auto simp: voters_in_def ballot_of_def split: option.splits)
qed

lemma filter_voters:
  "kv_ok vm \<Longrightarrow> voters_in C cl (ballot_of vm d) \<Longrightarrow> voters_in C cl (ballot_of (filter (\<lambda>(d, _). Q d) vm) d)"
  using kv_get_filter [of vm Q d] by (auto simp: voters_in_def ballot_of_def case_prod_unfold)

lemma counts_get:
  assumes "distinct (map (\<lambda>key. Recipient (f key)) ks)"
  shows "GetVotePenaltyCounterOrDefault (fold (\<lambda>key. count_claim n (f key)) ks st) b =
    (case filter (\<lambda>key. Recipient (f key) = b) ks of
       [] \<Rightarrow> GetVotePenaltyCounterOrDefault st b
     | key # _ \<Rightarrow> bump n (f key) (GetVotePenaltyCounterOrDefault st b))"
  using assms
proof (induction ks arbitrary: st)
  case (Cons key ks)
  have "filter (\<lambda>x. Recipient (f x) = Recipient (f key)) ks = []"
    using Cons.prems by (force simp: filter_empty_conv image_iff)
  with Cons show ?case by (auto simp: count_claim_bump counter_get split: list.splits)
qed simp

lemma whitelist_counters:
  assumes "ApplyWhitelist k wl tg st = Inr st'"
  shows "same_counters st st'"
proof -
  have "same_counters st s'" if "same_counters st s" "whitelist_item k x s = Inr s'" for x s s'
    using that by (auto simp: whitelist_item_def Let_def res_simps same_counters_def split: option.splits)
  then have "foldR (whitelist_item k) wl st1 = Inr st' \<Longrightarrow> same_counters st st1 \<Longrightarrow> same_counters st st'" for st1
    using foldR_inv [of "whitelist_item k" wl st1 st' "same_counters st"] by blast
  then show ?thesis
    using assms by (auto simp: ApplyWhitelist_def Let_def same_counters_def split: if_splits)
qed

lemma snapshot_counters: "take_snapshot c st = Inr st' \<Longrightarrow> same_counters st st'"
  by (auto simp: take_snapshot_def AddPriceSnapshot_def Let_def res_simps same_counters_def
      split: if_splits)

lemma collect_claims_ok: "collect_claims k st = Inr cl \<Longrightarrow> kv_ok cl"
  by (auto simp: collect_claims_def Let_def res_simps register_validator_def split: if_splits
      elim!: foldR_inv)

lemma claims_like_keys: "claims_like cl cl' \<Longrightarrow> kv_ok cl \<Longrightarrow> kv_keys cl' = kv_keys cl"
  using claims_like_has [of cl cl']
  by (intro sorted_distinct_set_unique)
    (auto simp: claims_like_def kv_ok_def strict_sorted_iff kv_has_iff)

definition claim_at :: "claims \<Rightarrow> string \<Rightarrow> Claim" where
  "claim_at cl key = (case kv_get cl key of None \<Rightarrow> zero_claim | Some x \<Rightarrow> x)"

lemma claims_like_recipients:
  assumes "claims_like cl cl'" "kv_ok cl"
  shows "map (\<lambda>key. Recipient (claim_at cl' key)) (kv_keys cl) = map (\<lambda>(_, x). Recipient x) cl"
proof (rule nth_equalityI)
  fix i
  assume "i < length (map (\<lambda>key. Recipient (claim_at cl' key)) (kv_keys cl))"
  then have i: "i < length cl" by simp
  obtain key x where kx: "cl ! i = (key, x)" by (cases "cl ! i")
  then have "kv_get cl key = Some x" using i assms(2) kv_get_in nth_mem by fastforce
  then have "map_option Recipient (kv_get cl' key) = Some (Recipient x)"
    using assms(1) by (simp add: claims_like_def)
  then show "map (\<lambda>key. Recipient (claim_at cl' key)) (kv_keys cl) ! i = map (\<lambda>(_, x). Recipient x) cl ! i"
    using i kx by (auto simp: claim_at_def)
qed simp

text \<open>What a completed last block of a vote period is made of.\<close>

lemma EndBlocker_steps:
  assumes "EndBlocker rng srt k c st = Inr st'" and "ork_Params st = Some par"
    and "IsPeriodLastBlock c (VotePeriod par) = Inr True" and "collect_claims k st = Inr cl"
  obtains p cl1 st1 cl2 st2 where
    "pickReferenceDenom (rng (kv_keys (OrganizeBallotByDenom srt st cl))) k st (ork_VoteTarget st)
       (OrganizeBallotByDenom srt st cl) = Inr p"
    "tally_reference srt k c (RewardBand par) (pk_reference p) (pk_votes p) (cl, st) = Inr (cl1, st1)"
    "tally_below k (RewardBand par) (pk_below p) cl1 = Inr cl2"
    "st2 = (fold (\<lambda>key. count_claim (int (length (pk_targets p))) (claim_at cl2 key))
       (rng (kv_keys cl2)) st1)\<lparr>ork_AggregateExchangeRateVote := []\<rparr>"
    "bindR (ApplyWhitelist k (Whitelist par) (pk_targets p) st2) (take_snapshot c) = Inr st'"
  using assms unfolding EndBlocker_def Let_def claim_at_def oracle_GetParams_def
  by (auto simp: res_simps)

lemma whitelist_items:
  assumes "bank (ok_bank k)" and "foldR (whitelist_item k) wl st = Inr st'"
  shows "(\<forall>d. kv_has (ork_VoteTarget st') d \<longleftrightarrow> kv_has (ork_VoteTarget st) d \<or> d \<in> Name ` set wl) \<and>
    (\<forall>d \<in> Name ` set wl. bank_GetDenomMetaData (ok_bank k) (ork_bank st') d \<noteq> None) \<and>
    (\<forall>d m. bank_GetDenomMetaData (ok_bank k) (ork_bank st) d = Some m \<longrightarrow>
       bank_GetDenomMetaData (ok_bank k) (ork_bank st') d = Some m)"
  using assms(2)
proof (induction wl arbitrary: st)
  case (Cons x wl)
  obtain st1 where x: "whitelist_item k x st = Inr st1" and rest: "foldR (whitelist_item k) wl st1 = Inr st'"
    using Cons.prems by (auto simp: res_simps)
  note meta = bank.get_set_meta [OF assms(1)]
  have "(\<forall>d. kv_has (ork_VoteTarget st1) d \<longleftrightarrow> kv_has (ork_VoteTarget st) d \<or> d = Name x) \<and>
    bank_GetDenomMetaData (ok_bank k) (ork_bank st1) (Name x) \<noteq> None \<and>
    (\<forall>d m. bank_GetDenomMetaData (ok_bank k) (ork_bank st) d = Some m \<longrightarrow>
       bank_GetDenomMetaData (ok_bank k) (ork_bank st1) d = Some m)"
    using x by (auto simp: whitelist_item_def Let_def res_simps kv_has_def meta whitelist_metadata_def
        split: option.splits if_splits)
  then have st1: "\<And>d. kv_has (ork_VoteTarget st1) d \<longleftrightarrow> kv_has (ork_VoteTarget st) d \<or> d = Name x"
      "bank_GetDenomMetaData (ok_bank k) (ork_bank st1) (Name x) \<noteq> None"
      "\<And>d m. bank_GetDenomMetaData (ok_bank k) (ork_bank st) d = Some m \<Longrightarrow>
       bank_GetDenomMetaData (ok_bank k) (ork_bank st1) d = Some m"
    by blast+
  note IH = Cons.IH [OF rest]
  have "\<forall>d. kv_has (ork_VoteTarget st') d \<longleftrightarrow> kv_has (ork_VoteTarget st) d \<or> d \<in> Name ` set (x # wl)"
    using IH [THEN conjunct1] st1(1) by auto
  moreover have "\<forall>d m. bank_GetDenomMetaData (ok_bank k) (ork_bank st) d = Some m \<longrightarrow>
       bank_GetDenomMetaData (ok_bank k) (ork_bank st') d = Some m"
    using IH [THEN conjunct2, THEN conjunct2] st1(3) by simp
  moreover have "bank_GetDenomMetaData (ok_bank k) (ork_bank st') (Name x) \<noteq> None"
    using IH [THEN conjunct2, THEN conjunct2] st1(2) by fastforce
  ultimately show ?case using IH by simp
qed simp

section \<open>Properties\<close>

text \<open>
  C1: \<open>EndBlocker\<close> is deterministic: its result, the new state or the error, is the same for every
  order in which Go ranges over the maps of ballots and of claims, and for every way
  \<open>sort.Sort\<close> may order equal rates, as long as no ballot's power overflows. All validators
  therefore compute the same state.
\<close>

theorem EndBlocker_deterministic:
  assumes "ballot_sort srt" and "ballot_sort srt'"
    and "\<And>ks. mset (rng ks) = mset ks" and "\<And>ks. mset (rng' ks) = mset ks"
    and "kv_ok (ork_VoteTarget st)"
    and "\<And>cl d b. collect_claims k st = Inr cl \<Longrightarrow> (d, b) \<in> set (raw_ballots st cl) \<Longrightarrow> powers_ok b"
  shows "EndBlocker rng srt k c st = EndBlocker rng' srt' k c st"
proof (cases "collect_claims k st")
  case (Inr cl)
  let ?vm = "OrganizeBallotByDenom srt st cl" and ?vm' = "OrganizeBallotByDenom srt' st cl"
  let ?p = "pickReferenceDenom (rng (kv_keys ?vm)) k st (ork_VoteTarget st) ?vm"
  let ?p' = "pickReferenceDenom (rng' (kv_keys ?vm')) k st (ork_VoteTarget st) ?vm'"
  have sim: "sim_votes ?vm ?vm'"
    using Organize_sim [OF assms(1,2)] assms(6) [OF Inr] by fastforce
  have "rel_sum (=) (\<lambda>p p'. pk_reference p = pk_reference p' \<and> pk_targets p = pk_targets p' \<and>
      sim_votes (pk_below p) (pk_below p') \<and> sim_votes (pk_votes p) (pk_votes p')) ?p ?p'"
    by (rule pick_sim [OF assms(5) Organize_ok sim assms(3,4)])
  then consider e where "?p = Inl e" "?p' = Inl e"
    | p p' where "?p = Inr p" "?p' = Inr p'" "pk_reference p = pk_reference p'"
        "pk_targets p = pk_targets p'" "sim_votes (pk_below p) (pk_below p')"
        "sim_votes (pk_votes p) (pk_votes p')"
    by (cases rule: rel_sum.cases) auto
  then show ?thesis
  proof cases
    case 1
    show ?thesis unfolding EndBlocker_def Inr Let_def bindR.simps 1 ..
  next
    case 2
    have "mset (rng ks) = mset (rng' ks)" for ks using assms(3,4) by simp
    note order = count_claims_order [OF this]
    note same = tally_reference_sim [OF 2(6) assms(1,2)] tally_below_sim [OF 2(5)] order
    show ?thesis
      unfolding EndBlocker_def Inr Let_def bindR.simps 2(1-4) same ..
  qed
next
  case (Inl e)
  show ?thesis unfolding EndBlocker_def Inl bindR.simps ..
qed


text \<open>Two bonded validators; only alice prices both denoms.\<close>

definition abci_state :: "(ledger, toy_staking) oracle_state" where
  "abci_state = sample_state\<lparr>
     ork_Params := Some (oracle_DefaultParams\<lparr>Whitelist := [\<lparr>Name = ''ubtc''\<rparr>, \<lparr>Name = ''ueth''\<rparr>]\<rparr>),
     ork_VoteTarget := [(''ubtc'', \<lparr>Name = ''ubtc''\<rparr>), (''ueth'', \<lparr>Name = ''ueth''\<rparr>)],
     ork_AggregateExchangeRateVote :=
       [(''alice'', \<lparr>ExchangeRateTuples = [\<lparr>tup_Denom = ''ubtc'', tup_ExchangeRate = 5 * 10 ^ 18\<rparr>,
                                          \<lparr>tup_Denom = ''ueth'', tup_ExchangeRate = 7 * 10 ^ 18\<rparr>],
                   agg_Voter = ''valice''\<rparr>),
        (''bob'', \<lparr>ExchangeRateTuples = [\<lparr>tup_Denom = ''ubtc'', tup_ExchangeRate = 5 * 10 ^ 18\<rparr>],
                 agg_Voter = ''vbob''\<rparr>)],
     ork_staking := \<lparr>ts_vals = [(''alice'', toy_validator ''alice'' 60), (''bob'', toy_validator ''bob'' 40)],
                     ts_slashed = []\<rparr>\<rparr>"

definition abci_ctx :: ctx where
  "abci_ctx = sample_ctx 11 6000"

definition abci_claims :: claims where
  "abci_claims = [(''valice'', NewClaim 60 0 0 False ''alice''), (''vbob'', NewClaim 40 0 0 False ''bob'')]"

lemma abci_facts:
  "ork_Params abci_state = Some (oracle_DefaultParams\<lparr>Whitelist := [\<lparr>Name = ''ubtc''\<rparr>, \<lparr>Name = ''ueth''\<rparr>]\<rparr>)"
  "collect_claims sample_keeper abci_state = Inr abci_claims"
  "list_all (\<lambda>(d, b). powers_ok b) (raw_ballots abci_state abci_claims)"
  "kv_ok (ork_VoteTarget abci_state)"
  "votes_named (ok_codec sample_keeper) abci_state"
proof -
  show "ork_Params abci_state = Some (oracle_DefaultParams\<lparr>Whitelist := [\<lparr>Name = ''ubtc''\<rparr>, \<lparr>Name = ''ueth''\<rparr>]\<rparr>)"
    by (simp add: abci_state_def)
  show "collect_claims sample_keeper abci_state = Inr abci_claims" by code_simp
  show "list_all (\<lambda>(d, b). powers_ok b) (raw_ballots abci_state abci_claims)" by code_simp
  show "kv_ok (ork_VoteTarget abci_state)" by (simp add: abci_state_def kv_ok_def)
  show "votes_named (ok_codec sample_keeper) abci_state"
    by (simp add: votes_named_def abci_state_def sample_keeper_def toy_codec_def)
qed

theorem EndBlocker_deterministic_witness:
  "EndBlocker rev isort_ballot sample_keeper abci_ctx abci_state =
   EndBlocker (\<lambda>ks. ks) rsort_ballot sample_keeper abci_ctx abci_state"
proof (rule EndBlocker_deterministic)
  show "ballot_sort isort_ballot" by (rule isort.ballot_sort_axioms)
  show "ballot_sort rsort_ballot" by unfold_locales (simp_all add: rsort_ballot_def)
  show "kv_ok (ork_VoteTarget abci_state)" by (rule abci_facts(4))
next
  fix cl d b
  assume "collect_claims sample_keeper abci_state = Inr cl" "(d, b) \<in> set (raw_ballots abci_state cl)"
  then show "powers_ok b" using abci_facts(2,3) by (auto simp: list_all_iff)
qed simp_all

text \<open>
  In this block alice, the only validator that priced every vote target, and within the band, is
  counted as a miss, because the denom that fell below the threshold has left the vote targets
  but its win still counts; bob, who left it out, is a success.
\<close>

lemma abci_run:
  "map_sum id (\<lambda>st. map (\<lambda>(a, v). (a, SuccessCount v, MissCount v, AbstainCount v))
      (ork_VotePenaltyCounter st)) (EndBlocker rev isort_ballot sample_keeper abci_ctx abci_state) =
   Inr [(''alice'', 0, 1, 0), (''bob'', 1, 0, 0)]"
  by code_simp


text \<open>
  when the vote targets it is given are the stored ones, \<open>ApplyWhitelist\<close> leaves exactly the
  denoms of the whitelist as vote targets, whether or not it had to rewrite them, and after a
  rewrite every one of them has bank metadata; metadata that existed is kept.
\<close>

lemma ApplyWhitelist_correct:
  assumes "bank (ok_bank k)" and "ApplyWhitelist k whitelist (ork_VoteTarget st) st = Inr st'"
    and "kv_ok (ork_VoteTarget st)" and "distinct (map Name whitelist)"
  shows "(\<forall>d. kv_has (ork_VoteTarget st') d \<longleftrightarrow> d \<in> Name ` set whitelist) \<and>
    (st' = st \<or> (\<forall>d \<in> Name ` set whitelist. bank_GetDenomMetaData (ok_bank k) (ork_bank st') d \<noteq> None)) \<and>
    (\<forall>d m. bank_GetDenomMetaData (ok_bank k) (ork_bank st) d = Some m \<longrightarrow>
       bank_GetDenomMetaData (ok_bank k) (ork_bank st') d = Some m)"
proof (cases "length (ork_VoteTarget st) \<noteq> length whitelist \<or>
    list_ex (\<lambda>item. \<not> kv_has (ork_VoteTarget st) (Name item)) whitelist")
  case True
  then have "foldR (whitelist_item k) whitelist (st\<lparr>ork_VoteTarget := []\<rparr>) = Inr st'"
    using assms(2) by (simp add: ApplyWhitelist_def)
  from whitelist_items [OF assms(1) this] show ?thesis by (simp add: kv_has_def)
next
  case False
  then have l: "length (ork_VoteTarget st) = length whitelist"
      and sub: "Name ` set whitelist \<subseteq> fst ` set (ork_VoteTarget st)"
    by (auto simp: list_ex_iff kv_has_iff)
  have "card (fst ` set (ork_VoteTarget st)) = length (ork_VoteTarget st)"
    using kv_ok_distinct [OF assms(3)] by (metis distinct_card length_map set_map)
  moreover have "card (Name ` set whitelist) = length whitelist"
    using assms(4) by (metis distinct_card length_map set_map)
  ultimately have "Name ` set whitelist = fst ` set (ork_VoteTarget st)"
    using sub l by (intro card_subset_eq) auto
  moreover have "st' = st" using assms(2) False by (simp add: ApplyWhitelist_def)
  ultimately show ?thesis by (simp add: kv_has_iff)
qed

lemma ApplyWhitelist_correct_witness:
  "\<exists>st'. ApplyWhitelist sample_keeper [\<lparr>Name = ''ueth''\<rparr>] (ork_VoteTarget sample_state) sample_state = Inr st'
     \<and> kv_has (ork_VoteTarget st') ''ueth''"
proof -
  have r: "is_ok (ApplyWhitelist sample_keeper [\<lparr>Name = ''ueth''\<rparr>] (ork_VoteTarget sample_state) sample_state)"
    by code_simp
  then obtain st' where st': "ApplyWhitelist sample_keeper [\<lparr>Name = ''ueth''\<rparr>]
      (ork_VoteTarget sample_state) sample_state = Inr st'"
    by (auto simp: is_ok_iff)
  have "bank (ok_bank sample_keeper)" by (simp add: sample_keeper_def ledger.bank_axioms)
  from ApplyWhitelist_correct [OF this st'] have "kv_has (ork_VoteTarget st') ''ueth''"
    by (simp add: sample_state_def kv_ok_def)
  with st' show ?thesis by (intro exI conjI)
qed

text \<open>
  The end blocker passes the targets that are left after the reference denom was picked: a denom
  off the whitelist that stays below the threshold is missing there, so it stays a target.
\<close>

lemma stale_target:
  "map_sum id (\<lambda>st. kv_keys (ork_VoteTarget st)) (EndBlocker rev isort_ballot sample_keeper abci_ctx
     (abci_state\<lparr>ork_Params := Some (oracle_DefaultParams\<lparr>Whitelist := [\<lparr>Name = ''ubtc''\<rparr>]\<rparr>)\<rparr>)) =
   Inr [''ubtc'', ''ueth'']"
  by code_simp

end
