(* ===== verification/OracleMsg.thy ===== *)
theory OracleMsg
  imports OracleAbci
begin

text \<open>
  \<open>x/oracle/keeper/msg_server.go\<close>, \<open>x/oracle/ante.go\<close> and \<open>x/oracle/keeper/query_server.go\<close>:
  the messages, the two ante decorators and the queries. A transaction is the list of its
  messages; a handler that fails leaves the state of the chain as it was.
\<close>

section \<open>Messages\<close>

definition AggregateExchangeRateVote ::
  "('b, 's) oracle_Keeper \<Rightarrow> parse_coin \<Rightarrow> MsgAggregateExchangeRateVote \<Rightarrow> ('b, 's) oracle_state \<Rightarrow>
   ('b, 's) oracle_state res" where
  "AggregateExchangeRateVote k P msg st =
     bindR (ValAddressFromBech32 (ok_codec k) (agm_Validator msg)) (\<lambda>valAddress.
     bindR (AccAddressFromBech32 (ok_codec k) (agm_Feeder msg)) (\<lambda>feederAddress.
     bindR (ValidateFeeder k st feederAddress valAddress) (\<lambda>_.
     bindR (wrapR ErrInvalidCoins (ParseExchangeRateTuples P (agm_ExchangeRates msg))) (\<lambda>exchangeRates.
     bindR (foldR (\<lambda>exchangeRate _. if \<not> kv_has (ork_VoteTarget st) (tup_Denom exchangeRate)
                                   then Inl ErrUnknownDenom else Inr ()) exchangeRates ()) (\<lambda>_.
     bindR (wrapR ErrAggregateVoteInvalidRate
              (NewAggregateExchangeRateVote (ok_codec k) exchangeRates valAddress)) (\<lambda>vote.
     let st = st\<lparr>ork_AggregateExchangeRateVote :=
                   kv_set valAddress vote (ork_AggregateExchangeRateVote st)\<rparr>
     in Inr (oracle_emit (EvMessage (agm_Feeder msg))
              (oracle_emit (EvAggregateVote (agm_Validator msg) (agm_ExchangeRates msg)) st))))))))"

definition DelegateFeedConsent ::
  "('b, 's) oracle_Keeper \<Rightarrow> MsgDelegateFeedConsent \<Rightarrow> ('b, 's) oracle_state \<Rightarrow>
   ('b, 's) oracle_state res" where
  "DelegateFeedConsent k msg st =
     bindR (AccAddressFromBech32 (ok_codec k) (dfc_ValidatorOwner msg)) (\<lambda>validatorAddress.
     bindR (AccAddressFromBech32 (ok_codec k) (dfc_Delegate msg)) (\<lambda>delegatorAddress.
     case stk_Validator (ok_StakingKeeper k) (ork_staking st) validatorAddress of
       Inl _ \<Rightarrow> Inl ErrNoValidatorFound
     | Inr None \<Rightarrow> Inl ErrNoValidatorFound
     | Inr (Some _) \<Rightarrow>
         let st = st\<lparr>ork_FeederDelegation := kv_set validatorAddress
                       (AccAddressString (ok_codec k) delegatorAddress) (ork_FeederDelegation st)\<rparr>
         in Inr (oracle_emit (EvMessage (dfc_ValidatorOwner msg))
                  (oracle_emit (EvFeedDelegate (dfc_Delegate msg)) st))))"

definition oracle_UpdateParams ::
  "('b, 's) oracle_Keeper \<Rightarrow> oracle_MsgUpdateParams \<Rightarrow> ('b, 's) oracle_state \<Rightarrow>
   ('b, 's) oracle_state res" where
  "oracle_UpdateParams k req st =
     (if ok_authority k \<noteq> oup_Authority req then Inl ErrUnauthorizedSdk
      else bindR (wrapR ErrInvalidRequest (oracle_Params_Validate (oup_Params req))) (\<lambda>_.
        Inr (st\<lparr>ork_Params := Some (oup_Params req)\<rparr>)))"

section \<open>Ante decorators\<close>

datatype oracle_tx_msg = VoteMsg MsgAggregateExchangeRateVote | OtherMsg

definition check_vote ::
  "('b, 's) oracle_Keeper \<Rightarrow> ctx \<Rightarrow> MsgAggregateExchangeRateVote \<Rightarrow> ('b, 's) oracle_state \<Rightarrow>
   ('b, 's) oracle_state res" where
  "check_vote k c msg st =
     bindR (AccAddressFromBech32 (ok_codec k) (agm_Feeder msg)) (\<lambda>feederAddr.
     bindR (ValAddressFromBech32 (ok_codec k) (agm_Validator msg)) (\<lambda>valAddr.
     bindR (ValidateFeeder k st feederAddr valAddr) (\<lambda>_.
     bindR (the_or ErrNotFound (kv_get (ork_SpamPreventionCounter st) valAddr)) (\<lambda>spamPreventionHeight.
     if spamPreventionHeight = BlockHeight c then Inl ErrConflict
     else Inr (SetSpamPreventionCounterWithDefault c valAddr st)))))"

fun CheckOracleSpamming ::
  "('b, 's) oracle_Keeper \<Rightarrow> ctx \<Rightarrow> oracle_tx_msg list \<Rightarrow> ('b, 's) oracle_state \<Rightarrow>
   ('b, 's) oracle_state res" where
  "CheckOracleSpamming k c [] st = Inr st"
| "CheckOracleSpamming k c (VoteMsg msg # msgs) st =
     bindR (check_vote k c msg st) (CheckOracleSpamming k c msgs)"
| "CheckOracleSpamming k c (OtherMsg # msgs) st = Inr st"

definition Spamming_AnteHandle ::
  "('b, 's) oracle_Keeper \<Rightarrow> ctx \<Rightarrow> bool \<Rightarrow> (('b, 's) oracle_state \<Rightarrow> ('b, 's) oracle_state res) \<Rightarrow>
   oracle_tx_msg list \<Rightarrow> ('b, 's) oracle_state \<Rightarrow> ('b, 's) oracle_state res" where
  "Spamming_AnteHandle k c simulate next_handler msgs st =
     (if IsReCheckTx c then next_handler st
      else if \<not> simulate \<and> IsCheckTx c
      then bindR (CheckOracleSpamming k c msgs st) next_handler
      else next_handler st)"

definition VoteAlone_AnteHandle ::
  "(('b, 's) oracle_state \<Rightarrow> ('b, 's) oracle_state res) \<Rightarrow> oracle_tx_msg list \<Rightarrow>
   ('b, 's) oracle_state \<Rightarrow> ('b, 's) oracle_state res" where
  "VoteAlone_AnteHandle next_handler msgs st =
     (let (oracleVote, otherMsg) =
        fold (\<lambda>msg (v, w). case msg of VoteMsg _ \<Rightarrow> (True, w) | OtherMsg \<Rightarrow> (v, True)) msgs (False, False)
      in if oracleVote \<and> otherMsg then Inl ErrInvalidRequest else next_handler st)"

section \<open>Queries\<close>

definition q_ExchangeRate :: "('b, 's) oracle_state \<Rightarrow> string option \<Rightarrow> OracleExchangeRate res" where
  \<comment> \<open>\<open>None\<close> is a nil request\<close>
  "q_ExchangeRate st req =
     (case req of None \<Rightarrow> Inl InvalidArgument
      | Some denom \<Rightarrow> if length denom = 0 then Inl InvalidArgument
                      else the_or ErrNotFound (kv_get (ork_ExchangeRate st) denom))"

definition q_ExchangeRates :: "('b, 's) oracle_state \<Rightarrow> (string \<times> OracleExchangeRate) list" where
  "q_ExchangeRates st = ork_ExchangeRate st"

definition q_Actives :: "('b, 's) oracle_state \<Rightarrow> string list" where
  "q_Actives st = kv_keys (ork_ExchangeRate st)"

definition q_VoteTargets :: "('b, 's) oracle_state \<Rightarrow> string list" where
  "q_VoteTargets st = GetVoteTargets st"

definition q_PriceSnapshotHistory :: "('b, 's) oracle_state \<Rightarrow> PriceSnapshot list" where
  "q_PriceSnapshotHistory st = map snd (ork_PriceSnapshot st)"

definition q_Twaps :: "('b, 's) oracle_Keeper \<Rightarrow> ctx \<Rightarrow> ('b, 's) oracle_state \<Rightarrow> int \<Rightarrow> OracleTwap list res" where
  "q_Twaps k c st lookBackSeconds = CalculateTwaps (ok_dec k) c st lookBackSeconds"

definition q_FeederDelegation ::
  "('b, 's) oracle_Keeper \<Rightarrow> ('b, 's) oracle_state \<Rightarrow> string option \<Rightarrow> string res" where
  "q_FeederDelegation k st req =
     (case req of None \<Rightarrow> Inl InvalidArgument
      | Some val \<Rightarrow>
          bindR (wrapR InvalidArgument (ValAddressFromBech32 (ok_codec k) val)) (\<lambda>valAddr.
          bindR (GetFeederDelegationOrDefault k st valAddr) (\<lambda>feederDelegation.
          Inr (AccAddressString (ok_codec k) feederDelegation))))"

definition q_VotePenaltyCounter ::
  "('b, 's) oracle_Keeper \<Rightarrow> ('b, 's) oracle_state \<Rightarrow> string option \<Rightarrow> VotePenaltyCounter res" where
  "q_VotePenaltyCounter k st req =
     (case req of None \<Rightarrow> Inl InvalidArgument
      | Some val \<Rightarrow>
          bindR (wrapR InvalidArgument (ValAddressFromBech32 (ok_codec k) val)) (\<lambda>valAddr.
          the_or ErrNotFound (kv_get (ork_VotePenaltyCounter st) valAddr)))"

definition q_SlashWindow :: "ctx \<Rightarrow> ('b, 's) oracle_state \<Rightarrow> int res" where
  "q_SlashWindow c st =
     bindR (oracle_GetParams st) (\<lambda>params.
     if SlashWindow params = 0 \<or> VotePeriod params = 0 then Inl (Panic ''integer divide by zero'')
     else Inr ((u64 (BlockHeight c) mod SlashWindow params) div VotePeriod params))"

section \<open>Lemmas\<close>

lemma DelegateFeedConsent_Inr:
  assumes "DelegateFeedConsent k msg st = Inr st'"
  obtains val del v where "AccAddressFromBech32 (ok_codec k) (dfc_ValidatorOwner msg) = Inr val"
    and "AccAddressFromBech32 (ok_codec k) (dfc_Delegate msg) = Inr del"
    and "stk_Validator (ok_StakingKeeper k) (ork_staking st) val = Inr (Some v)"
    and "st' = st\<lparr>ork_FeederDelegation := kv_set val (AccAddressString (ok_codec k) del) (ork_FeederDelegation st),
                ork_events := ork_events st @ [EvFeedDelegate (dfc_Delegate msg),
                                               EvMessage (dfc_ValidatorOwner msg)]\<rparr>"
proof -
  obtain val del where a: "AccAddressFromBech32 (ok_codec k) (dfc_ValidatorOwner msg) = Inr val"
      "AccAddressFromBech32 (ok_codec k) (dfc_Delegate msg) = Inr del"
    using assms by (auto simp: DelegateFeedConsent_def res_simps)
  obtain v where v: "stk_Validator (ok_StakingKeeper k) (ork_staking st) val = Inr (Some v)"
  proof (cases "stk_Validator (ok_StakingKeeper k) (ork_staking st) val")
    case (Inr w)
    then show ?thesis using assms a that by (cases w) (simp_all add: DelegateFeedConsent_def)
  qed (use assms a in \<open>simp add: DelegateFeedConsent_def\<close>)
  show thesis
    using assms a v by (intro that [OF a v]) (simp add: DelegateFeedConsent_def Let_def oracle_emit_def)
qed

lemma UpdateParams_iff:
  "oracle_UpdateParams k req st = Inr st' \<longleftrightarrow>
     oup_Authority req = ok_authority k \<and> oracle_params_ok (oup_Params req) \<and>
     st' = st\<lparr>ork_Params := Some (oup_Params req)\<rparr>"
  by (auto simp: oracle_UpdateParams_def res_simps)

lemma VoteAlone_fold:
  "fold (\<lambda>msg (v, w). case msg of VoteMsg _ \<Rightarrow> (True, w) | OtherMsg \<Rightarrow> (v, True)) msgs (v0, w0) =
     (v0 \<or> (\<exists>m. VoteMsg m \<in> set msgs), w0 \<or> OtherMsg \<in> set msgs)"
  by (induction msgs arbitrary: v0 w0) (auto split: oracle_tx_msg.splits)

section \<open>Properties\<close>


definition sample_parse :: parse_coin where
  \<comment> \<open>a denom of four characters after a one-digit amount\<close>
  "sample_parse s = (if length s = 5 then Inr (tl s, dec_unit) else Inl (External ''invalid decimal coin''))"

definition sample_vote_msg :: MsgAggregateExchangeRateVote where
  "sample_vote_msg = \<lparr>agm_ExchangeRates = ''1ubtc'', agm_Feeder = ''kbob'', agm_Validator = ''valice''\<rparr>"

lemma sample_parse_run: "ParseExchangeRateTuples sample_parse ''1ubtc'' =
    Inr [\<lparr>tup_Denom = ''ubtc'', tup_ExchangeRate = dec_unit\<rparr>]"
proof -
  have "trim_space ''1ubtc'' = ''1ubtc''"
    by (simp add: trim_space_def trim_with.simps go_spaces_def char_of_def bit_numeral_rec)
  then show ?thesis by (simp add: ParseExchangeRateTuples_def sample_parse_def)
qed

lemma sample_feeder: "ValidateFeeder sample_keeper sample_state ''bob'' ''alice'' = Inr ()"
  by code_simp

lemma sample_vote_run:
  "\<exists>st'. AggregateExchangeRateVote sample_keeper sample_parse sample_vote_msg sample_state = Inr st'"
proof -
  have a: "ValAddressFromBech32 (ok_codec sample_keeper) ''valice'' = Inr ''alice''"
      "AccAddressFromBech32 (ok_codec sample_keeper) ''kbob'' = Inr ''bob''"
    by code_simp+
  have t: "kv_has (ork_VoteTarget sample_state) ''ubtc''" by code_simp
  show ?thesis
    using sample_feeder sample_parse_run a t
    by (simp add: AggregateExchangeRateVote_def sample_vote_msg_def Let_def
        NewAggregateExchangeRateVote_def dec_unit_def)
qed


text \<open>
  after a validator delegates its feed consent, the delegate may vote for it when it is bonded,
  the validator itself still may, and every other account, the previous delegate included, is
  refused for lack of permission; what the other validators' feeders may do does not change.
\<close>

lemma DelegateFeedConsent_correct:
  assumes "bech32 (ok_codec k)" and "DelegateFeedConsent k msg st = Inr st'"
    and "AccAddressFromBech32 (ok_codec k) (dfc_ValidatorOwner msg) = Inr val"
    and "AccAddressFromBech32 (ok_codec k) (dfc_Delegate msg) = Inr del"
  shows "\<exists>v. stk_Validator (ok_StakingKeeper k) (ork_staking st) val = Inr (Some v) \<and>
    (ValidateFeeder k st' del val = Inr () \<longleftrightarrow> IsBonded v) \<and>
    (ValidateFeeder k st' val val = Inr () \<longleftrightarrow> IsBonded v) \<and>
    (\<forall>f. f \<noteq> val \<and> f \<noteq> del \<longrightarrow> ValidateFeeder k st' f val = Inl ErrNoVotingPermission) \<and>
    (\<forall>f w. w \<noteq> val \<longrightarrow> ValidateFeeder k st' f w = ValidateFeeder k st f w)"
proof -
  obtain v where v: "stk_Validator (ok_StakingKeeper k) (ork_staking st) val = Inr (Some v)"
      and st': "st' = st\<lparr>ork_FeederDelegation := kv_set val (AccAddressString (ok_codec k) del) (ork_FeederDelegation st),
                ork_events := ork_events st @ [EvFeedDelegate (dfc_Delegate msg), EvMessage (dfc_ValidatorOwner msg)]\<rparr>"
    using DelegateFeedConsent_Inr [OF assms(2)] assms(3,4) by (metis sum.inject(2))
  have val: "val \<noteq> []" using bech32.acc_not_empty [OF assms(1,3)] .
  have "valid_addr del" using bech32.acc_valid [OF assms(1,4)] .
  then have d: "AccAddressFromBech32 (ok_codec k) (AccAddressString (ok_codec k) del) = Inr del"
    by (rule bech32.acc_roundtrip [OF assms(1)])
  show ?thesis
  proof (intro exI [of _ v] conjI)
    show "\<forall>f. f \<noteq> val \<and> f \<noteq> del \<longrightarrow> ValidateFeeder k st' f val = Inl ErrNoVotingPermission"
      using d by (simp add: ValidateFeeder_def GetFeederDelegationOrDefault_def st')
    show "\<forall>f w. w \<noteq> val \<longrightarrow> ValidateFeeder k st' f w = ValidateFeeder k st f w"
      by (simp add: ValidateFeeder_def GetFeederDelegationOrDefault_def st')
  qed (use v val d in \<open>auto simp: ValidateFeeder_iff st'\<close>)
qed

lemma DelegateFeedConsent_correct_witness:
  "\<exists>st'. DelegateFeedConsent sample_keeper \<lparr>dfc_ValidatorOwner = ''kalice'', dfc_Delegate = ''kcarol''\<rparr>
     sample_state = Inr st' \<and> ValidateFeeder sample_keeper st' ''bob'' ''alice'' = Inl ErrNoVotingPermission"
proof -
  have "is_ok (DelegateFeedConsent sample_keeper
      \<lparr>dfc_ValidatorOwner = ''kalice'', dfc_Delegate = ''kcarol''\<rparr> sample_state)"
    by code_simp
  then obtain st' where st': "DelegateFeedConsent sample_keeper
      \<lparr>dfc_ValidatorOwner = ''kalice'', dfc_Delegate = ''kcarol''\<rparr> sample_state = Inr st'"
    by (auto simp: is_ok_iff)
  have c: "bech32 (ok_codec sample_keeper)" by (simp add: sample_keeper_def toy_addr.bech32_axioms)
  have a: "AccAddressFromBech32 (ok_codec sample_keeper) (dfc_ValidatorOwner
        \<lparr>dfc_ValidatorOwner = ''kalice'', dfc_Delegate = ''kcarol''\<rparr>) = Inr ''alice''"
      "AccAddressFromBech32 (ok_codec sample_keeper) (dfc_Delegate
        \<lparr>dfc_ValidatorOwner = ''kalice'', dfc_Delegate = ''kcarol''\<rparr>) = Inr ''carol''"
    by code_simp+
  have "ValidateFeeder sample_keeper st' ''bob'' ''alice'' = Inl ErrNoVotingPermission"
  proof -
    have "''bob'' \<noteq> ''alice'' \<and> ''bob'' \<noteq> ''carol''" by simp
    then show ?thesis using DelegateFeedConsent_correct [OF c st' a] by meson
  qed
  with st' show ?thesis by (intro exI conjI)
qed

text \<open>
  \<open>VoteAloneDecorator\<close> rejects exactly the transactions that mix oracle votes with other
  messages, and hands every other transaction to the next decorator with the state unchanged.
\<close>

lemma VoteAlone_correct:
  "VoteAlone_AnteHandle next_handler msgs st =
     (if (\<exists>m. VoteMsg m \<in> set msgs) \<and> OtherMsg \<in> set msgs then Inl ErrInvalidRequest else next_handler st)"
  by (simp add: VoteAlone_AnteHandle_def VoteAlone_fold)

text \<open>
  with valid parameters \<open>SlashWindow\<close> never divides by zero, and the progress it reports is
  below the number of vote periods of a slash window.
\<close>

lemma q_SlashWindow_bound:
  assumes "ork_Params st = Some p" and "oracle_Params_Validate p = Inr ()" and "0 < VotePeriod p"
  shows "\<exists>w. q_SlashWindow c st = Inr w \<and> 0 \<le> w \<and> w < SlashWindow p div VotePeriod p"
proof -
  have ok: "VotePeriod p \<le> SlashWindow p" "VotePeriod p dvd SlashWindow p"
    using assms(2) by (simp_all add: oracle_params_ok_def)
  then obtain n where n: "SlashWindow p = VotePeriod p * n" by (auto simp: dvd_def)
  let ?m = "u64 (BlockHeight c) mod SlashWindow p"
  have m: "0 \<le> ?m" "?m < SlashWindow p" using ok(1) assms(3) by simp_all
  have "?m div VotePeriod p < n" using m(2) assms(3) by (simp add: div_less_mult n mult.commute)
  moreover have "0 \<le> ?m div VotePeriod p" using m(1) assms(3) by (simp add: pos_imp_zdiv_nonneg_iff)
  ultimately show ?thesis
    using assms(1,3) ok(1) by (simp add: q_SlashWindow_def oracle_GetParams_def n)
qed

lemma q_SlashWindow_bound_witness:
  "\<exists>w. q_SlashWindow (sample_ctx 48959 6000) sample_state = Inr w \<and> 0 \<le> w \<and> w < 24480"
proof -
  have p: "ork_Params sample_state = Some oracle_DefaultParams" by (simp add: sample_state_def)
  have v: "oracle_Params_Validate oracle_DefaultParams = Inr ()" by code_simp
  have z: "0 < VotePeriod oracle_DefaultParams" by (simp add: oracle_DefaultParams_def)
  have n: "SlashWindow oracle_DefaultParams div VotePeriod oracle_DefaultParams = 24480" by code_simp
  from q_SlashWindow_bound [OF p v z] show ?thesis unfolding n .
qed

text \<open>
  The spam check needs a recorded height, which only the spam check itself writes: a validator
  without one is always refused.
\<close>

lemma first_vote_refused:
  assumes "kv_get (ork_SpamPreventionCounter st) val = None"
    and "ValAddressFromBech32 (ok_codec k) (agm_Validator msg) = Inr val"
  shows "\<not> is_ok (CheckOracleSpamming k c (VoteMsg msg # msgs) st)"
  using assms by (auto simp: is_ok_iff res_simps check_vote_def)

end
