(* ===== verification/OracleGenesis.thy ===== *)
theory OracleGenesis
  imports OracleMsg
begin

text \<open>
  \<open>x/oracle/genesis.go\<close>, \<open>x/oracle/types/genesis.go\<close> and the module's entry points: export,
  import, and the states the module can reach from a valid genesis.
\<close>

section \<open>Genesis state\<close>

record oracle_FeederDelegation =
  fd_FeederAddress :: string
  fd_ValidatorAddress :: string

record oracle_PenaltyCounter =
  pc_ValidatorAddress :: string
  pc_VotePenaltyCounter :: "VotePenaltyCounter option"

record oracle_GenesisState =
  og_Params :: oracle_Params
  og_ExchangeRates :: "ExchangeRateTuple list"
  og_FeederDelegations :: "oracle_FeederDelegation list"
  og_PenaltyCounters :: "oracle_PenaltyCounter list"
  og_AggregateExchangeRateVotes :: "AggregateVote list"
  og_PriceSnapshots :: "PriceSnapshot list"
  og_VotePenaltyCounters :: "VotePenaltyCounter list"

definition oracle_NewGenesisState ::
  "oracle_Params \<Rightarrow> ExchangeRateTuple list \<Rightarrow> oracle_FeederDelegation list \<Rightarrow>
   oracle_PenaltyCounter list \<Rightarrow> AggregateVote list \<Rightarrow> PriceSnapshot list \<Rightarrow>
   VotePenaltyCounter list \<Rightarrow> oracle_GenesisState" where
  "oracle_NewGenesisState params rates feeders counters votes snapshots votePenalty =
     \<lparr>og_Params = params, og_ExchangeRates = rates, og_FeederDelegations = feeders,
      og_PenaltyCounters = counters, og_AggregateExchangeRateVotes = votes,
      og_PriceSnapshots = snapshots, og_VotePenaltyCounters = votePenalty\<rparr>"

definition oracle_DefaultGenesisState :: oracle_GenesisState where
  "oracle_DefaultGenesisState = oracle_NewGenesisState oracle_DefaultParams [] [] [] [] [] []"

definition oracle_Genesis_Validate :: "oracle_GenesisState \<Rightarrow> unit res" where
  "oracle_Genesis_Validate gs = oracle_Params_Validate (og_Params gs)"

section \<open>Import and export\<close>

definition import_feeder ::
  "('b, 's) oracle_Keeper \<Rightarrow> oracle_FeederDelegation \<Rightarrow> ('b, 's) oracle_state \<Rightarrow>
   ('b, 's) oracle_state res" where
  "import_feeder k feederDelegation st =
     bindR (ValAddressFromBech32 (ok_codec k) (fd_ValidatorAddress feederDelegation)) (\<lambda>valAddress.
     bindR (AccAddressFromBech32 (ok_codec k) (fd_FeederAddress feederDelegation)) (\<lambda>feederAddress.
     Inr (st\<lparr>ork_FeederDelegation :=
       kv_set valAddress (AccAddressString (ok_codec k) feederAddress) (ork_FeederDelegation st)\<rparr>)))"

definition import_counter ::
  "('b, 's) oracle_Keeper \<Rightarrow> oracle_PenaltyCounter \<Rightarrow> ('b, 's) oracle_state \<Rightarrow>
   ('b, 's) oracle_state res" where
  "import_counter k penaltyCounter st =
     bindR (ValAddressFromBech32 (ok_codec k) (pc_ValidatorAddress penaltyCounter)) (\<lambda>operator.
     bindR (deref (pc_VotePenaltyCounter penaltyCounter)) (\<lambda>counter.
     Inr (set_counter operator counter st)))"

definition import_vote ::
  "('b, 's) oracle_Keeper \<Rightarrow> AggregateVote \<Rightarrow> ('b, 's) oracle_state \<Rightarrow> ('b, 's) oracle_state res" where
  "import_vote k aggregateExchange st =
     bindR (ValAddressFromBech32 (ok_codec k) (agg_Voter aggregateExchange)) (\<lambda>valAddress.
     Inr (st\<lparr>ork_AggregateExchangeRateVote :=
       kv_set valAddress aggregateExchange (ork_AggregateExchangeRateVote st)\<rparr>))"

definition oracle_InitGenesis ::
  "('b, 's) oracle_Keeper \<Rightarrow> ctx \<Rightarrow> bool \<Rightarrow> oracle_GenesisState \<Rightarrow> ('b, 's) oracle_state \<Rightarrow>
   ('b, 's) oracle_state res" where
  \<comment> \<open>\<open>hasAccount\<close>: the account keeper has the module account\<close>
  "oracle_InitGenesis k c hasAccount data st =
     (let st = st\<lparr>ork_Params := Some (og_Params data)\<rparr>
      in bindR (foldR (import_feeder k) (og_FeederDelegations data) st) (\<lambda>st.
         let st = fold (\<lambda>r. SetBaseExchangeRateWithDefault c (tup_Denom r) (tup_ExchangeRate r))
                    (og_ExchangeRates data) st
         in bindR (foldR (import_counter k) (og_PenaltyCounters data) st) (\<lambda>st.
            bindR (foldR (import_vote k) (og_AggregateExchangeRateVotes data) st) (\<lambda>st.
            bindR (foldR (AddPriceSnapshot c) (og_PriceSnapshots data) st) (\<lambda>st.
            if \<not> hasAccount then Inl (Panic ''oracle module account has not been set'')
            else Inr st)))))"

definition oracle_ExportGenesis ::
  "('b, 's) oracle_Keeper \<Rightarrow> ('b, 's) oracle_state \<Rightarrow> oracle_GenesisState res" where
  "oracle_ExportGenesis k st =
     bindR (oracle_GetParams st) (\<lambda>params.
     Inr (oracle_NewGenesisState params
       (map (\<lambda>(denom, r). \<lparr>tup_Denom = denom, tup_ExchangeRate = ExchangeRate r\<rparr>) (ork_ExchangeRate st))
       (map (\<lambda>(valAddr, f). \<lparr>fd_FeederAddress = f, fd_ValidatorAddress = ValAddressString (ok_codec k) valAddr\<rparr>)
          (ork_FeederDelegation st))
       (map (\<lambda>(operator, v). \<lparr>pc_ValidatorAddress = ValAddressString (ok_codec k) operator,
                              pc_VotePenaltyCounter = Some v\<rparr>) (ork_VotePenaltyCounter st))
       (map snd (ork_AggregateExchangeRateVote st))
       (map snd (ork_PriceSnapshot st))
       (map snd (ork_VotePenaltyCounter st))))"

definition oracle_empty :: "'b \<Rightarrow> 's \<Rightarrow> ('b, 's) oracle_state" where
  "oracle_empty b s =
     \<lparr>ork_Params = None, ork_ExchangeRate = [], ork_FeederDelegation = [], ork_VotePenaltyCounter = [],
      ork_AggregateExchangeRateVote = [], ork_VoteTarget = [], ork_PriceSnapshot = [],
      ork_SpamPreventionCounter = [], ork_bank = b, ork_staking = s, ork_events = []\<rparr>"

section \<open>Operations and reachable states\<close>

datatype oracle_op =
    OpVote MsgAggregateExchangeRateVote
  | OpDelegate MsgDelegateFeedConsent
  | OpUpdateParams oracle_MsgUpdateParams
  | OpCheckTx "oracle_tx_msg list"
  | OpBeginBlock
  | OpEndBlock

definition oracle_exec ::
  "('b, 's) oracle_Keeper \<Rightarrow> parse_coin \<Rightarrow> (string list \<Rightarrow> string list) \<Rightarrow> (ballot \<Rightarrow> ballot) \<Rightarrow>
   ctx \<Rightarrow> oracle_op \<Rightarrow> ('b, 's) oracle_state \<Rightarrow> ('b, 's) oracle_state res" where
  "oracle_exec k P rng srt c op =
     (case op of
        OpVote msg \<Rightarrow> AggregateExchangeRateVote k P msg
      | OpDelegate msg \<Rightarrow> DelegateFeedConsent k msg
      | OpUpdateParams req \<Rightarrow> oracle_UpdateParams k req
      | OpCheckTx msgs \<Rightarrow> CheckOracleSpamming k c msgs
      | OpBeginBlock \<Rightarrow> BeginBlocker k c
      | OpEndBlock \<Rightarrow> EndBlocker rng srt k c)"

text \<open>A valid genesis, then any operations; the bank and staking modules change on their own too.\<close>

inductive oracle_reachable ::
  "('b, 's) oracle_Keeper \<Rightarrow> parse_coin \<Rightarrow> (string list \<Rightarrow> string list) \<Rightarrow> (ballot \<Rightarrow> ballot) \<Rightarrow>
   ('b, 's) oracle_state \<Rightarrow> bool"
  for k P rng srt where
  genesis: "oracle_Genesis_Validate g = Inr () \<Longrightarrow>
    oracle_InitGenesis k c True g (oracle_empty b s) = Inr st \<Longrightarrow> oracle_reachable k P rng srt st"
| step: "oracle_reachable k P rng srt st \<Longrightarrow> oracle_exec k P rng srt c op st = Inr st' \<Longrightarrow>
    oracle_reachable k P rng srt st'"
| outside: "oracle_reachable k P rng srt st \<Longrightarrow>
    oracle_reachable k P rng srt (st\<lparr>ork_bank := b, ork_staking := s\<rparr>)"

section \<open>Invariant\<close>

definition oracle_inv :: "('b, 's) oracle_state \<Rightarrow> bool" where
  "oracle_inv st \<longleftrightarrow> oracle_stores_ok st \<and> (\<exists>p. ork_Params st = Some p \<and> oracle_params_ok p)"

named_theorems inv_intros \<open>operations that keep the invariant\<close>

lemma inv_kv [inv_intros]:
  assumes "oracle_inv st"
  shows "oracle_inv (st\<lparr>ork_ExchangeRate := kv_set d r (ork_ExchangeRate st)\<rparr>)"
    and "oracle_inv (st\<lparr>ork_FeederDelegation := kv_set a f (ork_FeederDelegation st)\<rparr>)"
    and "oracle_inv (st\<lparr>ork_VotePenaltyCounter := kv_set a v (ork_VotePenaltyCounter st)\<rparr>)"
    and "oracle_inv (st\<lparr>ork_VotePenaltyCounter := kv_remove a (ork_VotePenaltyCounter st)\<rparr>)"
    and "oracle_inv (st\<lparr>ork_AggregateExchangeRateVote := kv_set a g (ork_AggregateExchangeRateVote st)\<rparr>)"
    and "oracle_inv (st\<lparr>ork_AggregateExchangeRateVote := []\<rparr>)"
    and "oracle_inv (st\<lparr>ork_VoteTarget := kv_set d t (ork_VoteTarget st)\<rparr>)"
    and "oracle_inv (st\<lparr>ork_VoteTarget := []\<rparr>)"
    and "oracle_inv (st\<lparr>ork_SpamPreventionCounter := kv_set a h (ork_SpamPreventionCounter st)\<rparr>)"
    and "oracle_inv (st\<lparr>ork_bank := b\<rparr>)" and "oracle_inv (st\<lparr>ork_staking := s\<rparr>)"
    and "oracle_inv (st\<lparr>ork_events := e\<rparr>)"
    and "oracle_inv (RemoveExcessFeeds st)"
  using assms RemoveExcessFeeds_ok [of st]
  by (auto simp: oracle_inv_def oracle_stores_ok_def RemoveExcessFeeds_def Let_def kvs.dels_inv)

lemma inv_emit [inv_intros]: "oracle_inv st \<Longrightarrow> oracle_inv (oracle_emit e st)"
  by (simp add: oracle_emit_def inv_intros)

lemma inv_rate [inv_intros]:
  "oracle_inv st \<Longrightarrow> oracle_inv (SetBaseExchangeRateWithDefault c d r st)"
  "oracle_inv st \<Longrightarrow> oracle_inv (SetBaseExchangeRateWithEvent c d r st)"
  by (simp_all add: SetBaseExchangeRateWithDefault_def SetBaseExchangeRateWithEvent_def Let_def inv_intros)

lemma inv_count [inv_intros]: "oracle_inv st \<Longrightarrow> oracle_inv (count_claim n claim st)"
  by (simp add: count_claim_bump set_counter_def inv_intros)

lemma inv_snapshot: "AddPriceSnapshot c s st = Inr st' \<Longrightarrow> oracle_inv st \<Longrightarrow> oracle_inv st'"
  using AddPriceSnapshot_ok [of c s st st']
  by (auto simp: oracle_inv_def AddPriceSnapshot_def Let_def res_simps)

lemma inv_vote: "AggregateExchangeRateVote k P msg st = Inr st' \<Longrightarrow> oracle_inv st \<Longrightarrow> oracle_inv st'"
  by (auto simp: AggregateExchangeRateVote_def Let_def res_simps intro!: inv_intros)

lemma inv_delegate: "DelegateFeedConsent k msg st = Inr st' \<Longrightarrow> oracle_inv st \<Longrightarrow> oracle_inv st'"
  by (erule DelegateFeedConsent_Inr) (auto simp: oracle_inv_def oracle_stores_ok_def)

lemma inv_params: "oracle_UpdateParams k req st = Inr st' \<Longrightarrow> oracle_inv st \<Longrightarrow> oracle_inv st'"
  by (auto simp: UpdateParams_iff oracle_inv_def oracle_stores_ok_def)

lemma inv_spam: "CheckOracleSpamming k c msgs st = Inr st' \<Longrightarrow> oracle_inv st \<Longrightarrow> oracle_inv st'"
  by (induction k c msgs st rule: CheckOracleSpamming.induct)
    (auto simp: res_simps check_vote_def SetSpamPreventionCounterWithDefault_def inv_intros split: if_splits)

lemma inv_begin:
  assumes "BeginBlocker k c st = Inr st'" "oracle_inv st"
  shows "oracle_inv st'"
proof -
  have step: "oracle_inv s'" if "slash_counter k p pr h x s = Inr (stop, s')" "oracle_inv s" for p pr h x s s' stop
    using that by (cases x) (auto simp: slash_counter_def Let_def res_simps split: if_splits intro!: inv_intros)
  have walk: "oracle_inv s'" if "walkR (slash_counter k p pr h) xs s = Inr s'" "oracle_inv s" for p pr h xs s s'
    using that by (rule walkR_inv) (use step in blast)
  show ?thesis
    using assms walk by (auto simp: BeginBlocker_def SlashAndResetCounters_def Let_def res_simps
        split: if_splits intro!: inv_intros)
qed

lemma inv_end:
  assumes "EndBlocker rng srt k c st = Inr st'" and inv: "oracle_inv st"
  shows "oracle_inv st'"
proof -
  have denom: "oracle_inv (snd x')" if "tally_denom srt k c band ref vm rd d x = Inr x'" "oracle_inv (snd x)"
    for band ref vm rd d x x'
    using that by (cases x) (auto simp: tally_denom_def Let_def res_simps inv_intros split: if_splits)
  have refd: "oracle_inv (snd x')" if run: "tally_reference srt k c band ref vm x = Inr x'" and x: "oracle_inv (snd x)"
    for band ref vm x x'
  proof (cases "ref = []")
    case False
    then obtain rd where "foldR (tally_denom srt k c band ref vm rd) (kv_keys vm) x = Inr x'"
      using run by (auto simp: tally_reference_def res_simps)
    then show ?thesis by (rule foldR_inv) (use x denom in blast)+
  qed (use run x in \<open>simp add: tally_reference_def\<close>)
  have count: "oracle_inv (fold (\<lambda>key. count_claim n (f key)) ks s)" if "oracle_inv s" for n ks s
    and f :: "string \<Rightarrow> Claim"
    using that by (induction ks arbitrary: s) (auto simp: inv_intros)
  have item: "oracle_inv s'" if "whitelist_item k x s = Inr s'" "oracle_inv s" for x s s'
    using that by (auto simp: whitelist_item_def Let_def res_simps inv_intros split: option.splits)
  have wl: "oracle_inv s'" if "ApplyWhitelist k l tg s = Inr s'" "oracle_inv s" for l tg s s'
  proof -
    have "foldR (whitelist_item k) l (s\<lparr>ork_VoteTarget := []\<rparr>) = Inr s' \<or> s' = s"
      using that(1) by (auto simp: ApplyWhitelist_def Let_def split: if_splits)
    then show ?thesis
      using that(2) item foldR_inv [of "whitelist_item k" l _ s' oracle_inv] inv_kv(8) by blast
  qed
  have snap: "oracle_inv s'" if "take_snapshot c s = Inr s'" "oracle_inv s" for s s'
    using that inv_snapshot by (auto simp: take_snapshot_def Let_def split: if_splits)
  obtain par last where par: "ork_Params st = Some par" "IsPeriodLastBlock c (VotePeriod par) = Inr last"
    using assms(1) by (auto simp: EndBlocker_def oracle_GetParams_def res_simps)
  show ?thesis
  proof (cases last)
    case True
    then have l: "IsPeriodLastBlock c (VotePeriod par) = Inr True" using par(2) by simp
    obtain cl where cl: "collect_claims k st = Inr cl"
      using assms(1) par(1) l unfolding EndBlocker_def oracle_GetParams_def
      by (cases "collect_claims k st") simp_all
    obtain p cl1 st1 cl2 st2 where
      "pickReferenceDenom (rng (kv_keys (OrganizeBallotByDenom srt st cl))) k st (ork_VoteTarget st)
        (OrganizeBallotByDenom srt st cl) = Inr p"
      and r: "tally_reference srt k c (RewardBand par) (pk_reference p) (pk_votes p) (cl, st) = Inr (cl1, st1)"
      and "tally_below k (RewardBand par) (pk_below p) cl1 = Inr cl2"
      and st2: "st2 = (fold (\<lambda>key. count_claim (int (length (pk_targets p))) (claim_at cl2 key))
       (rng (kv_keys cl2)) st1)\<lparr>ork_AggregateExchangeRateVote := []\<rparr>"
      and w: "bindR (ApplyWhitelist k (Whitelist par) (pk_targets p) st2) (take_snapshot c) = Inr st'"
      by (rule EndBlocker_steps [OF assms(1) par(1) l cl])
    have "oracle_inv st1" using refd [OF r] inv by simp
    then have "oracle_inv st2" unfolding st2 by (intro inv_kv(6) count)
    moreover obtain st3 where st3: "ApplyWhitelist k (Whitelist par) (pk_targets p) st2 = Inr st3"
        "take_snapshot c st3 = Inr st'"
      using w by (rule bindR_InrE)
    ultimately have "oracle_inv st3" using wl by blast
    with st3(2) show ?thesis by (rule snap)
  next
    case False
    then have "st' = st" using assms(1) par by (simp add: EndBlocker_def oracle_GetParams_def)
    with inv show ?thesis by simp
  qed
qed

lemma inv_exec: "oracle_exec k P rng srt c op st = Inr st' \<Longrightarrow> oracle_inv st \<Longrightarrow> oracle_inv st'"
  by (cases op) (auto simp: oracle_exec_def dest: inv_vote inv_delegate inv_params inv_spam inv_begin inv_end)

lemma inv_genesis:
  assumes "oracle_params_ok (og_Params g)" and "oracle_InitGenesis k c acc g (oracle_empty b s) = Inr st"
  shows "oracle_inv st"
proof -
  have i0: "oracle_inv ((oracle_empty b s)\<lparr>ork_Params := Some (og_Params g)\<rparr>)"
    using assms(1) by (simp add: oracle_inv_def oracle_stores_ok_def oracle_empty_def)
  have rates: "oracle_inv (fold (\<lambda>r. SetBaseExchangeRateWithDefault c (tup_Denom r) (tup_ExchangeRate r)) rs s)"
    if "oracle_inv s" for rs and s :: "('a, 'b) oracle_state"
    using that by (induction rs arbitrary: s) (auto simp: inv_intros)
  obtain s1 s2 s3 where
    f1: "foldR (import_feeder k) (og_FeederDelegations g)
      ((oracle_empty b s)\<lparr>ork_Params := Some (og_Params g)\<rparr>) = Inr s1"
    and f2: "foldR (import_counter k) (og_PenaltyCounters g)
      (fold (\<lambda>r. SetBaseExchangeRateWithDefault c (tup_Denom r) (tup_ExchangeRate r)) (og_ExchangeRates g) s1) = Inr s2"
    and f3: "foldR (import_vote k) (og_AggregateExchangeRateVotes g) s2 = Inr s3"
    and f4: "foldR (AddPriceSnapshot c) (og_PriceSnapshots g) s3 = Inr st"
    using assms(2) unfolding oracle_InitGenesis_def Let_def by (auto simp: res_simps split: if_splits)
  have "oracle_inv s1"
    using f1 i0 by (rule foldR_inv) (auto simp: import_feeder_def res_simps inv_intros)
  from f2 rates [OF this] have "oracle_inv s2"
    by (rule foldR_inv) (auto simp: import_counter_def set_counter_def res_simps inv_intros)
  with f3 have "oracle_inv s3"
    by (rule foldR_inv) (auto simp: import_vote_def res_simps inv_intros)
  with f4 show ?thesis by (rule foldR_inv) (use inv_snapshot in blast)
qed

lemma reachable_inv: "oracle_reachable k P rng srt st \<Longrightarrow> oracle_inv st"
proof (induction rule: oracle_reachable.induct)
  case (genesis g c b s st)
  then show ?case using inv_genesis by (fastforce simp: oracle_Genesis_Validate_def)
next
  case (step st c op st')
  then show ?case using inv_exec by blast
next
  case (outside st b s)
  then show ?case using inv_kv(10,11) by fastforce
qed

section \<open>Lemmas: what an import rebuilds\<close>

lemma foldR_writes:
  assumes "\<And>x s. x \<in> set xs \<Longrightarrow> f x s = Inr (upd (kv_set (key x) (val x) (fld s)) s)"
    and "\<And>m s. fld (upd m s) = m" and "\<And>m m' s. upd m (upd m' s) = upd m s" and "\<And>s. upd (fld s) s = s"
  shows "foldR f xs s = Inr (upd (fold (\<lambda>x. kv_set (key x) (val x)) xs (fld s)) s)"
  using assms(1)
proof (induction xs arbitrary: s)
  case (Cons x xs)
  then show ?case by (simp add: assms(2,3))
qed (simp add: assms(4))

lemma foldR_map: "foldR f (map g xs) s = foldR (\<lambda>x. f (g x)) xs s"
  by (induction xs arbitrary: s) (auto intro: bindR_cong)

lemma fold_rebuild:
  assumes "kv_ok m"
  shows "fold (\<lambda>x. kv_set (fst x) (g x)) m [] = map (\<lambda>x. (fst x, g x)) m"
proof -
  have "kv_ok (map (\<lambda>x. (fst x, g x)) m)" using assms by (simp add: kv_ok_def comp_def)
  from kv_rebuild [OF this] show ?thesis by (simp add: fold_map comp_def)
qed

lemma filter_set_filter:
  assumes "kv_ok m"
  shows "filter (\<lambda>p. Q (fst p)) (kv_set k v (filter (\<lambda>p. Q (fst p)) m)) = filter (\<lambda>p. Q (fst p)) (kv_set k v m)"
  by (rule kv_ext) (simp_all add: assms kv_get_filter fun_eq_iff)

lemma import_snapshots:
  assumes "oracle_stores_ok st" and "ork_Params st = Some p" and "unix_ok (LookbackDuration p)"
    and "\<forall>s \<in> set xs. unix_ok (SnapshotTimestamp s)"
    and "\<forall>q \<in> set (ork_PriceSnapshot st). unix_ok (fst q)" and "kv_ok m"
    and "ork_PriceSnapshot st = filter (\<lambda>q. time_Unix (BlockTime c) \<le> fst q + LookbackDuration p) m"
  shows "foldR (AddPriceSnapshot c) xs st = Inr (st\<lparr>ork_PriceSnapshot :=
    filter (\<lambda>q. time_Unix (BlockTime c) \<le> fst q + LookbackDuration p)
      (fold (\<lambda>s. kv_set (SnapshotTimestamp s) s) xs m)\<rparr>)"
  using assms
proof (induction xs arbitrary: st m)
  case (Cons x xs)
  let ?fresh = "filter (\<lambda>q. time_Unix (BlockTime c) \<le> fst q + LookbackDuration p)"
  let ?st = "st\<lparr>ork_PriceSnapshot := ?fresh (kv_set (SnapshotTimestamp x) x (ork_PriceSnapshot st))\<rparr>"
  have add: "AddPriceSnapshot c x st = Inr ?st"
    using Cons.prems by (intro AddPriceSnapshot_keeps_fresh) auto
  have "oracle_stores_ok ?st" using AddPriceSnapshot_ok [OF add] Cons.prems(1) by blast
  moreover have "ork_PriceSnapshot ?st = ?fresh (kv_set (SnapshotTimestamp x) x m)"
    using filter_set_filter [OF Cons.prems(6), of "\<lambda>t. time_Unix (BlockTime c) \<le> t + LookbackDuration p"]
      Cons.prems(7) by simp
  moreover have "\<forall>q \<in> set (ork_PriceSnapshot ?st). unix_ok (fst q)"
    using Cons.prems(4,5) by (auto dest!: set_kv_setD)
  ultimately have "foldR (AddPriceSnapshot c) xs ?st = Inr (?st\<lparr>ork_PriceSnapshot :=
      ?fresh (fold (\<lambda>s. kv_set (SnapshotTimestamp s) s) xs (kv_set (SnapshotTimestamp x) x m))\<rparr>)"
    using Cons.prems by (intro Cons.IH) auto
  with add show ?case by simp
qed simp

lemma import_rates:
  "fold (\<lambda>r. SetBaseExchangeRateWithDefault c (tup_Denom r) (tup_ExchangeRate r))
     (map (\<lambda>x. \<lparr>tup_Denom = fst x, tup_ExchangeRate = ExchangeRate (snd x)\<rparr>) xs) s =
   s\<lparr>ork_ExchangeRate := fold (\<lambda>x. kv_set (fst x) ((snd x)\<lparr>LastUpdate := BlockHeight c,
      LastUpdateTimestamp := time_UnixMilli (BlockTime c)\<rparr>)) xs (ork_ExchangeRate s)\<rparr>"
proof (induction xs arbitrary: s)
  case (Cons x xs)
  have "\<lparr>ExchangeRate = ExchangeRate r, LastUpdate = h, LastUpdateTimestamp = t\<rparr> =
      r\<lparr>LastUpdate := h, LastUpdateTimestamp := t\<rparr>" for r :: OracleExchangeRate and h t
    by (cases r) simp
  then have "SetBaseExchangeRateWithDefault c (fst x) (ExchangeRate (snd x)) s =
      s\<lparr>ork_ExchangeRate := kv_set (fst x) ((snd x)\<lparr>LastUpdate := BlockHeight c,
        LastUpdateTimestamp := time_UnixMilli (BlockTime c)\<rparr>) (ork_ExchangeRate s)\<rparr>"
    unfolding SetBaseExchangeRateWithDefault_def Let_def by (simp only:)
  then show ?case by (simp add: Cons.IH)
qed simp

definition genesis_ready :: "addr_codec \<Rightarrow> ('b, 's) oracle_state \<Rightarrow> bool" where
  \<comment> \<open>addresses are valid and strings canonical, as the message handlers store them\<close>
  "genesis_ready C st \<longleftrightarrow> oracle_stores_ok st \<and> votes_named C st \<and>
     (\<forall>a \<in> set (kv_keys (ork_FeederDelegation st)) \<union> set (kv_keys (ork_VotePenaltyCounter st)) \<union>
           set (kv_keys (ork_AggregateExchangeRateVote st)). valid_addr a) \<and>
     (\<forall>s \<in> snd ` set (ork_FeederDelegation st). \<exists>f. valid_addr f \<and> s = AccAddressString C f) \<and>
     (\<forall>q \<in> set (ork_PriceSnapshot st). unix_ok (fst q))"

section \<open>Properties\<close>

text \<open>
  C3: in every state the module can reach from a valid genesis by messages, check-tx, begin and
  end blockers, and changes of the bank and the staking module, each store is in key order with
  every snapshot under its own timestamp, and the parameters are present and valid; so no
  blocker ever fails on missing parameters or on a division by a zero period.
\<close>

theorem reachable_params_valid:
  assumes "oracle_reachable k P rng srt st"
  shows "oracle_stores_ok st \<and> (\<exists>p. ork_Params st = Some p \<and> oracle_Params_Validate p = Inr () \<and>
    (VotePeriod p \<ge> 0 \<longrightarrow> (\<forall>c. \<exists>v w. IsPeriodLastBlock c (VotePeriod p) = Inr v \<and>
       IsPeriodLastBlock c (SlashWindow p) = Inr w)))"
proof -
  obtain p where p: "oracle_stores_ok st" "ork_Params st = Some p" "oracle_params_ok p"
    using reachable_inv [OF assms] by (auto simp: oracle_inv_def)
  then have "VotePeriod p \<noteq> 0" "0 \<le> VotePeriod p \<Longrightarrow> SlashWindow p \<noteq> 0"
    by (auto simp: oracle_params_ok_def)
  with p show ?thesis by (auto simp: IsPeriodLastBlock_def Let_def)
qed

definition sample_genesis :: "(ledger, toy_staking) oracle_state res" where
  "sample_genesis = oracle_InitGenesis sample_keeper (sample_ctx 1 6000) True oracle_DefaultGenesisState
     (oracle_empty empty_ledger \<lparr>ts_vals = [], ts_slashed = []\<rparr>)"

theorem reachable_params_valid_witness:
  "\<exists>st. sample_genesis = Inr st \<and> oracle_stores_ok st"
proof -
  have "is_ok sample_genesis" by code_simp
  then obtain st where st: "sample_genesis = Inr st" by (auto simp: is_ok_iff)
  have v: "oracle_Genesis_Validate oracle_DefaultGenesisState = Inr ()" by code_simp
  have "oracle_reachable sample_keeper sample_parse rev isort_ballot st"
    using v st unfolding sample_genesis_def by (rule oracle_reachable.genesis)
  from reachable_params_valid [OF this] have "oracle_stores_ok st" by blast
  with st show ?thesis by (intro exI conjI)
qed

text \<open>The stores an import writes record by record.\<close>

lemma import_feeders:
  assumes "bech32 (ok_codec k)" and "kv_ok m" and "\<forall>a \<in> set (kv_keys m). valid_addr a"
    and "\<forall>(a, s) \<in> set m. \<exists>f. valid_addr f \<and> s = AccAddressString (ok_codec k) f" and "ork_FeederDelegation st = []"
  shows "foldR (import_feeder k) (map (\<lambda>x. \<lparr>fd_FeederAddress = snd x,
      fd_ValidatorAddress = ValAddressString (ok_codec k) (fst x)\<rparr>) m) st = Inr (st\<lparr>ork_FeederDelegation := m\<rparr>)"
proof -
  note rt = bech32.val_roundtrip [OF assms(1)] bech32.acc_roundtrip [OF assms(1)]
  have "foldR (import_feeder k) (map (\<lambda>x. \<lparr>fd_FeederAddress = snd x,
      fd_ValidatorAddress = ValAddressString (ok_codec k) (fst x)\<rparr>) m) st =
      Inr (st\<lparr>ork_FeederDelegation := fold (\<lambda>x. kv_set (fst x) (snd x)) m []\<rparr>)"
    unfolding foldR_map
    by (subst foldR_writes [where key = fst and val = snd and fld = ork_FeederDelegation
          and upd = "\<lambda>m. ork_FeederDelegation_update (\<lambda>_. m)"])
      (use assms(3-5) in \<open>force simp: import_feeder_def rt\<close>)+
  then show ?thesis using fold_rebuild [OF assms(2), of snd] by simp
qed

lemma import_counters:
  assumes "bech32 (ok_codec k)" and "kv_ok m" and "\<forall>a \<in> set (kv_keys m). valid_addr a" and "ork_VotePenaltyCounter st = []"
  shows "foldR (import_counter k) (map (\<lambda>x. \<lparr>pc_ValidatorAddress = ValAddressString (ok_codec k) (fst x),
      pc_VotePenaltyCounter = Some (snd x)\<rparr>) m) st = Inr (st\<lparr>ork_VotePenaltyCounter := m\<rparr>)"
proof -
  have "foldR (import_counter k) (map (\<lambda>x. \<lparr>pc_ValidatorAddress = ValAddressString (ok_codec k) (fst x),
      pc_VotePenaltyCounter = Some (snd x)\<rparr>) m) st =
      Inr (st\<lparr>ork_VotePenaltyCounter := fold (\<lambda>x. kv_set (fst x) (snd x)) m []\<rparr>)"
    unfolding foldR_map
    by (subst foldR_writes [where key = fst and val = snd and fld = ork_VotePenaltyCounter
          and upd = "\<lambda>m. ork_VotePenaltyCounter_update (\<lambda>_. m)"])
      (use assms(3,4) in \<open>force simp: import_counter_def set_counter_def bech32.val_roundtrip [OF assms(1)]\<close>)+
  then show ?thesis using fold_rebuild [OF assms(2), of snd] by simp
qed

lemma import_votes:
  assumes "bech32 (ok_codec k)" and "kv_ok m" and "\<forall>(a, v) \<in> set m. valid_addr a \<and> agg_Voter v = ValAddressString (ok_codec k) a"
    and "ork_AggregateExchangeRateVote st = []"
  shows "foldR (import_vote k) (map snd m) st = Inr (st\<lparr>ork_AggregateExchangeRateVote := m\<rparr>)"
proof -
  have "foldR (import_vote k) (map snd m) st =
      Inr (st\<lparr>ork_AggregateExchangeRateVote := fold (\<lambda>x. kv_set (fst x) (snd x)) m []\<rparr>)"
    unfolding foldR_map
    by (subst foldR_writes [where key = fst and val = snd and fld = ork_AggregateExchangeRateVote
          and upd = "\<lambda>m. ork_AggregateExchangeRateVote_update (\<lambda>_. m)"])
      (use assms(3,4) in \<open>force simp: import_vote_def bech32.val_roundtrip [OF assms(1)]\<close>)+
  then show ?thesis using fold_rebuild [OF assms(2), of snd] by simp
qed

lemma import_all_snapshots:
  assumes "kv_ok m" and "\<forall>x \<in> set m. SnapshotTimestamp (snd x) = fst x"
  shows "fold (\<lambda>s. kv_set (SnapshotTimestamp s) s) (map snd m) [] = (m :: (int, PriceSnapshot) kv)"
proof -
  have "fold (\<lambda>s. kv_set (SnapshotTimestamp s) s) (map snd m) a = fold (\<lambda>x. kv_set (fst x) (snd x)) m a" for a
    using assms(2) by (induction m arbitrary: a) auto
  then show ?thesis
    using fold_rebuild [OF assms(1), of snd] by simp
qed

lemma export_fields:
  assumes "ork_Params st = Some p"
  obtains g where "oracle_ExportGenesis k st = Inr g"
    "og_FeederDelegations g = map (\<lambda>x. \<lparr>fd_FeederAddress = snd x,
       fd_ValidatorAddress = ValAddressString (ok_codec k) (fst x)\<rparr>) (ork_FeederDelegation st)"
    "og_ExchangeRates g = map (\<lambda>x. \<lparr>tup_Denom = fst x, tup_ExchangeRate = ExchangeRate (snd x)\<rparr>) (ork_ExchangeRate st)"
    "og_PenaltyCounters g = map (\<lambda>x. \<lparr>pc_ValidatorAddress = ValAddressString (ok_codec k) (fst x),
       pc_VotePenaltyCounter = Some (snd x)\<rparr>) (ork_VotePenaltyCounter st)"
    "og_AggregateExchangeRateVotes g = map snd (ork_AggregateExchangeRateVote st)"
    "og_PriceSnapshots g = map snd (ork_PriceSnapshot st)" "og_Params g = p"
  using that
  by (simp add: oracle_ExportGenesis_def oracle_GetParams_def assms oracle_NewGenesisState_def case_prod_unfold)

text \<open>
  C39: importing an exported genesis into an empty store succeeds and gives back the parameters, the
  feeder delegations, the penalty counters and the pending votes unchanged, the exchange rates
  with the height and time of the import in place of their own, and the snapshots that are still
  inside the look-back duration; vote targets and spam heights are not exported.
\<close>

theorem oracle_genesis_roundtrip:
  assumes "bech32 (ok_codec k)" and "genesis_ready (ok_codec k) st"
    and "ork_Params st = Some p" and "unix_ok (LookbackDuration p)"
  shows "\<exists>g. oracle_ExportGenesis k st = Inr g \<and>
    oracle_InitGenesis k c True g (oracle_empty (ork_bank st) (ork_staking st)) =
      Inr (st\<lparr>ork_ExchangeRate := map (\<lambda>(d, r). (d, r\<lparr>LastUpdate := BlockHeight c,
                LastUpdateTimestamp := time_UnixMilli (BlockTime c)\<rparr>)) (ork_ExchangeRate st),
             ork_PriceSnapshot := filter (\<lambda>q. time_Unix (BlockTime c) \<le> fst q + LookbackDuration p)
                (ork_PriceSnapshot st),
             ork_VoteTarget := [], ork_SpamPreventionCounter := [], ork_events := []\<rparr>)"
proof -
  let ?s0 = "oracle_empty (ork_bank st) (ork_staking st)\<lparr>ork_Params := Some p\<rparr>"
  let ?s1 = "?s0\<lparr>ork_FeederDelegation := ork_FeederDelegation st\<rparr>"
  let ?s2 = "?s1\<lparr>ork_ExchangeRate := map (\<lambda>(d, r). (d, r\<lparr>LastUpdate := BlockHeight c,
                LastUpdateTimestamp := time_UnixMilli (BlockTime c)\<rparr>)) (ork_ExchangeRate st)\<rparr>"
  let ?s3 = "?s2\<lparr>ork_VotePenaltyCounter := ork_VotePenaltyCounter st\<rparr>"
  let ?s4 = "?s3\<lparr>ork_AggregateExchangeRateVote := ork_AggregateExchangeRateVote st\<rparr>"
  note ready = assms(2) [unfolded genesis_ready_def oracle_stores_ok_def votes_named_def]
  obtain g where g: "oracle_ExportGenesis k st = Inr g" and og: "og_Params g = p"
      "og_FeederDelegations g = map (\<lambda>x. \<lparr>fd_FeederAddress = snd x,
         fd_ValidatorAddress = ValAddressString (ok_codec k) (fst x)\<rparr>) (ork_FeederDelegation st)"
      "og_ExchangeRates g = map (\<lambda>x. \<lparr>tup_Denom = fst x, tup_ExchangeRate = ExchangeRate (snd x)\<rparr>) (ork_ExchangeRate st)"
      "og_PenaltyCounters g = map (\<lambda>x. \<lparr>pc_ValidatorAddress = ValAddressString (ok_codec k) (fst x),
         pc_VotePenaltyCounter = Some (snd x)\<rparr>) (ork_VotePenaltyCounter st)"
      "og_AggregateExchangeRateVotes g = map snd (ork_AggregateExchangeRateVote st)"
      "og_PriceSnapshots g = map snd (ork_PriceSnapshot st)"
    by (rule export_fields [OF assms(3)])
  have f1: "foldR (import_feeder k) (og_FeederDelegations g) ?s0 = Inr ?s1"
    unfolding og(2) by (rule import_feeders [OF assms(1)]) (use ready in \<open>force simp: oracle_empty_def\<close>)+
  have f2: "fold (\<lambda>r. SetBaseExchangeRateWithDefault c (tup_Denom r) (tup_ExchangeRate r)) (og_ExchangeRates g) ?s1 = ?s2"
    unfolding og(3) import_rates using fold_rebuild [of "ork_ExchangeRate st"] ready
    by (simp add: oracle_empty_def case_prod_unfold)
  have f3: "foldR (import_counter k) (og_PenaltyCounters g) ?s2 = Inr ?s3"
    unfolding og(4) by (rule import_counters [OF assms(1)]) (use ready in \<open>auto simp: oracle_empty_def\<close>)
  have named: "\<forall>(a, v) \<in> set (ork_AggregateExchangeRateVote st). valid_addr a \<and> agg_Voter v = ValAddressString (ok_codec k) a"
  proof clarify
    fix a v assume m: "(a, v) \<in> set (ork_AggregateExchangeRateVote st)"
    then have "a \<in> set (kv_keys (ork_AggregateExchangeRateVote st))" by force
    then show "valid_addr a \<and> agg_Voter v = ValAddressString (ok_codec k) a"
      using m ready by blast
  qed
  have f4: "foldR (import_vote k) (og_AggregateExchangeRateVotes g) ?s3 = Inr ?s4"
    unfolding og(5) by (rule import_votes [OF assms(1) _ named]) (use ready in \<open>simp_all add: oracle_empty_def\<close>)
  have f5: "foldR (AddPriceSnapshot c) (og_PriceSnapshots g) ?s4 = Inr (?s4\<lparr>ork_PriceSnapshot :=
      filter (\<lambda>q. time_Unix (BlockTime c) \<le> fst q + LookbackDuration p) (ork_PriceSnapshot st)\<rparr>)"
  proof -
    have "foldR (AddPriceSnapshot c) (og_PriceSnapshots g) ?s4 = Inr (?s4\<lparr>ork_PriceSnapshot :=
        filter (\<lambda>q. time_Unix (BlockTime c) \<le> fst q + LookbackDuration p)
          (fold (\<lambda>s. kv_set (SnapshotTimestamp s) s) (map snd (ork_PriceSnapshot st)) [])\<rparr>)"
      unfolding og(6) by (rule import_snapshots)
        (use assms(4) ready in \<open>auto simp: oracle_stores_ok_def oracle_empty_def kv_ok_def comp_def case_prod_unfold\<close>)
    then show ?thesis
      using import_all_snapshots [of "ork_PriceSnapshot st"] ready by simp
  qed
  show ?thesis
    using g f1 f2 f3 f4 f5 by (simp add: oracle_InitGenesis_def og(1) oracle_empty_def assms(3))
qed

theorem oracle_genesis_roundtrip_witness:
  "\<exists>g st'. oracle_ExportGenesis sample_keeper sample_state = Inr g \<and>
    oracle_InitGenesis sample_keeper (sample_ctx 10 6000) True g
      (oracle_empty (ork_bank sample_state) (ork_staking sample_state)) = Inr st' \<and>
    kv_keys (ork_PriceSnapshot st') = [5000] \<and> ork_FeederDelegation st' = [(''alice'', ''kbob'')]"
proof -
  have c: "bech32 (ok_codec sample_keeper)" by (simp add: sample_keeper_def toy_addr.bech32_axioms)
  have f: "\<exists>f. valid_addr f \<and> ''kbob'' = AccAddressString (ok_codec sample_keeper) f"
    by (rule exI [of _ "''bob''"]) (simp add: valid_addr_def toy_codec_def sample_keeper_def)
  have r: "genesis_ready (ok_codec sample_keeper) sample_state"
    unfolding genesis_ready_def using sample_state_ok f
    by (simp add: votes_named_def sample_state_def valid_addr_def unix_ok_def)
  have p: "ork_Params sample_state = Some oracle_DefaultParams" by (simp add: sample_state_def)
  have l: "unix_ok (LookbackDuration oracle_DefaultParams)" by (simp add: unix_ok_def oracle_DefaultParams_def)
  show ?thesis
    using oracle_genesis_roundtrip [OF c r p l, of "sample_ctx 10 6000"]
    by (auto simp: sample_state_def oracle_DefaultParams_def)
qed

end
