(* ===== verification/TokenTypes.thy ===== *)
theory TokenTypes
  imports Chain GoStrings
begin

text \<open>
  \<open>x/tokenfactory/types\<close>: denoms of the form \<open>factory/creator/subdenom\<close>, store keys,
  capabilities, parameters, genesis data and the messages with \<open>ValidateBasic\<close>. The denom regular
  expression, \<open>Coins.Validate\<close>, \<open>Coin.IsValid\<close> and \<open>Metadata.Validate\<close> belong to the SDK: they
  are the fields of \<open>sdk_checks\<close>.
\<close>

record sdk_checks =
  sc_codec :: addr_codec
  sc_ValidateDenom :: "string \<Rightarrow> unit res"
  sc_Coins_Validate :: "coins \<Rightarrow> unit res"
  sc_Coin_IsValid :: "coin \<Rightarrow> bool"
  sc_Metadata_Validate :: "metadata \<Rightarrow> unit res"

text \<open>\<open>sdk.NewCoins\<close> of one coin: zero amounts are dropped, an invalid coin panics.\<close>

definition NewCoins :: "sdk_checks \<Rightarrow> coin \<Rightarrow> coins res" where
  "NewCoins S c =
     (if coin_Amount c = 0 then Inr []
      else if coin_Amount c < 0 then Inl (Panic ''invalid coins'')
      else bindR (wrapR (Panic ''invalid coins'') (sc_ValidateDenom S (coin_Denom c))) (\<lambda>_. Inr [c]))"

section \<open>Denoms\<close>

definition ModuleDenomPrefix :: string where "ModuleDenomPrefix = ''factory''"
definition MaxSubdenomLength :: nat where "MaxSubdenomLength = 44"
definition MaxHrpLength :: nat where "MaxHrpLength = 16"
definition MaxCreatorLength :: nat where "MaxCreatorLength = 59 + MaxHrpLength"

definition GetTokenDenom :: "sdk_checks \<Rightarrow> string \<Rightarrow> string \<Rightarrow> string res" where
  "GetTokenDenom S creator subdenom =
     (if length subdenom > MaxSubdenomLength then Inl ErrSubdenomTooLong
      else if length creator > MaxCreatorLength then Inl ErrCreatorTooLong
      else if contains_char creator (CHR ''/'') then Inl ErrInvalidCreator
      else
        let denom = join_with (CHR ''/'') [ModuleDenomPrefix, creator, subdenom]
        in bindR (sc_ValidateDenom S denom) (\<lambda>_. Inr denom))"

definition DeconstructDenom :: "sdk_checks \<Rightarrow> string \<Rightarrow> (string \<times> string) res" where
  "DeconstructDenom S denom =
     bindR (sc_ValidateDenom S denom) (\<lambda>_.
     let strParts = split_on (CHR ''/'') denom
     in if length strParts < 3 then Inl ErrInvalidDenom
        else if strParts ! 0 \<noteq> ModuleDenomPrefix then Inl ErrInvalidDenom
        else bindR (wrapR ErrInvalidDenom (AccAddressFromBech32 (sc_codec S) (strParts ! 1)))
          (\<lambda>creatorAddr.
            let subdenom = join_with (CHR ''/'') (drop 2 strParts)
            in Inr (AccAddressString (sc_codec S) creatorAddr, subdenom)))"

section \<open>Keys and capabilities\<close>

definition tf_ParamsKey :: string where "tf_ParamsKey = [CHR 0x00]"
definition DenomAuthorityMetadataKey :: string where "DenomAuthorityMetadataKey = ''authoritymetadata''"

definition GetDenomPrefixStore :: "string \<Rightarrow> string" where
  "GetDenomPrefixStore denom = join_with (CHR ''|'') [''denoms'', denom, []]"

definition GetCreatorPrefix :: "string \<Rightarrow> string" where
  "GetCreatorPrefix creator = join_with (CHR ''|'') [''creator'', creator, []]"

definition GetCreatorsPrefix :: string where
  "GetCreatorsPrefix = join_with (CHR ''|'') [''creator'', []]"

definition EnableSetMetadata :: string where "EnableSetMetadata = ''enable_metadata''"
definition EnableForceTransfer :: string where "EnableForceTransfer = ''enable_force_transfer''"
definition EnableBurnFrom :: string where "EnableBurnFrom = ''enable_burn_from''"
definition EnableCommunityPoolFeeFunding :: string where
  "EnableCommunityPoolFeeFunding = ''enable_community_pool_fee_funding''"

definition IsCapabilityEnabled :: "string list \<Rightarrow> string \<Rightarrow> bool" where
  "IsCapabilityEnabled enabledCapabilities capability =
     (if length enabledCapabilities = 0 then False
      else list_ex (\<lambda>v. v = capability) enabledCapabilities)"

section \<open>Parameters, metadata and genesis data\<close>

record tf_Params =
  DenomCreationFee :: coins
  DenomCreationGasConsume :: int

record DenomAuthorityMetadata =
  Admin :: string

record GenesisDenom =
  gd_Denom :: string
  gd_AuthorityMetadata :: DenomAuthorityMetadata

record tf_GenesisState =
  tg_Params :: tf_Params
  tg_FactoryDenoms :: "GenesisDenom list"

definition tf_NewParams :: "coins \<Rightarrow> tf_Params" where
  "tf_NewParams denomCreationFee = \<lparr>DenomCreationFee = denomCreationFee, DenomCreationGasConsume = 0\<rparr>"

definition tf_DefaultParams :: tf_Params where
  "tf_DefaultParams = \<lparr>DenomCreationFee = [\<lparr>coin_Denom = ''stake'', coin_Amount = 10000000\<rparr>],
                       DenomCreationGasConsume = 2000000\<rparr>"

definition tf_Params_Validate :: "sdk_checks \<Rightarrow> tf_Params \<Rightarrow> unit res" where
  "tf_Params_Validate S p = wrapR (Errorf ''invalid denom creation fee'') (sc_Coins_Validate S (DenomCreationFee p))"

definition AuthorityMetadata_Validate :: "sdk_checks \<Rightarrow> DenomAuthorityMetadata \<Rightarrow> unit res" where
  "AuthorityMetadata_Validate S m =
     (if Admin m \<noteq> [] then bindR (AccAddressFromBech32 (sc_codec S) (Admin m)) (\<lambda>_. Inr ()) else Inr ())"

definition tf_DefaultGenesis :: tf_GenesisState where
  "tf_DefaultGenesis = \<lparr>tg_Params = tf_DefaultParams, tg_FactoryDenoms = []\<rparr>"

fun validate_denoms :: "sdk_checks \<Rightarrow> string list \<Rightarrow> GenesisDenom list \<Rightarrow> unit res" where
  "validate_denoms S seenDenoms [] = Inr ()"
| "validate_denoms S seenDenoms (denom # ds) =
     (if List.member seenDenoms (gd_Denom denom) then Inl ErrInvalidGenesis
      else bindR (DeconstructDenom S (gd_Denom denom)) (\<lambda>_.
        bindR (if Admin (gd_AuthorityMetadata denom) \<noteq> []
               then bindR (wrapR ErrInvalidAuthorityMetadata
                      (AccAddressFromBech32 (sc_codec S) (Admin (gd_AuthorityMetadata denom)))) (\<lambda>_. Inr ())
               else Inr ()) (\<lambda>_.
          validate_denoms S (gd_Denom denom # seenDenoms) ds)))"

definition tf_Genesis_Validate :: "sdk_checks \<Rightarrow> tf_GenesisState \<Rightarrow> unit res" where
  "tf_Genesis_Validate S gs =
     bindR (tf_Params_Validate S (tg_Params gs)) (\<lambda>_. validate_denoms S [] (tg_FactoryDenoms gs))"

section \<open>Messages\<close>

record MsgCreateDenom =
  cd_Sender :: string
  cd_Subdenom :: string

record MsgMint =
  mm_Sender :: string
  mm_Amount :: coin
  mm_MintToAddress :: string

record MsgBurn =
  mb_Sender :: string
  mb_Amount :: coin
  mb_BurnFromAddress :: string

record MsgForceTransfer =
  mf_Sender :: string
  mf_Amount :: coin
  mf_TransferFromAddress :: string
  mf_TransferToAddress :: string

record MsgChangeAdmin =
  mc_Sender :: string
  mc_Denom :: string
  mc_NewAdmin :: string

record MsgSetDenomMetadata =
  ms_Sender :: string
  ms_Metadata :: metadata

record tf_MsgUpdateParams =
  tup_Authority :: string
  tup_Params :: tf_Params

definition check_addr :: "sdk_checks \<Rightarrow> string \<Rightarrow> unit res" where
  "check_addr S a = bindR (wrapR ErrInvalidAddress (AccAddressFromBech32 (sc_codec S) a)) (\<lambda>_. Inr ())"

definition MsgCreateDenom_ValidateBasic :: "sdk_checks \<Rightarrow> MsgCreateDenom \<Rightarrow> unit res" where
  "MsgCreateDenom_ValidateBasic S m =
     bindR (check_addr S (cd_Sender m)) (\<lambda>_.
     bindR (wrapR ErrInvalidDenom (GetTokenDenom S (cd_Sender m) (cd_Subdenom m))) (\<lambda>_. Inr ()))"

definition MsgMint_ValidateBasic :: "sdk_checks \<Rightarrow> MsgMint \<Rightarrow> unit res" where
  "MsgMint_ValidateBasic S m =
     bindR (check_addr S (mm_Sender m)) (\<lambda>_.
     bindR (if mm_MintToAddress m \<noteq> [] then check_addr S (mm_MintToAddress m) else Inr ()) (\<lambda>_.
     if \<not> sc_Coin_IsValid S (mm_Amount m) \<or> coin_Amount (mm_Amount m) = 0
     then Inl ErrInvalidCoins else Inr ()))"

definition MsgBurn_ValidateBasic :: "sdk_checks \<Rightarrow> MsgBurn \<Rightarrow> unit res" where
  "MsgBurn_ValidateBasic S m =
     bindR (check_addr S (mb_Sender m)) (\<lambda>_.
     if \<not> sc_Coin_IsValid S (mb_Amount m) \<or> coin_Amount (mb_Amount m) = 0
     then Inl ErrInvalidCoins
     else if mb_BurnFromAddress m \<noteq> [] then check_addr S (mb_BurnFromAddress m) else Inr ())"

definition MsgForceTransfer_ValidateBasic :: "sdk_checks \<Rightarrow> MsgForceTransfer \<Rightarrow> unit res" where
  "MsgForceTransfer_ValidateBasic S m =
     bindR (check_addr S (mf_Sender m)) (\<lambda>_.
     bindR (check_addr S (mf_TransferFromAddress m)) (\<lambda>_.
     bindR (check_addr S (mf_TransferToAddress m)) (\<lambda>_.
     if \<not> sc_Coin_IsValid S (mf_Amount m) then Inl ErrInvalidCoins else Inr ())))"

definition MsgChangeAdmin_ValidateBasic :: "sdk_checks \<Rightarrow> MsgChangeAdmin \<Rightarrow> unit res" where
  "MsgChangeAdmin_ValidateBasic S m =
     bindR (check_addr S (mc_Sender m)) (\<lambda>_.
     bindR (check_addr S (mc_NewAdmin m)) (\<lambda>_.
     bindR (DeconstructDenom S (mc_Denom m)) (\<lambda>_. Inr ())))"

definition MsgSetDenomMetadata_ValidateBasic :: "sdk_checks \<Rightarrow> MsgSetDenomMetadata \<Rightarrow> unit res" where
  "MsgSetDenomMetadata_ValidateBasic S m =
     bindR (check_addr S (ms_Sender m)) (\<lambda>_.
     bindR (sc_Metadata_Validate S (ms_Metadata m)) (\<lambda>_.
     bindR (DeconstructDenom S (md_Base (ms_Metadata m))) (\<lambda>_. Inr ())))"

definition tf_MsgUpdateParams_ValidateBasic :: "sdk_checks \<Rightarrow> tf_MsgUpdateParams \<Rightarrow> unit res" where
  "tf_MsgUpdateParams_ValidateBasic S m =
     bindR (AccAddressFromBech32 (sc_codec S) (tup_Authority m)) (\<lambda>_. tf_Params_Validate S (tup_Params m))"

end
