(* ===== verification/TokenKeeper.thy ===== *)
theory TokenKeeper
  imports TokenTypes "HOL-Library.Sublist"
begin

text \<open>
  \<open>x/tokenfactory/keeper\<close>: the raw key-value store of the module (string keys, one value type
  per kind of record), authority metadata, denom creation with its charge, bank actions,
  genesis and the message server.  The bank keeper, the community pool and the module
  accounts are parameters of the keeper; events and logging are left out.
\<close>

section \<open>Keeper and state\<close>

datatype tf_value = VParams tf_Params | VMetadata DenomAuthorityMetadata | VDenom string

record 'b tf_Keeper =
  tk_checks :: sdk_checks
  tk_bank :: "'b bank_ops"
  tk_GetModuleAccount :: "string \<Rightarrow> addr option"
  tk_FundCommunityPool :: "coins \<Rightarrow> addr \<Rightarrow> 'b \<Rightarrow> 'b res"
  tk_permAddrs :: "string list"
  tk_enabledCapabilities :: "string list"
  tk_authority :: string

text \<open>The gas meter of the context: gas consumed so far and its limit.\<close>

record 'b tf_state =
  tfs_store :: "(string, tf_value) kv"
  tfs_bank :: 'b
  tfs_gas :: int
  tfs_gas_limit :: int

definition tf_ModuleName :: string where "tf_ModuleName = ''tokenfactory''"

definition ConsumeGas :: "int \<Rightarrow> 'b tf_state \<Rightarrow> 'b tf_state res" where
  "ConsumeGas n st =
     (if tfs_gas st + n > tfs_gas_limit st then Inl (Panic ''out of gas'')
      else Inr (st\<lparr>tfs_gas := tfs_gas st + n\<rparr>))"

section \<open>Authority metadata\<close>

definition metadata_key :: "string \<Rightarrow> string" where
  "metadata_key denom = GetDenomPrefixStore denom @ DenomAuthorityMetadataKey"

text \<open>A missing key is unmarshalled as the empty metadata.\<close>

definition GetAuthorityMetadata :: "'b tf_state \<Rightarrow> string \<Rightarrow> DenomAuthorityMetadata res" where
  "GetAuthorityMetadata st denom =
     (case kv_get (tfs_store st) (metadata_key denom) of
        None \<Rightarrow> Inr \<lparr>Admin = []\<rparr>
      | Some (VMetadata m) \<Rightarrow> Inr m
      | Some _ \<Rightarrow> Inl (External ''proto: unmarshal''))"

definition setAuthorityMetadata ::
  "'b tf_Keeper \<Rightarrow> string \<Rightarrow> DenomAuthorityMetadata \<Rightarrow> 'b tf_state \<Rightarrow> 'b tf_state res" where
  "setAuthorityMetadata k denom m st =
     bindR (AuthorityMetadata_Validate (tk_checks k) m) (\<lambda>_.
     Inr (st\<lparr>tfs_store := kv_set (metadata_key denom) (VMetadata m) (tfs_store st)\<rparr>))"

definition setAdmin ::
  "'b tf_Keeper \<Rightarrow> DenomAuthorityMetadata \<Rightarrow> string \<Rightarrow> string \<Rightarrow> 'b tf_state \<Rightarrow> 'b tf_state res" where
  "setAdmin k m denom admin st = setAuthorityMetadata k denom (m\<lparr>Admin := admin\<rparr>) st"

section \<open>Creators\<close>

definition addDenomFromCreator :: "string \<Rightarrow> string \<Rightarrow> 'b tf_state \<Rightarrow> 'b tf_state" where
  "addDenomFromCreator creator denom st =
     st\<lparr>tfs_store := kv_set (GetCreatorPrefix creator @ denom) (VDenom denom) (tfs_store st)\<rparr>"

definition GetDenomsFromCreator :: "'b tf_state \<Rightarrow> string \<Rightarrow> string list" where
  "GetDenomsFromCreator st creator =
     map (drop (length (GetCreatorPrefix creator)))
       (filter (prefix (GetCreatorPrefix creator)) (kv_keys (tfs_store st)))"

text \<open>The values under the creators prefix, in key order; \<open>string(iterator.Value())\<close>.\<close>

fun denom_of_value :: "tf_value \<Rightarrow> string" where
  "denom_of_value (VDenom d) = d"
| "denom_of_value v = []"

definition GetAllDenoms :: "'b tf_state \<Rightarrow> string list" where
  "GetAllDenoms st =
     map (\<lambda>e. denom_of_value (snd e)) (filter (\<lambda>e. prefix GetCreatorsPrefix (fst e)) (tfs_store st))"

fun denoms_of_admin :: "'b tf_state \<Rightarrow> string \<Rightarrow> string list \<Rightarrow> string list res" where
  "denoms_of_admin st admin [] = Inr []"
| "denoms_of_admin st admin (d # ds) =
     bindR (GetAuthorityMetadata st d) (\<lambda>m.
     bindR (denoms_of_admin st admin ds) (\<lambda>rest.
     Inr (if Admin m = admin then d # rest else rest)))"

definition GetDenomsFromAdmin :: "'b tf_state \<Rightarrow> string \<Rightarrow> string list res" where
  "GetDenomsFromAdmin st admin = denoms_of_admin st admin (GetAllDenoms st)"

section \<open>Parameters\<close>

definition tf_GetParams :: "'b tf_state \<Rightarrow> tf_Params res" where
  "tf_GetParams st =
     (case kv_get (tfs_store st) tf_ParamsKey of
        None \<Rightarrow> Inr \<lparr>DenomCreationFee = [], DenomCreationGasConsume = 0\<rparr>
      | Some (VParams p) \<Rightarrow> Inr p
      | Some _ \<Rightarrow> Inl (Panic ''proto: unmarshal''))"

definition tf_SetParams :: "'b tf_Keeper \<Rightarrow> tf_Params \<Rightarrow> 'b tf_state \<Rightarrow> 'b tf_state res" where
  "tf_SetParams k p st =
     bindR (tf_Params_Validate (tk_checks k) p) (\<lambda>_.
     Inr (st\<lparr>tfs_store := kv_set tf_ParamsKey (VParams p) (tfs_store st)\<rparr>))"

section \<open>Creating a denom\<close>

definition default_metadata :: "string \<Rightarrow> metadata" where
  "default_metadata denom =
     \<lparr>md_Description = [], md_DenomUnits = [\<lparr>du_Denom = denom, du_Exponent = 0, du_Aliases = []\<rparr>],
      md_Base = denom, md_Display = denom, md_Name = denom, md_Symbol = denom\<rparr>"

definition createDenomAfterValidation ::
  "'b tf_Keeper \<Rightarrow> string \<Rightarrow> string \<Rightarrow> 'b tf_state \<Rightarrow> 'b tf_state res" where
  "createDenomAfterValidation k creatorAddr denom st =
     (let st1 = st\<lparr>tfs_bank := bank_SetDenomMetaData (tk_bank k) (default_metadata denom) (tfs_bank st)\<rparr>
      in bindR (setAuthorityMetadata k denom \<lparr>Admin = creatorAddr\<rparr> st1) (\<lambda>st2.
         Inr (addDenomFromCreator creatorAddr denom st2)))"

definition validateCreateDenom :: "'b tf_Keeper \<Rightarrow> string \<Rightarrow> string \<Rightarrow> 'b tf_state \<Rightarrow> string res" where
  "validateCreateDenom k creatorAddr subdenom st =
     bindR (GetTokenDenom (tk_checks k) creatorAddr subdenom) (\<lambda>denom.
     if bank_GetDenomMetaData (tk_bank k) (tfs_bank st) denom \<noteq> None then Inl ErrDenomExists
     else Inr denom)"

text \<open>An empty fee is stored and read back as a nil slice.\<close>

definition charge_fee :: "'b tf_Keeper \<Rightarrow> tf_Params \<Rightarrow> string \<Rightarrow> 'b tf_state \<Rightarrow> 'b tf_state res" where
  "charge_fee k params creatorAddr st =
     (if DenomCreationFee params \<noteq> []
      then bindR (AccAddressFromBech32 (sc_codec (tk_checks k)) creatorAddr) (\<lambda>accAddr.
        if IsCapabilityEnabled (tk_enabledCapabilities k) EnableCommunityPoolFeeFunding
        then bindR (tk_FundCommunityPool k (DenomCreationFee params) accAddr (tfs_bank st)) (\<lambda>b.
             Inr (st\<lparr>tfs_bank := b\<rparr>))
        else bindR (bank_SendCoinsFromAccountToModule (tk_bank k) accAddr tf_ModuleName
               (DenomCreationFee params) (tfs_bank st)) (\<lambda>b1.
             bindR (bank_BurnCoins (tk_bank k) tf_ModuleName (DenomCreationFee params) b1) (\<lambda>b2.
             Inr (st\<lparr>tfs_bank := b2\<rparr>))))
      else Inr st)"

definition chargeForCreateDenom :: "'b tf_Keeper \<Rightarrow> string \<Rightarrow> 'b tf_state \<Rightarrow> 'b tf_state res" where
  "chargeForCreateDenom k creatorAddr st =
     bindR (tf_GetParams st) (\<lambda>params.
     bindR (charge_fee k params creatorAddr st) (\<lambda>st1.
     if DenomCreationGasConsume params \<noteq> 0
     then ConsumeGas (DenomCreationGasConsume params) st1 else Inr st1))"

definition CreateDenom ::
  "'b tf_Keeper \<Rightarrow> string \<Rightarrow> string \<Rightarrow> 'b tf_state \<Rightarrow> (string \<times> 'b tf_state) res" where
  "CreateDenom k creatorAddr subdenom st =
     bindR (validateCreateDenom k creatorAddr subdenom st) (\<lambda>denom.
     bindR (chargeForCreateDenom k creatorAddr st) (\<lambda>st1.
     bindR (createDenomAfterValidation k creatorAddr denom st1) (\<lambda>st2.
     Inr (denom, st2))))"

section \<open>Bank actions\<close>

definition with_bank :: "'b tf_state \<Rightarrow> 'b res \<Rightarrow> 'b tf_state res" where
  "with_bank st r = bindR r (\<lambda>b. Inr (st\<lparr>tfs_bank := b\<rparr>))"

definition mintTo :: "'b tf_Keeper \<Rightarrow> coin \<Rightarrow> string \<Rightarrow> 'b tf_state \<Rightarrow> 'b tf_state res" where
  "mintTo k amount mint_to st =
     bindR (DeconstructDenom (tk_checks k) (coin_Denom amount)) (\<lambda>_.
     bindR (NewCoins (tk_checks k) amount) (\<lambda>cs.
     bindR (bank_MintCoins (tk_bank k) tf_ModuleName cs (tfs_bank st)) (\<lambda>b1.
     bindR (AccAddressFromBech32 (sc_codec (tk_checks k)) mint_to) (\<lambda>addr.
     if bank_BlockedAddr (tk_bank k) addr then Inl (Errorf ''failed to mint to blocked address'')
     else with_bank st (bank_SendCoinsFromModuleToAccount (tk_bank k) tf_ModuleName addr cs b1)))))"

definition burnFrom :: "'b tf_Keeper \<Rightarrow> coin \<Rightarrow> string \<Rightarrow> 'b tf_state \<Rightarrow> 'b tf_state res" where
  "burnFrom k amount burn_from st =
     bindR (DeconstructDenom (tk_checks k) (coin_Denom amount)) (\<lambda>_.
     bindR (AccAddressFromBech32 (sc_codec (tk_checks k)) burn_from) (\<lambda>addr.
     if bank_BlockedAddr (tk_bank k) addr then Inl (Errorf ''failed to burn from blocked address'')
     else bindR (NewCoins (tk_checks k) amount) (\<lambda>cs.
       bindR (bank_SendCoinsFromAccountToModule (tk_bank k) addr tf_ModuleName cs (tfs_bank st)) (\<lambda>b1.
       with_bank st (bank_BurnCoins (tk_bank k) tf_ModuleName cs b1)))))"

text \<open>The loop over the module accounts, in the order of their sorted names.\<close>

fun check_module_accounts :: "(string \<Rightarrow> addr option) \<Rightarrow> addr \<Rightarrow> string list \<Rightarrow> unit res" where
  "check_module_accounts acc a [] = Inr ()"
| "check_module_accounts acc a (m # ms) =
     (case acc m of
        None \<Rightarrow> Inl StatusNotFound
      | Some x \<Rightarrow> if x = a then Inl StatusInternal else check_module_accounts acc a ms)"

definition forceTransfer ::
  "'b tf_Keeper \<Rightarrow> coin \<Rightarrow> string \<Rightarrow> string \<Rightarrow> 'b tf_state \<Rightarrow> 'b tf_state res" where
  "forceTransfer k amount fromAddr toAddr st =
     bindR (DeconstructDenom (tk_checks k) (coin_Denom amount)) (\<lambda>_.
     bindR (AccAddressFromBech32 (sc_codec (tk_checks k)) fromAddr) (\<lambda>fromSdkAddr.
     bindR (check_module_accounts (tk_GetModuleAccount k) fromSdkAddr (sort (tk_permAddrs k))) (\<lambda>_.
     bindR (AccAddressFromBech32 (sc_codec (tk_checks k)) toAddr) (\<lambda>toSdkAddr.
     if bank_BlockedAddr (tk_bank k) toSdkAddr
     then Inl (Errorf ''failed to force transfer to blocked address'')
     else bindR (NewCoins (tk_checks k) amount) (\<lambda>cs.
       with_bank st (bank_SendCoins (tk_bank k) fromSdkAddr toSdkAddr cs (tfs_bank st)))))))"

section \<open>Message server\<close>

definition tf_CreateDenom ::
  "'b tf_Keeper \<Rightarrow> MsgCreateDenom \<Rightarrow> 'b tf_state \<Rightarrow> (string \<times> 'b tf_state) res" where
  "tf_CreateDenom k msg st =
     bindR (MsgCreateDenom_ValidateBasic (tk_checks k) msg) (\<lambda>_.
     CreateDenom k (cd_Sender msg) (cd_Subdenom msg) st)"

definition tf_Mint :: "'b tf_Keeper \<Rightarrow> MsgMint \<Rightarrow> 'b tf_state \<Rightarrow> 'b tf_state res" where
  "tf_Mint k msg st =
     (if bank_GetDenomMetaData (tk_bank k) (tfs_bank st) (coin_Denom (mm_Amount msg)) = None
      then Inl ErrDenomDoesNotExist
      else bindR (GetAuthorityMetadata st (coin_Denom (mm_Amount msg))) (\<lambda>m.
        if mm_Sender msg \<noteq> Admin m then Inl ErrUnauthorized
        else mintTo k (mm_Amount msg)
               (if mm_MintToAddress msg = [] then mm_Sender msg else mm_MintToAddress msg) st))"

definition tf_Burn :: "'b tf_Keeper \<Rightarrow> MsgBurn \<Rightarrow> 'b tf_state \<Rightarrow> 'b tf_state res" where
  "tf_Burn k msg st =
     bindR (GetAuthorityMetadata st (coin_Denom (mb_Amount msg))) (\<lambda>m.
     if mb_Sender msg \<noteq> Admin m then Inl ErrUnauthorized
     else if mb_BurnFromAddress msg = [] then burnFrom k (mb_Amount msg) (mb_Sender msg) st
     else if \<not> IsCapabilityEnabled (tk_enabledCapabilities k) EnableBurnFrom
     then Inl ErrCapabilityNotEnabled
     else burnFrom k (mb_Amount msg) (mb_BurnFromAddress msg) st)"

definition tf_ForceTransfer :: "'b tf_Keeper \<Rightarrow> MsgForceTransfer \<Rightarrow> 'b tf_state \<Rightarrow> 'b tf_state res" where
  "tf_ForceTransfer k msg st =
     (if \<not> IsCapabilityEnabled (tk_enabledCapabilities k) EnableForceTransfer
      then Inl ErrCapabilityNotEnabled
      else bindR (GetAuthorityMetadata st (coin_Denom (mf_Amount msg))) (\<lambda>m.
        if mf_Sender msg \<noteq> Admin m then Inl ErrUnauthorized
        else forceTransfer k (mf_Amount msg) (mf_TransferFromAddress msg) (mf_TransferToAddress msg) st))"

definition tf_ChangeAdmin :: "'b tf_Keeper \<Rightarrow> MsgChangeAdmin \<Rightarrow> 'b tf_state \<Rightarrow> 'b tf_state res" where
  "tf_ChangeAdmin k msg st =
     bindR (GetAuthorityMetadata st (mc_Denom msg)) (\<lambda>m.
     if mc_Sender msg \<noteq> Admin m then Inl ErrUnauthorized
     else setAdmin k m (mc_Denom msg) (mc_NewAdmin msg) st)"

definition tf_SetDenomMetadata ::
  "'b tf_Keeper \<Rightarrow> MsgSetDenomMetadata \<Rightarrow> 'b tf_state \<Rightarrow> 'b tf_state res" where
  "tf_SetDenomMetadata k msg st =
     (if \<not> IsCapabilityEnabled (tk_enabledCapabilities k) EnableSetMetadata
      then Inl ErrCapabilityNotEnabled
      else bindR (sc_Metadata_Validate (tk_checks k) (ms_Metadata msg)) (\<lambda>_.
        bindR (GetAuthorityMetadata st (md_Base (ms_Metadata msg))) (\<lambda>m.
        if ms_Sender msg \<noteq> Admin m then Inl ErrUnauthorized
        else Inr (st\<lparr>tfs_bank := bank_SetDenomMetaData (tk_bank k) (ms_Metadata msg) (tfs_bank st)\<rparr>))))"

definition tf_UpdateParams :: "'b tf_Keeper \<Rightarrow> tf_MsgUpdateParams \<Rightarrow> 'b tf_state \<Rightarrow> 'b tf_state res" where
  "tf_UpdateParams k req st =
     (if tk_authority k \<noteq> tup_Authority req then Inl ErrInvalidSigner
      else tf_SetParams k (tup_Params req) st)"

datatype tf_msg =
    TfCreateDenom MsgCreateDenom | TfMint MsgMint | TfBurn MsgBurn
  | TfForceTransfer MsgForceTransfer | TfChangeAdmin MsgChangeAdmin
  | TfSetDenomMetadata MsgSetDenomMetadata | TfUpdateParams tf_MsgUpdateParams

fun tf_exec :: "'b tf_Keeper \<Rightarrow> tf_msg \<Rightarrow> 'b tf_state \<Rightarrow> 'b tf_state res" where
  "tf_exec k (TfCreateDenom m) st = bindR (tf_CreateDenom k m st) (\<lambda>r. Inr (snd r))"
| "tf_exec k (TfMint m) st = tf_Mint k m st"
| "tf_exec k (TfBurn m) st = tf_Burn k m st"
| "tf_exec k (TfForceTransfer m) st = tf_ForceTransfer k m st"
| "tf_exec k (TfChangeAdmin m) st = tf_ChangeAdmin k m st"
| "tf_exec k (TfSetDenomMetadata m) st = tf_SetDenomMetadata k m st"
| "tf_exec k (TfUpdateParams m) st = tf_UpdateParams k m st"

fun tf_sender :: "tf_msg \<Rightarrow> string" where
  "tf_sender (TfCreateDenom m) = cd_Sender m"
| "tf_sender (TfMint m) = mm_Sender m"
| "tf_sender (TfBurn m) = mb_Sender m"
| "tf_sender (TfForceTransfer m) = mf_Sender m"
| "tf_sender (TfChangeAdmin m) = mc_Sender m"
| "tf_sender (TfSetDenomMetadata m) = ms_Sender m"
| "tf_sender (TfUpdateParams m) = tup_Authority m"

section \<open>Genesis\<close>

text \<open>Errors in genesis are panics.\<close>

definition import_denom :: "'b tf_Keeper \<Rightarrow> GenesisDenom \<Rightarrow> 'b tf_state \<Rightarrow> 'b tf_state res" where
  "import_denom k g st =
     wrapR (Panic ''tokenfactory genesis'')
       (bindR (DeconstructDenom (tk_checks k) (gd_Denom g)) (\<lambda>(creator, _).
        bindR (createDenomAfterValidation k creator (gd_Denom g) st) (\<lambda>st1.
        setAuthorityMetadata k (gd_Denom g) (gd_AuthorityMetadata g) st1)))"

definition tf_InitGenesis :: "'b tf_Keeper \<Rightarrow> tf_GenesisState \<Rightarrow> 'b tf_state \<Rightarrow> 'b tf_state res" where
  "tf_InitGenesis k g st =
     bindR (wrapR (Panic ''tokenfactory genesis'') (tf_SetParams k (tg_Params g) st)) (\<lambda>st1.
     foldR (import_denom k) (tg_FactoryDenoms g) st1)"

fun export_denoms :: "'b tf_state \<Rightarrow> string list \<Rightarrow> GenesisDenom list res" where
  "export_denoms st [] = Inr []"
| "export_denoms st (d # ds) =
     bindR (wrapR (Panic ''tokenfactory genesis'') (GetAuthorityMetadata st d)) (\<lambda>m.
     bindR (export_denoms st ds) (\<lambda>rest.
     Inr (\<lparr>gd_Denom = d, gd_AuthorityMetadata = m\<rparr> # rest)))"

definition tf_ExportGenesis :: "'b tf_state \<Rightarrow> tf_GenesisState res" where
  "tf_ExportGenesis st =
     bindR (export_denoms st (GetAllDenoms st)) (\<lambda>ds.
     bindR (tf_GetParams st) (\<lambda>p. Inr \<lparr>tg_Params = p, tg_FactoryDenoms = ds\<rparr>))"

end
