(* ===== verification/TokenBank.thy ===== *)
theory TokenBank
  imports TokenKeeper
begin

text \<open>
  What the token factory does to denoms, balances and supplies: the round trip of denom
  names, and minting, burning and force transfers under the laws of the bank keeper
  (locale \<open>bank\<close>, theory Chain).  The examples run on the ledger of theory Chain.
\<close>

section \<open>Denom names\<close>

lemma split_denom:
  "CHR ''/'' \<notin> set creator \<Longrightarrow>
   split_on (CHR ''/'') (join_with (CHR ''/'') [ModuleDenomPrefix, creator, subdenom]) =
     ModuleDenomPrefix # creator # split_on (CHR ''/'') subdenom"
  by (simp add: split_on_append ModuleDenomPrefix_def)

lemma denom_parts:
  assumes "GetTokenDenom S creator subdenom = Inr denom"
  shows "denom = join_with (CHR ''/'') [ModuleDenomPrefix, creator, subdenom] \<and>
    CHR ''/'' \<notin> set creator \<and> length subdenom \<le> 44 \<and> length creator \<le> 75 \<and>
    sc_ValidateDenom S denom = Inr ()"
  using assms
  by (auto simp: GetTokenDenom_def MaxSubdenomLength_def MaxCreatorLength_def MaxHrpLength_def
      contains_char_def Let_def res_simps split: if_splits)

lemma Deconstruct_token_denom:
  assumes "GetTokenDenom S creator subdenom = Inr denom"
    and "AccAddressFromBech32 (sc_codec S) creator = Inr a"
  shows "DeconstructDenom S denom = Inr (AccAddressString (sc_codec S) a, subdenom)"
proof -
  note p = denom_parts [OF assms(1)]
  have "split_on (CHR ''/'') denom = ModuleDenomPrefix # creator # split_on (CHR ''/'') subdenom"
    using p split_denom by simp
  moreover obtain x xs where "split_on (CHR ''/'') subdenom = x # xs"
    by (cases "split_on (CHR ''/'') subdenom") auto
  moreover have "join_with (CHR ''/'') (split_on (CHR ''/'') subdenom) = subdenom"
    by simp
  moreover have "sc_ValidateDenom S denom = Inr ()"
    using p by blast
  ultimately show ?thesis
    using assms(2) by (simp add: DeconstructDenom_def)
qed

lemma Deconstruct_denom_parts:
  assumes "DeconstructDenom S denom = Inr (creator, subdenom)"
  shows "\<exists>c a. denom = join_with (CHR ''/'') [ModuleDenomPrefix, c, subdenom] \<and>
    CHR ''/'' \<notin> set c \<and> AccAddressFromBech32 (sc_codec S) c = Inr a \<and>
    creator = AccAddressString (sc_codec S) a \<and> sc_ValidateDenom S denom = Inr ()"
proof -
  let ?p = "split_on (CHR ''/'') denom"
  obtain a where a: "sc_ValidateDenom S denom = Inr ()" "3 \<le> length ?p" "?p ! 0 = ModuleDenomPrefix"
    "AccAddressFromBech32 (sc_codec S) (?p ! 1) = Inr a"
    "creator = AccAddressString (sc_codec S) a" "subdenom = join_with (CHR ''/'') (drop 2 ?p)"
    using assms by (auto simp: DeconstructDenom_def Let_def res_simps split: if_splits)
  obtain x y z zs where p: "?p = x # y # z # zs"
    using a(2) by (metis Suc_le_length_iff numeral_3_eq_3)
  have "CHR ''/'' \<notin> set y"
    using split_on_parts [of y "CHR ''/''" denom] p by simp
  moreover have "denom = join_with (CHR ''/'') [ModuleDenomPrefix, y, subdenom]"
    using join_split [of "CHR ''/''" denom] a(3,6) p by simp
  ultimately show ?thesis
    using a p by auto
qed

text \<open>A denom made from a creator address and a subdenom (which may hold slashes itself)
  is taken apart again into the address and the subdenom; what cannot be taken apart was not
  made this way.\<close>

lemma token_denom_roundtrip:
  assumes "bech32 (sc_codec S)" and "valid_addr a"
    and "GetTokenDenom S (AccAddressString (sc_codec S) a) subdenom = Inr denom"
  shows "DeconstructDenom S denom = Inr (AccAddressString (sc_codec S) a, subdenom) \<and>
    (\<forall>a' subdenom'. valid_addr a' \<and>
       GetTokenDenom S (AccAddressString (sc_codec S) a') subdenom' = Inr denom \<longrightarrow>
       a' = a \<and> subdenom' = subdenom)"
proof (intro conjI allI impI)
  note rt = bech32.acc_roundtrip [OF assms(1)]
  show d: "DeconstructDenom S denom = Inr (AccAddressString (sc_codec S) a, subdenom)"
    by (rule Deconstruct_token_denom [OF assms(3) rt [OF assms(2)]])
  fix a' subdenom'
  assume a': "valid_addr a' \<and> GetTokenDenom S (AccAddressString (sc_codec S) a') subdenom' = Inr denom"
  then have "DeconstructDenom S denom = Inr (AccAddressString (sc_codec S) a', subdenom')"
    using Deconstruct_token_denom rt by blast
  with d have "AccAddressString (sc_codec S) a' = AccAddressString (sc_codec S) a" "subdenom' = subdenom"
    by simp_all
  then show "a' = a" "subdenom' = subdenom"
    using bech32.acc_string_inj [OF assms(1)] a' assms(2) by blast+
qed

text \<open>The checks of the SDK, for the examples: \<open>ValidateDenom\<close> as its regular expression
  \<open>[a-zA-Z][a-zA-Z0-9/:._-]{2,127}\<close>, coins valid and positive.\<close>

definition denom_char :: "char \<Rightarrow> bool" where
  "denom_char c \<longleftrightarrow>
     (let n = of_char c :: int
      in (65 \<le> n \<and> n \<le> 90) \<or> (97 \<le> n \<and> n \<le> 122) \<or> (45 \<le> n \<and> n \<le> 58) \<or> n = 95)"

definition toy_validate_denom :: "string \<Rightarrow> unit res" where
  "toy_validate_denom d =
     (if 3 \<le> int (length d) \<and> int (length d) \<le> 128 \<and> list_all denom_char d then Inr ()
      else Inl (External ''invalid denom''))"

definition toy_checks :: sdk_checks where
  "toy_checks =
     \<lparr>sc_codec = toy_codec, sc_ValidateDenom = toy_validate_denom,
      sc_Coins_Validate = (\<lambda>cs. if list_all (\<lambda>c. 0 < coin_Amount c) cs then Inr () else Inl (External ''coins'')),
      sc_Coin_IsValid = (\<lambda>c. 0 \<le> coin_Amount c \<and> is_ok (toy_validate_denom (coin_Denom c))),
      sc_Metadata_Validate = (\<lambda>m. toy_validate_denom (md_Base m))\<rparr>"

text \<open>What the store relies on: addresses are parsed and printed consistently, and a valid denom
  does not hold the separator of the store keys.\<close>

locale sdk_rules =
  fixes S :: sdk_checks
  assumes codec: "bech32 (sc_codec S)"
    and no_separator: "sc_ValidateDenom S d = Inr () \<Longrightarrow> CHR ''|'' \<notin> set d"
begin

lemma deconstructed_no_separator: "DeconstructDenom S d = Inr cs \<Longrightarrow> CHR ''|'' \<notin> set d"
  by (cases cs) (blast dest: Deconstruct_denom_parts no_separator)

lemma canonical_creator:
  "DeconstructDenom S d = Inr (c, s) \<Longrightarrow>
   \<exists>a. AccAddressFromBech32 (sc_codec S) c = Inr a \<and> c = AccAddressString (sc_codec S) a"
  using Deconstruct_denom_parts [of S d c s] bech32.acc_roundtrip [OF codec] bech32.acc_valid [OF codec]
  by blast

end

interpretation toy_sdk: sdk_rules toy_checks
proof (rule sdk_rules.intro)
  fix d
  assume "sc_ValidateDenom toy_checks d = Inr ()"
  then have "list_all denom_char d"
    by (simp add: toy_checks_def toy_validate_denom_def split: if_splits)
  then show "CHR ''|'' \<notin> set d"
    by (auto simp: list_all_iff denom_char_def Let_def)
next
  show "bech32 (sc_codec toy_checks)"
    by (simp add: toy_checks_def toy_addr.bech32_axioms)
qed

lemma token_denom_roundtrip_witness:
  "DeconstructDenom toy_checks ''factory/kBob/gold/2'' = Inr (''kBob'', ''gold/2'')"
proof -
  have "GetTokenDenom toy_checks (AccAddressString (sc_codec toy_checks) ''Bob'') ''gold/2'' =
      Inr ''factory/kBob/gold/2''"
    by code_simp
  moreover have "valid_addr ''Bob''"
    by (simp add: valid_addr_def)
  moreover note toy_sdk.codec
  moreover have "AccAddressString (sc_codec toy_checks) ''Bob'' = ''kBob''"
    by (simp add: toy_checks_def toy_codec_def)
  ultimately show ?thesis
    using token_denom_roundtrip [of toy_checks "''Bob''" "''gold/2''" "''factory/kBob/gold/2''"] by simp
qed

section \<open>Mint, burn and force transfer\<close>

lemma NewCoins_amount:
  "NewCoins S c = Inr cs \<Longrightarrow>
   0 \<le> coin_Amount c \<and> amount_of cs d = (if d = coin_Denom c then coin_Amount c else 0)"
  by (auto simp: NewCoins_def res_simps split: if_splits)

definition balance :: "'b tf_Keeper \<Rightarrow> 'b tf_state \<Rightarrow> addr \<Rightarrow> string \<Rightarrow> int" where
  "balance k st a d = bank_GetBalance (tk_bank k) (tfs_bank st) a d"

definition tf_supply :: "'b tf_Keeper \<Rightarrow> 'b tf_state \<Rightarrow> string \<Rightarrow> int" where
  "tf_supply k st d = bank_GetSupply (tk_bank k) (tfs_bank st) d"

definition denom_meta :: "'b tf_Keeper \<Rightarrow> 'b tf_state \<Rightarrow> string \<Rightarrow> metadata option" where
  "denom_meta k st d = bank_GetDenomMetaData (tk_bank k) (tfs_bank st) d"

lemmas bank_view = balance_def tf_supply_def denom_meta_def

text \<open>The effect of moving an amount of a denom: \<open>up\<close> and \<open>down\<close> are the accounts that
  gain and lose it, \<open>ds\<close> the change of the supply.\<close>

definition bank_effect ::
  "'b tf_Keeper \<Rightarrow> addr option \<Rightarrow> addr option \<Rightarrow> int \<Rightarrow> coin \<Rightarrow> 'b tf_state \<Rightarrow> 'b tf_state \<Rightarrow> bool" where
  "bank_effect k up down ds c st st' \<longleftrightarrow>
     tfs_store st' = tfs_store st \<and> tfs_gas st' = tfs_gas st \<and> 0 \<le> coin_Amount c \<and>
     (\<forall>a d. balance k st' a d = balance k st a d +
        (if d = coin_Denom c
         then (if up = Some a then coin_Amount c else 0) - (if down = Some a then coin_Amount c else 0)
         else 0)) \<and>
     (\<forall>d. tf_supply k st' d = tf_supply k st d + (if d = coin_Denom c then ds * coin_Amount c else 0)) \<and>
     denom_meta k st' = denom_meta k st"

lemma mintTo_effect:
  assumes "bank (tk_bank k)" and "mintTo k amount mint_to st = Inr st'"
  shows "\<exists>c s a. DeconstructDenom (tk_checks k) (coin_Denom amount) = Inr (c, s) \<and>
    AccAddressFromBech32 (sc_codec (tk_checks k)) mint_to = Inr a \<and>
    \<not> bank_BlockedAddr (tk_bank k) a \<and> bank_effect k (Some a) None 1 amount st st'"
proof -
  obtain c s a cs b1 b2 where m: "DeconstructDenom (tk_checks k) (coin_Denom amount) = Inr (c, s)"
    "AccAddressFromBech32 (sc_codec (tk_checks k)) mint_to = Inr a" "\<not> bank_BlockedAddr (tk_bank k) a"
    and cs: "NewCoins (tk_checks k) amount = Inr cs"
    and b: "bank_MintCoins (tk_bank k) tf_ModuleName cs (tfs_bank st) = Inr b1"
      "bank_SendCoinsFromModuleToAccount (tk_bank k) tf_ModuleName a cs b1 = Inr b2"
    and st': "st' = st\<lparr>tfs_bank := b2\<rparr>"
    using assms(2) by (auto simp: mintTo_def with_bank_def res_simps split: if_splits)
  note e = bank.mint_then_send [OF assms(1) b] NewCoins_amount [OF cs]
  have "bank_effect k (Some a) None 1 amount st st'"
    unfolding bank_effect_def using e st' by (auto simp: bank_view fun_eq_iff)
  with m show ?thesis by blast
qed

lemma burnFrom_effect:
  assumes "bank (tk_bank k)" and "burnFrom k amount burn_from st = Inr st'"
  shows "\<exists>c s a. DeconstructDenom (tk_checks k) (coin_Denom amount) = Inr (c, s) \<and>
    AccAddressFromBech32 (sc_codec (tk_checks k)) burn_from = Inr a \<and>
    \<not> bank_BlockedAddr (tk_bank k) a \<and> bank_effect k None (Some a) (- 1) amount st st'"
proof -
  obtain c s a cs b1 b2 where m: "DeconstructDenom (tk_checks k) (coin_Denom amount) = Inr (c, s)"
    "AccAddressFromBech32 (sc_codec (tk_checks k)) burn_from = Inr a" "\<not> bank_BlockedAddr (tk_bank k) a"
    and cs: "NewCoins (tk_checks k) amount = Inr cs"
    and b: "bank_SendCoinsFromAccountToModule (tk_bank k) a tf_ModuleName cs (tfs_bank st) = Inr b1"
      "bank_BurnCoins (tk_bank k) tf_ModuleName cs b1 = Inr b2"
    and st': "st' = st\<lparr>tfs_bank := b2\<rparr>"
    using assms(2) by (auto simp: burnFrom_def with_bank_def res_simps split: if_splits)
  note e = bank.send_then_burn [OF assms(1) b] NewCoins_amount [OF cs]
  have "bank_effect k None (Some a) (- 1) amount st st'"
    unfolding bank_effect_def using e st' by (auto simp: bank_view fun_eq_iff)
  with m show ?thesis by blast
qed

lemma module_accounts_checked:
  "check_module_accounts acc a ms = Inr () \<Longrightarrow> m \<in> set ms \<Longrightarrow> \<exists>x. acc m = Some x \<and> x \<noteq> a"
  by (induction ms) (auto split: option.splits if_splits)

lemma forceTransfer_effect:
  assumes "bank (tk_bank k)" and "forceTransfer k amount from_addr to_addr st = Inr st'"
  shows "\<exists>c s a a'. DeconstructDenom (tk_checks k) (coin_Denom amount) = Inr (c, s) \<and>
    AccAddressFromBech32 (sc_codec (tk_checks k)) from_addr = Inr a \<and>
    AccAddressFromBech32 (sc_codec (tk_checks k)) to_addr = Inr a' \<and>
    \<not> bank_BlockedAddr (tk_bank k) a' \<and>
    (\<forall>m \<in> set (tk_permAddrs k). \<exists>x. tk_GetModuleAccount k m = Some x \<and> x \<noteq> a) \<and>
    bank_effect k (Some a') (Some a) 0 amount st st'"
proof -
  obtain c s a a' cs b1 where m: "DeconstructDenom (tk_checks k) (coin_Denom amount) = Inr (c, s)"
    "AccAddressFromBech32 (sc_codec (tk_checks k)) from_addr = Inr a"
    "AccAddressFromBech32 (sc_codec (tk_checks k)) to_addr = Inr a'" "\<not> bank_BlockedAddr (tk_bank k) a'"
    and ch: "check_module_accounts (tk_GetModuleAccount k) a (sort (tk_permAddrs k)) = Inr ()"
    and cs: "NewCoins (tk_checks k) amount = Inr cs"
    and b: "bank_SendCoins (tk_bank k) a a' cs (tfs_bank st) = Inr b1"
    and st': "st' = st\<lparr>tfs_bank := b1\<rparr>"
    using assms(2) by (auto simp: forceTransfer_def with_bank_def res_simps split: if_splits)
  note e = bank.send [OF assms(1) b] NewCoins_amount [OF cs]
  have "bank_effect k (Some a') (Some a) 0 amount st st'"
    unfolding bank_effect_def using e st' by (auto simp: bank_view moved_def fun_eq_iff)
  moreover have "\<forall>m \<in> set (tk_permAddrs k). \<exists>x. tk_GetModuleAccount k m = Some x \<and> x \<noteq> a"
    using module_accounts_checked [OF ch] by simp
  ultimately show ?thesis
    using m by blast
qed

end
