(* ===== verification/TokenInv.thy ===== *)
theory TokenInv
  imports TokenBank
begin

text \<open>
  The token factory as a state machine: the effect of every message, the invariant of the
  store and of the denom metadata, the safety of denoms against everyone but their admin,
  and the round trip of genesis export and import.
\<close>

section \<open>Message effects\<close>

lemma authority_of:
  "GetAuthorityMetadata st d = Inr m \<Longrightarrow> Admin m \<noteq> [] \<Longrightarrow>
   kv_get (tfs_store st) (metadata_key d) = Some (VMetadata m)"
  by (auto simp: GetAuthorityMetadata_def split: option.splits tf_value.splits)

lemma GetAuthority_stored:
  "kv_get (tfs_store st) (metadata_key d) = Some (VMetadata m) \<Longrightarrow> GetAuthorityMetadata st d = Inr m"
  by (simp add: GetAuthorityMetadata_def)

lemma tf_Mint_effect:
  assumes "bank (tk_bank k)" and "tf_Mint k msg st = Inr st'"
  shows "denom_meta k st (coin_Denom (mm_Amount msg)) \<noteq> None \<and>
    GetAuthorityMetadata st (coin_Denom (mm_Amount msg)) = Inr \<lparr>Admin = mm_Sender msg\<rparr> \<and>
    (\<exists>c s a. DeconstructDenom (tk_checks k) (coin_Denom (mm_Amount msg)) = Inr (c, s) \<and>
       AccAddressFromBech32 (sc_codec (tk_checks k))
         (if mm_MintToAddress msg = [] then mm_Sender msg else mm_MintToAddress msg) = Inr a \<and>
       \<not> bank_BlockedAddr (tk_bank k) a \<and> bank_effect k (Some a) None 1 (mm_Amount msg) st st')"
proof -
  obtain m where m: "GetAuthorityMetadata st (coin_Denom (mm_Amount msg)) = Inr m"
    "mm_Sender msg = Admin m" "denom_meta k st (coin_Denom (mm_Amount msg)) \<noteq> None"
    and r: "mintTo k (mm_Amount msg)
        (if mm_MintToAddress msg = [] then mm_Sender msg else mm_MintToAddress msg) st = Inr st'"
    using assms(2) by (auto simp: tf_Mint_def denom_meta_def res_simps split: if_splits)
  have "m = \<lparr>Admin = mm_Sender msg\<rparr>"
    using m(2) by simp
  then show ?thesis
    using m mintTo_effect [OF assms(1) r] by blast
qed

lemma tf_Burn_effect:
  assumes "bank (tk_bank k)" and "tf_Burn k msg st = Inr st'"
  shows "GetAuthorityMetadata st (coin_Denom (mb_Amount msg)) = Inr \<lparr>Admin = mb_Sender msg\<rparr> \<and>
    (mb_BurnFromAddress msg = [] \<or> IsCapabilityEnabled (tk_enabledCapabilities k) EnableBurnFrom) \<and>
    (\<exists>a. AccAddressFromBech32 (sc_codec (tk_checks k))
        (if mb_BurnFromAddress msg = [] then mb_Sender msg else mb_BurnFromAddress msg) = Inr a \<and>
      \<not> bank_BlockedAddr (tk_bank k) a \<and> bank_effect k None (Some a) (- 1) (mb_Amount msg) st st')"
proof -
  obtain m where m: "GetAuthorityMetadata st (coin_Denom (mb_Amount msg)) = Inr m"
    "mb_Sender msg = Admin m"
    and c: "mb_BurnFromAddress msg = [] \<or> IsCapabilityEnabled (tk_enabledCapabilities k) EnableBurnFrom"
    and r: "burnFrom k (mb_Amount msg)
        (if mb_BurnFromAddress msg = [] then mb_Sender msg else mb_BurnFromAddress msg) st = Inr st'"
    using assms(2) by (auto simp: tf_Burn_def res_simps split: if_splits)
  have "m = \<lparr>Admin = mb_Sender msg\<rparr>" using m(2) by simp
  then show ?thesis
    using m(1) c burnFrom_effect [OF assms(1) r] by blast
qed

lemma tf_ForceTransfer_effect:
  assumes "bank (tk_bank k)" and "tf_ForceTransfer k msg st = Inr st'"
  shows "GetAuthorityMetadata st (coin_Denom (mf_Amount msg)) = Inr \<lparr>Admin = mf_Sender msg\<rparr> \<and>
    IsCapabilityEnabled (tk_enabledCapabilities k) EnableForceTransfer \<and>
    (\<exists>a a'. AccAddressFromBech32 (sc_codec (tk_checks k)) (mf_TransferFromAddress msg) = Inr a \<and>
      AccAddressFromBech32 (sc_codec (tk_checks k)) (mf_TransferToAddress msg) = Inr a' \<and>
      \<not> bank_BlockedAddr (tk_bank k) a' \<and>
      (\<forall>m \<in> set (tk_permAddrs k). \<exists>x. tk_GetModuleAccount k m = Some x \<and> x \<noteq> a) \<and>
      bank_effect k (Some a') (Some a) 0 (mf_Amount msg) st st')"
proof -
  obtain m where m: "GetAuthorityMetadata st (coin_Denom (mf_Amount msg)) = Inr m"
    "mf_Sender msg = Admin m"
    and c: "IsCapabilityEnabled (tk_enabledCapabilities k) EnableForceTransfer"
    and r: "forceTransfer k (mf_Amount msg) (mf_TransferFromAddress msg) (mf_TransferToAddress msg) st = Inr st'"
    using assms(2) by (auto simp: tf_ForceTransfer_def res_simps split: if_splits)
  have "m = \<lparr>Admin = mf_Sender msg\<rparr>" using m(2) by simp
  then show ?thesis
    using m(1) c forceTransfer_effect [OF assms(1) r] by blast
qed

section \<open>Keys\<close>

lemma metadata_key_form: "metadata_key d = ''denoms|'' @ d @ ''|authoritymetadata''"
  by (simp add: metadata_key_def GetDenomPrefixStore_def DenomAuthorityMetadataKey_def)

lemma creator_key_form: "GetCreatorPrefix c @ d = ''creator|'' @ c @ ''|'' @ d"
  by (simp add: GetCreatorPrefix_def)

lemma metadata_key_inj [simp]: "metadata_key d = metadata_key d' \<longleftrightarrow> d = d'"
  by (simp add: metadata_key_form)

lemma key_kinds [simp]:
  "metadata_key d \<noteq> tf_ParamsKey" "tf_ParamsKey \<noteq> metadata_key d"
  "GetCreatorPrefix c @ d' \<noteq> tf_ParamsKey" "tf_ParamsKey \<noteq> GetCreatorPrefix c @ d'"
  "metadata_key d \<noteq> GetCreatorPrefix c @ d'" "GetCreatorPrefix c @ d' \<noteq> metadata_key d"
  by (auto simp: metadata_key_form creator_key_form tf_ParamsKey_def)

lemma key_prefix [simp]:
  "prefix GetCreatorsPrefix (GetCreatorPrefix c @ d)"
  "\<not> prefix GetCreatorsPrefix (metadata_key d)" "\<not> prefix GetCreatorsPrefix tf_ParamsKey"
  by (auto simp: metadata_key_form creator_key_form tf_ParamsKey_def GetCreatorsPrefix_def)

section \<open>The invariant\<close>

text \<open>
  Every record of the store is of one of three kinds: valid parameters; the authority metadata
  of a denom of the factory that the bank knows and that some creator is listed for; or an
  entry of the creator index for such a denom.
\<close>

definition indexed :: "'b tf_Keeper \<Rightarrow> string \<Rightarrow> string \<Rightarrow> bool" where
  "indexed k c d \<longleftrightarrow>
     (\<exists>a s. AccAddressFromBech32 (sc_codec (tk_checks k)) c = Inr a \<and>
        DeconstructDenom (tk_checks k) d = Inr (AccAddressString (sc_codec (tk_checks k)) a, s))"

definition rec_ok :: "'b tf_Keeper \<Rightarrow> 'b tf_state \<Rightarrow> string \<Rightarrow> tf_value \<Rightarrow> bool" where
  "rec_ok k st key v \<longleftrightarrow>
     (key = tf_ParamsKey \<and> (\<exists>p. v = VParams p \<and> tf_Params_Validate (tk_checks k) p = Inr ())) \<or>
     (\<exists>d m c. key = metadata_key d \<and> v = VMetadata m \<and>
        AuthorityMetadata_Validate (tk_checks k) m = Inr () \<and> denom_meta k st d \<noteq> None \<and>
        indexed k c d \<and> kv_get (tfs_store st) (GetCreatorPrefix c @ d) = Some (VDenom d)) \<or>
     (\<exists>c d m. key = GetCreatorPrefix c @ d \<and> v = VDenom d \<and> indexed k c d \<and>
        kv_get (tfs_store st) (metadata_key d) = Some (VMetadata m))"

definition tf_inv :: "'b tf_Keeper \<Rightarrow> 'b tf_state \<Rightarrow> bool" where
  "tf_inv k st \<longleftrightarrow>
     kv_ok (tfs_store st) \<and> kv_get (tfs_store st) tf_ParamsKey \<noteq> None \<and>
     (\<forall>key v. kv_get (tfs_store st) key = Some v \<longrightarrow> rec_ok k st key v)"

text \<open>What an operation has to keep for the records it does not write.\<close>

definition grows :: "'b tf_Keeper \<Rightarrow> 'b tf_state \<Rightarrow> 'b tf_state \<Rightarrow> bool" where
  "grows k st st' \<longleftrightarrow>
     (\<forall>d m. kv_get (tfs_store st) (metadata_key d) = Some (VMetadata m) \<longrightarrow>
        (\<exists>m'. kv_get (tfs_store st') (metadata_key d) = Some (VMetadata m'))) \<and>
     (\<forall>c d. indexed k c d \<longrightarrow> kv_get (tfs_store st) (GetCreatorPrefix c @ d) = Some (VDenom d) \<longrightarrow>
        kv_get (tfs_store st') (GetCreatorPrefix c @ d) = Some (VDenom d)) \<and>
     (\<forall>d. denom_meta k st d \<noteq> None \<longrightarrow> denom_meta k st' d \<noteq> None)"

lemma rec_ok_grows: "rec_ok k st key v \<Longrightarrow> grows k st st' \<Longrightarrow> rec_ok k st' key v"
  unfolding rec_ok_def grows_def by blast

lemma tf_inv_update:
  assumes "tf_inv k st" and "grows k st st'" and "kv_ok (tfs_store st')"
    and "kv_get (tfs_store st') tf_ParamsKey \<noteq> None"
    and "\<And>key v. kv_get (tfs_store st') key = Some v \<Longrightarrow>
      kv_get (tfs_store st) key = Some v \<or> rec_ok k st' key v"
  shows "tf_inv k st'"
  using assms(1,3,4) assms(5) rec_ok_grows [OF _ assms(2)] unfolding tf_inv_def by metis

lemma tf_inv_bank:
  assumes "tf_inv k st" and "tfs_store st' = tfs_store st"
    and "\<And>d. denom_meta k st d \<noteq> None \<Longrightarrow> denom_meta k st' d \<noteq> None"
  shows "tf_inv k st'"
proof (rule tf_inv_update [OF assms(1)])
  show "grows k st st'"
    unfolding grows_def assms(2) using assms(3) by blast
qed (use assms(1,2) in \<open>auto simp: tf_inv_def\<close>)

lemma tf_inv_effect: "tf_inv k st \<Longrightarrow> bank_effect k up down ds c st st' \<Longrightarrow> tf_inv k st'"
  by (rule tf_inv_bank) (auto simp: bank_effect_def)

lemma tf_inv_metadata:
  assumes "tf_inv k st" and "kv_get (tfs_store st) (metadata_key d) = Some v"
  obtains m c where "v = VMetadata m" "AuthorityMetadata_Validate (tk_checks k) m = Inr ()"
    "denom_meta k st d \<noteq> None" "indexed k c d"
    "kv_get (tfs_store st) (GetCreatorPrefix c @ d) = Some (VDenom d)"
proof -
  have "rec_ok k st (metadata_key d) v"
    using assms by (simp add: tf_inv_def)
  then show ?thesis
    using that unfolding rec_ok_def by (elim disjE exE conjE) simp_all
qed

lemma tf_inv_params:
  assumes "tf_inv k st"
  obtains p where "kv_get (tfs_store st) tf_ParamsKey = Some (VParams p)"
    "tf_Params_Validate (tk_checks k) p = Inr ()"
proof -
  obtain v where v: "kv_get (tfs_store st) tf_ParamsKey = Some v" "rec_ok k st tf_ParamsKey v"
    using assms by (auto simp: tf_inv_def)
  then show ?thesis
    using that unfolding rec_ok_def by (elim disjE exE conjE) simp_all
qed

lemma denom_meta_store [simp]: "denom_meta k (st\<lparr>tfs_store := s\<rparr>) = denom_meta k st"
  by (simp add: denom_meta_def fun_eq_iff)

lemma tf_inv_set_metadata:
  assumes inv: "tf_inv k st" and v: "kv_get (tfs_store st) (metadata_key d) = Some v"
    and m: "AuthorityMetadata_Validate (tk_checks k) m = Inr ()"
  shows "tf_inv k (st\<lparr>tfs_store := kv_set (metadata_key d) (VMetadata m) (tfs_store st)\<rparr>)"
    (is "tf_inv k ?st")
proof (rule tf_inv_update [OF inv])
  obtain c where c: "denom_meta k st d \<noteq> None" "indexed k c d"
    "kv_get (tfs_store st) (GetCreatorPrefix c @ d) = Some (VDenom d)"
    using tf_inv_metadata [OF inv v] by metis
  then have "rec_ok k ?st (metadata_key d) (VMetadata m)"
    unfolding rec_ok_def using m by (intro disjI2 disjI1 exI conjI) simp_all
  then show "kv_get (tfs_store st) key = Some w \<or> rec_ok k ?st key w"
    if "kv_get (tfs_store ?st) key = Some w" for key w
    using that by (auto split: if_splits)
  show "grows k st ?st"
    by (simp add: grows_def)
qed (use inv in \<open>auto simp: tf_inv_def\<close>)

lemma tf_inv_set_params:
  assumes inv: "tf_inv k st" and p: "tf_Params_Validate (tk_checks k) p = Inr ()"
  shows "tf_inv k (st\<lparr>tfs_store := kv_set tf_ParamsKey (VParams p) (tfs_store st)\<rparr>)"
    (is "tf_inv k ?st")
proof (rule tf_inv_update [OF inv])
  have "rec_ok k ?st tf_ParamsKey (VParams p)"
    unfolding rec_ok_def using p by blast
  then show "kv_get (tfs_store st) key = Some w \<or> rec_ok k ?st key w"
    if "kv_get (tfs_store ?st) key = Some w" for key w
    using that by (auto split: if_splits)
  show "grows k st ?st"
    by (simp add: grows_def)
qed (use inv in \<open>auto simp: tf_inv_def\<close>)

text \<open>The two records a new denom adds.\<close>

lemma indexed_no_separator:
  "sdk_rules (tk_checks k) \<Longrightarrow> indexed k c d \<Longrightarrow> CHR ''|'' \<notin> set d"
  by (auto simp: indexed_def dest: sdk_rules.deconstructed_no_separator)

lemma creator_key_inj:
  assumes "sdk_rules (tk_checks k)" "indexed k c d" "indexed k c' d'"
  shows "GetCreatorPrefix c @ d = GetCreatorPrefix c' @ d' \<longleftrightarrow> c = c' \<and> d = d'"
  using append_sep_inj [of c "CHR ''|''" d c' d'] indexed_no_separator assms
  by (auto simp: creator_key_form)

lemma tf_inv_add_denom:
  assumes rules: "sdk_rules (tk_checks k)" and inv: "tf_inv k st" and c: "indexed k c d" and dm: "denom_meta k st d \<noteq> None"
    and m: "AuthorityMetadata_Validate (tk_checks k) m = Inr ()"
  shows "tf_inv k (st\<lparr>tfs_store := kv_set (GetCreatorPrefix c @ d) (VDenom d)
            (kv_set (metadata_key d) (VMetadata m) (tfs_store st))\<rparr>)"
    (is "tf_inv k ?st")
proof (rule tf_inv_update [OF inv])
  have "rec_ok k ?st (metadata_key d) (VMetadata m)"
    unfolding rec_ok_def
    by (rule disjI2, rule disjI1, rule exI [of _ d], rule exI [of _ m], rule exI [of _ c])
      (use c dm m in simp)
  moreover have "rec_ok k ?st (GetCreatorPrefix c @ d) (VDenom d)"
    unfolding rec_ok_def
    by (rule disjI2, rule disjI2, rule exI [of _ c], rule exI [of _ d], rule exI [of _ m])
      (use c in simp)
  ultimately show "kv_get (tfs_store st) key = Some w \<or> rec_ok k ?st key w"
    if "kv_get (tfs_store ?st) key = Some w" for key w
    using that by (auto split: if_splits)
  show "grows k st ?st"
    unfolding grows_def
  proof (intro conjI allI impI)
    fix c' d'
    assume "indexed k c' d'" and get: "kv_get (tfs_store st) (GetCreatorPrefix c' @ d') = Some (VDenom d')"
    then have "GetCreatorPrefix c' @ d' = GetCreatorPrefix c @ d \<Longrightarrow> d' = d"
      using creator_key_inj [OF rules _ c] by blast
    then show "kv_get (tfs_store ?st) (GetCreatorPrefix c' @ d') = Some (VDenom d')"
      using get by (auto simp del: append.simps)
  qed auto
qed (use inv in \<open>auto simp: tf_inv_def\<close>)

section \<open>The keeper and its environment\<close>

text \<open>What the keeper relies on: the SDK rules for denoms and addresses, the laws of the bank,
  and a community pool that is funded by moving coins.\<close>

locale tf_env =
  fixes k :: "'b tf_Keeper"
  assumes rules: "sdk_rules (tk_checks k)"
    and bank_laws: "bank (tk_bank k)"
    and pool: "tk_FundCommunityPool k cs a b = Inr b' \<Longrightarrow> \<exists>p. moved (tk_bank k) a p cs b b'"
begin

lemma charge_fee_effect:
  assumes "charge_fee k p c st = Inr st'"
  shows "tfs_store st' = tfs_store st \<and> denom_meta k st' = denom_meta k st \<and>
    (\<forall>d. amount_of (DenomCreationFee p) d = 0 \<longrightarrow>
       tf_supply k st' d = tf_supply k st d \<and> (\<forall>a. balance k st' a d = balance k st a d))"
proof (cases "DenomCreationFee p = []")
  case True
  then show ?thesis using assms by (simp add: charge_fee_def)
next
  case False
  then obtain a where a: "AccAddressFromBech32 (sc_codec (tk_checks k)) c = Inr a"
    using assms by (auto simp: charge_fee_def res_simps)
  show ?thesis
  proof (cases "IsCapabilityEnabled (tk_enabledCapabilities k) EnableCommunityPoolFeeFunding")
    case True
    then obtain b where b: "tk_FundCommunityPool k (DenomCreationFee p) a (tfs_bank st) = Inr b"
      and st': "st' = st\<lparr>tfs_bank := b\<rparr>"
      using assms False a by (auto simp: charge_fee_def res_simps)
    from pool [OF b] obtain q where "moved (tk_bank k) a q (DenomCreationFee p) (tfs_bank st) b"
      by blast
    with st' show ?thesis by (auto simp: moved_def bank_view fun_eq_iff)
  next
    case no: False
    then obtain b1 b2 where b: "bank_SendCoinsFromAccountToModule (tk_bank k) a tf_ModuleName
          (DenomCreationFee p) (tfs_bank st) = Inr b1"
        "bank_BurnCoins (tk_bank k) tf_ModuleName (DenomCreationFee p) b1 = Inr b2"
      and st': "st' = st\<lparr>tfs_bank := b2\<rparr>"
      using assms False a by (auto simp: charge_fee_def res_simps)
    show ?thesis
      using bank.send_then_burn [OF bank_laws b] st' by (auto simp: bank_view fun_eq_iff)
  qed
qed

lemma charge_effect:
  assumes "chargeForCreateDenom k c st = Inr st'"
  shows "tfs_store st' = tfs_store st \<and> denom_meta k st' = denom_meta k st \<and>
    (\<forall>p d. tf_GetParams st = Inr p \<longrightarrow> amount_of (DenomCreationFee p) d = 0 \<longrightarrow>
       tf_supply k st' d = tf_supply k st d \<and> (\<forall>a. balance k st' a d = balance k st a d))"
proof -
  obtain p st1 where p: "tf_GetParams st = Inr p" "charge_fee k p c st = Inr st1"
    and "tfs_store st' = tfs_store st1" "tfs_bank st' = tfs_bank st1"
    using assms by (auto simp: chargeForCreateDenom_def ConsumeGas_def res_simps split: if_splits)
  then show ?thesis
    using charge_fee_effect [OF p(2)] by (auto simp: bank_view fun_eq_iff)
qed

lemma create_effect:
  assumes "createDenomAfterValidation k c d st = Inr st'"
  shows "AuthorityMetadata_Validate (tk_checks k) \<lparr>Admin = c\<rparr> = Inr () \<and>
    tfs_store st' = kv_set (GetCreatorPrefix c @ d) (VDenom d)
      (kv_set (metadata_key d) (VMetadata \<lparr>Admin = c\<rparr>) (tfs_store st)) \<and>
    denom_meta k st' = (denom_meta k st)(d \<mapsto> default_metadata d) \<and>
    tf_supply k st' = tf_supply k st \<and> balance k st' = balance k st"
  using assms
  by (auto simp: createDenomAfterValidation_def setAuthorityMetadata_def addDenomFromCreator_def
      res_simps bank_view fun_eq_iff default_metadata_def bank.get_set_meta [OF bank_laws]
      bank.bal_set_meta [OF bank_laws] bank.supply_set_meta [OF bank_laws])

lemma create_inv:
  assumes "tf_inv k st" "createDenomAfterValidation k c d st = Inr st'" "indexed k c d"
  shows "tf_inv k st'"
proof -
  note e = create_effect [OF assms(2)]
  let ?st = "st\<lparr>tfs_bank := tfs_bank st'\<rparr>"
  have dm: "denom_meta k ?st = denom_meta k st'"
    by (simp add: denom_meta_def fun_eq_iff)
  have "tf_inv k ?st"
    by (rule tf_inv_bank [OF assms(1)]) (use e dm in auto)
  then have "tf_inv k (?st\<lparr>tfs_store := tfs_store st'\<rparr>)"
    using tf_inv_add_denom [OF rules, of ?st c d "\<lparr>Admin = c\<rparr>"] assms(3) e dm by simp
  then show ?thesis
    by (rule tf_inv_bank) (auto simp: denom_meta_def)
qed

lemma new_denom_indexed:
  assumes "GetTokenDenom (tk_checks k) c s = Inr d" "AccAddressFromBech32 (sc_codec (tk_checks k)) c = Inr a"
  shows "indexed k c d"
  using Deconstruct_token_denom [OF assms] assms(2) by (auto simp: indexed_def)

text \<open>A created denom is new, and the store and the charge are as said above.\<close>

lemma CreateDenom_effect:
  assumes "tf_CreateDenom k msg st = Inr (d, st')"
  shows "\<exists>st1. chargeForCreateDenom k (cd_Sender msg) st = Inr st1 \<and>
    createDenomAfterValidation k (cd_Sender msg) d st1 = Inr st' \<and>
    denom_meta k st d = None \<and> indexed k (cd_Sender msg) d \<and>
    GetTokenDenom (tk_checks k) (cd_Sender msg) (cd_Subdenom msg) = Inr d"
proof -
  obtain a st1 where "AccAddressFromBech32 (sc_codec (tk_checks k)) (cd_Sender msg) = Inr a"
    "GetTokenDenom (tk_checks k) (cd_Sender msg) (cd_Subdenom msg) = Inr d"
    "bank_GetDenomMetaData (tk_bank k) (tfs_bank st) d = None"
    "chargeForCreateDenom k (cd_Sender msg) st = Inr st1"
    "createDenomAfterValidation k (cd_Sender msg) d st1 = Inr st'"
    using assms by (auto simp: tf_CreateDenom_def CreateDenom_def validateCreateDenom_def
        MsgCreateDenom_ValidateBasic_def check_addr_def res_simps split: if_splits)
  then show ?thesis
    using new_denom_indexed by (auto simp: denom_meta_def)
qed

lemma exec_inv:
  assumes inv: "tf_inv k st" and ex: "tf_exec k msg st = Inr st'" and sender: "tf_sender msg \<noteq> []"
  shows "tf_inv k st'"
proof (cases msg)
  case (TfCreateDenom m)
  then obtain d where "tf_CreateDenom k m st = Inr (d, st')"
    using ex by (auto simp: res_simps)
  from CreateDenom_effect [OF this] obtain st1 where st1:
    "chargeForCreateDenom k (cd_Sender m) st = Inr st1"
    "createDenomAfterValidation k (cd_Sender m) d st1 = Inr st'" "indexed k (cd_Sender m) d"
    by blast
  have "tf_inv k st1"
    by (rule tf_inv_bank [OF inv]) (use charge_effect [OF st1(1)] in auto)
  then show ?thesis
    by (rule create_inv [OF _ st1(2,3)])
next
  case (TfMint m)
  then have "tf_Mint k m st = Inr st'" using ex by simp
  from tf_Mint_effect [OF bank_laws this] show ?thesis
    using tf_inv_effect [OF inv] by blast
next
  case (TfBurn m)
  then have "tf_Burn k m st = Inr st'" using ex by simp
  from tf_Burn_effect [OF bank_laws this] show ?thesis
    using tf_inv_effect [OF inv] by blast
next
  case (TfForceTransfer m)
  then have "tf_ForceTransfer k m st = Inr st'" using ex by simp
  from tf_ForceTransfer_effect [OF bank_laws this] show ?thesis
    using tf_inv_effect [OF inv] by blast
next
  case (TfChangeAdmin m)
  then obtain am where am: "GetAuthorityMetadata st (mc_Denom m) = Inr am" "mc_Sender m = Admin am"
    "setAuthorityMetadata k (mc_Denom m) (am\<lparr>Admin := mc_NewAdmin m\<rparr>) st = Inr st'"
    using ex by (auto simp: tf_ChangeAdmin_def setAdmin_def res_simps split: if_splits)
  have "kv_get (tfs_store st) (metadata_key (mc_Denom m)) = Some (VMetadata am)"
    by (rule authority_of [OF am(1)]) (use sender TfChangeAdmin am(2) in simp)
  then show ?thesis
    using tf_inv_set_metadata [OF inv] am(3) by (auto simp: setAuthorityMetadata_def res_simps)
next
  case (TfSetDenomMetadata m)
  then have "st' = st\<lparr>tfs_bank := bank_SetDenomMetaData (tk_bank k) (ms_Metadata m) (tfs_bank st)\<rparr>"
    using ex by (auto simp: tf_SetDenomMetadata_def res_simps split: if_splits)
  then show ?thesis
    by (intro tf_inv_bank [OF inv]) (auto simp: denom_meta_def bank.get_set_meta [OF bank_laws])
next
  case (TfUpdateParams m)
  then show ?thesis
    using tf_inv_set_params [OF inv] ex
    by (auto simp: tf_UpdateParams_def tf_SetParams_def res_simps split: if_splits)
qed

end

end
