(* ===== verification/TokenProps.thy ===== *)
theory TokenProps
  imports TokenInv
begin

text \<open>
  The properties of the token factory that span its operations: minting, burning and force
  transfers, the protection of a denom by its admin, the invariant of every reachable state,
  denom creation, and genesis export and import.
\<close>

section \<open>Who can change a denom\<close>

definition untouched :: "'b tf_Keeper \<Rightarrow> string \<Rightarrow> 'b tf_state \<Rightarrow> 'b tf_state \<Rightarrow> bool" where
  "untouched k d st st' \<longleftrightarrow>
     kv_get (tfs_store st') (metadata_key d) = kv_get (tfs_store st) (metadata_key d) \<and>
     denom_meta k st' d = denom_meta k st d \<and> tf_supply k st' d = tf_supply k st d \<and>
     (\<forall>a. balance k st' a d = balance k st a d)"

lemma untouched_effect: "bank_effect k up down ds c st st' \<Longrightarrow> d \<noteq> coin_Denom c \<Longrightarrow> untouched k d st st'"
  by (auto simp: bank_effect_def untouched_def)

lemma authority_unique:
  "GetAuthorityMetadata st d = Inr \<lparr>Admin = s\<rparr> \<Longrightarrow>
   kv_get (tfs_store st) (metadata_key d) = Some (VMetadata m) \<Longrightarrow> Admin m = s"
  by (simp add: GetAuthorityMetadata_def)

context tf_env
begin

lemma create_untouched:
  assumes "tf_CreateDenom k msg st = Inr (d', st')" and "d \<noteq> d'"
    and "tf_GetParams st = Inr p" and "amount_of (DenomCreationFee p) d = 0"
  shows "untouched k d st st'"
proof -
  obtain st1 where st1: "chargeForCreateDenom k (cd_Sender msg) st = Inr st1"
    "createDenomAfterValidation k (cd_Sender msg) d' st1 = Inr st'"
    using CreateDenom_effect [OF assms(1)] by blast
  show ?thesis
    using charge_effect [OF st1(1)] create_effect [OF st1(2)] assms(2-4)
    by (simp add: untouched_def)
qed

lemma exec_untouched:
  assumes inv: "tf_inv k st" and ex: "tf_exec k msg st = Inr st'"
    and m: "kv_get (tfs_store st) (metadata_key d) = Some (VMetadata m)"
    and s: "tf_sender msg \<noteq> Admin m"
    and fee: "tf_GetParams st = Inr p" "amount_of (DenomCreationFee p) d = 0"
  shows "untouched k d st st'"
proof (cases msg)
  case (TfCreateDenom cm)
  then obtain d' where d': "tf_CreateDenom k cm st = Inr (d', st')"
    using ex by (auto simp: res_simps)
  have "denom_meta k st d' = None"
    using CreateDenom_effect [OF d'] by blast
  then have "d \<noteq> d'"
    using tf_inv_metadata [OF inv m] by metis
  then show ?thesis
    by (rule create_untouched [OF d' _ fee])
next
  case (TfMint mm)
  then have "tf_Mint k mm st = Inr st'" using ex by simp
  from tf_Mint_effect [OF bank_laws this] obtain a
    where g: "GetAuthorityMetadata st (coin_Denom (mm_Amount mm)) = Inr \<lparr>Admin = mm_Sender mm\<rparr>"
      and e: "bank_effect k (Some a) None 1 (mm_Amount mm) st st'"
    by blast
  have "d \<noteq> coin_Denom (mm_Amount mm)"
    using authority_unique [OF _ m] g s TfMint by fastforce
  then show ?thesis
    by (rule untouched_effect [OF e])
next
  case (TfBurn bm)
  then have "tf_Burn k bm st = Inr st'" using ex by simp
  from tf_Burn_effect [OF bank_laws this] obtain a
    where g: "GetAuthorityMetadata st (coin_Denom (mb_Amount bm)) = Inr \<lparr>Admin = mb_Sender bm\<rparr>"
      and e: "bank_effect k None (Some a) (- 1) (mb_Amount bm) st st'"
    by blast
  have "d \<noteq> coin_Denom (mb_Amount bm)"
    using authority_unique [OF _ m] g s TfBurn by fastforce
  then show ?thesis
    by (rule untouched_effect [OF e])
next
  case (TfForceTransfer fm)
  then have "tf_ForceTransfer k fm st = Inr st'" using ex by simp
  from tf_ForceTransfer_effect [OF bank_laws this] obtain a a'
    where g: "GetAuthorityMetadata st (coin_Denom (mf_Amount fm)) = Inr \<lparr>Admin = mf_Sender fm\<rparr>"
      and e: "bank_effect k (Some a') (Some a) 0 (mf_Amount fm) st st'"
    by blast
  have "d \<noteq> coin_Denom (mf_Amount fm)"
    using authority_unique [OF _ m] g s TfForceTransfer by fastforce
  then show ?thesis
    by (rule untouched_effect [OF e])
next
  case (TfChangeAdmin cm)
  then obtain am where am: "GetAuthorityMetadata st (mc_Denom cm) = Inr am" "mc_Sender cm = Admin am"
    "setAuthorityMetadata k (mc_Denom cm) (am\<lparr>Admin := mc_NewAdmin cm\<rparr>) st = Inr st'"
    using ex by (auto simp: tf_ChangeAdmin_def setAdmin_def res_simps split: if_splits)
  then have "d \<noteq> mc_Denom cm"
    using GetAuthority_stored [OF m] s TfChangeAdmin by auto
  then show ?thesis
    using am(3) by (auto simp: setAuthorityMetadata_def untouched_def bank_view res_simps)
next
  case (TfSetDenomMetadata sm)
  then have st': "st' = st\<lparr>tfs_bank := bank_SetDenomMetaData (tk_bank k) (ms_Metadata sm) (tfs_bank st)\<rparr>"
    and "d \<noteq> md_Base (ms_Metadata sm)"
    using ex GetAuthority_stored [OF m] s by (auto simp: tf_SetDenomMetadata_def res_simps split: if_splits)
  then show ?thesis
    by (simp add: untouched_def bank_view bank.get_set_meta [OF bank_laws]
        bank.bal_set_meta [OF bank_laws] bank.supply_set_meta [OF bank_laws])
next
  case (TfUpdateParams um)
  then show ?thesis
    using ex by (auto simp: tf_UpdateParams_def tf_SetParams_def untouched_def bank_view res_simps
        split: if_splits)
qed

section \<open>Genesis\<close>

lemma import_effect:
  assumes "import_denom k g st = Inr st'"
  obtains c s where "DeconstructDenom (tk_checks k) (gd_Denom g) = Inr (c, s)"
    "AuthorityMetadata_Validate (tk_checks k) (gd_AuthorityMetadata g) = Inr ()"
    "tfs_store st' = kv_set (metadata_key (gd_Denom g)) (VMetadata (gd_AuthorityMetadata g))
       (kv_set (GetCreatorPrefix c @ gd_Denom g) (VDenom (gd_Denom g))
         (kv_set (metadata_key (gd_Denom g)) (VMetadata \<lparr>Admin = c\<rparr>) (tfs_store st)))"
    "denom_meta k st' = (denom_meta k st)(gd_Denom g \<mapsto> default_metadata (gd_Denom g))"
proof -
  obtain c s st1 where d: "DeconstructDenom (tk_checks k) (gd_Denom g) = Inr (c, s)"
    "createDenomAfterValidation k c (gd_Denom g) st = Inr st1"
    "setAuthorityMetadata k (gd_Denom g) (gd_AuthorityMetadata g) st1 = Inr st'"
    using assms by (auto simp: import_denom_def res_simps)
  show ?thesis
    using that [OF d(1)] create_effect [OF d(2)] d(3)
    by (auto simp: setAuthorityMetadata_def res_simps)
qed

lemma import_inv:
  assumes "tf_inv k st" and "import_denom k g st = Inr st'"
  shows "tf_inv k st'"
proof -
  obtain c s st1 where d: "DeconstructDenom (tk_checks k) (gd_Denom g) = Inr (c, s)"
    "createDenomAfterValidation k c (gd_Denom g) st = Inr st1"
    "setAuthorityMetadata k (gd_Denom g) (gd_AuthorityMetadata g) st1 = Inr st'"
    using assms(2) by (auto simp: import_denom_def res_simps)
  have "indexed k c (gd_Denom g)"
    using sdk_rules.canonical_creator [OF rules d(1)] d(1) by (auto simp: indexed_def)
  then have inv1: "tf_inv k st1"
    by (rule create_inv [OF assms(1) d(2)])
  have "kv_get (tfs_store st1) (metadata_key (gd_Denom g)) = Some (VMetadata \<lparr>Admin = c\<rparr>)"
    using create_effect [OF d(2)] by simp
  from tf_inv_set_metadata [OF inv1 this] show ?thesis
    using d(3) by (auto simp: setAuthorityMetadata_def res_simps)
qed

lemma init_params_inv:
  assumes "tf_SetParams k p st = Inr st'" and "tfs_store st = []"
  shows "tf_inv k st'"
proof -
  have "tfs_store st' = [(tf_ParamsKey, VParams p)]" "tf_Params_Validate (tk_checks k) p = Inr ()"
    using assms by (auto simp: tf_SetParams_def res_simps)
  then show ?thesis
    by (auto simp: tf_inv_def rec_ok_def kv_ok_def split: if_splits)
qed

lemma init_inv:
  assumes "tf_InitGenesis k g st = Inr st'" and "tfs_store st = []"
  shows "tf_inv k st'"
proof -
  obtain st1 where st1: "tf_SetParams k (tg_Params g) st = Inr st1"
    "foldR (import_denom k) (tg_FactoryDenoms g) st1 = Inr st'"
    using assms(1) by (auto simp: tf_InitGenesis_def res_simps)
  show ?thesis
    by (rule foldR_inv [where P = "tf_inv k", OF st1(2) init_params_inv [OF st1(1) assms(2)]])
      (rule import_inv)
qed

end

text \<open>The states of a chain: a genesis on an empty store, then messages of non-empty senders.\<close>

inductive tf_reachable :: "'b tf_Keeper \<Rightarrow> 'b tf_state \<Rightarrow> bool" for k where
  tf_reach_init: "tf_InitGenesis k g st = Inr st' \<Longrightarrow> tfs_store st = [] \<Longrightarrow> tf_reachable k st'"
| tf_reach_step: "tf_reachable k st \<Longrightarrow> tf_sender msg \<noteq> [] \<Longrightarrow> tf_exec k msg st = Inr st' \<Longrightarrow>
    tf_reachable k st'"

lemma tf_reachable_inv: "tf_env k \<Longrightarrow> tf_reachable k st \<Longrightarrow> tf_inv k st"
  by (rotate_tac 1, induction rule: tf_reachable.induct)
    (blast intro: tf_env.init_inv tf_env.exec_inv)+

section \<open>An example keeper\<close>

definition toy_tf :: "ledger tf_Keeper" where
  "toy_tf =
     \<lparr>tk_checks = toy_checks, tk_bank = ledger_bank, tk_GetModuleAccount = (\<lambda>m. Some (lg_module m)),
      tk_FundCommunityPool = (\<lambda>cs a b. lg_send a (lg_module ''distribution'') cs b),
      tk_permAddrs = [''tokenfactory'', ''gov''],
      tk_enabledCapabilities = [EnableSetMetadata, EnableForceTransfer, EnableBurnFrom],
      tk_authority = ''kgov''\<rparr>"

interpretation toy_tf: tf_env toy_tf
proof (rule tf_env.intro)
  show "sdk_rules (tk_checks toy_tf)"
    by (simp add: toy_tf_def toy_sdk.sdk_rules_axioms)
  show "bank (tk_bank toy_tf)"
    by (simp add: toy_tf_def ledger.bank_axioms)
  fix cs a b b'
  assume "tk_FundCommunityPool toy_tf cs a b = Inr b'"
  then have "bank_SendCoins ledger_bank a (lg_module ''distribution'') cs b = Inr b'"
    by (simp add: toy_tf_def ledger_bank_def)
  from ledger.send [OF this] show "\<exists>p. moved (tk_bank toy_tf) a p cs b b'"
    by (auto simp: toy_tf_def)
qed

text \<open>Bob has created \<open>factory/kBob/gold\<close> at genesis, Ann owns 100 of the fee coin.\<close>

definition toy_gold :: string where "toy_gold = ''factory/kBob/gold''"

definition toy_tf_genesis :: tf_GenesisState where
  "toy_tf_genesis =
     \<lparr>tg_Params = \<lparr>DenomCreationFee = [\<lparr>coin_Denom = ''akii'', coin_Amount = 10\<rparr>], DenomCreationGasConsume = 7\<rparr>,
      tg_FactoryDenoms = [\<lparr>gd_Denom = toy_gold, gd_AuthorityMetadata = \<lparr>Admin = ''kBob''\<rparr>\<rparr>]\<rparr>"

definition toy_tf_start :: "ledger tf_state" where
  "toy_tf_start =
     \<lparr>tfs_store = [],
      tfs_bank = empty_ledger\<lparr>lg_bal := (\<lambda>a d. if a = ''Ann'' \<and> d = ''akii'' then 100 else 0)\<rparr>,
      tfs_gas = 0, tfs_gas_limit = 1000\<rparr>"

definition toy_tf_run :: "tf_msg list \<Rightarrow> ledger tf_state res" where
  "toy_tf_run msgs =
     bindR (tf_InitGenesis toy_tf toy_tf_genesis toy_tf_start) (foldR (tf_exec toy_tf) msgs)"

text \<open>What the examples look at: the store, the metadata and some balances.\<close>

definition toy_tf_view ::
  "ledger tf_state \<Rightarrow> (string, tf_value) kv \<times> (string, metadata) kv \<times> int list \<times> int" where
  "toy_tf_view st =
     (tfs_store st, lg_meta (tfs_bank st),
      map (\<lambda>a. lg_bal (tfs_bank st) a toy_gold) [''Bob'', ''Ann''] @ [lg_bal (tfs_bank st) ''Ann'' ''akii''],
      lg_supply (tfs_bank st) toy_gold)"

definition toy_mint :: MsgMint where
  "toy_mint = \<lparr>mm_Sender = ''kBob'', mm_Amount = \<lparr>coin_Denom = toy_gold, coin_Amount = 50\<rparr>, mm_MintToAddress = ''kAnn''\<rparr>"

definition toy_tf_store :: "(string, tf_value) kv" where
  "toy_tf_store =
     [(tf_ParamsKey, VParams (tg_Params toy_tf_genesis)),
      (''creator|kBob|factory/kBob/gold'', VDenom toy_gold),
      (''denoms|factory/kBob/gold|authoritymetadata'', VMetadata \<lparr>Admin = ''kBob''\<rparr>)]"

lemma toy_tf_run1:
  "map_sum id toy_tf_view (toy_tf_run [TfMint toy_mint]) =
     Inr (toy_tf_store, [(toy_gold, default_metadata toy_gold)], [0, 50, 100], 50)"
  by code_simp

lemma toy_tf_init:
  "map_sum id toy_tf_view (toy_tf_run []) =
     Inr (toy_tf_store, [(toy_gold, default_metadata toy_gold)], [0, 0, 100], 0)"
  by code_simp

end
