(* ===== verification/TokenFactory.thy ===== *)
theory TokenFactory
  imports TokenProps
begin

text \<open>
  The properties of the token factory as one system: what a successful message does to
  balances, supply and records, who can change a denom, the types and the index of the store in
  every reachable state, and genesis export and import.  The witnesses run on the keeper
  \<open>toy_tf\<close>.
\<close>

section \<open>Example runs\<close>

definition toy_burn :: MsgBurn where
  "toy_burn = \<lparr>mb_Sender = ''kBob'', mb_Amount = \<lparr>coin_Denom = toy_gold, coin_Amount = 20\<rparr>, mb_BurnFromAddress = ''kAnn''\<rparr>"

definition toy_transfer :: MsgForceTransfer where
  "toy_transfer = \<lparr>mf_Sender = ''kBob'', mf_Amount = \<lparr>coin_Denom = toy_gold, coin_Amount = 5\<rparr>,
     mf_TransferFromAddress = ''kAnn'', mf_TransferToAddress = ''kBob''\<rparr>"

definition toy_create :: MsgCreateDenom where
  "toy_create = \<lparr>cd_Sender = ''kAnn'', cd_Subdenom = ''silver''\<rparr>"

lemma toy_tf_run_snoc: "toy_tf_run (ms @ [m]) = bindR (toy_tf_run ms) (tf_exec toy_tf m)"
proof (cases "tf_InitGenesis toy_tf toy_tf_genesis toy_tf_start")
  case (Inr b)
  show ?thesis
    unfolding toy_tf_run_def Inr bindR.simps foldR_append
    by (cases "foldR (tf_exec toy_tf) ms b"; simp; cases "tf_exec toy_tf m (projr (foldR (tf_exec toy_tf) ms b))"; simp)
qed (simp add: toy_tf_run_def)

lemma toy_tf_reachable:
  "toy_tf_run ms = Inr st \<Longrightarrow> list_all (\<lambda>m. tf_sender m \<noteq> []) ms \<Longrightarrow> tf_reachable toy_tf st"
proof (induction ms arbitrary: st rule: rev_induct)
  case Nil
  then show ?case
    using tf_reach_init [of toy_tf toy_tf_genesis toy_tf_start st]
    by (simp add: toy_tf_run_def toy_tf_start_def res_simps)
next
  case (snoc m ms)
  then obtain st1 where "toy_tf_run ms = Inr st1" "tf_exec toy_tf m st1 = Inr st"
    by (auto simp: toy_tf_run_snoc res_simps)
  with snoc show ?case
    by (auto intro: tf_reach_step)
qed

lemma toy_tf_viewed:
  assumes "map_sum id toy_tf_view (toy_tf_run ms) = Inr v"
  obtains st where "toy_tf_run ms = Inr st" "toy_tf_view st = v"
  using assms by (cases "toy_tf_run ms") auto

lemma toy_tf_run2:
  "map_sum id toy_tf_view (toy_tf_run [TfMint toy_mint, TfBurn toy_burn]) =
     Inr (toy_tf_store, [(toy_gold, default_metadata toy_gold)], [0, 30, 100], 30)"
  by code_simp

lemma toy_tf_run3:
  "map_sum id toy_tf_view (toy_tf_run [TfMint toy_mint, TfForceTransfer toy_transfer]) =
     Inr (toy_tf_store, [(toy_gold, default_metadata toy_gold)], [5, 45, 100], 50)"
  by code_simp

definition toy_silver :: string where "toy_silver = ''factory/kAnn/silver''"

lemma toy_tf_run4:
  "map_sum id toy_tf_view (toy_tf_run [TfMint toy_mint, TfCreateDenom toy_create]) =
     Inr ([(tf_ParamsKey, VParams (tg_Params toy_tf_genesis)),
       (''creator|kAnn|factory/kAnn/silver'', VDenom toy_silver),
       (''creator|kBob|factory/kBob/gold'', VDenom toy_gold),
       (''denoms|factory/kAnn/silver|authoritymetadata'', VMetadata \<lparr>Admin = ''kAnn''\<rparr>),
       (''denoms|factory/kBob/gold|authoritymetadata'', VMetadata \<lparr>Admin = ''kBob''\<rparr>)],
      [(toy_silver, default_metadata toy_silver), (toy_gold, default_metadata toy_gold)], [0, 50, 90], 50)"
  by code_simp


lemma toy_tf_after:
  assumes "map_sum id toy_tf_view (toy_tf_run ms) = Inr v"
    and "map_sum id toy_tf_view (toy_tf_run ms') = Inr v'" and "ms' = ms @ [m]"
  shows "\<exists>st st'. toy_tf_run ms = Inr st \<and> toy_tf_view st = v \<and>
    tf_exec toy_tf m st = Inr st' \<and> toy_tf_view st' = v' \<and> toy_tf_run ms' = Inr st'"
proof -
  obtain st where st: "toy_tf_run ms = Inr st" "toy_tf_view st = v"
    using toy_tf_viewed [OF assms(1)] by blast
  obtain st' where st': "toy_tf_run ms' = Inr st'" "toy_tf_view st' = v'"
    using toy_tf_viewed [OF assms(2)] by blast
  then have "tf_exec toy_tf m st = Inr st'"
    using st assms(3) by (simp add: toy_tf_run_snoc)
  then show ?thesis
    using st st' by blast
qed

lemma toy_tf_sees:
  "toy_tf_view st = (s, ms, [b, a, f], u) \<longleftrightarrow>
     tfs_store st = s \<and> lg_meta (tfs_bank st) = ms \<and> balance toy_tf st ''Bob'' toy_gold = b \<and>
     balance toy_tf st ''Ann'' toy_gold = a \<and> balance toy_tf st ''Ann'' ''akii'' = f \<and>
     tf_supply toy_tf st toy_gold = u"
  by (simp add: toy_tf_view_def bank_view toy_tf_def ledger_bank_def)

section \<open>Minting, burning and force transfers\<close>

text \<open>A successful mint is by the admin of an existing factory denom, and its only effect is
  that one account, named by the message and not blocked, and the supply grow by the amount,
  which is not negative. Minting a denom unknown to the bank, or by anyone but the admin, is
  refused.\<close>

lemma tf_Mint_correct:
  assumes "bank (tk_bank k)"
  shows "(\<forall>st'. tf_Mint k msg st = Inr st' \<longrightarrow>
      GetAuthorityMetadata st (coin_Denom (mm_Amount msg)) = Inr \<lparr>Admin = mm_Sender msg\<rparr> \<and>
      denom_meta k st (coin_Denom (mm_Amount msg)) \<noteq> None \<and>
      (\<exists>a. AccAddressFromBech32 (sc_codec (tk_checks k))
           (if mm_MintToAddress msg = [] then mm_Sender msg else mm_MintToAddress msg) = Inr a \<and>
         \<not> bank_BlockedAddr (tk_bank k) a \<and> 0 \<le> coin_Amount (mm_Amount msg) \<and>
         tfs_store st' = tfs_store st \<and> tfs_gas st' = tfs_gas st \<and> denom_meta k st' = denom_meta k st \<and>
         (\<forall>b d. balance k st' b d = balance k st b d +
            (if b = a \<and> d = coin_Denom (mm_Amount msg) then coin_Amount (mm_Amount msg) else 0)) \<and>
         (\<forall>d. tf_supply k st' d = tf_supply k st d +
            (if d = coin_Denom (mm_Amount msg) then coin_Amount (mm_Amount msg) else 0)))) \<and>
    (denom_meta k st (coin_Denom (mm_Amount msg)) = None \<longrightarrow> tf_Mint k msg st = Inl ErrDenomDoesNotExist) \<and>
    (\<forall>m. denom_meta k st (coin_Denom (mm_Amount msg)) \<noteq> None \<longrightarrow>
       GetAuthorityMetadata st (coin_Denom (mm_Amount msg)) = Inr m \<longrightarrow> mm_Sender msg \<noteq> Admin m \<longrightarrow>
       tf_Mint k msg st = Inl ErrUnauthorized)"
proof (intro conjI allI impI)
  fix st' assume "tf_Mint k msg st = Inr st'"
  note e = tf_Mint_effect [OF assms this]
  then show "GetAuthorityMetadata st (coin_Denom (mm_Amount msg)) = Inr \<lparr>Admin = mm_Sender msg\<rparr>"
    "denom_meta k st (coin_Denom (mm_Amount msg)) \<noteq> None" by blast+
  obtain a where a: "AccAddressFromBech32 (sc_codec (tk_checks k))
         (if mm_MintToAddress msg = [] then mm_Sender msg else mm_MintToAddress msg) = Inr a"
       "\<not> bank_BlockedAddr (tk_bank k) a" and b: "bank_effect k (Some a) None 1 (mm_Amount msg) st st'"
    using e by blast
  show "\<exists>a. AccAddressFromBech32 (sc_codec (tk_checks k))
           (if mm_MintToAddress msg = [] then mm_Sender msg else mm_MintToAddress msg) = Inr a \<and>
         \<not> bank_BlockedAddr (tk_bank k) a \<and> 0 \<le> coin_Amount (mm_Amount msg) \<and>
         tfs_store st' = tfs_store st \<and> tfs_gas st' = tfs_gas st \<and> denom_meta k st' = denom_meta k st \<and>
         (\<forall>b d. balance k st' b d = balance k st b d +
            (if b = a \<and> d = coin_Denom (mm_Amount msg) then coin_Amount (mm_Amount msg) else 0)) \<and>
         (\<forall>d. tf_supply k st' d = tf_supply k st d +
            (if d = coin_Denom (mm_Amount msg) then coin_Amount (mm_Amount msg) else 0))"
    by (rule exI [of _ a], intro conjI a) (use b in \<open>auto simp: bank_effect_def\<close>)
qed (simp_all add: tf_Mint_def denom_meta_def)

lemma tf_Mint_correct_witness:
  "\<exists>st st'. toy_tf_run [] = Inr st \<and> tf_Mint toy_tf toy_mint st = Inr st' \<and>
     balance toy_tf st ''Ann'' toy_gold = 0 \<and> balance toy_tf st' ''Ann'' toy_gold = 50 \<and>
     tf_supply toy_tf st' toy_gold = 50 \<and> tfs_store st' = tfs_store st"
proof -
  obtain st st' where st: "toy_tf_run [] = Inr st" "tf_Mint toy_tf toy_mint st = Inr st'"
    "balance toy_tf st ''Ann'' toy_gold = 0" "tf_supply toy_tf st toy_gold = 0"
    "balance toy_tf st' ''Ann'' toy_gold = 50"
    using toy_tf_after [OF toy_tf_init toy_tf_run1, of "TfMint toy_mint"] by (auto simp: toy_tf_sees)
  have "tfs_store st' = tfs_store st" and
    "\<forall>d. tf_supply toy_tf st' d = tf_supply toy_tf st d +
       (if d = coin_Denom (mm_Amount toy_mint) then coin_Amount (mm_Amount toy_mint) else 0)"
    using tf_Mint_correct [OF toy_tf.bank_laws, THEN conjunct1, rule_format, OF st(2)] by blast+
  with st show ?thesis
    by (intro exI [of _ st] exI [of _ st']) (simp add: toy_mint_def)
qed

text \<open>C7: A successful burn is by the admin and takes the amount from one account that is not
  blocked, and from the supply; burning from another account needs the burn-from capability. A
  successful force transfer is by the admin, needs its capability, never takes from a module
  account and moves the amount between the two accounts without changing the supply.\<close>

theorem tf_Burn_ForceTransfer_correct:
  assumes "bank (tk_bank k)"
  shows "(\<forall>st'. tf_Burn k bm st = Inr st' \<longrightarrow>
      GetAuthorityMetadata st (coin_Denom (mb_Amount bm)) = Inr \<lparr>Admin = mb_Sender bm\<rparr> \<and>
      (mb_BurnFromAddress bm = [] \<or> IsCapabilityEnabled (tk_enabledCapabilities k) EnableBurnFrom) \<and>
      (\<exists>a. AccAddressFromBech32 (sc_codec (tk_checks k))
           (if mb_BurnFromAddress bm = [] then mb_Sender bm else mb_BurnFromAddress bm) = Inr a \<and>
         \<not> bank_BlockedAddr (tk_bank k) a \<and> 0 \<le> coin_Amount (mb_Amount bm) \<and>
         tfs_store st' = tfs_store st \<and> denom_meta k st' = denom_meta k st \<and>
         (\<forall>b d. balance k st' b d = balance k st b d -
            (if b = a \<and> d = coin_Denom (mb_Amount bm) then coin_Amount (mb_Amount bm) else 0)) \<and>
         (\<forall>d. tf_supply k st' d = tf_supply k st d -
            (if d = coin_Denom (mb_Amount bm) then coin_Amount (mb_Amount bm) else 0)))) \<and>
    (\<forall>st'. tf_ForceTransfer k fm st = Inr st' \<longrightarrow>
      GetAuthorityMetadata st (coin_Denom (mf_Amount fm)) = Inr \<lparr>Admin = mf_Sender fm\<rparr> \<and>
      IsCapabilityEnabled (tk_enabledCapabilities k) EnableForceTransfer \<and>
      (\<exists>a a'. AccAddressFromBech32 (sc_codec (tk_checks k)) (mf_TransferFromAddress fm) = Inr a \<and>
         AccAddressFromBech32 (sc_codec (tk_checks k)) (mf_TransferToAddress fm) = Inr a' \<and>
         \<not> bank_BlockedAddr (tk_bank k) a' \<and> 0 \<le> coin_Amount (mf_Amount fm) \<and>
         (\<forall>m \<in> set (tk_permAddrs k). \<exists>x. tk_GetModuleAccount k m = Some x \<and> x \<noteq> a) \<and>
         tfs_store st' = tfs_store st \<and> denom_meta k st' = denom_meta k st \<and>
         (\<forall>b d. balance k st' b d = balance k st b d +
            (if d = coin_Denom (mf_Amount fm)
             then (if b = a' then coin_Amount (mf_Amount fm) else 0) -
                  (if b = a then coin_Amount (mf_Amount fm) else 0) else 0)) \<and>
         tf_supply k st' = tf_supply k st))"
proof (intro conjI allI impI)
  fix st' assume "tf_Burn k bm st = Inr st'"
  note e = tf_Burn_effect [OF assms this]
  then show "GetAuthorityMetadata st (coin_Denom (mb_Amount bm)) = Inr \<lparr>Admin = mb_Sender bm\<rparr>"
    "mb_BurnFromAddress bm = [] \<or> IsCapabilityEnabled (tk_enabledCapabilities k) EnableBurnFrom" by blast+
  obtain a where a: "AccAddressFromBech32 (sc_codec (tk_checks k))
         (if mb_BurnFromAddress bm = [] then mb_Sender bm else mb_BurnFromAddress bm) = Inr a"
       "\<not> bank_BlockedAddr (tk_bank k) a" and b: "bank_effect k None (Some a) (- 1) (mb_Amount bm) st st'"
    using e by blast
  show "\<exists>a. AccAddressFromBech32 (sc_codec (tk_checks k))
           (if mb_BurnFromAddress bm = [] then mb_Sender bm else mb_BurnFromAddress bm) = Inr a \<and>
         \<not> bank_BlockedAddr (tk_bank k) a \<and> 0 \<le> coin_Amount (mb_Amount bm) \<and>
         tfs_store st' = tfs_store st \<and> denom_meta k st' = denom_meta k st \<and>
         (\<forall>b d. balance k st' b d = balance k st b d -
            (if b = a \<and> d = coin_Denom (mb_Amount bm) then coin_Amount (mb_Amount bm) else 0)) \<and>
         (\<forall>d. tf_supply k st' d = tf_supply k st d -
            (if d = coin_Denom (mb_Amount bm) then coin_Amount (mb_Amount bm) else 0))"
    by (rule exI [of _ a], intro conjI a) (use b in \<open>auto simp: bank_effect_def\<close>)
next
  fix st' assume "tf_ForceTransfer k fm st = Inr st'"
  note e = tf_ForceTransfer_effect [OF assms this]
  then show "GetAuthorityMetadata st (coin_Denom (mf_Amount fm)) = Inr \<lparr>Admin = mf_Sender fm\<rparr>"
    "IsCapabilityEnabled (tk_enabledCapabilities k) EnableForceTransfer" by blast+
  obtain a a' where a: "AccAddressFromBech32 (sc_codec (tk_checks k)) (mf_TransferFromAddress fm) = Inr a"
      "AccAddressFromBech32 (sc_codec (tk_checks k)) (mf_TransferToAddress fm) = Inr a'"
      "\<not> bank_BlockedAddr (tk_bank k) a'"
      "\<forall>m \<in> set (tk_permAddrs k). \<exists>x. tk_GetModuleAccount k m = Some x \<and> x \<noteq> a"
    and b: "bank_effect k (Some a') (Some a) 0 (mf_Amount fm) st st'"
    using e by blast
  show "\<exists>a a'. AccAddressFromBech32 (sc_codec (tk_checks k)) (mf_TransferFromAddress fm) = Inr a \<and>
         AccAddressFromBech32 (sc_codec (tk_checks k)) (mf_TransferToAddress fm) = Inr a' \<and>
         \<not> bank_BlockedAddr (tk_bank k) a' \<and> 0 \<le> coin_Amount (mf_Amount fm) \<and>
         (\<forall>m \<in> set (tk_permAddrs k). \<exists>x. tk_GetModuleAccount k m = Some x \<and> x \<noteq> a) \<and>
         tfs_store st' = tfs_store st \<and> denom_meta k st' = denom_meta k st \<and>
         (\<forall>b d. balance k st' b d = balance k st b d +
            (if d = coin_Denom (mf_Amount fm)
             then (if b = a' then coin_Amount (mf_Amount fm) else 0) -
                  (if b = a then coin_Amount (mf_Amount fm) else 0) else 0)) \<and>
         tf_supply k st' = tf_supply k st"
    by (rule exI [of _ a], rule exI [of _ a'], intro conjI a) (use b in \<open>auto simp: bank_effect_def fun_eq_iff\<close>)
qed

theorem tf_Burn_ForceTransfer_correct_witness:
  "\<exists>st st1 st2. toy_tf_run [TfMint toy_mint] = Inr st \<and> tf_Burn toy_tf toy_burn st = Inr st1 \<and>
     tf_ForceTransfer toy_tf toy_transfer st = Inr st2 \<and> tf_supply toy_tf st1 toy_gold = 30 \<and>
     tf_supply toy_tf st2 toy_gold = 50 \<and> balance toy_tf st2 ''Ann'' toy_gold = 45"
proof -
  obtain st st1 where st: "toy_tf_run [TfMint toy_mint] = Inr st" "tf_Burn toy_tf toy_burn st = Inr st1"
    "tf_supply toy_tf st toy_gold = 50"
    using toy_tf_after [OF toy_tf_run1 toy_tf_run2, of "TfBurn toy_burn"] by (auto simp: toy_tf_sees)
  obtain st2 where st2: "tf_ForceTransfer toy_tf toy_transfer st = Inr st2" "balance toy_tf st2 ''Ann'' toy_gold = 45"
    using toy_tf_after [OF toy_tf_run1 toy_tf_run3, of "TfForceTransfer toy_transfer"] st(1)
    by (auto simp: toy_tf_sees)
  note c = tf_Burn_ForceTransfer_correct [OF toy_tf.bank_laws]
  have "\<forall>d. tf_supply toy_tf st1 d = tf_supply toy_tf st d -
       (if d = coin_Denom (mb_Amount toy_burn) then coin_Amount (mb_Amount toy_burn) else 0)"
    using c [THEN conjunct1, rule_format, OF st(2)] by blast
  moreover have "tf_supply toy_tf st2 = tf_supply toy_tf st"
    using c [THEN conjunct2, rule_format, OF st2(1)] by blast
  ultimately show ?thesis
    using st st2 by (intro exI [of _ st] exI [of _ st1] exI [of _ st2]) (simp add: toy_burn_def)
qed

section \<open>Only the admin\<close>

text \<open>C4: In every reachable state, no message of anyone but its admin changes the admin, the bank
  metadata, the supply or a single balance of a factory denom (bank transfers are not messages of
  this module; a denom the creation fee is paid in is burned by the fee).\<close>

theorem tf_admin_only:
  assumes "tf_env k" and "tf_reachable k st" and "tf_exec k msg st = Inr st'"
    and "kv_get (tfs_store st) (metadata_key d) = Some (VMetadata m)" and "tf_sender msg \<noteq> Admin m"
    and "tf_GetParams st = Inr p" and "amount_of (DenomCreationFee p) d = 0"
  shows "GetAuthorityMetadata st' d = Inr m \<and> denom_meta k st' d = denom_meta k st d \<and>
    tf_supply k st' d = tf_supply k st d \<and> (\<forall>a. balance k st' a d = balance k st a d)"
proof -
  have "untouched k d st st'"
    by (rule tf_env.exec_untouched [OF assms(1) tf_reachable_inv [OF assms(1,2)] assms(3-7)])
  then show ?thesis
    using assms(4) by (simp add: untouched_def GetAuthority_stored)
qed

theorem tf_admin_only_witness:
  "\<exists>st st'. toy_tf_run [TfMint toy_mint] = Inr st \<and> tf_CreateDenom toy_tf toy_create st = Inr (toy_silver, st') \<and>
     GetAuthorityMetadata st' toy_gold = Inr \<lparr>Admin = ''kBob''\<rparr> \<and> tf_supply toy_tf st' toy_gold = 50"
proof -
  obtain st st' where st: "toy_tf_run [TfMint toy_mint] = Inr st"
    "tf_exec toy_tf (TfCreateDenom toy_create) st = Inr st'" "tfs_store st = toy_tf_store"
    "tf_supply toy_tf st toy_gold = 50"
    using toy_tf_after [OF toy_tf_run1 toy_tf_run4, of "TfCreateDenom toy_create"] by (auto simp: toy_tf_sees)
  obtain d where d: "tf_CreateDenom toy_tf toy_create st = Inr (d, st')"
    using st(2) by (auto simp: res_simps)
  have "GetTokenDenom (tk_checks toy_tf) ''kAnn'' ''silver'' = Inr toy_silver"
    by code_simp
  then have "d = toy_silver"
    using toy_tf.CreateDenom_effect [OF d] by (auto simp: toy_create_def)
  moreover have "kv_get (tfs_store st) (metadata_key toy_gold) = Some (VMetadata \<lparr>Admin = ''kBob''\<rparr>)"
    "tf_GetParams st = Inr (tg_Params toy_tf_genesis)"
    unfolding tf_GetParams_def st(3) by code_simp+
  moreover have "amount_of (DenomCreationFee (tg_Params toy_tf_genesis)) toy_gold = 0"
    by code_simp
  moreover have "tf_reachable toy_tf st"
    by (rule toy_tf_reachable [OF st(1)]) (simp add: toy_mint_def)
  ultimately show ?thesis
    using tf_admin_only [OF toy_tf.tf_env_axioms _ st(2)] st(1,4) d
    by (fastforce simp: toy_create_def)
qed

section \<open>Types and index of the store\<close>

lemma tf_inv_typed:
  assumes "tf_inv k st"
  shows "\<exists>m. GetAuthorityMetadata st d = Inr m \<and> AuthorityMetadata_Validate (tk_checks k) m = Inr ()"
proof (cases "kv_get (tfs_store st) (metadata_key d)")
  case None
  then show ?thesis by (simp add: GetAuthorityMetadata_def AuthorityMetadata_Validate_def)
next
  case (Some v)
  from tf_inv_metadata [OF assms this] show ?thesis
    using Some GetAuthority_stored by metis
qed

lemma tf_inv_index:
  assumes inv: "tf_inv k st"
  shows "set (GetAllDenoms st) = {d. \<exists>m. kv_get (tfs_store st) (metadata_key d) = Some (VMetadata m)}"
proof (intro set_eqI iffI; clarsimp)
  have ok: "kv_ok (tfs_store st)" using inv by (simp add: tf_inv_def)
  fix d
  show "\<exists>m. kv_get (tfs_store st) (metadata_key d) = Some (VMetadata m)" if mem: "d \<in> set (GetAllDenoms st)"
  proof -
    obtain key v where kv: "(key, v) \<in> set (tfs_store st)" "prefix GetCreatorsPrefix key" "d = denom_of_value v"
      using mem by (auto simp: GetAllDenoms_def)
    then have "rec_ok k st key v"
      using inv kv_get_in [OF ok] by (auto simp: tf_inv_def)
    then show ?thesis
      using kv(2,3) unfolding rec_ok_def by (elim disjE exE conjE) auto
  qed
  fix m assume "kv_get (tfs_store st) (metadata_key d) = Some (VMetadata m)"
  from tf_inv_metadata [OF inv this] obtain c
    where "kv_get (tfs_store st) (GetCreatorPrefix c @ d) = Some (VDenom d)" by metis
  then have "(GetCreatorPrefix c @ d, VDenom d) \<in> set (tfs_store st)"
    using kv_get_in [OF ok] by blast
  then show "d \<in> set (GetAllDenoms st)"
    unfolding GetAllDenoms_def by force
qed

text \<open>C5: In every reachable state each key of the store holds a record of its own type: the
  parameters and every authority metadata are read without an unmarshalling error and are valid,
  so that the export of genesis never fails, and the listed denoms are exactly those with
  authority metadata, all known to the bank.\<close>

theorem tf_store_typed:
  assumes "tf_env k" and "tf_reachable k st"
  shows "(\<exists>p. tf_GetParams st = Inr p \<and> tf_Params_Validate (tk_checks k) p = Inr ()) \<and>
    (\<forall>d. \<exists>m. GetAuthorityMetadata st d = Inr m \<and> AuthorityMetadata_Validate (tk_checks k) m = Inr ()) \<and>
    set (GetAllDenoms st) = {d. \<exists>m. kv_get (tfs_store st) (metadata_key d) = Some (VMetadata m)} \<and>
    set (GetAllDenoms st) \<subseteq> {d. denom_meta k st d \<noteq> None} \<and>
    (\<exists>g. tf_ExportGenesis st = Inr g)"
proof (intro conjI allI)
  note inv = tf_reachable_inv [OF assms]
  obtain p where "kv_get (tfs_store st) tf_ParamsKey = Some (VParams p)"
    "tf_Params_Validate (tk_checks k) p = Inr ()"
    by (rule tf_inv_params [OF inv])
  then show p: "\<exists>p. tf_GetParams st = Inr p \<and> tf_Params_Validate (tk_checks k) p = Inr ()"
    by (simp add: tf_GetParams_def)
  show m: "\<exists>m. GetAuthorityMetadata st d = Inr m \<and> AuthorityMetadata_Validate (tk_checks k) m = Inr ()" for d
    by (rule tf_inv_typed [OF inv])
  show "set (GetAllDenoms st) = {d. \<exists>m. kv_get (tfs_store st) (metadata_key d) = Some (VMetadata m)}"
    by (rule tf_inv_index [OF inv])
  then show "set (GetAllDenoms st) \<subseteq> {d. denom_meta k st d \<noteq> None}"
    using tf_inv_metadata [OF inv] by fastforce
  have "\<exists>gs. export_denoms st ds = Inr gs" for ds
  proof (induction ds)
    case (Cons d ds)
    then show ?case using m [of d] by (auto simp: res_simps)
  qed simp
  then show "\<exists>g. tf_ExportGenesis st = Inr g"
    using p by (auto simp: tf_ExportGenesis_def res_simps)
qed

theorem tf_store_typed_witness:
  "\<exists>st. toy_tf_run [TfMint toy_mint, TfCreateDenom toy_create] = Inr st \<and>
     GetAllDenoms st = [toy_silver, toy_gold] \<and> is_ok (tf_ExportGenesis st)"
proof -
  obtain st where st: "toy_tf_run [TfMint toy_mint, TfCreateDenom toy_create] = Inr st" "toy_tf_view st =
      projr (map_sum id toy_tf_view (toy_tf_run [TfMint toy_mint, TfCreateDenom toy_create]))"
    using toy_tf_viewed [OF toy_tf_run4] by auto
  then have "tf_reachable toy_tf st"
    by (intro toy_tf_reachable) (auto simp: toy_mint_def toy_create_def)
  from tf_store_typed [OF toy_tf.tf_env_axioms this] have "is_ok (tf_ExportGenesis st)"
    by (auto simp: is_ok_iff)
  moreover have "tfs_store st = [(tf_ParamsKey, VParams (tg_Params toy_tf_genesis)),
       (''creator|kAnn|factory/kAnn/silver'', VDenom toy_silver),
       (''creator|kBob|factory/kBob/gold'', VDenom toy_gold),
       (''denoms|factory/kAnn/silver|authoritymetadata'', VMetadata \<lparr>Admin = ''kAnn''\<rparr>),
       (''denoms|factory/kBob/gold|authoritymetadata'', VMetadata \<lparr>Admin = ''kBob''\<rparr>)]"
    using st(2) unfolding toy_tf_run4 by (simp add: toy_tf_view_def)
  then have "GetAllDenoms st = [toy_silver, toy_gold]"
    by (simp add: GetAllDenoms_def GetCreatorsPrefix_def tf_ParamsKey_def)
  ultimately show ?thesis
    using st(1) by blast
qed

section \<open>Creating a denom\<close>

text \<open>A community pool whose coins are on one account, the one that \<open>FundCommunityPool\<close> moves the
  given coins to (the account of the distribution module).\<close>

locale tf_env_pool = tf_env k for k :: "'b tf_Keeper" +
  fixes pool_acc :: addr
  assumes funded: "tk_FundCommunityPool k cs a b = Inr b' \<Longrightarrow> moved (tk_bank k) a pool_acc cs b b'"
begin

text \<open>What the creator pays: the fee is burned, or goes to the community pool.\<close>

abbreviation "pooled \<equiv> IsCapabilityEnabled (tk_enabledCapabilities k) EnableCommunityPoolFeeFunding"

lemma charge_paid:
  assumes "chargeForCreateDenom k c st = Inr st1" and "tf_GetParams st = Inr p"
    and "AccAddressFromBech32 (sc_codec (tk_checks k)) c = Inr a"
  shows "tfs_gas st1 = tfs_gas st + DenomCreationGasConsume p"
    and "tf_supply k st1 e = tf_supply k st e - (if pooled then 0 else amount_of (DenomCreationFee p) e)"
    and "balance k st1 x e = balance k st x e - (if x = a then amount_of (DenomCreationFee p) e else 0)
      + (if pooled \<and> x = pool_acc then amount_of (DenomCreationFee p) e else 0)"
proof -
  obtain st2 where st2: "charge_fee k p c st = Inr st2" "tfs_bank st1 = tfs_bank st2"
    "tfs_gas st1 = tfs_gas st2 + DenomCreationGasConsume p"
    using assms(1,2) by (auto simp: chargeForCreateDenom_def ConsumeGas_def res_simps split: if_splits)
  have gas: "tfs_gas st2 = tfs_gas st"
    using st2(1) by (auto simp: charge_fee_def res_simps split: if_splits)
  then show "tfs_gas st1 = tfs_gas st + DenomCreationGasConsume p"
    using st2(3) by simp
  have "tf_supply k st1 e = tf_supply k st e - (if pooled then 0 else amount_of (DenomCreationFee p) e) \<and>
    balance k st1 x e = balance k st x e - (if x = a then amount_of (DenomCreationFee p) e else 0)
      + (if pooled \<and> x = pool_acc then amount_of (DenomCreationFee p) e else 0)"
  proof (cases "DenomCreationFee p = []")
    case True
    then show ?thesis
      using st2 by (simp add: charge_fee_def bank_view)
  next
    case fee: False
    show ?thesis
    proof (cases pooled)
      case True
      then obtain b where b: "tk_FundCommunityPool k (DenomCreationFee p) a (tfs_bank st) = Inr b"
        "st2 = st\<lparr>tfs_bank := b\<rparr>"
        using st2(1) fee assms(3) by (auto simp: charge_fee_def res_simps)
      then show ?thesis
        using True st2 funded [OF b(1)] by (auto simp: moved_def bank_view)
    next
      case False
      then obtain b1 b2 where b: "bank_SendCoinsFromAccountToModule (tk_bank k) a tf_ModuleName
            (DenomCreationFee p) (tfs_bank st) = Inr b1"
          "bank_BurnCoins (tk_bank k) tf_ModuleName (DenomCreationFee p) b1 = Inr b2"
          "st2 = st\<lparr>tfs_bank := b2\<rparr>"
        using st2(1) fee assms(3) by (auto simp: charge_fee_def res_simps)
      show ?thesis
        using False st2 b(3) bank.send_then_burn [OF bank_laws b(1,2)] by (simp add: bank_view)
    qed
  qed
  then show "tf_supply k st1 e = tf_supply k st e - (if pooled then 0 else amount_of (DenomCreationFee p) e)"
    and "balance k st1 x e = balance k st x e - (if x = a then amount_of (DenomCreationFee p) e else 0)
      + (if pooled \<and> x = pool_acc then amount_of (DenomCreationFee p) e else 0)"
    by blast+
qed

end

text \<open>The capabilities the app configures (\<open>tokenFactoryCapabilities\<close> in app/keepers/keepers.go): the
  creation fee goes to the community pool.\<close>

definition toy_app_tf :: "ledger tf_Keeper" where
  "toy_app_tf = toy_tf\<lparr>tk_enabledCapabilities := [EnableSetMetadata, EnableCommunityPoolFeeFunding]\<rparr>"

lemma toy_pool:
  "tf_env_pool (toy_tf\<lparr>tk_enabledCapabilities := cs\<rparr>) (lg_module ''distribution'')"
proof (intro tf_env_pool.intro tf_env.intro tf_env_pool_axioms.intro)
  let ?k = "toy_tf\<lparr>tk_enabledCapabilities := cs\<rparr>"
  show "sdk_rules (tk_checks ?k)" "bank (tk_bank ?k)"
    by (simp_all add: toy_tf_def toy_sdk.sdk_rules_axioms ledger.bank_axioms)
  show m: "moved (tk_bank ?k) a (lg_module ''distribution'') fee b b'"
    if "tk_FundCommunityPool ?k fee a b = Inr b'" for fee a b b'
    using that ledger.send [of a "lg_module ''distribution''" fee b b'] by (simp add: toy_tf_def ledger_bank_def)
  show "\<exists>q. moved (tk_bank ?k) a q fee b b'" if "tk_FundCommunityPool ?k fee a b = Inr b'" for fee a b b'
    using m [OF that] by blast
qed

interpretation toy_app_tf: tf_env_pool toy_app_tf "lg_module ''distribution''"
  unfolding toy_app_tf_def by (rule toy_pool)

interpretation toy_burn_tf: tf_env_pool toy_tf "lg_module ''distribution''"
  using toy_pool [of "tk_enabledCapabilities toy_tf"] by simp

lemma listed_for_creator:
  "kv_get (tfs_store st) (GetCreatorPrefix c @ d) = Some v \<Longrightarrow> d \<in> set (GetDenomsFromCreator st c)"
proof -
  assume "kv_get (tfs_store st) (GetCreatorPrefix c @ d) = Some v"
  then have "GetCreatorPrefix c @ d \<in> set (kv_keys (tfs_store st))"
    using map_of_SomeD by force
  then show ?thesis
    unfolding GetDenomsFromCreator_def by (force simp: image_iff)
qed

text \<open>C6: Creating a denom gives \<open>factory/creator/subdenom\<close>, which the bank did not know before;
  the creator becomes its admin and it is listed for the creator, with default metadata in the
  bank; no other denom's authority or metadata changes; the gas is charged, and the creator pays
  exactly the creation fee: to the account of the community pool, with every supply unchanged,
  when the keeper funds the pool (the configuration of the app), and otherwise burned, taken off
  the supply; no other balance changes.  The same denom cannot be created again.\<close>

theorem CreateDenom_correct:
  assumes "tf_env_pool k pool_acc" and "tf_CreateDenom k msg st = Inr (d, st')"
  shows "d = ModuleDenomPrefix @ ''/'' @ cd_Sender msg @ ''/'' @ cd_Subdenom msg \<and>
    denom_meta k st d = None \<and> denom_meta k st' = (denom_meta k st)(d \<mapsto> default_metadata d) \<and>
    GetAuthorityMetadata st' d = Inr \<lparr>Admin = cd_Sender msg\<rparr> \<and>
    d \<in> set (GetDenomsFromCreator st' (cd_Sender msg)) \<and>
    (\<forall>d'. d' \<noteq> d \<longrightarrow> GetAuthorityMetadata st' d' = GetAuthorityMetadata st d') \<and>
    (\<exists>p a. tf_GetParams st = Inr p \<and> AccAddressFromBech32 (sc_codec (tk_checks k)) (cd_Sender msg) = Inr a \<and>
       tfs_gas st' = tfs_gas st + DenomCreationGasConsume p \<and>
       (if IsCapabilityEnabled (tk_enabledCapabilities k) EnableCommunityPoolFeeFunding
        then \<forall>e. tf_supply k st' e = tf_supply k st e \<and>
          (\<forall>x. balance k st' x e = balance k st x e - (if x = a then amount_of (DenomCreationFee p) e else 0)
             + (if x = pool_acc then amount_of (DenomCreationFee p) e else 0))
        else \<forall>e. tf_supply k st' e = tf_supply k st e - amount_of (DenomCreationFee p) e \<and>
          (\<forall>x. balance k st' x e = balance k st x e - (if x = a then amount_of (DenomCreationFee p) e else 0)))) \<and>
    tf_CreateDenom k msg st' = Inl ErrDenomExists"
proof -
  have env: "tf_env k" using assms(1) by (rule tf_env_pool.axioms(1))
  note E = tf_env.CreateDenom_effect [OF env assms(2)]
  obtain st1 where st1: "chargeForCreateDenom k (cd_Sender msg) st = Inr st1"
    "createDenomAfterValidation k (cd_Sender msg) d st1 = Inr st'"
    "denom_meta k st d = None" "GetTokenDenom (tk_checks k) (cd_Sender msg) (cd_Subdenom msg) = Inr d"
    using E by blast
  note ch = tf_env.charge_effect [OF env st1(1)] and cr = tf_env.create_effect [OF env st1(2)]
  obtain a p where a: "AccAddressFromBech32 (sc_codec (tk_checks k)) (cd_Sender msg) = Inr a"
    "tf_GetParams st = Inr p" "MsgCreateDenom_ValidateBasic (tk_checks k) msg = Inr ()"
    using assms(2) st1(1)
    by (auto simp: tf_CreateDenom_def MsgCreateDenom_ValidateBasic_def check_addr_def
        chargeForCreateDenom_def res_simps)
  note paid = tf_env_pool.charge_paid [OF assms(1) st1(1) a(2,1)]
  have gas: "tfs_gas st' = tfs_gas st1"
    using st1(2) by (auto simp: createDenomAfterValidation_def setAuthorityMetadata_def
        addDenomFromCreator_def res_simps)
  show ?thesis
  proof (intro conjI exI)
    show "d = ModuleDenomPrefix @ ''/'' @ cd_Sender msg @ ''/'' @ cd_Subdenom msg"
      using denom_parts [OF st1(4)] by simp
    show "denom_meta k st d = None" by (rule st1(3))
    show meta: "denom_meta k st' = (denom_meta k st)(d \<mapsto> default_metadata d)"
      using ch cr by simp
    show "GetAuthorityMetadata st' d = Inr \<lparr>Admin = cd_Sender msg\<rparr>"
      by (rule GetAuthority_stored) (use cr in simp)
    show "d \<in> set (GetDenomsFromCreator st' (cd_Sender msg))"
      by (rule listed_for_creator) (use cr in simp)
    show "\<forall>d'. d' \<noteq> d \<longrightarrow> GetAuthorityMetadata st' d' = GetAuthorityMetadata st d'"
      using ch cr by (simp add: GetAuthorityMetadata_def)
    show "tf_GetParams st = Inr p" "AccAddressFromBech32 (sc_codec (tk_checks k)) (cd_Sender msg) = Inr a"
      by (fact a)+
    show "tfs_gas st' = tfs_gas st + DenomCreationGasConsume p"
      using gas paid(1) by simp
    show "if IsCapabilityEnabled (tk_enabledCapabilities k) EnableCommunityPoolFeeFunding
        then \<forall>e. tf_supply k st' e = tf_supply k st e \<and>
          (\<forall>x. balance k st' x e = balance k st x e - (if x = a then amount_of (DenomCreationFee p) e else 0)
             + (if x = pool_acc then amount_of (DenomCreationFee p) e else 0))
        else \<forall>e. tf_supply k st' e = tf_supply k st e - amount_of (DenomCreationFee p) e \<and>
          (\<forall>x. balance k st' x e = balance k st x e - (if x = a then amount_of (DenomCreationFee p) e else 0))"
      using cr paid(2,3) by simp
    have "bank_GetDenomMetaData (tk_bank k) (tfs_bank st') d \<noteq> None"
      using fun_cong [OF meta, of d] by (simp add: denom_meta_def)
    then show "tf_CreateDenom k msg st' = Inl ErrDenomExists"
      using a(3) st1(4) by (simp add: tf_CreateDenom_def CreateDenom_def validateCreateDenom_def)
  qed
qed

lemma toy_app_create:
  "map_sum id (\<lambda>(d, st). d) (bindR (tf_InitGenesis toy_app_tf toy_tf_genesis toy_tf_start)
     (tf_CreateDenom toy_app_tf toy_create)) = Inr toy_silver"
  by code_simp

lemma toy_app_start:
  "map_sum id (\<lambda>st. (tf_GetParams st, balance toy_app_tf st ''Ann'' ''akii'',
       balance toy_app_tf st (lg_module ''distribution'') ''akii'', tf_supply toy_app_tf st ''akii''))
     (tf_InitGenesis toy_app_tf toy_tf_genesis toy_tf_start) =
   Inr (Inr (tg_Params toy_tf_genesis), 100, 0, 0)"
  by code_simp

text \<open>Under the capabilities of the app the ten coins Ann pays are on the account of the pool; under
  others they are gone.\<close>

theorem CreateDenom_correct_witness:
  "(\<exists>st st'. tf_CreateDenom toy_app_tf toy_create st = Inr (toy_silver, st') \<and>
     GetAuthorityMetadata st' toy_silver = Inr \<lparr>Admin = ''kAnn''\<rparr> \<and>
     balance toy_app_tf st ''Ann'' ''akii'' = 100 \<and> balance toy_app_tf st' ''Ann'' ''akii'' = 90 \<and>
     balance toy_app_tf st' (lg_module ''distribution'') ''akii'' = 10 \<and>
     tf_supply toy_app_tf st' ''akii'' = tf_supply toy_app_tf st ''akii'' \<and>
     tf_CreateDenom toy_app_tf toy_create st' = Inl ErrDenomExists) \<and>
   (\<exists>st st'. toy_tf_run [TfMint toy_mint] = Inr st \<and> tf_CreateDenom toy_tf toy_create st = Inr (toy_silver, st') \<and>
     balance toy_tf st' ''Ann'' ''akii'' = 90 \<and>
     tf_supply toy_tf st' ''akii'' = tf_supply toy_tf st ''akii'' - 10)"
proof (rule conjI)
  obtain st0 where st0: "tf_InitGenesis toy_app_tf toy_tf_genesis toy_tf_start = Inr st0"
    "tf_GetParams st0 = Inr (tg_Params toy_tf_genesis)" "balance toy_app_tf st0 ''Ann'' ''akii'' = 100"
    "balance toy_app_tf st0 (lg_module ''distribution'') ''akii'' = 0"
    using toy_app_start by (cases "tf_InitGenesis toy_app_tf toy_tf_genesis toy_tf_start") auto
  obtain st1 where st1: "tf_CreateDenom toy_app_tf toy_create st0 = Inr (toy_silver, st1)"
    using toy_app_create st0(1) by (cases "tf_CreateDenom toy_app_tf toy_create st0") auto
  have fee: "amount_of (DenomCreationFee (tg_Params toy_tf_genesis)) ''akii'' = 10"
    by (simp add: toy_tf_genesis_def)
  have on: "IsCapabilityEnabled (tk_enabledCapabilities toy_app_tf) EnableCommunityPoolFeeFunding"
    by (simp add: toy_app_tf_def IsCapabilityEnabled_def)
  have acc: "AccAddressFromBech32 (sc_codec (tk_checks toy_app_tf)) (cd_Sender toy_create) = Inr ''Ann''"
    by (simp add: toy_app_tf_def toy_tf_def toy_checks_def toy_codec_def toy_create_def) code_simp
  have dist: "lg_module ''distribution'' \<noteq> ''Ann''" by (simp add: lg_module_def)
  note c = CreateDenom_correct [OF toy_app_tf.tf_env_pool_axioms st1]
  have s: "cd_Sender toy_create = ''kAnn''" by (simp add: toy_create_def)
  show "\<exists>st st'. tf_CreateDenom toy_app_tf toy_create st = Inr (toy_silver, st') \<and>
     GetAuthorityMetadata st' toy_silver = Inr \<lparr>Admin = ''kAnn''\<rparr> \<and>
     balance toy_app_tf st ''Ann'' ''akii'' = 100 \<and> balance toy_app_tf st' ''Ann'' ''akii'' = 90 \<and>
     balance toy_app_tf st' (lg_module ''distribution'') ''akii'' = 10 \<and>
     tf_supply toy_app_tf st' ''akii'' = tf_supply toy_app_tf st ''akii'' \<and>
     tf_CreateDenom toy_app_tf toy_create st' = Inl ErrDenomExists"
    using c st0 fee on acc dist s st1 by (intro exI [of _ st0] exI [of _ st1]) auto
next
  obtain st st' d where st: "toy_tf_run [TfMint toy_mint] = Inr st" "balance toy_tf st' ''Ann'' ''akii'' = 90"
    "tf_CreateDenom toy_tf toy_create st = Inr (d, st')" "tfs_store st = toy_tf_store"
    using toy_tf_after [OF toy_tf_run1 toy_tf_run4, of "TfCreateDenom toy_create"]
    by (auto simp: toy_tf_sees res_simps)
  note c = CreateDenom_correct [OF toy_burn_tf.tf_env_pool_axioms st(3)]
  have "d = toy_silver"
    using conjunct1 [OF c] by (simp add: toy_create_def toy_silver_def ModuleDenomPrefix_def)
  moreover have "tf_GetParams st = Inr (tg_Params toy_tf_genesis)"
    using st(4) by (simp add: tf_GetParams_def toy_tf_store_def)
  moreover have "\<not> IsCapabilityEnabled (tk_enabledCapabilities toy_tf) EnableCommunityPoolFeeFunding"
    by (simp add: toy_tf_def IsCapabilityEnabled_def EnableSetMetadata_def EnableForceTransfer_def
        EnableBurnFrom_def EnableCommunityPoolFeeFunding_def)
  moreover have "amount_of (DenomCreationFee (tg_Params toy_tf_genesis)) ''akii'' = 10"
    by (simp add: toy_tf_genesis_def)
  ultimately show "\<exists>st st'. toy_tf_run [TfMint toy_mint] = Inr st \<and>
     tf_CreateDenom toy_tf toy_create st = Inr (toy_silver, st') \<and>
     balance toy_tf st' ''Ann'' ''akii'' = 90 \<and>
     tf_supply toy_tf st' ''akii'' = tf_supply toy_tf st ''akii'' - 10"
    using c st by (intro exI [of _ st] exI [of _ st']) auto
qed

end
