(* ===== verification/TokenGenesis.thy ===== *)
theory TokenGenesis
  imports TokenFactory
begin

text \<open>
  Genesis export and import of the token factory: the store of a state whose creators are
  indexed canonically is restored exactly, and the metadata in the bank is reset.
\<close>

section \<open>Genesis\<close>

text \<open>Creators are indexed under the canonical form of their address.\<close>

definition canonical :: "'b tf_Keeper \<Rightarrow> 'b tf_state \<Rightarrow> bool" where
  "canonical k st \<longleftrightarrow> list_all (\<lambda>e. case snd e of
       VDenom d \<Rightarrow> (case DeconstructDenom (tk_checks k) d of
           Inr cs \<Rightarrow> fst e = GetCreatorPrefix (fst cs) @ d | Inl _ \<Rightarrow> False)
     | _ \<Rightarrow> True) (tfs_store st)"

text \<open>A genesis denom that agrees with the store it was exported from.\<close>

definition exported :: "'b tf_Keeper \<Rightarrow> 'b tf_state \<Rightarrow> GenesisDenom \<Rightarrow> bool" where
  "exported k st g \<longleftrightarrow>
     kv_get (tfs_store st) (metadata_key (gd_Denom g)) = Some (VMetadata (gd_AuthorityMetadata g)) \<and>
     (\<exists>c s. DeconstructDenom (tk_checks k) (gd_Denom g) = Inr (c, s) \<and>
        kv_get (tfs_store st) (GetCreatorPrefix c @ gd_Denom g) = Some (VDenom (gd_Denom g)))"

lemma canonical_creator_key:
  assumes "kv_ok (tfs_store st)" and can: "canonical k st"
    and "kv_get (tfs_store st) (GetCreatorPrefix c @ d) = Some (VDenom d)"
  shows "\<exists>s. DeconstructDenom (tk_checks k) d = Inr (c, s)"
proof -
  have "(GetCreatorPrefix c @ d, VDenom d) \<in> set (tfs_store st)"
    using kv_get_in [OF assms(1)] assms(3) by blast
  from can [unfolded canonical_def list_all_iff, THEN bspec, OF this] show ?thesis
    by (cases "DeconstructDenom (tk_checks k) d") (auto simp: GetCreatorPrefix_def)
qed

lemma export_denoms_all:
  "(\<And>d. d \<in> set ds \<Longrightarrow> GetAuthorityMetadata st d = Inr (am d)) \<Longrightarrow>
   export_denoms st ds = Inr (map (\<lambda>d. \<lparr>gd_Denom = d, gd_AuthorityMetadata = am d\<rparr>) ds)"
  by (induction ds) auto

context tf_env
begin

lemma exported_denoms:
  assumes inv: "tf_inv k st" and can: "canonical k st"
  obtains gs where "export_denoms st (GetAllDenoms st) = Inr gs" "list_all (exported k st) gs"
    "map gd_Denom gs = GetAllDenoms st"
proof -
  define am where "am d = projr (GetAuthorityMetadata st d)" for d
  let ?gs = "map (\<lambda>d. \<lparr>gd_Denom = d, gd_AuthorityMetadata = am d\<rparr>) (GetAllDenoms st)"
  have ok: "kv_ok (tfs_store st)" using inv by (simp add: tf_inv_def)
  have am: "kv_get (tfs_store st) (metadata_key d) = Some (VMetadata (am d)) \<and> GetAuthorityMetadata st d = Inr (am d)"
    if "d \<in> set (GetAllDenoms st)" for d
    using that tf_inv_index [OF inv] by (auto simp: am_def GetAuthority_stored)
  have "exported k st \<lparr>gd_Denom = d, gd_AuthorityMetadata = am d\<rparr>" if d: "d \<in> set (GetAllDenoms st)" for d
  proof -
    from am [OF d] obtain c where c: "kv_get (tfs_store st) (GetCreatorPrefix c @ d) = Some (VDenom d)"
      using tf_inv_metadata [OF inv] by metis
    then obtain s where "DeconstructDenom (tk_checks k) d = Inr (c, s)"
      using canonical_creator_key [OF ok can] by blast
    then show ?thesis
      using am [OF d] c by (auto simp: exported_def)
  qed
  then show ?thesis
    using that [of ?gs] am export_denoms_all [of "GetAllDenoms st" st am]
    by (auto simp: list_all_iff comp_def)
qed

lemma import_exported:
  assumes inv: "tf_inv k st" and g: "exported k st g" and sub: "kv_get (tfs_store st1) \<subseteq>\<^sub>m kv_get (tfs_store st)"
  obtains st2 c s where "import_denom k g st1 = Inr st2" "kv_get (tfs_store st2) \<subseteq>\<^sub>m kv_get (tfs_store st)"
    "DeconstructDenom (tk_checks k) (gd_Denom g) = Inr (c, s)"
    "dom (kv_get (tfs_store st2)) = dom (kv_get (tfs_store st1)) \<union>
       {metadata_key (gd_Denom g), GetCreatorPrefix c @ gd_Denom g}"
    "kv_ok (tfs_store st1) \<Longrightarrow> kv_ok (tfs_store st2)"
proof -
  obtain c s where g': "DeconstructDenom (tk_checks k) (gd_Denom g) = Inr (c, s)"
    "kv_get (tfs_store st) (GetCreatorPrefix c @ gd_Denom g) = Some (VDenom (gd_Denom g))"
    "kv_get (tfs_store st) (metadata_key (gd_Denom g)) = Some (VMetadata (gd_AuthorityMetadata g))"
    using g by (auto simp: exported_def)
  have v1: "AuthorityMetadata_Validate (tk_checks k) (gd_AuthorityMetadata g) = Inr ()"
    using tf_inv_metadata [OF inv g'(3)] by (metis tf_value.inject(2))
  have v2: "AuthorityMetadata_Validate (tk_checks k) \<lparr>Admin = c\<rparr> = Inr ()"
    using sdk_rules.canonical_creator [OF rules g'(1)] by (auto simp: AuthorityMetadata_Validate_def)
  obtain st2 where st2: "import_denom k g st1 = Inr st2"
    using g'(1) v1 v2 by (simp add: import_denom_def createDenomAfterValidation_def
        setAuthorityMetadata_def Let_def)
  show ?thesis
  proof (rule import_effect [OF st2])
    fix c' s'
    assume "DeconstructDenom (tk_checks k) (gd_Denom g) = Inr (c', s')" and
      st: "tfs_store st2 = kv_set (metadata_key (gd_Denom g)) (VMetadata (gd_AuthorityMetadata g))
       (kv_set (GetCreatorPrefix c' @ gd_Denom g) (VDenom (gd_Denom g))
         (kv_set (metadata_key (gd_Denom g)) (VMetadata \<lparr>Admin = c'\<rparr>) (tfs_store st1)))"
    then have "c' = c" using g'(1) by simp
    with st show ?thesis
      using that [OF st2 _ g'(1)] sub g'(2,3) by (auto simp: map_le_def)
  qed
qed

lemma import_all:
  assumes inv: "tf_inv k st" and gs: "list_all (exported k st) gs"
    and sub: "kv_get (tfs_store st1) \<subseteq>\<^sub>m kv_get (tfs_store st)" and ok: "kv_ok (tfs_store st1)"
  shows "\<exists>st2. foldR (import_denom k) gs st1 = Inr st2 \<and> kv_get (tfs_store st2) \<subseteq>\<^sub>m kv_get (tfs_store st) \<and>
    kv_ok (tfs_store st2) \<and> dom (kv_get (tfs_store st1)) \<subseteq> dom (kv_get (tfs_store st2)) \<and>
    (\<forall>g \<in> set gs. \<exists>c s. DeconstructDenom (tk_checks k) (gd_Denom g) = Inr (c, s) \<and>
       {metadata_key (gd_Denom g), GetCreatorPrefix c @ gd_Denom g} \<subseteq> dom (kv_get (tfs_store st2)))"
  using gs sub ok
proof (induction gs arbitrary: st1)
  case (Cons g gs)
  then have "exported k st g" by simp
  from import_exported [OF inv this Cons.prems(2)] obtain st2 c s where
    st2: "import_denom k g st1 = Inr st2" "kv_get (tfs_store st2) \<subseteq>\<^sub>m kv_get (tfs_store st)"
    "DeconstructDenom (tk_checks k) (gd_Denom g) = Inr (c, s)"
    "dom (kv_get (tfs_store st2)) = dom (kv_get (tfs_store st1)) \<union>
       {metadata_key (gd_Denom g), GetCreatorPrefix c @ gd_Denom g}" "kv_ok (tfs_store st2)"
    using Cons.prems(3) by metis
  then obtain st3 where st3: "foldR (import_denom k) gs st2 = Inr st3"
    "kv_get (tfs_store st3) \<subseteq>\<^sub>m kv_get (tfs_store st)" "kv_ok (tfs_store st3)"
    "dom (kv_get (tfs_store st2)) \<subseteq> dom (kv_get (tfs_store st3))"
    "\<forall>g \<in> set gs. \<exists>c s. DeconstructDenom (tk_checks k) (gd_Denom g) = Inr (c, s) \<and>
       {metadata_key (gd_Denom g), GetCreatorPrefix c @ gd_Denom g} \<subseteq> dom (kv_get (tfs_store st3))"
    using Cons.IH [of st2] Cons.prems(1) by auto
  have "foldR (import_denom k) (g # gs) st1 = Inr st3"
    using st2(1) st3(1) by simp
  moreover have "\<exists>c s. DeconstructDenom (tk_checks k) (gd_Denom g) = Inr (c, s) \<and>
       {metadata_key (gd_Denom g), GetCreatorPrefix c @ gd_Denom g} \<subseteq> dom (kv_get (tfs_store st3))"
    using st2(3,4) st3(4) by blast
  moreover have "dom (kv_get (tfs_store st1)) \<subseteq> dom (kv_get (tfs_store st3))"
    using st2(4) st3(4) by blast
  ultimately show ?case
    using st3(2,3,5) by (intro exI [of _ st3]) auto
qed simp

end

lemma restored_key:
  assumes "tf_env k" and inv: "tf_inv k st" and can: "canonical k st"
    and gs: "map gd_Denom gs = GetAllDenoms st"
    and sub: "dom (kv_get m0) \<subseteq> dom (kv_get m1)"
    and cover: "\<forall>g \<in> set gs. \<exists>c s. DeconstructDenom (tk_checks k) (gd_Denom g) = Inr (c, s) \<and>
       {metadata_key (gd_Denom g), GetCreatorPrefix c @ gd_Denom g} \<subseteq> dom (kv_get m1)"
    and m0: "tf_ParamsKey \<in> dom (kv_get m0)"
    and v: "kv_get (tfs_store st) key = Some v" "rec_ok k st key v"
  shows "key \<in> dom (kv_get m1)"
proof -
  have listed: "\<exists>c s. DeconstructDenom (tk_checks k) d = Inr (c, s) \<and>
      {metadata_key d, GetCreatorPrefix c @ d} \<subseteq> dom (kv_get m1)"
    if d: "kv_get (tfs_store st) (metadata_key d) = Some (VMetadata m)" for d m
  proof -
    have "d \<in> gd_Denom ` set gs"
      using d tf_inv_index [OF inv] arg_cong [OF gs, of set] by auto
    then show ?thesis using cover by auto
  qed
  have ok: "kv_ok (tfs_store st)" using inv by (simp add: tf_inv_def)
  from v(2) show ?thesis
    unfolding rec_ok_def
  proof (elim disjE exE conjE)
    fix d m
    assume "key = metadata_key d" "v = VMetadata m"
    then show ?thesis using listed [of d m] v(1) by auto
  next
    fix c d m
    assume key: "key = GetCreatorPrefix c @ d" "v = VDenom d"
      and d: "kv_get (tfs_store st) (metadata_key d) = Some (VMetadata m)"
    then show ?thesis
      using listed [OF d] canonical_creator_key [OF ok can, of c d] v(1) by auto
  qed (use m0 sub in auto)
qed

lemma imported_metadata:
  assumes "tf_env k" and "foldR (import_denom k) gs st = Inr st'"
  shows "\<forall>d \<in> set (map gd_Denom gs). denom_meta k st' d = Some (default_metadata d)"
proof -
  have "(\<forall>d. denom_meta k st d = Some (default_metadata d) \<longrightarrow> denom_meta k st' d = Some (default_metadata d)) \<and>
      (\<forall>d \<in> set (map gd_Denom gs). denom_meta k st' d = Some (default_metadata d))"
    using assms(2)
  proof (induction gs arbitrary: st)
    case (Cons g gs)
    then obtain st1 where st1: "import_denom k g st = Inr st1" "foldR (import_denom k) gs st1 = Inr st'"
      by (auto simp: res_simps)
    have "denom_meta k st1 = (denom_meta k st)(gd_Denom g \<mapsto> default_metadata (gd_Denom g))"
      by (rule tf_env.import_effect [OF assms(1) st1(1)])
    then show ?case
      using Cons.IH [OF st1(2)] by auto
  qed simp
  then show ?thesis by blast
qed

lemma canonical_distinct:
  assumes inv: "tf_inv k st" and can: "canonical k st"
  shows "distinct (GetAllDenoms st)"
proof -
  have ok: "kv_ok (tfs_store st)" using inv by (simp add: tf_inv_def)
  let ?es = "filter (\<lambda>e. prefix GetCreatorsPrefix (fst e)) (tfs_store st)"
  have key: "\<exists>c s. e = (GetCreatorPrefix c @ denom_of_value (snd e), VDenom (denom_of_value (snd e))) \<and>
      DeconstructDenom (tk_checks k) (denom_of_value (snd e)) = Inr (c, s)" if e: "e \<in> set ?es" for e
  proof -
    have get: "kv_get (tfs_store st) (fst e) = Some (snd e)" and p: "prefix GetCreatorsPrefix (fst e)"
      using e kv_get_in [OF ok, of "fst e" "snd e"] by auto
    then have "rec_ok k st (fst e) (snd e)"
      using inv by (auto simp: tf_inv_def)
    then obtain c d where "fst e = GetCreatorPrefix c @ d" "snd e = VDenom d"
      using p unfolding rec_ok_def by (elim disjE exE conjE) simp_all
    then show ?thesis
      using canonical_creator_key [OF ok can, of c d] get by (cases e) auto
  qed
  have "inj_on (\<lambda>e. denom_of_value (snd e)) (set ?es)"
  proof (rule inj_onI)
    fix e e' assume e: "e \<in> set ?es" "e' \<in> set ?es" and d: "denom_of_value (snd e) = denom_of_value (snd e')"
    obtain c s where c: "e = (GetCreatorPrefix c @ denom_of_value (snd e), VDenom (denom_of_value (snd e)))"
      "DeconstructDenom (tk_checks k) (denom_of_value (snd e)) = Inr (c, s)"
      using key [OF e(1)] by blast
    obtain c' s' where c': "e' = (GetCreatorPrefix c' @ denom_of_value (snd e'), VDenom (denom_of_value (snd e')))"
      "DeconstructDenom (tk_checks k) (denom_of_value (snd e')) = Inr (c', s')"
      using key [OF e(2)] by blast
    have "c = c'" using c(2) c'(2) d by simp
    then show "e = e'" using c(1) c'(1) d by metis
  qed
  moreover have "distinct ?es"
    using kv_ok_distinct [OF ok] by (simp add: distinct_map)
  ultimately show ?thesis
    by (simp add: GetAllDenoms_def distinct_map)
qed

lemma validate_exported:
  assumes inv: "tf_inv k st"
  shows "list_all (exported k st) gs \<Longrightarrow> distinct (map gd_Denom gs) \<Longrightarrow>
    set seen \<inter> gd_Denom ` set gs = {} \<Longrightarrow> validate_denoms (tk_checks k) seen gs = Inr ()"
proof (induction gs arbitrary: seen)
  case (Cons g gs)
  then obtain c s where g: "DeconstructDenom (tk_checks k) (gd_Denom g) = Inr (c, s)"
    "kv_get (tfs_store st) (metadata_key (gd_Denom g)) = Some (VMetadata (gd_AuthorityMetadata g))"
    by (auto simp: exported_def)
  have "AuthorityMetadata_Validate (tk_checks k) (gd_AuthorityMetadata g) = Inr ()"
    using tf_inv_metadata [OF inv g(2)] by (metis tf_value.inject(2))
  then have "Admin (gd_AuthorityMetadata g) \<noteq> [] \<Longrightarrow>
      \<exists>a. AccAddressFromBech32 (sc_codec (tk_checks k)) (Admin (gd_AuthorityMetadata g)) = Inr a"
    by (auto simp: AuthorityMetadata_Validate_def res_simps)
  moreover have "validate_denoms (tk_checks k) (gd_Denom g # seen) gs = Inr ()"
    by (rule Cons.IH) (use Cons.prems in auto)
  ultimately show ?case
    using g(1) Cons.prems(3) by (auto simp: res_simps)
qed simp

text \<open>C8: When creators are indexed under canonical addresses, exporting the genesis of a reachable
  state gives a valid genesis, and importing it into an empty store succeeds and restores the
  store exactly, parameters, admins and creator index; the bank's metadata of every factory denom is reset to the default.\<close>

theorem tf_genesis_roundtrip:
  assumes "tf_env k" and "tf_reachable k st" and "canonical k st" and "tfs_store st0 = []"
  shows "\<exists>g st1. tf_ExportGenesis st = Inr g \<and> tf_Genesis_Validate (tk_checks k) g = Inr () \<and>
    tf_InitGenesis k g st0 = Inr st1 \<and> tfs_store st1 = tfs_store st \<and>
    (\<forall>d \<in> set (GetAllDenoms st). denom_meta k st1 d = Some (default_metadata d))"
proof -
  note inv = tf_reachable_inv [OF assms(1,2)]
  obtain p where p: "kv_get (tfs_store st) tf_ParamsKey = Some (VParams p)"
    "tf_Params_Validate (tk_checks k) p = Inr ()"
    by (rule tf_inv_params [OF inv])
  obtain gs where gs: "export_denoms st (GetAllDenoms st) = Inr gs" "list_all (exported k st) gs"
    "map gd_Denom gs = GetAllDenoms st"
    by (rule tf_env.exported_denoms [OF assms(1) inv assms(3)])
  define g where "g = \<lparr>tg_Params = p, tg_FactoryDenoms = gs\<rparr>"
  have ex: "tf_ExportGenesis st = Inr g"
    using gs(1) p(1) by (simp add: tf_ExportGenesis_def tf_GetParams_def g_def)
  define st0' where "st0' = st0\<lparr>tfs_store := [(tf_ParamsKey, VParams p)]\<rparr>"
  have set: "tf_SetParams k p st0 = Inr st0'"
    using p(2) assms(4) by (simp add: tf_SetParams_def st0'_def)
  obtain st1 where st1: "foldR (import_denom k) gs st0' = Inr st1"
    "kv_get (tfs_store st1) \<subseteq>\<^sub>m kv_get (tfs_store st)" "kv_ok (tfs_store st1)"
    "dom (kv_get (tfs_store st0')) \<subseteq> dom (kv_get (tfs_store st1))"
    "\<forall>g \<in> set gs. \<exists>c s. DeconstructDenom (tk_checks k) (gd_Denom g) = Inr (c, s) \<and>
       {metadata_key (gd_Denom g), GetCreatorPrefix c @ gd_Denom g} \<subseteq> dom (kv_get (tfs_store st1))"
    using tf_env.import_all [OF assms(1) inv gs(2), of st0'] p(1)
    by (auto simp: st0'_def map_le_def kv_ok_Cons)
  have init: "tf_InitGenesis k g st0 = Inr st1"
    using set st1(1) by (simp add: tf_InitGenesis_def g_def)
  have "dom (kv_get (tfs_store st)) \<subseteq> dom (kv_get (tfs_store st1))"
  proof
    fix key assume "key \<in> dom (kv_get (tfs_store st))"
    then obtain v where v: "kv_get (tfs_store st) key = Some v" "rec_ok k st key v"
      using inv by (auto simp: tf_inv_def)
    show "key \<in> dom (kv_get (tfs_store st1))"
      by (rule restored_key [OF assms(1) inv assms(3) gs(3) st1(4,5) _ v]) (simp add: st0'_def)
  qed
  then have "tfs_store st1 = tfs_store st"
    using st1(2,3) inv by (intro kv_ext map_le_antisym) (auto simp: tf_inv_def map_le_def dom_def)
  moreover have "\<forall>d \<in> set (map gd_Denom gs). denom_meta k st1 d = Some (default_metadata d)"
    by (rule imported_metadata [OF assms(1) st1(1)])
  moreover have "tf_Genesis_Validate (tk_checks k) g = Inr ()"
    using validate_exported [OF inv gs(2), of "[]"] canonical_distinct [OF inv assms(3)] gs(3) p(2)
    by (simp add: tf_Genesis_Validate_def g_def)
  ultimately show ?thesis
    using ex init gs(3) by auto
qed

theorem tf_genesis_roundtrip_witness:
  "\<exists>st g st1. toy_tf_run [TfMint toy_mint, TfCreateDenom toy_create] = Inr st \<and>
     tf_ExportGenesis st = Inr g \<and> tf_InitGenesis toy_tf g toy_tf_start = Inr st1 \<and>
     tfs_store st1 = tfs_store st \<and> denom_meta toy_tf st1 toy_gold = Some (default_metadata toy_gold)"
proof -
  let ?store = "[(tf_ParamsKey, VParams (tg_Params toy_tf_genesis)),
       (''creator|kAnn|factory/kAnn/silver'', VDenom toy_silver),
       (''creator|kBob|factory/kBob/gold'', VDenom toy_gold),
       (''denoms|factory/kAnn/silver|authoritymetadata'', VMetadata \<lparr>Admin = ''kAnn''\<rparr>),
       (''denoms|factory/kBob/gold|authoritymetadata'', VMetadata \<lparr>Admin = ''kBob''\<rparr>)]"
  obtain st where st: "toy_tf_run [TfMint toy_mint, TfCreateDenom toy_create] = Inr st" "tfs_store st = ?store"
    using toy_tf_viewed [OF toy_tf_run4] by (auto simp: toy_tf_view_def)
  have reach: "tf_reachable toy_tf st"
    by (rule toy_tf_reachable [OF st(1)]) (simp add: toy_mint_def toy_create_def)
  have can: "canonical toy_tf st"
    unfolding canonical_def st(2) by code_simp
  have start: "tfs_store toy_tf_start = []"
    by (simp add: toy_tf_start_def)
  have "toy_gold \<in> set (GetAllDenoms st)"
    unfolding GetAllDenoms_def st(2) by code_simp
  with tf_genesis_roundtrip [OF toy_tf.tf_env_axioms reach can start] st(1) show ?thesis
    by blast
qed

end
