(* ===== verification/Rewards.thy ===== *)
theory Rewards
  imports TokenTypes
begin

text \<open>
  \<open>x/rewards\<close>: a release schedule that pays a pool out linearly over time. Types with their
  genesis checks, \<open>CalculateReward\<close>, the begin blocker, the message server with its validation,
  and genesis. \<open>time.Now()\<close>, which some checks call, is the parameter \<open>now\<close>; \<open>sdk.DecCoins\<close> are
  an abstract type with their operations in the record \<open>dec_coins_ops\<close>.  The overflow panics of
  256-bit integers are left out: amounts stay below the total supply.
\<close>

section \<open>Types\<close>

record rw_Params =
  TokenDenom :: string

record ReleaseSchedule =
  TotalAmount :: coin
  ReleasedAmount :: coin
  EndTime :: int
  LastReleaseTime :: int
  Active :: bool

record 'p dec_coins_ops =
  dc_empty :: 'p
  dc_AmountOf :: "'p \<Rightarrow> string \<Rightarrow> dec"
  dc_Add :: "'p \<Rightarrow> coins \<Rightarrow> 'p res"
  dc_Sub :: "'p \<Rightarrow> coins \<Rightarrow> 'p res"
  dc_IsAnyNegative :: "'p \<Rightarrow> bool"

record 'p rw_GenesisState =
  rwg_Params :: rw_Params
  rwg_ReleaseSchedule :: ReleaseSchedule
  rwg_RewardPool :: 'p

definition rw_DefaultParams :: rw_Params where
  "rw_DefaultParams = \<lparr>TokenDenom = ''akii''\<rparr>"

definition rw_Params_ValidateBasic :: "rw_Params \<Rightarrow> unit res" where
  "rw_Params_ValidateBasic p =
     (if TokenDenom p = [] then Inl (Errorf ''invalid denom, empty'') else Inr ())"

definition empty_coin :: coin where
  "empty_coin = \<lparr>coin_Denom = [], coin_Amount = 0\<rparr>"

definition InitialReleaseSchedule :: ReleaseSchedule where
  "InitialReleaseSchedule =
     \<lparr>TotalAmount = empty_coin, ReleasedAmount = empty_coin, EndTime = 0, LastReleaseTime = 0, Active = False\<rparr>"

definition InitialRewardPool :: "'p dec_coins_ops \<Rightarrow> 'p" where
  "InitialRewardPool P = dc_empty P"

definition RewardPool_ValidateGenesis :: "'p dec_coins_ops \<Rightarrow> 'p \<Rightarrow> unit res" where
  "RewardPool_ValidateGenesis P rp =
     (if dc_IsAnyNegative P rp then Inl (Errorf ''negative CommunityPool'') else Inr ())"

definition check :: "bool \<Rightarrow> string \<Rightarrow> unit res" where
  \<comment> \<open>\<open>if bad { return fmt.Errorf(msg) }\<close>\<close>
  "check bad msg = (if bad then Inl (Errorf msg) else Inr ())"

definition Schedule_ValidateGenesis :: "sdk_checks \<Rightarrow> int \<Rightarrow> ReleaseSchedule \<Rightarrow> unit res" where
  "Schedule_ValidateGenesis S now rr =
     bindR (check (EndTime rr \<noteq> 0 \<and> EndTime rr < now) ''end time cannot be in the past'') (\<lambda>_.
     bindR (check (now < LastReleaseTime rr) ''last release time cannot be in the future'') (\<lambda>_.
     if \<not> Active rr then Inr ()
     else
       bindR (check (\<not> sc_Coin_IsValid S (TotalAmount rr)) ''invalid total amount'') (\<lambda>_.
       bindR (check (coin_Amount (TotalAmount rr) = 0) ''active reward releaser cannot have zero total amount'') (\<lambda>_.
       bindR (check (EndTime rr = 0) ''active reward releaser must have an end time'') (\<lambda>_.
       if coin_Amount (ReleasedAmount rr) = 0 then Inr ()
       else
         bindR (check (\<not> sc_Coin_IsValid S (ReleasedAmount rr)) ''invalid released amount'') (\<lambda>_.
         bindR (check (coin_Denom (ReleasedAmount rr) \<noteq> coin_Denom (TotalAmount rr)) ''released denom'') (\<lambda>_.
         check (coin_Amount (TotalAmount rr) < coin_Amount (ReleasedAmount rr)) ''released amount too large'')))))))"

definition rw_NewGenesisState :: "rw_Params \<Rightarrow> 'p \<Rightarrow> ReleaseSchedule \<Rightarrow> 'p rw_GenesisState" where
  "rw_NewGenesisState params rp release =
     \<lparr>rwg_Params = params, rwg_ReleaseSchedule = release, rwg_RewardPool = rp\<rparr>"

definition rw_DefaultGenesisState :: "'p dec_coins_ops \<Rightarrow> 'p rw_GenesisState" where
  "rw_DefaultGenesisState P =
     \<lparr>rwg_Params = rw_DefaultParams, rwg_ReleaseSchedule = InitialReleaseSchedule,
      rwg_RewardPool = InitialRewardPool P\<rparr>"

definition rw_Genesis_Validate :: "sdk_checks \<Rightarrow> 'p dec_coins_ops \<Rightarrow> int \<Rightarrow> 'p rw_GenesisState \<Rightarrow> unit res" where
  "rw_Genesis_Validate S P now gs =
     bindR (rw_Params_ValidateBasic (rwg_Params gs)) (\<lambda>_.
     bindR (RewardPool_ValidateGenesis P (rwg_RewardPool gs)) (\<lambda>_.
     Schedule_ValidateGenesis S now (rwg_ReleaseSchedule gs)))"

section \<open>Coins and durations\<close>

text \<open>\<open>Coin.Sub\<close> and \<open>Coin.Add\<close> panic on different denoms, \<open>Sub\<close> on a negative result;
  \<open>sdk.NewCoin\<close> panics on an invalid coin.\<close>

definition coin_Sub :: "coin \<Rightarrow> coin \<Rightarrow> coin res" where
  "coin_Sub a b =
     (if coin_Denom a \<noteq> coin_Denom b then Inl (Panic ''invalid coin denominations'')
      else if coin_Amount a < coin_Amount b then Inl (Panic ''negative coin amount'')
      else Inr (a\<lparr>coin_Amount := coin_Amount a - coin_Amount b\<rparr>))"

definition coin_Add :: "coin \<Rightarrow> coin \<Rightarrow> coin res" where
  "coin_Add a b =
     (if coin_Denom a \<noteq> coin_Denom b then Inl (Panic ''invalid coin denominations'')
      else Inr (a\<lparr>coin_Amount := coin_Amount a + coin_Amount b\<rparr>))"

definition NewCoin :: "sdk_checks \<Rightarrow> string \<Rightarrow> int \<Rightarrow> coin res" where
  "NewCoin S denom amount =
     (let c = \<lparr>coin_Denom = denom, coin_Amount = amount\<rparr>
      in if sc_Coin_IsValid S c then Inr c else Inl (Panic ''invalid coin''))"

text \<open>
  \<open>t.Sub(u)\<close> saturates at the range of a \<open>time.Duration\<close>. \<open>int64(d.Seconds())\<close> adds the whole
  seconds and the nanoseconds divided by 1e9 as floats and truncates; floats round
  symmetrically, so the value of a negative duration is that of its opposite, negated.
\<close>

definition time_Sub :: "int \<Rightarrow> int \<Rightarrow> int" where
  "time_Sub t u = max (- (2 ^ 63)) (min (2 ^ 63 - 1) (t - u))"

definition dur_Seconds :: "int \<Rightarrow> float64" where
  "dur_Seconds d =
     f64_add (f64_of_frac (d div 10 ^ 9) 1)
       (f64_div (f64_of_frac (d mod 10 ^ 9) 1) (f64_of_frac (10 ^ 9) 1))"

definition whole_seconds :: "int \<Rightarrow> int" where
  "whole_seconds d = sgn d * f64_trunc (dur_Seconds \<bar>d\<bar>)"

definition CalculateReward :: "sdk_checks \<Rightarrow> dec_ops \<Rightarrow> int \<Rightarrow> ReleaseSchedule \<Rightarrow> coin res" where
  "CalculateReward S D blockTime schedule =
     bindR (coin_Sub (TotalAmount schedule) (ReleasedAmount schedule)) (\<lambda>remaining.
     if coin_Amount remaining = 0 then Inr remaining
     else if EndTime schedule = LastReleaseTime schedule
     then Inl (Errorf ''end time is equal to last release and would do a division by 0'')
     else
       let timeElapsed = whole_seconds (time_Sub blockTime (LastReleaseTime schedule));
           totalDuration = whole_seconds (time_Sub (EndTime schedule) (LastReleaseTime schedule))
       in bindR (dec_OfInt D timeElapsed) (\<lambda>elapsed.
          bindR (dec_OfInt D totalDuration) (\<lambda>total.
          bindR (dec_Quo D elapsed total) (\<lambda>releaseProportion.
          bindR (dec_OfInt D (coin_Amount remaining)) (\<lambda>rem.
          bindR (dec_Mul D rem releaseProportion) (\<lambda>product.
          bindR (dec_TruncateInt D product) (\<lambda>amount.
          let amountToRelease = min (max amount 1) (coin_Amount remaining)
          in NewCoin S (coin_Denom (TotalAmount schedule)) amountToRelease)))))))"

section \<open>Keeper and state\<close>

text \<open>The three items are \<open>collections.Item\<close>s: reading one that was never set is an error.\<close>

record ('b, 'p) rw_Keeper =
  rwk_checks :: sdk_checks
  rwk_dec :: dec_ops
  rwk_pool :: "'p dec_coins_ops"
  rwk_bank :: "'b bank_ops"
  rwk_authority :: string
  rwk_feeCollectorName :: string

record ('b, 'p) rw_state =
  rws_Params :: "rw_Params option"
  rws_RewardPool :: "'p option"
  rws_ReleaseSchedule :: "ReleaseSchedule option"
  rws_bank :: 'b

definition rw_ModuleName :: string where "rw_ModuleName = ''rewards''"

definition FundCommunityPool ::
  "('b, 'p) rw_Keeper \<Rightarrow> coin \<Rightarrow> addr \<Rightarrow> ('b, 'p) rw_state \<Rightarrow> ('b, 'p) rw_state res" where
  "FundCommunityPool k amount sender st =
     bindR (bank_SendCoinsFromAccountToModule (rwk_bank k) sender rw_ModuleName [amount] (rws_bank st)) (\<lambda>b.
     bindR (the_or ErrNotFound (rws_RewardPool st)) (\<lambda>rewardPool.
     bindR (dc_Add (rwk_pool k) rewardPool [amount]) (\<lambda>pool.
     Inr (st\<lparr>rws_RewardPool := Some pool, rws_bank := b\<rparr>))))"

section \<open>Begin blocker\<close>

definition rw_distribute ::
  "('b, 'p) rw_Keeper \<Rightarrow> ctx \<Rightarrow> coin \<Rightarrow> ReleaseSchedule \<Rightarrow> ('b, 'p) rw_state \<Rightarrow> ('b, 'p) rw_state res" where
  "rw_distribute k c amountToDistribute schedule st =
     bindR (the_or ErrNotFound (rws_RewardPool st)) (\<lambda>rewardPool.
     bindR (NewCoins (rwk_checks k) amountToDistribute) (\<lambda>coinsToDistribute.
     bindR (bank_SendCoinsFromModuleToModule (rwk_bank k) rw_ModuleName (rwk_feeCollectorName k)
         coinsToDistribute (rws_bank st)) (\<lambda>b.
     bindR (dc_Sub (rwk_pool k) rewardPool coinsToDistribute) (\<lambda>pool.
     bindR (coin_Add (ReleasedAmount schedule) amountToDistribute) (\<lambda>released.
     Inr (st\<lparr>rws_RewardPool := Some pool,
             rws_ReleaseSchedule := Some (schedule\<lparr>ReleasedAmount := released,
                                                    LastReleaseTime := BlockTime c\<rparr>),
             rws_bank := b\<rparr>))))))"

definition rw_BeginBlocker ::
  "('b, 'p) rw_Keeper \<Rightarrow> ctx \<Rightarrow> ('b, 'p) rw_state \<Rightarrow> ('b, 'p) rw_state res" where
  "rw_BeginBlocker k c st =
     bindR (the_or ErrNotFound (rws_ReleaseSchedule st)) (\<lambda>schedule.
     if \<not> Active schedule \<or> coin_Amount (TotalAmount schedule) = 0 then Inr st
     else if LastReleaseTime schedule = 0
     then Inr (st\<lparr>rws_ReleaseSchedule := Some (schedule\<lparr>LastReleaseTime := BlockTime c\<rparr>)\<rparr>)
     else
       bindR (CalculateReward (rwk_checks k) (rwk_dec k) (BlockTime c) schedule) (\<lambda>amountToDistribute.
       if coin_Amount amountToDistribute = 0
       then Inr (st\<lparr>rws_ReleaseSchedule := Some (schedule\<lparr>Active := False\<rparr>)\<rparr>)
       else rw_distribute k c amountToDistribute schedule st))"

section \<open>Message server\<close>

definition validateAuthority :: "('b, 'p) rw_Keeper \<Rightarrow> string \<Rightarrow> unit res" where
  "validateAuthority k authority =
     bindR (wrapR ErrInvalidAddress (AccAddressFromBech32 (sc_codec (rwk_checks k)) authority)) (\<lambda>_.
     if rwk_authority k \<noteq> authority then Inl ErrInvalidSigner else Inr ())"

definition validateAmount :: "sdk_checks \<Rightarrow> coin \<Rightarrow> unit res" where
  "validateAmount S amount = (if sc_Coin_IsValid S amount then Inr () else Inl ErrInvalidCoins)"

definition validateEndTime :: "int \<Rightarrow> int \<Rightarrow> unit res" where
  "validateEndTime now endTime = check (endTime < now) ''end time is not in the future''"

definition fundsAvailable :: "('b, 'p) rw_Keeper \<Rightarrow> coin \<Rightarrow> ('b, 'p) rw_state \<Rightarrow> unit res" where
  "fundsAvailable k amount st =
     bindR (the_or ErrNotFound (rws_RewardPool st)) (\<lambda>rewardPool.
     bindR (dec_OfInt (rwk_dec k) (coin_Amount amount)) (\<lambda>decAmount.
     check (dc_AmountOf (rwk_pool k) rewardPool (coin_Denom amount) < decAmount) ''less funds than requested''))"

definition validateReleased :: "sdk_checks \<Rightarrow> ReleaseSchedule \<Rightarrow> unit res" where
  "validateReleased S schedule =
     bindR (check (coin_Denom (ReleasedAmount schedule) \<noteq> coin_Denom (TotalAmount schedule)) ''released amount denom'') (\<lambda>_.
     if coin_Amount (ReleasedAmount schedule) = 0 then Inr ()
     else bindR (wrapR (Errorf ''invalid released amount'') (validateAmount S (ReleasedAmount schedule))) (\<lambda>_.
       check (coin_Amount (TotalAmount schedule) < coin_Amount (ReleasedAmount schedule)) ''released amount cannot exceed total''))"

definition validateTimes :: "int \<Rightarrow> ReleaseSchedule \<Rightarrow> unit res" where
  "validateTimes now schedule =
     bindR (check (EndTime schedule = 0) ''end time cannot be zero'') (\<lambda>_.
     bindR (validateEndTime now (EndTime schedule)) (\<lambda>_.
     if LastReleaseTime schedule = 0 then Inr ()
     else bindR (check (now < LastReleaseTime schedule) ''last release time cannot be in the future'') (\<lambda>_.
       check (EndTime schedule < LastReleaseTime schedule) ''last release time cannot be after end time'')))"

definition validateSchedule ::
  "('b, 'p) rw_Keeper \<Rightarrow> int \<Rightarrow> ReleaseSchedule \<Rightarrow> ('b, 'p) rw_state \<Rightarrow> unit res" where
  "validateSchedule k now schedule st =
     bindR (wrapR (Errorf ''invalid total amount'') (validateAmount (rwk_checks k) (TotalAmount schedule))) (\<lambda>_.
     bindR (wrapR (Errorf ''failed to get module params'') (the_or ErrNotFound (rws_Params st))) (\<lambda>params.
     bindR (check (TokenDenom params \<noteq> coin_Denom (TotalAmount schedule)) ''denom does not match'') (\<lambda>_.
     bindR (validateReleased (rwk_checks k) schedule) (\<lambda>_.
     bindR (validateTimes now schedule) (\<lambda>_.
     if Active schedule
     then bindR (check (coin_Amount (TotalAmount schedule) = 0) ''active schedule cannot have zero total amount'') (\<lambda>_.
       check (EndTime schedule = 0) ''active schedule must have an end time'')
     else Inr ())))))"

definition rw_UpdateParams ::
  "('b, 'p) rw_Keeper \<Rightarrow> string \<Rightarrow> rw_Params \<Rightarrow> ('b, 'p) rw_state \<Rightarrow> ('b, 'p) rw_state res" where
  "rw_UpdateParams k authority params st =
     bindR (validateAuthority k authority) (\<lambda>_.
     bindR (rw_Params_ValidateBasic params) (\<lambda>_.
     Inr (st\<lparr>rws_Params := Some params\<rparr>)))"

definition FundPool ::
  "('b, 'p) rw_Keeper \<Rightarrow> string \<Rightarrow> coin \<Rightarrow> ('b, 'p) rw_state \<Rightarrow> ('b, 'p) rw_state res" where
  "FundPool k sender amount st =
     bindR (wrapR ErrInvalidAddress (AccAddressFromBech32 (sc_codec (rwk_checks k)) sender)) (\<lambda>depositor.
     bindR (validateAmount (rwk_checks k) amount) (\<lambda>_.
     bindR (the_or ErrNotFound (rws_Params st)) (\<lambda>params.
     if TokenDenom params \<noteq> coin_Denom amount then Inl (Errorf ''denom does not match expected denom'')
     else FundCommunityPool k amount depositor st)))"

definition ChangeSchedule ::
  "('b, 'p) rw_Keeper \<Rightarrow> int \<Rightarrow> string \<Rightarrow> ReleaseSchedule \<Rightarrow> ('b, 'p) rw_state \<Rightarrow> ('b, 'p) rw_state res" where
  "ChangeSchedule k now authority schedule st =
     bindR (validateAuthority k authority) (\<lambda>_.
     bindR (wrapR (Errorf ''invalid schedule'') (validateSchedule k now schedule st)) (\<lambda>_.
     bindR (wrapR (Errorf ''insufficient funds'') (fundsAvailable k (TotalAmount schedule) st)) (\<lambda>_.
     Inr (st\<lparr>rws_ReleaseSchedule := Some schedule\<rparr>))))"

section \<open>Genesis\<close>

definition rw_InitGenesis :: "'p rw_GenesisState \<Rightarrow> ('b, 'p) rw_state \<Rightarrow> ('b, 'p) rw_state" where
  "rw_InitGenesis data st =
     st\<lparr>rws_RewardPool := Some (rwg_RewardPool data), rws_Params := Some (rwg_Params data),
        rws_ReleaseSchedule := Some (rwg_ReleaseSchedule data)\<rparr>"

definition rw_ExportGenesis :: "('b, 'p) rw_state \<Rightarrow> 'p rw_GenesisState res" where
  "rw_ExportGenesis st =
     wrapR (Panic ''rewards genesis'')
       (bindR (the_or ErrNotFound (rws_RewardPool st)) (\<lambda>rewardPool.
        bindR (the_or ErrNotFound (rws_Params st)) (\<lambda>params.
        bindR (the_or ErrNotFound (rws_ReleaseSchedule st)) (\<lambda>releaseSchedule.
        Inr (rw_NewGenesisState params rewardPool releaseSchedule)))))"

datatype rw_op =
    RwBlock ctx | RwUpdateParams string rw_Params | RwFundPool string coin
  | RwChangeSchedule int string ReleaseSchedule

fun rw_exec :: "('b, 'p) rw_Keeper \<Rightarrow> rw_op \<Rightarrow> ('b, 'p) rw_state \<Rightarrow> ('b, 'p) rw_state res" where
  "rw_exec k (RwBlock c) st = rw_BeginBlocker k c st"
| "rw_exec k (RwUpdateParams a p) st = rw_UpdateParams k a p st"
| "rw_exec k (RwFundPool s a) st = FundPool k s a st"
| "rw_exec k (RwChangeSchedule now a s) st = ChangeSchedule k now a s st"

end
