(* ===== verification/RewardsTime.thy ===== *)
theory RewardsTime
  imports Rewards
begin

text \<open>
  Bounds for the seconds of a duration, which the rewards compute with floats: a float is at most
  the power of two that bounds the fraction it was rounded from.
\<close>

section \<open>Durations\<close>

text \<open>A float made of a fraction of at most \<open>2 ^ k\<close> is at most \<open>2 ^ k\<close>.\<close>

lemma scale2_le:
  assumes "0 \<le> p" "0 < q" "p \<le> 2 ^ k * q" and "e \<le> int k"
  shows "fst (scale2 p (- e)) \<le> 2 ^ nat (int k - e) * (snd (scale2 p (- e)) * q)"
proof (cases "e \<le> 0")
  case True
  have "p * 2 ^ nat (- e) \<le> 2 ^ k * q * 2 ^ nat (- e)"
    using assms(3) by simp
  also have "\<dots> = 2 ^ nat (int k - e) * q"
    using True by (simp add: power_add [symmetric] nat_add_distrib [symmetric] ac_simps flip: nat_int_add)
  finally show ?thesis using True by (simp add: scale2_def)
next
  case False
  have "(2::int) ^ k = 2 ^ nat (int k - e) * 2 ^ nat e"
    using False assms(4) by (simp add: power_add [symmetric] nat_add_distrib [symmetric])
  then show ?thesis using False assms(3) by (simp add: scale2_def ac_simps)
qed


lemma rounded_le:
  assumes "0 \<le> p" "0 < q" "p \<le> 2 ^ k * q" and "e \<le> int k"
  shows "round_half_even (fst (scale2 p (- e))) (snd (scale2 p (- e)) * q) \<le> 2 ^ nat (int k - e)"
proof -
  let ?b = "snd (scale2 p (- e)) * q"
  have b: "0 < ?b" using assms(2) scale2_pos by simp
  have "round_half_even (fst (scale2 p (- e))) ?b \<le> round_half_even (?b * 2 ^ nat (int k - e)) ?b"
    using scale2_le [OF assms] by (intro round_half_even_mono [OF b]) (simp add: ac_simps)
  then show ?thesis
    using b by simp
qed

lemma f64_of_frac_le:
  assumes "0 \<le> p" "0 < q" "p \<le> 2 ^ k * q"
  shows "fst (f64_frac (f64_of_frac p q)) \<le> 2 ^ k * snd (f64_frac (f64_of_frac p q))"
proof (cases "p = 0")
  case False
  define e0 where "e0 = bitlen p - bitlen q - 53"
  obtain e where e: "e = e0 \<or> e = e0 + 1" and f: "f64_of_frac p q =
      (round_half_even (fst (scale2 p (- e))) (snd (scale2 p (- e)) * q), e)"
    using False by (auto simp: f64_of_frac_def Let_def e0_def case_prod_beta split: if_splits)
  have "q < 2 ^ nat (bitlen q)"
    using bitlen_bounds [of q] assms(2) by simp
  then have "2 ^ k * q < 2 ^ nat (int k + bitlen q)"
    by (simp add: nat_add_distrib bitlen_nonneg power_add)
  then have "bitlen p \<le> int k + bitlen q"
    using assms by (intro bitlen_le_iff_power [THEN iffD2]) (auto simp: bitlen_nonneg)
  then have ek: "e \<le> int k"
    using e by (auto simp: e0_def)
  have r: "round_half_even (fst (scale2 p (- e))) (snd (scale2 p (- e)) * q) \<le> 2 ^ nat (int k - e)"
    by (rule rounded_le [OF assms ek])
  show ?thesis
  proof (cases "0 \<le> e")
    case True
    then have "(2 :: int) ^ k = 2 ^ nat (int k - e) * 2 ^ nat e"
      using ek by (simp add: power_add [symmetric] nat_add_distrib [symmetric])
    then show ?thesis using r True by (simp add: f f64_frac_def scale2_def)
  next
    case False
    then have "(2 :: int) ^ nat (int k - e) = 2 ^ k * 2 ^ nat (- e)"
      by (simp add: power_add [symmetric] nat_add_distrib [symmetric])
    then show ?thesis using r False by (simp add: f f64_frac_def scale2_def)
  qed
qed (simp add: f64_of_frac_def f64_frac_def scale2_def)

lemma f64_frac_pos: "0 < snd (f64_frac x)"
  by (simp add: f64_frac_def scale2_pos)

lemma f64_frac_nonneg: "0 \<le> fst x \<Longrightarrow> 0 \<le> fst (f64_frac x)"
  by (simp add: f64_frac_def scale2_nonneg)

text \<open>The seconds of a \<open>time.Duration\<close> are below \<open>2 ^ 36\<close>.\<close>

lemma dur_Seconds_le:
  assumes "0 \<le> d" "d \<le> 2 ^ 63"
  shows "0 \<le> f64_trunc (dur_Seconds d)" "f64_trunc (dur_Seconds d) \<le> 2 ^ 36"
proof -
  let ?s = "f64_frac (f64_of_frac (d div 10 ^ 9) 1)"
  let ?n = "f64_frac (f64_of_frac (d mod 10 ^ 9) 1)" and ?g = "f64_frac (f64_of_frac (10 ^ 9) 1)"
  let ?q = "f64_frac (f64_of_frac (fst ?n * snd ?g) (snd ?n * fst ?g))"
  have d: "d div 10 ^ 9 \<le> 2 ^ 35 * 1" "0 \<le> d div 10 ^ 9" "d mod 10 ^ 9 \<le> 2 ^ 30 * 1" "0 \<le> d mod 10 ^ 9"
    using assms by auto
  have s: "0 \<le> fst ?s" "0 < snd ?s" "fst ?s \<le> 2 ^ 35 * snd ?s"
    by (intro f64_frac_nonneg f64_of_frac_nonneg f64_frac_pos d zero_less_one
        f64_of_frac_le [OF d(2) zero_less_one d(1)])+
  have g: "0 < snd ?g" "snd ?g \<le> fst ?g"
    by code_simp+
  have n: "0 \<le> fst ?n" "0 < snd ?n" "fst ?n \<le> 2 ^ 30 * snd ?n"
    by (intro f64_frac_nonneg f64_of_frac_nonneg f64_frac_pos d zero_less_one
        f64_of_frac_le [OF d(4) zero_less_one d(3)])+
  have q: "0 \<le> fst ?q" "0 < snd ?q" "fst ?q \<le> 2 ^ 30 * snd ?q"
  proof -
    have "fst ?n * snd ?g \<le> 2 ^ 30 * snd ?n * fst ?g"
      using n g by (intro mult_mono) auto
    then have le: "fst ?n * snd ?g \<le> 2 ^ 30 * (snd ?n * fst ?g)"
      by (simp add: mult.assoc)
    have pos: "0 \<le> fst ?n * snd ?g" "0 < snd ?n * fst ?g"
      using n g by auto
    show "0 \<le> fst ?q" "0 < snd ?q" "fst ?q \<le> 2 ^ 30 * snd ?q"
      by (intro f64_frac_nonneg f64_of_frac_nonneg f64_frac_pos pos f64_of_frac_le [OF pos le])+
  qed
  have eq: "dur_Seconds d = f64_of_frac (fst ?s * snd ?q + fst ?q * snd ?s) (snd ?s * snd ?q)"
    by (simp add: dur_Seconds_def f64_add_def f64_div_def case_prod_beta)
  have "fst ?s * snd ?q + fst ?q * snd ?s \<le> 2 ^ 35 * snd ?s * snd ?q + 2 ^ 30 * snd ?q * snd ?s"
    using s q by (intro add_mono mult_right_mono) auto
  also have "\<dots> \<le> 2 ^ 36 * (snd ?s * snd ?q)"
    using s(2) q(2) by simp
  finally have le: "fst ?s * snd ?q + fst ?q * snd ?s \<le> 2 ^ 36 * (snd ?s * snd ?q)" .
  have pos: "0 \<le> fst ?s * snd ?q + fst ?q * snd ?s" "0 < snd ?s * snd ?q"
    using s q by auto
  show "0 \<le> f64_trunc (dur_Seconds d)"
    unfolding eq by (rule f64_trunc_nonneg [OF f64_of_frac_nonneg [OF pos]])
  have "fst (f64_frac (dur_Seconds d)) \<le> 2 ^ 36 * snd (f64_frac (dur_Seconds d))"
    unfolding eq by (rule f64_of_frac_le [OF pos le])
  then have "fst (f64_frac (dur_Seconds d)) div snd (f64_frac (dur_Seconds d)) \<le> 2 ^ 36"
    using f64_frac_pos [of "dur_Seconds d"]
    by (metis linorder_not_less nonzero_mult_div_cancel_right order_less_irrefl zdiv_mono1)
  then show "f64_trunc (dur_Seconds d) \<le> 2 ^ 36"
    by (simp add: f64_trunc_def case_prod_beta)
qed

lemma whole_seconds_time_Sub: "\<bar>whole_seconds (time_Sub t u)\<bar> \<le> 2 ^ 36"
proof -
  have "0 \<le> \<bar>time_Sub t u\<bar>" "\<bar>time_Sub t u\<bar> \<le> 2 ^ 63"
    by (auto simp: time_Sub_def)
  from dur_Seconds_le [OF this] show ?thesis
    by (cases "time_Sub t u = 0") (simp_all add: whole_seconds_def abs_mult)
qed

end
