(* ===== verification/RewardsProps.thy ===== *)
theory RewardsProps
  imports RewardsTime
begin

text \<open>
  The reward of a block, the invariant that the pool covers what the schedule still has to pay,
  the begin blocker as a payment that creates nothing, and the release schedules that stop the
  chain.
\<close>

section \<open>What the rewards rely on\<close>

text \<open>Decimals as before (theory Sdk), with the division and truncation the rewards use.\<close>

locale release_dec = decimals D for D +
  assumes ofint: "dec_OfInt D i = Inr (i * dec_unit)"
    and quo_total: "b \<noteq> 0 \<Longrightarrow> \<bar>a * dec_unit * dec_unit\<bar> < 2 ^ 315 \<Longrightarrow> \<exists>c. dec_Quo D a b = Inr c"
    and quo_near: "dec_Quo D a b = Inr c \<Longrightarrow> 0 \<le> a \<Longrightarrow> 0 < b \<Longrightarrow> \<bar>c * b - a * dec_unit\<bar> \<le> b"
    and quo_nonneg: "dec_Quo D a b = Inr c \<Longrightarrow> 0 \<le> a \<Longrightarrow> 0 < b \<Longrightarrow> 0 \<le> c"
    and quo_ge_one: "dec_Quo D a b = Inr c \<Longrightarrow> 0 < b \<Longrightarrow> b \<le> a \<Longrightarrow> dec_unit \<le> c"
    and quo_small: "dec_Quo D a b = Inr c \<Longrightarrow> dec_unit \<le> \<bar>b\<bar> \<Longrightarrow> \<bar>c\<bar> \<le> \<bar>a\<bar>"
    and trunc: "\<bar>x\<bar> < 2 ^ 255 \<Longrightarrow> dec_TruncateInt D x = Inr (tdiv x dec_unit)"
begin

lemma mul_whole: "dec_Mul D (r * dec_unit) c = Inr x \<Longrightarrow> x = r * c"
proof -
  assume "dec_Mul D (r * dec_unit) c = Inr x"
  from mul_nearest [OF this] have "2 * \<bar>dec_unit * (x - r * c)\<bar> \<le> dec_unit"
    by (simp add: algebra_simps)
  then have "dec_unit * (2 * \<bar>x - r * c\<bar>) \<le> dec_unit * 1"
    by (simp add: abs_mult dec_unit_def)
  then have "2 * \<bar>x - r * c\<bar> \<le> 1"
    by (simp add: dec_unit_def)
  then show "x = r * c" by arith
qed

end

lemma round_half_even_abs:
  assumes "0 < b" and "\<bar>a\<bar> \<le> b * n"
  shows "\<bar>round_half_even a b\<bar> \<le> n"
proof -
  have n: "a \<le> b * n" "b * - n \<le> a"
    using assms(2) by auto
  show ?thesis
    using round_half_even_mono [OF assms(1) n(1)] round_half_even_mono [OF assms(1) n(2)]
    unfolding round_half_even_exact [OF assms(1)] by arith
qed

lemma tdiv_abs: "b \<noteq> 0 \<Longrightarrow> \<bar>tdiv a b\<bar> \<le> \<bar>a\<bar> div \<bar>b\<bar>"
proof -
  assume b: "b \<noteq> 0"
  have "\<bar>\<bar>a\<bar> div \<bar>b\<bar>\<bar> = \<bar>a\<bar> div \<bar>b\<bar>"
    using b by (intro abs_of_nonneg) (simp add: pos_imp_zdiv_nonneg_iff)
  then show ?thesis
    unfolding tdiv_def abs_mult by (cases "a = 0") (simp_all add: b)
qed

lemma tdiv_abs_le: "b \<noteq> 0 \<Longrightarrow> \<bar>tdiv a b\<bar> \<le> \<bar>a\<bar>"
  using tdiv_abs [of b a] zdiv_mono2 [of "\<bar>a\<bar>" 1 "\<bar>b\<bar>"] zero_less_abs_iff [of b] by fastforce

lemma near_sum:
  fixes x y t r b m :: int
  shows "2 * \<bar>x - t\<bar> \<le> m \<Longrightarrow> t + r = y \<Longrightarrow> 0 \<le> r \<Longrightarrow> r < b \<Longrightarrow> 2 * b \<le> m \<Longrightarrow> \<bar>x - y\<bar> \<le> m"
  by arith

interpretation legacy_release: release_dec legacy_dec
proof (intro release_dec.intro legacy.decimals_axioms release_dec_axioms.intro)
  have u: "0 < dec_unit" by (simp add: dec_unit_def)
  fix a b c :: int
  have q: "dec_Quo legacy_dec a b = Inr c \<longleftrightarrow>
      b \<noteq> 0 \<and> \<bar>c\<bar> < 2 ^ 315 \<and> c = round_half_even (tdiv (a * dec_unit * dec_unit) b) dec_unit"
    by (auto simp: legacy_dec_def dec_chk_Inr_iff split: if_splits)
  show "b \<noteq> 0 \<Longrightarrow> \<bar>a * dec_unit * dec_unit\<bar> < 2 ^ 315 \<Longrightarrow> \<exists>c. dec_Quo legacy_dec a b = Inr c"
    using round_half_even_small [of "tdiv (a * dec_unit * dec_unit) b"] tdiv_abs_le [of b "a * dec_unit * dec_unit"]
    by (auto simp: legacy_dec_def dec_chk_Inr_iff)
  assume c: "dec_Quo legacy_dec a b = Inr c"
  show "0 \<le> c" if "0 \<le> a" "0 < b"
    using c that u unfolding q by (auto intro!: round_half_even_nonneg simp: tdiv_nonneg pos_imp_zdiv_nonneg_iff)
  show "dec_unit \<le> c" if "0 < b" "b \<le> a"
  proof -
    have "b * (dec_unit * dec_unit) \<le> a * (dec_unit * dec_unit)"
      using that u by (intro mult_right_mono) auto
    then have "dec_unit * dec_unit \<le> a * dec_unit * dec_unit div b"
      using zdiv_mono1 [of "b * (dec_unit * dec_unit)" "a * (dec_unit * dec_unit)" b] that(1)
      by (simp add: mult.assoc)
    then have "round_half_even (dec_unit * dec_unit) dec_unit \<le>
        round_half_even (tdiv (a * dec_unit * dec_unit) b) dec_unit"
      using that u by (intro round_half_even_mono) (simp_all add: tdiv_nonneg)
    then show ?thesis
      using c u unfolding q by simp
  qed
  show "\<bar>c\<bar> \<le> \<bar>a\<bar>" if "dec_unit \<le> \<bar>b\<bar>"
  proof -
    have "\<bar>a * dec_unit * dec_unit\<bar> div \<bar>b\<bar> \<le> \<bar>a * dec_unit * dec_unit\<bar> div dec_unit"
      using that u by (intro zdiv_mono2) auto
    also have "\<dots> = dec_unit * \<bar>a\<bar>"
      using u by (simp add: abs_mult)
    finally have "\<bar>tdiv (a * dec_unit * dec_unit) b\<bar> \<le> dec_unit * \<bar>a\<bar>"
      using c tdiv_abs [of b "a * dec_unit * dec_unit"] unfolding q by linarith
    then show ?thesis
      using c round_half_even_abs [OF u] unfolding q by blast
  qed
  show "\<bar>c * b - a * dec_unit\<bar> \<le> b" if ab: "0 \<le> a" "0 < b"
  proof -
    let ?t = "a * dec_unit * dec_unit div b"
    have "2 * \<bar>dec_unit * c - ?t\<bar> \<le> dec_unit"
      using c ab u round_half_even_nearest [OF u] unfolding q by (simp add: tdiv_nonneg)
    then have "b * (2 * \<bar>dec_unit * c - ?t\<bar>) \<le> b * dec_unit"
      using ab(2) by simp
    also have "b * (2 * \<bar>dec_unit * c - ?t\<bar>) = 2 * \<bar>dec_unit * c * b - ?t * b\<bar>"
      using ab(2) by (simp only: left_diff_distrib [symmetric] abs_mult abs_of_pos) simp
    finally have d: "2 * \<bar>dec_unit * c * b - ?t * b\<bar> \<le> b * dec_unit" .
    have m: "?t * b + a * dec_unit * dec_unit mod b = a * dec_unit * dec_unit"
        "0 \<le> a * dec_unit * dec_unit mod b" "a * dec_unit * dec_unit mod b < b"
      using ab(2) by simp_all
    have "2 * b \<le> b * dec_unit"
      using ab(2) by (simp add: dec_unit_def)
    then have "\<bar>dec_unit * c * b - a * dec_unit * dec_unit\<bar> \<le> b * dec_unit"
      by (rule near_sum [OF d m])
    then have "dec_unit * \<bar>c * b - a * dec_unit\<bar> \<le> dec_unit * b"
      using u by (simp add: abs_mult_pos' algebra_simps)
    then show ?thesis using u by simp
  qed
qed (simp_all add: legacy_dec_def)

end
