(* ===== verification/RewardsCalc.thy ===== *)
theory RewardsCalc
  imports RewardsProps TokenBank
begin

text \<open>
  The reward of one block: every outcome of \<open>CalculateReward\<close>, with the bounds and the accuracy
  of the linear release.
\<close>

lemma unit_bound: "0 < dec_unit" "dec_unit \<le> 2 ^ 60"
  by (simp_all add: dec_unit_def)

lemma abs_mult_le: "\<bar>a\<bar> \<le> A \<Longrightarrow> \<bar>b\<bar> \<le> B \<Longrightarrow> \<bar>a * b\<bar> \<le> A * (B :: int)"
  by (simp add: abs_mult mult_mono')

text \<open>What the coin checks of the SDK promise.\<close>

locale coin_rules =
  fixes S :: sdk_checks
  assumes valid_nonneg: "sc_Coin_IsValid S c \<Longrightarrow> 0 \<le> coin_Amount c"
    and valid_amount: "sc_Coin_IsValid S c \<Longrightarrow> 0 \<le> a \<Longrightarrow> sc_Coin_IsValid S \<lparr>coin_Denom = coin_Denom c, coin_Amount = a\<rparr>"
    and valid_denom: "sc_Coin_IsValid S c \<Longrightarrow> sc_ValidateDenom S (coin_Denom c) = Inr ()"
begin

lemma NewCoin_valid:
  "sc_Coin_IsValid S c \<Longrightarrow> 0 \<le> a \<Longrightarrow>
   NewCoin S (coin_Denom c) a = Inr \<lparr>coin_Denom = coin_Denom c, coin_Amount = a\<rparr>"
  by (simp add: NewCoin_def valid_amount)

lemma NewCoins_valid:
  "sc_Coin_IsValid S c \<Longrightarrow> 0 < a \<Longrightarrow>
   NewCoins S \<lparr>coin_Denom = coin_Denom c, coin_Amount = a\<rparr> = Inr [\<lparr>coin_Denom = coin_Denom c, coin_Amount = a\<rparr>]"
  by (simp add: NewCoins_def valid_denom)

end

interpretation toy_coins: coin_rules toy_checks
  by unfold_locales (auto simp: toy_checks_def is_ok_iff)

context release_dec
begin

lemma release_steps:
  assumes "\<bar>r\<bar> \<le> 2 ^ 128" "\<bar>n\<bar> \<le> 2 ^ 36" "N \<noteq> 0"
  obtains c where "dec_Quo D (n * dec_unit) (N * dec_unit) = Inr c" "\<bar>c\<bar> \<le> \<bar>n * dec_unit\<bar>"
    "dec_Mul D (r * dec_unit) c = Inr (r * c)" "dec_TruncateInt D (r * c) = Inr (tdiv (r * c) dec_unit)"
proof -
  have u: "\<bar>dec_unit\<bar> \<le> 2 ^ 60" using unit_bound by simp
  have nu: "\<bar>n * dec_unit\<bar> \<le> 2 ^ 36 * 2 ^ 60"
    by (rule abs_mult_le [OF assms(2) u])
  have "\<bar>n * dec_unit * dec_unit * dec_unit\<bar> \<le> 2 ^ 36 * 2 ^ 60 * 2 ^ 60 * 2 ^ 60"
    by (intro abs_mult_le assms u)
  then have q: "\<bar>n * dec_unit * dec_unit * dec_unit\<bar> < 2 ^ 315"
    by simp
  obtain c where c: "dec_Quo D (n * dec_unit) (N * dec_unit) = Inr c"
    using quo_total [OF _ q, of "N * dec_unit"] assms(3) unit_bound by auto
  have "dec_unit \<le> \<bar>N * dec_unit\<bar>"
    using assms(3) unit_bound by (simp add: abs_mult)
  then have cn: "\<bar>c\<bar> \<le> \<bar>n * dec_unit\<bar>"
    by (rule quo_small [OF c])
  then have cb: "\<bar>c\<bar> \<le> 2 ^ 36 * 2 ^ 60"
    using nu by linarith
  have "\<bar>r * dec_unit * c\<bar> \<le> 2 ^ 128 * 2 ^ 60 * (2 ^ 36 * 2 ^ 60)"
    by (intro abs_mult_le assms u cb)
  then have "\<bar>r * dec_unit * c\<bar> < 2 ^ 315" by simp
  then obtain x where x: "dec_Mul D (r * dec_unit) c = Inr x"
    using mul_total by blast
  have "\<bar>r * c\<bar> \<le> 2 ^ 128 * (2 ^ 36 * 2 ^ 60)"
    by (intro abs_mult_le assms cb)
  then have "\<bar>r * c\<bar> < 2 ^ 255" by simp
  from trunc [OF this] show ?thesis
    using that [OF c cn] x mul_whole [OF x] by simp
qed

text \<open>The accuracy: the amount differs from the linear share by at most two coins and one part
  in \<open>10 ^ 18\<close> of what remains.\<close>

lemma release_accuracy:
  assumes c: "dec_Quo D (n * dec_unit) (N * dec_unit) = Inr c" and n: "0 \<le> n" "n \<le> N" "0 < N" and r: "0 < r"
  defines "a \<equiv> min (max (tdiv (r * c) dec_unit) 1) r"
  shows "dec_unit * \<bar>a * N - r * n\<bar> \<le> N * (r + 2 * dec_unit)"
proof -
  have u: "0 < dec_unit" by (rule unit_bound)
  have Nu: "0 < N * dec_unit" "0 \<le> n * dec_unit" using n u by auto
  have c0: "0 \<le> c" by (rule quo_nonneg [OF c Nu(2,1)])
  have "dec_unit * \<bar>c * N - n * dec_unit\<bar> \<le> dec_unit * N"
    using quo_near [OF c Nu(2,1)] u by (simp add: abs_mult_pos' algebra_simps)
  then have cN: "\<bar>c * N - n * dec_unit\<bar> \<le> N" using u by simp
  define y where "y = tdiv (r * c) dec_unit"
  have y: "y = r * c div dec_unit" "0 \<le> y"
    using r c0 u by (simp_all add: y_def tdiv_nonneg pos_imp_zdiv_nonneg_iff)
  have m: "y * dec_unit + r * c mod dec_unit = r * c" "0 \<le> r * c mod dec_unit" "r * c mod dec_unit < dec_unit"
    using u by (simp_all add: y(1))
  have rc: "\<bar>r * c * N - r * n * dec_unit\<bar> \<le> r * N"
  proof -
    have "\<bar>r * (c * N - n * dec_unit)\<bar> \<le> r * N"
      using cN r by (simp add: abs_mult)
    then show ?thesis by (simp add: algebra_simps)
  qed
  have yc: "\<bar>y * dec_unit * N - r * c * N\<bar> \<le> dec_unit * N"
  proof -
    have "\<bar>y * dec_unit - r * c\<bar> \<le> dec_unit" using m by linarith
    then have "\<bar>(y * dec_unit - r * c) * N\<bar> \<le> dec_unit * N"
      using n(3) by (simp add: abs_mult)
    then show ?thesis by (simp only: left_diff_distrib)
  qed
  have "\<bar>dec_unit * (y * N - r * n)\<bar> \<le> r * N + dec_unit * N"
    using rc yc by (simp add: algebra_simps)
  then have dy: "dec_unit * \<bar>y * N - r * n\<bar> \<le> r * N + dec_unit * N"
    using u by (simp add: abs_mult)
  have rn: "r * n \<le> r * N" using n r by simp
  have "\<bar>a * N - r * n\<bar> \<le> \<bar>y * N - r * n\<bar> + N"
  proof (cases "1 \<le> y")
    case True
    then have a: "a = min y r" by (simp add: a_def y_def)
    show ?thesis
    proof (cases "y \<le> r")
      case False
      then have ar: "a = r" and "r * N \<le> y * N" using n(3) a by simp_all
      then show ?thesis using rn n(3) unfolding ar by linarith
    qed (use a n(3) in simp)
  next
    case False
    then have "y = 0" "a = 1" using y(2) r by (simp_all add: a_def y_def [symmetric])
    then show ?thesis using n(3) by simp
  qed
  then have "dec_unit * \<bar>a * N - r * n\<bar> \<le> dec_unit * \<bar>y * N - r * n\<bar> + dec_unit * N"
    using u by (metis distrib_left mult_left_mono order_less_imp_le)
  then show ?thesis
    using dy by (simp add: algebra_simps)
qed

lemma release_all:
  assumes c: "dec_Quo D (n * dec_unit) (N * dec_unit) = Inr c" and n: "N \<le> n" "0 < N" and r: "0 < r"
  shows "min (max (tdiv (r * c) dec_unit) 1) r = r"
proof -
  have u: "0 < dec_unit" by (rule unit_bound)
  have "dec_unit \<le> c"
    by (rule quo_ge_one [OF c]) (use n u in auto)
  then have "r * dec_unit \<le> r * c" using r by simp
  then have "r \<le> r * c div dec_unit"
    using u zdiv_mono1 [of "r * dec_unit" "r * c" dec_unit] by simp
  then show ?thesis
    using r u \<open>dec_unit \<le> c\<close> by (simp add: tdiv_nonneg)
qed

end


section \<open>The reward of a block\<close>

definition unreleased :: "ReleaseSchedule \<Rightarrow> int" where
  "unreleased s = coin_Amount (TotalAmount s) - coin_Amount (ReleasedAmount s)"

definition elapsed_secs :: "int \<Rightarrow> ReleaseSchedule \<Rightarrow> int" where
  "elapsed_secs t s = whole_seconds (time_Sub t (LastReleaseTime s))"

definition period_secs :: "ReleaseSchedule \<Rightarrow> int" where
  "period_secs s = whole_seconds (time_Sub (EndTime s) (LastReleaseTime s))"

definition sched_ok :: "sdk_checks \<Rightarrow> ReleaseSchedule \<Rightarrow> bool" where
  "sched_ok S s \<longleftrightarrow> sc_Coin_IsValid S (TotalAmount s) \<and>
     coin_Denom (ReleasedAmount s) = coin_Denom (TotalAmount s) \<and>
     0 \<le> coin_Amount (ReleasedAmount s) \<and> 0 \<le> unreleased s"

lemma remaining:
  "sched_ok S s \<Longrightarrow> coin_Sub (TotalAmount s) (ReleasedAmount s) =
     Inr \<lparr>coin_Denom = coin_Denom (TotalAmount s), coin_Amount = unreleased s\<rparr>"
  by (cases "TotalAmount s") (auto simp: sched_ok_def coin_Sub_def unreleased_def)

text \<open>The four cases of \<open>CalculateReward\<close>.\<close>

lemma reward_none:
  "sched_ok S s \<Longrightarrow> unreleased s = 0 \<Longrightarrow>
   CalculateReward S D t s = Inr \<lparr>coin_Denom = coin_Denom (TotalAmount s), coin_Amount = 0\<rparr>"
  by (simp add: CalculateReward_def remaining)

lemma reward_no_time:
  "sched_ok S s \<Longrightarrow> unreleased s \<noteq> 0 \<Longrightarrow> EndTime s = LastReleaseTime s \<Longrightarrow>
   CalculateReward S D t s = Inl (Errorf ''end time is equal to last release and would do a division by 0'')"
  by (simp add: CalculateReward_def remaining)

lemma reward_panics:
  assumes "release_dec D" "sched_ok S s" "unreleased s \<noteq> 0" "EndTime s \<noteq> LastReleaseTime s" "period_secs s = 0"
  shows "\<exists>m. CalculateReward S D t s = Inl (Panic m)"
proof -
  have d: "decimals D" by (rule release_dec.axioms [OF assms(1)])
  obtain m where "dec_Quo D (elapsed_secs t s * dec_unit) 0 = Inl (Panic m)"
    using decimals.quo_zero [OF d] by blast
  then show ?thesis
    using assms(2-5) release_dec.ofint [OF assms(1)]
    by (auto simp: CalculateReward_def remaining elapsed_secs_def period_secs_def Let_def)
qed

lemma reward_amount:
  assumes "release_dec D" "coin_rules S" "sched_ok S s" "0 < unreleased s" "unreleased s \<le> 2 ^ 128"
    and "EndTime s \<noteq> LastReleaseTime s" "period_secs s \<noteq> 0"
  obtains c where
    "dec_Quo D (elapsed_secs t s * dec_unit) (period_secs s * dec_unit) = Inr c"
    "CalculateReward S D t s = Inr \<lparr>coin_Denom = coin_Denom (TotalAmount s),
       coin_Amount = min (max (tdiv (unreleased s * c) dec_unit) 1) (unreleased s)\<rparr>"
proof -
  have "\<bar>unreleased s\<bar> \<le> 2 ^ 128" using assms(4,5) by simp
  moreover have "\<bar>elapsed_secs t s\<bar> \<le> 2 ^ 36"
    unfolding elapsed_secs_def by (rule whole_seconds_time_Sub)
  ultimately obtain c where c:
    "dec_Quo D (elapsed_secs t s * dec_unit) (period_secs s * dec_unit) = Inr c"
    "dec_Mul D (unreleased s * dec_unit) c = Inr (unreleased s * c)"
    "dec_TruncateInt D (unreleased s * c) = Inr (tdiv (unreleased s * c) dec_unit)"
    by (rule release_dec.release_steps [OF assms(1) _ _ assms(7)])
  have v: "sc_Coin_IsValid S (TotalAmount s)"
    using assms(3) by (simp add: sched_ok_def)
  have "0 \<le> min (max (tdiv (unreleased s * c) dec_unit) 1) (unreleased s)"
    using assms(4) by simp
  then have "CalculateReward S D t s = Inr \<lparr>coin_Denom = coin_Denom (TotalAmount s),
       coin_Amount = min (max (tdiv (unreleased s * c) dec_unit) 1) (unreleased s)\<rparr>"
    using c assms(4,6) release_dec.ofint [OF assms(1)] coin_rules.NewCoin_valid [OF assms(2) v]
    by (simp add: CalculateReward_def remaining [OF assms(3)] elapsed_secs_def period_secs_def Let_def)
  with c(1) show ?thesis by (rule that)
qed

text \<open>C11: The reward of a block of a sound schedule is zero when nothing remains; an error when the
  schedule ends at its last release; a panic, a division by zero, when less than a whole second
  is left; and otherwise at least one coin and at most what remains: all that remains once the
  time elapsed reaches the period left, and before that the linear share up to two coins and one
  part in \<open>10 ^ 18\<close>.\<close>

theorem CalculateReward_correct:
  assumes "release_dec D" "coin_rules S" "sched_ok S s" "unreleased s \<le> 2 ^ 128"
  shows "(unreleased s = 0 \<longrightarrow>
      CalculateReward S D t s = Inr \<lparr>coin_Denom = coin_Denom (TotalAmount s), coin_Amount = 0\<rparr>) \<and>
    (0 < unreleased s \<and> EndTime s = LastReleaseTime s \<longrightarrow> (\<exists>m. CalculateReward S D t s = Inl (Errorf m))) \<and>
    (0 < unreleased s \<and> EndTime s \<noteq> LastReleaseTime s \<and> period_secs s = 0 \<longrightarrow>
      (\<exists>m. CalculateReward S D t s = Inl (Panic m))) \<and>
    (0 < unreleased s \<and> EndTime s \<noteq> LastReleaseTime s \<and> period_secs s \<noteq> 0 \<longrightarrow>
      (\<exists>a. CalculateReward S D t s = Inr \<lparr>coin_Denom = coin_Denom (TotalAmount s), coin_Amount = a\<rparr> \<and>
         1 \<le> a \<and> a \<le> unreleased s \<and>
         (0 < period_secs s \<and> period_secs s \<le> elapsed_secs t s \<longrightarrow> a = unreleased s) \<and>
         (0 \<le> elapsed_secs t s \<and> elapsed_secs t s \<le> period_secs s \<longrightarrow>
            dec_unit * \<bar>a * period_secs s - unreleased s * elapsed_secs t s\<bar>
              \<le> period_secs s * (unreleased s + 2 * dec_unit))))"
proof (intro conjI impI; (elim conjE)?)
  assume r: "0 < unreleased s" and e: "EndTime s \<noteq> LastReleaseTime s" "period_secs s \<noteq> 0"
  obtain c where c: "dec_Quo D (elapsed_secs t s * dec_unit) (period_secs s * dec_unit) = Inr c"
    "CalculateReward S D t s = Inr \<lparr>coin_Denom = coin_Denom (TotalAmount s),
       coin_Amount = min (max (tdiv (unreleased s * c) dec_unit) 1) (unreleased s)\<rparr>"
    by (rule reward_amount [OF assms(1-3) r assms(4) e])
  show "\<exists>a. CalculateReward S D t s = Inr \<lparr>coin_Denom = coin_Denom (TotalAmount s), coin_Amount = a\<rparr> \<and>
         1 \<le> a \<and> a \<le> unreleased s \<and>
         (0 < period_secs s \<and> period_secs s \<le> elapsed_secs t s \<longrightarrow> a = unreleased s) \<and>
         (0 \<le> elapsed_secs t s \<and> elapsed_secs t s \<le> period_secs s \<longrightarrow>
            dec_unit * \<bar>a * period_secs s - unreleased s * elapsed_secs t s\<bar>
              \<le> period_secs s * (unreleased s + 2 * dec_unit))"
    using c(2) r release_dec.release_all [OF assms(1) c(1) _ _ r]
      release_dec.release_accuracy [OF assms(1) c(1) _ _ _ r] e(2)
    by (intro exI [of _ "min (max (tdiv (unreleased s * c) dec_unit) 1) (unreleased s)"]) fastforce
qed (use assms(1,3) reward_none reward_no_time reward_panics in auto)

text \<open>An example: 100 coins over 1000 seconds, 30 released, last release at second 300.\<close>

definition toy_schedule :: "int \<Rightarrow> ReleaseSchedule" where
  "toy_schedule end_time =
     \<lparr>TotalAmount = \<lparr>coin_Denom = ''akii'', coin_Amount = 100\<rparr>,
      ReleasedAmount = \<lparr>coin_Denom = ''akii'', coin_Amount = 30\<rparr>,
      EndTime = end_time, LastReleaseTime = 300 * 10 ^ 9, Active = True\<rparr>"

theorem CalculateReward_correct_witness:
  "(\<exists>m. CalculateReward toy_checks legacy_dec (303 * 10 ^ 9) (toy_schedule (300 * 10 ^ 9 + 700000000)) = Inl (Panic m)) \<and>
   (\<exists>a. CalculateReward toy_checks legacy_dec (1001 * 10 ^ 9) (toy_schedule (1000 * 10 ^ 9)) =
      Inr \<lparr>coin_Denom = ''akii'', coin_Amount = a\<rparr> \<and> a = 70)"
proof
  have ok: "sched_ok toy_checks (toy_schedule t)" "unreleased (toy_schedule t) = 70" for t
    by (simp_all add: sched_ok_def unreleased_def toy_schedule_def toy_checks_def)
      (code_simp)
  have p: "period_secs (toy_schedule (300 * 10 ^ 9 + 700000000)) = 0"
    "period_secs (toy_schedule (1000 * 10 ^ 9)) = 700"
    "elapsed_secs (1001 * 10 ^ 9) (toy_schedule (1000 * 10 ^ 9)) = 701"
    by code_simp+
  have e: "EndTime (toy_schedule t) = t" "LastReleaseTime (toy_schedule t) = 300 * 10 ^ 9"
    "coin_Denom (TotalAmount (toy_schedule t)) = ''akii''" for t
    by (simp_all add: toy_schedule_def)
  note c = CalculateReward_correct [OF legacy_release.release_dec_axioms toy_coins.coin_rules_axioms ok(1)]
  show "\<exists>m. CalculateReward toy_checks legacy_dec (303 * 10 ^ 9) (toy_schedule (300 * 10 ^ 9 + 700000000)) = Inl (Panic m)"
    using c [of "300 * 10 ^ 9 + 700000000" "303 * 10 ^ 9"] ok(2) p(1) e by simp
  show "\<exists>a. CalculateReward toy_checks legacy_dec (1001 * 10 ^ 9) (toy_schedule (1000 * 10 ^ 9)) =
      Inr \<lparr>coin_Denom = ''akii'', coin_Amount = a\<rparr> \<and> a = 70"
    using c [of "1000 * 10 ^ 9" "1001 * 10 ^ 9"] ok(2) p(2,3) e by simp
qed

end
