(* ===== verification/RewardsInv.thy ===== *)
theory RewardsInv
  imports RewardsCalc
begin

text \<open>
  The rewards module as a state machine: the pool always covers what an active schedule still has
  to pay, so the begin blocker fails only for the reasons listed here; what a block pays; the end
  of a release; and the dependence of a schedule change on the local clock.
\<close>

section \<open>The environment\<close>

text \<open>\<open>sdk.DecCoins\<close>: sums and differences per denom; \<open>Sub\<close> panics when an amount would be
  negative, and only then.\<close>

locale dec_coins =
  fixes P :: "'p dec_coins_ops"
  assumes empty: "dc_AmountOf P (dc_empty P) d = 0"
    and add: "dc_Add P p cs = Inr p' \<Longrightarrow> dc_AmountOf P p' d = dc_AmountOf P p d + amount_of cs d * dec_unit"
    and sub: "dc_Sub P p cs = Inr p' \<Longrightarrow> dc_AmountOf P p' d = dc_AmountOf P p d - amount_of cs d * dec_unit"
    and sub_nonneg: "dc_Sub P p cs = Inr p' \<Longrightarrow> 0 \<le> dc_AmountOf P p' d"
    and sub_total: "(\<And>d. amount_of cs d * dec_unit \<le> dc_AmountOf P p d) \<Longrightarrow> \<exists>p'. dc_Sub P p cs = Inr p'"
    and negative: "dc_IsAnyNegative P p \<longleftrightarrow> (\<exists>d. dc_AmountOf P p d < 0)"

text \<open>An instance: one entry per denom.\<close>

definition toy_AmountOf :: "(string, int) kv \<Rightarrow> string \<Rightarrow> int" where
  "toy_AmountOf p d = (case kv_get p d of None \<Rightarrow> 0 | Some x \<Rightarrow> x)"

definition toy_change :: "int \<Rightarrow> coins \<Rightarrow> (string, int) kv \<Rightarrow> (string, int) kv" where
  "toy_change sg cs p =
     fold (\<lambda>c p. kv_set (coin_Denom c) (toy_AmountOf p (coin_Denom c) + sg * coin_Amount c * dec_unit) p) cs p"

definition toy_negative :: "(string, int) kv \<Rightarrow> bool" where
  "toy_negative p = list_ex (\<lambda>d. toy_AmountOf p d < 0) (kv_keys p)"

definition toy_dec_coins :: "(string, int) kv dec_coins_ops" where
  "toy_dec_coins =
     \<lparr>dc_empty = [], dc_AmountOf = toy_AmountOf, dc_Add = (\<lambda>p cs. Inr (toy_change 1 cs p)),
      dc_Sub = (\<lambda>p cs. let p' = toy_change (- 1) cs p
                in if toy_negative p' then Inl (Panic ''negative coin amount'') else Inr p'),
      dc_IsAnyNegative = toy_negative\<rparr>"

lemma toy_change_amount:
  "toy_AmountOf (toy_change sg cs p) d = toy_AmountOf p d + sg * amount_of cs d * dec_unit"
  by (induction cs arbitrary: p)
    (auto simp: toy_change_def toy_AmountOf_def amount_of_def algebra_simps)

lemma toy_negative_iff: "toy_negative p \<longleftrightarrow> (\<exists>d. toy_AmountOf p d < 0)"
proof -
  have "d \<in> set (kv_keys p)" if "toy_AmountOf p d < 0" for d
    using that map_of_SomeD by (force simp: toy_AmountOf_def split: option.splits)
  then show ?thesis
    by (auto simp: toy_negative_def list_ex_iff)
qed

interpretation toy_pool: dec_coins toy_dec_coins
proof unfold_locales
  fix p cs d p'
  show "(\<And>d. amount_of cs d * dec_unit \<le> dc_AmountOf toy_dec_coins p d) \<Longrightarrow> \<exists>p'. dc_Sub toy_dec_coins p cs = Inr p'"
    by (fastforce simp: toy_dec_coins_def toy_negative_iff toy_change_amount Let_def not_less)
  show "dc_Sub toy_dec_coins p cs = Inr p' \<Longrightarrow> 0 \<le> dc_AmountOf toy_dec_coins p' d"
    by (fastforce simp: toy_dec_coins_def toy_negative_iff Let_def not_less split: if_splits)
qed (auto simp: toy_dec_coins_def toy_AmountOf_def toy_change_amount [unfolded toy_AmountOf_def]
    toy_negative_iff [unfolded toy_AmountOf_def] Let_def split: if_splits)

locale rewards_env =
  fixes k :: "('b, 'p) rw_Keeper"
  assumes dec: "release_dec (rwk_dec k)" and coins: "coin_rules (rwk_checks k)"
    and bank_laws: "bank (rwk_bank k)" and pools: "dec_coins (rwk_pool k)"

section \<open>The invariant\<close>

definition sched_covered :: "('b, 'p) rw_Keeper \<Rightarrow> 'p \<Rightarrow> ReleaseSchedule \<Rightarrow> bool" where
  "sched_covered k pool s \<longleftrightarrow> sched_ok (rwk_checks k) s \<and>
     unreleased s * dec_unit \<le> dc_AmountOf (rwk_pool k) pool (coin_Denom (TotalAmount s))"

definition rw_inv :: "('b, 'p) rw_Keeper \<Rightarrow> ('b, 'p) rw_state \<Rightarrow> bool" where
  "rw_inv k st \<longleftrightarrow>
     (\<exists>params pool s. rws_Params st = Some params \<and> rws_RewardPool st = Some pool \<and> rws_ReleaseSchedule st = Some s \<and>
        (\<forall>d. 0 \<le> dc_AmountOf (rwk_pool k) pool d) \<and> (Active s \<longrightarrow> sched_covered k pool s))"

lemma reward_bounds:
  assumes "CalculateReward S D t s = Inr c" and "sched_ok S s"
  shows "coin_Denom c = coin_Denom (TotalAmount s) \<and> 0 \<le> coin_Amount c \<and> coin_Amount c \<le> unreleased s \<and>
    (coin_Amount c = 0 \<longleftrightarrow> unreleased s = 0)"
proof (cases "unreleased s = 0")
  case True
  then show ?thesis using reward_none [OF assms(2)] assms(1) by auto
next
  case False
  then have "0 < unreleased s" using assms(2) by (auto simp: sched_ok_def)
  then show ?thesis
    using assms(1) by (auto simp: CalculateReward_def remaining [OF assms(2)] NewCoin_def Let_def res_simps split: if_splits)
qed

text \<open>The schedule after a payment.\<close>

definition schedule_after :: "ReleaseSchedule \<Rightarrow> int \<Rightarrow> int \<Rightarrow> ReleaseSchedule" where
  "schedule_after s a t =
     s\<lparr>ReleasedAmount := \<lparr>coin_Denom = coin_Denom (TotalAmount s), coin_Amount = coin_Amount (ReleasedAmount s) + a\<rparr>,
       LastReleaseTime := t\<rparr>"

lemma schedule_after_simps [simp]:
  "TotalAmount (schedule_after s a t) = TotalAmount s" "EndTime (schedule_after s a t) = EndTime s"
  "Active (schedule_after s a t) = Active s" "LastReleaseTime (schedule_after s a t) = t"
  "unreleased (schedule_after s a t) = unreleased s - a"
  by (simp_all add: schedule_after_def unreleased_def)

lemma sched_ok_paid:
  "sched_ok S s \<Longrightarrow> 0 \<le> a \<Longrightarrow> a \<le> unreleased s \<Longrightarrow>
   sched_ok S (schedule_after s a t)"
  by (simp add: sched_ok_def schedule_after_def unreleased_def)

lemma schedule_validated:
  assumes "coin_rules (rwk_checks k)" and "validateSchedule k now s st = Inr ()"
  shows "sched_ok (rwk_checks k) s"
  using assms(2) coin_rules.valid_nonneg [OF assms(1)]
  by (auto simp: validateSchedule_def validateReleased_def validateAmount_def check_def sched_ok_def
      unreleased_def res_simps split: if_splits)

context rewards_env
begin

text \<open>The begin blocker, case by case.\<close>

lemma distribute_effect:
  assumes cov: "sched_covered k pool s" and pool: "rws_RewardPool st = Some pool"
    and a: "c = \<lparr>coin_Denom = coin_Denom (TotalAmount s), coin_Amount = a\<rparr>" "0 < a" "a \<le> unreleased s"
    and r: "rw_distribute k x c s st = Inr st'"
  shows "\<exists>pool' b. st' = st\<lparr>rws_RewardPool := Some pool', rws_ReleaseSchedule :=
        Some (schedule_after s a (BlockTime x)), rws_bank := b\<rparr> \<and>
      dc_Sub (rwk_pool k) pool [c] = Inr pool' \<and>
      moved (rwk_bank k) (bank_ModuleAddr (rwk_bank k) rw_ModuleName)
        (bank_ModuleAddr (rwk_bank k) (rwk_feeCollectorName k)) [c] (rws_bank st) b"
proof -
  have v: "sc_Coin_IsValid (rwk_checks k) (TotalAmount s)" "coin_Denom (ReleasedAmount s) = coin_Denom (TotalAmount s)"
    using cov by (simp_all add: sched_covered_def sched_ok_def)
  have nc: "NewCoins (rwk_checks k) c = Inr [c]"
    using coin_rules.NewCoins_valid [OF coins v(1) a(2)] a(1) by simp
  have "coin_Add (ReleasedAmount s) c = Inr \<lparr>coin_Denom = coin_Denom (TotalAmount s),
      coin_Amount = coin_Amount (ReleasedAmount s) + a\<rparr>"
    using v(2) a(1) by (cases "ReleasedAmount s") (simp add: coin_Add_def)
  then obtain b pool' where b: "bank_SendCoinsFromModuleToModule (rwk_bank k) rw_ModuleName (rwk_feeCollectorName k)
        [c] (rws_bank st) = Inr b" "dc_Sub (rwk_pool k) pool [c] = Inr pool'"
    and "st' = st\<lparr>rws_RewardPool := Some pool', rws_ReleaseSchedule := Some (schedule_after s a (BlockTime x)),
      rws_bank := b\<rparr>"
    using r pool nc by (auto simp: rw_distribute_def schedule_after_def res_simps)
  then show ?thesis
    using bank.send_m2m [OF bank_laws b(1)] by blast
qed

lemma distribute_fails:
  assumes cov: "sched_covered k pool s" and pool: "rws_RewardPool st = Some pool" "\<forall>d. 0 \<le> dc_AmountOf (rwk_pool k) pool d"
    and a: "c = \<lparr>coin_Denom = coin_Denom (TotalAmount s), coin_Amount = a\<rparr>" "0 < a" "a \<le> unreleased s"
    and r: "rw_distribute k x c s st = Inl e"
  shows "\<exists>cs. bank_SendCoinsFromModuleToModule (rwk_bank k) rw_ModuleName (rwk_feeCollectorName k) cs (rws_bank st) = Inl e"
proof -
  have v: "sc_Coin_IsValid (rwk_checks k) (TotalAmount s)" "coin_Denom (ReleasedAmount s) = coin_Denom (TotalAmount s)"
    "unreleased s * dec_unit \<le> dc_AmountOf (rwk_pool k) pool (coin_Denom (TotalAmount s))"
    using cov by (simp_all add: sched_covered_def sched_ok_def)
  have nc: "NewCoins (rwk_checks k) c = Inr [c]"
    using coin_rules.NewCoins_valid [OF coins v(1) a(2)] a(1) by simp
  have "a * dec_unit \<le> unreleased s * dec_unit"
    using a(3) unit_bound by simp
  then have "amount_of [c] d * dec_unit \<le> dc_AmountOf (rwk_pool k) pool d" for d
    using v(3) pool(2) a(1) by auto
  from dec_coins.sub_total [OF pools this] obtain pool' where "dc_Sub (rwk_pool k) pool [c] = Inr pool'"
    by blast
  moreover have "coin_Denom (ReleasedAmount s) = coin_Denom c" using v(2) a(1) by simp
  ultimately show ?thesis
    using r pool(1) nc
    by (cases "bank_SendCoinsFromModuleToModule (rwk_bank k) rw_ModuleName (rwk_feeCollectorName k) [c] (rws_bank st)")
      (auto simp: rw_distribute_def coin_Add_def)
qed

text \<open>What a successful block does.\<close>

lemma block_cases:
  assumes inv: "rw_inv k st" and r: "rw_BeginBlocker k x st = Inr st'"
    and st: "rws_ReleaseSchedule st = Some s" "rws_RewardPool st = Some pool"
  obtains (idle) "st' = st" "\<not> Active s \<or> coin_Amount (TotalAmount s) = 0"
  | (first) "LastReleaseTime s = 0" "Active s" "st' = st\<lparr>rws_ReleaseSchedule := Some (s\<lparr>LastReleaseTime := BlockTime x\<rparr>)\<rparr>"
  | (finished) "unreleased s = 0" "st' = st\<lparr>rws_ReleaseSchedule := Some (s\<lparr>Active := False\<rparr>)\<rparr>"
  | (pays) a pool' b where "Active s" "LastReleaseTime s \<noteq> 0"
      "CalculateReward (rwk_checks k) (rwk_dec k) (BlockTime x) s =
         Inr \<lparr>coin_Denom = coin_Denom (TotalAmount s), coin_Amount = a\<rparr>"
      "1 \<le> a" "a \<le> unreleased s"
      "st' = st\<lparr>rws_RewardPool := Some pool', rws_ReleaseSchedule :=
        Some (schedule_after s a (BlockTime x)), rws_bank := b\<rparr>"
      "dc_Sub (rwk_pool k) pool [\<lparr>coin_Denom = coin_Denom (TotalAmount s), coin_Amount = a\<rparr>] = Inr pool'"
      "moved (rwk_bank k) (bank_ModuleAddr (rwk_bank k) rw_ModuleName)
        (bank_ModuleAddr (rwk_bank k) (rwk_feeCollectorName k))
        [\<lparr>coin_Denom = coin_Denom (TotalAmount s), coin_Amount = a\<rparr>] (rws_bank st) b"
proof (cases "\<not> Active s \<or> coin_Amount (TotalAmount s) = 0")
  case True
  then show ?thesis
    using r st(1) idle by (auto simp: rw_BeginBlocker_def)
next
  case act: False
  show ?thesis
  proof (cases "LastReleaseTime s = 0")
    case True
    then show ?thesis
      using r st(1) act first by (auto simp: rw_BeginBlocker_def)
  next
    case last: False
    have cov: "sched_covered k pool s"
      using inv st act by (auto simp: rw_inv_def)
    obtain c where c: "CalculateReward (rwk_checks k) (rwk_dec k) (BlockTime x) s = Inr c"
      and c': "(if coin_Amount c = 0 then Inr (st\<lparr>rws_ReleaseSchedule := Some (s\<lparr>Active := False\<rparr>)\<rparr>)
        else rw_distribute k x c s st) = Inr st'"
      using r st(1) act last by (auto simp: rw_BeginBlocker_def res_simps)
    have b: "coin_Denom c = coin_Denom (TotalAmount s)" "0 \<le> coin_Amount c" "coin_Amount c \<le> unreleased s"
      "coin_Amount c = 0 \<longleftrightarrow> unreleased s = 0"
      using reward_bounds [OF c] cov by (auto simp: sched_covered_def)
    then have ceq: "c = \<lparr>coin_Denom = coin_Denom (TotalAmount s), coin_Amount = coin_Amount c\<rparr>"
      by (cases c) simp
    show ?thesis
    proof (cases "coin_Amount c = 0")
      case True
      then show ?thesis using c' b(4) finished by simp
    next
      case False
      then have pos: "0 < coin_Amount c" "1 \<le> coin_Amount c" using b(2) by simp_all
      have "rw_distribute k x c s st = Inr st'" using c' False by simp
      from distribute_effect [OF cov st(2) ceq pos(1) b(3) this] obtain pool' bk where d:
        "st' = st\<lparr>rws_RewardPool := Some pool', rws_ReleaseSchedule :=
        Some (schedule_after s (coin_Amount c) (BlockTime x)), rws_bank := bk\<rparr>"
        "dc_Sub (rwk_pool k) pool [c] = Inr pool'"
        "moved (rwk_bank k) (bank_ModuleAddr (rwk_bank k) rw_ModuleName)
          (bank_ModuleAddr (rwk_bank k) (rwk_feeCollectorName k)) [c] (rws_bank st) bk"
        by blast
      show ?thesis
        by (rule pays [OF _ last _ pos(2) b(3) d(1)])
          (use act c d(2,3) ceq in \<open>simp_all add: ceq [symmetric]\<close>)
    qed
  qed
qed

lemma block_inv:
  assumes inv: "rw_inv k st" and r: "rw_BeginBlocker k x st = Inr st'"
  shows "rw_inv k st'"
proof -
  obtain params pool s where st: "rws_Params st = Some params" "rws_RewardPool st = Some pool" "rws_ReleaseSchedule st = Some s"
      "\<forall>d. 0 \<le> dc_AmountOf (rwk_pool k) pool d" "Active s \<Longrightarrow> sched_covered k pool s"
    using inv by (auto simp: rw_inv_def)
  show ?thesis
  proof (rule block_cases [OF inv r st(3,2)])
    assume "LastReleaseTime s = 0" "Active s" "st' = st\<lparr>rws_ReleaseSchedule := Some (s\<lparr>LastReleaseTime := BlockTime x\<rparr>)\<rparr>"
    then show ?thesis using st by (simp add: rw_inv_def sched_covered_def sched_ok_def unreleased_def)
  next
    fix a pool' b let ?c = "\<lparr>coin_Denom = coin_Denom (TotalAmount s), coin_Amount = a\<rparr>"
    assume act: "Active s" and a: "1 \<le> a" "a \<le> unreleased s"
      and eq: "st' = st\<lparr>rws_RewardPool := Some pool', rws_ReleaseSchedule :=
        Some (schedule_after s a (BlockTime x)), rws_bank := b\<rparr>"
      and sub: "dc_Sub (rwk_pool k) pool [?c] = Inr pool'"
    have ok: "sched_ok (rwk_checks k) (schedule_after s a (BlockTime x))"
      using sched_ok_paid st(5) [OF act] a by (simp add: sched_covered_def)
    have "dc_AmountOf (rwk_pool k) pool' (coin_Denom (TotalAmount s)) =
        dc_AmountOf (rwk_pool k) pool (coin_Denom (TotalAmount s)) - a * dec_unit"
      using dec_coins.sub [OF pools sub] by simp
    moreover have "\<forall>d. 0 \<le> dc_AmountOf (rwk_pool k) pool' d"
      using dec_coins.sub_nonneg [OF pools sub] by blast
    ultimately show ?thesis
      unfolding rw_inv_def
      using ok st(1) st(5) [OF act]
      by (simp add: eq sched_covered_def algebra_simps)
  qed (use inv st in \<open>auto simp: rw_inv_def\<close>)
qed

lemma fund_inv:
  assumes inv: "rw_inv k st" and r: "FundPool k sender amount st = Inr st'"
  shows "rw_inv k st'"
proof -
  obtain params pool s where st: "rws_Params st = Some params" "rws_RewardPool st = Some pool" "rws_ReleaseSchedule st = Some s"
      "\<forall>d. 0 \<le> dc_AmountOf (rwk_pool k) pool d" "Active s \<Longrightarrow> sched_covered k pool s"
    using inv by (auto simp: rw_inv_def)
  obtain b pool' where f: "sc_Coin_IsValid (rwk_checks k) amount"
    "dc_Add (rwk_pool k) pool [amount] = Inr pool'" "st' = st\<lparr>rws_RewardPool := Some pool', rws_bank := b\<rparr>"
    using r st(2) by (auto simp: FundPool_def FundCommunityPool_def validateAmount_def res_simps split: if_splits)
  have le: "dc_AmountOf (rwk_pool k) pool d \<le> dc_AmountOf (rwk_pool k) pool' d" for d
    using dec_coins.add [OF pools f(2)] coin_rules.valid_nonneg [OF coins f(1)] unit_bound by simp
  then have "sched_covered k pool' s" if "Active s"
    using st(5) [OF that] order_trans by (fastforce simp: sched_covered_def)
  then show ?thesis
    using st(1,3,4) le f(3) order_trans by (fastforce simp: rw_inv_def)
qed

lemma change_inv:
  assumes inv: "rw_inv k st" and r: "ChangeSchedule k now auth s' st = Inr st'"
  shows "rw_inv k st'"
proof -
  obtain params pool where st: "rws_Params st = Some params" "rws_RewardPool st = Some pool"
      "\<forall>d. 0 \<le> dc_AmountOf (rwk_pool k) pool d"
    using inv by (auto simp: rw_inv_def)
  have v: "validateSchedule k now s' st = Inr ()" and f: "fundsAvailable k (TotalAmount s') st = Inr ()"
    and eq: "st' = st\<lparr>rws_ReleaseSchedule := Some s'\<rparr>"
    using r by (auto simp: ChangeSchedule_def res_simps)
  note ok = schedule_validated [OF coins v]
  have "coin_Amount (TotalAmount s') * dec_unit \<le> dc_AmountOf (rwk_pool k) pool (coin_Denom (TotalAmount s'))"
    using f st(2) release_dec.ofint [OF dec] by (auto simp: fundsAvailable_def check_def res_simps split: if_splits)
  moreover have "unreleased s' * dec_unit \<le> coin_Amount (TotalAmount s') * dec_unit"
    using ok unit_bound by (simp add: sched_ok_def unreleased_def)
  ultimately have "sched_covered k pool s'"
    using ok by (simp add: sched_covered_def)
  then show ?thesis
    using st eq by (simp add: rw_inv_def)
qed

lemma exec_inv:
  assumes "rw_inv k st" and "rw_exec k op st = Inr st'"
  shows "rw_inv k st'"
proof (cases op)
  case (RwUpdateParams a p)
  then show ?thesis using assms by (auto simp: rw_UpdateParams_def rw_inv_def res_simps)
next
  case (RwBlock c)
  then show ?thesis using block_inv [OF assms(1)] assms(2) by simp
next
  case (RwFundPool a c)
  then show ?thesis using fund_inv [OF assms(1)] assms(2) by simp
next
  case (RwChangeSchedule n a c)
  then show ?thesis using change_inv [OF assms(1)] assms(2) by simp
qed

lemma init_inv:
  assumes "rw_Genesis_Validate (rwk_checks k) (rwk_pool k) now gs = Inr ()"
    and "Active (rwg_ReleaseSchedule gs) \<Longrightarrow> sched_covered k (rwg_RewardPool gs) (rwg_ReleaseSchedule gs)"
  shows "rw_inv k (rw_InitGenesis gs st)"
  using assms dec_coins.negative [OF pools, of "rwg_RewardPool gs"]
  by (auto simp: rw_Genesis_Validate_def RewardPool_ValidateGenesis_def rw_inv_def rw_InitGenesis_def
      not_less res_simps split: if_splits)

end

text \<open>The states of a chain. The genesis checks compare the schedule with neither the pool nor, when
  nothing was released, the denom of the released amount: a genesis with an active schedule is
  assumed to be covered.\<close>

inductive rw_reachable :: "('b, 'p) rw_Keeper \<Rightarrow> ('b, 'p) rw_state \<Rightarrow> bool" for k where
  rw_reach_init: "rw_Genesis_Validate (rwk_checks k) (rwk_pool k) now gs = Inr () \<Longrightarrow>
     (Active (rwg_ReleaseSchedule gs) \<Longrightarrow> sched_covered k (rwg_RewardPool gs) (rwg_ReleaseSchedule gs)) \<Longrightarrow>
     rw_reachable k (rw_InitGenesis gs st)"
| rw_reach_step: "rw_reachable k st \<Longrightarrow> rw_exec k op st = Inr st' \<Longrightarrow> rw_reachable k st'"

lemma rw_reachable_inv: "rewards_env k \<Longrightarrow> rw_reachable k st \<Longrightarrow> rw_inv k st"
  by (rotate_tac 1, induction rule: rw_reachable.induct)
    (blast intro: rewards_env.init_inv rewards_env.exec_inv)+

end
