(* ===== verification/RewardsFlow.thy ===== *)
theory RewardsFlow
  imports RewardsInv
begin

text \<open>
  The properties of the rewards module: the pool covers the schedule in every reachable state, the
  only ways a block can fail, what a block pays, the end of a release, and the dependence of a
  schedule change on the clock of the node. The witnesses run on the keeper \<open>toy_rw\<close>.
\<close>

section \<open>An example chain\<close>

definition toy_rw :: "(ledger, (string, int) kv) rw_Keeper" where
  "toy_rw =
     \<lparr>rwk_checks = toy_checks, rwk_dec = legacy_dec, rwk_pool = toy_dec_coins, rwk_bank = ledger_bank,
      rwk_authority = ''kgov'', rwk_feeCollectorName = ''fees''\<rparr>"

interpretation toy_rw: rewards_env toy_rw
  by (rule rewards_env.intro)
    (simp_all add: toy_rw_def legacy_release.release_dec_axioms toy_coins.coin_rules_axioms
      ledger.bank_axioms toy_pool.dec_coins_axioms)

definition toy_rw_start :: "(ledger, (string, int) kv) rw_state" where
  "toy_rw_start =
     \<lparr>rws_Params = None, rws_RewardPool = None, rws_ReleaseSchedule = None,
      rws_bank = empty_ledger\<lparr>lg_bal := (\<lambda>a d. if a = ''Ann'' \<and> d = ''akii'' then 100 else 0)\<rparr>\<rparr>"

definition toy_rw_run :: "rw_op list \<Rightarrow> (ledger, (string, int) kv) rw_state res" where
  "toy_rw_run ops =
     foldR (rw_exec toy_rw) ops (rw_InitGenesis (rw_DefaultGenesisState toy_dec_coins) toy_rw_start)"

definition toy_rw_view :: "(ledger, (string, int) kv) rw_state \<Rightarrow>
    (string, int) kv option \<times> ReleaseSchedule option \<times> int list" where
  "toy_rw_view st =
     (rws_RewardPool st, rws_ReleaseSchedule st,
      map (\<lambda>a. lg_bal (rws_bank st) a ''akii'') [''Ann'', lg_module ''rewards'', lg_module ''fees''])"

lemma toy_rw_run_snoc: "toy_rw_run (ops @ [op]) = bindR (toy_rw_run ops) (rw_exec toy_rw op)"
proof (cases "toy_rw_run ops")
  case (Inr st)
  then show ?thesis
    by (cases "rw_exec toy_rw op st") (simp_all add: toy_rw_run_def foldR_append)
qed (simp add: toy_rw_run_def foldR_append)

lemma toy_rw_reachable: "toy_rw_run ops = Inr st \<Longrightarrow> rw_reachable toy_rw st"
proof (induction ops arbitrary: st rule: rev_induct)
  case Nil
  have "rw_Genesis_Validate (rwk_checks toy_rw) (rwk_pool toy_rw) 1 (rw_DefaultGenesisState toy_dec_coins) = Inr ()"
    by code_simp
  then show ?case
    using Nil rw_reach_init [of toy_rw 1 "rw_DefaultGenesisState toy_dec_coins" toy_rw_start]
    by (simp add: toy_rw_run_def rw_DefaultGenesisState_def InitialReleaseSchedule_def)
next
  case (snoc op ops)
  then obtain st1 where "toy_rw_run ops = Inr st1" "rw_exec toy_rw op st1 = Inr st"
    by (auto simp: toy_rw_run_snoc res_simps)
  with snoc show ?case by (auto intro: rw_reach_step)
qed

text \<open>Ann funds 100, the release runs from second 10 to half past second 20.\<close>

definition toy_sec :: "int \<Rightarrow> ctx" where
  "toy_sec ns = \<lparr>BlockHeight = 1, BlockTime = ns, IsCheckTx = False, IsReCheckTx = False\<rparr>"

definition toy_release :: "int \<Rightarrow> ReleaseSchedule" where
  "toy_release end_time =
     \<lparr>TotalAmount = \<lparr>coin_Denom = ''akii'', coin_Amount = 100\<rparr>,
      ReleasedAmount = \<lparr>coin_Denom = ''akii'', coin_Amount = 0\<rparr>,
      EndTime = end_time, LastReleaseTime = 0, Active = True\<rparr>"

definition toy_setup :: "int \<Rightarrow> rw_op list" where
  "toy_setup end_time =
     [RwFundPool ''kAnn'' \<lparr>coin_Denom = ''akii'', coin_Amount = 100\<rparr>,
      RwChangeSchedule (5 * 10 ^ 9) ''kgov'' (toy_release end_time), RwBlock (toy_sec (10 * 10 ^ 9))]"

lemma toy_rw_half:
  "map_sum id toy_rw_view (toy_rw_run (toy_setup (20 * 10 ^ 9) @ [RwBlock (toy_sec (15 * 10 ^ 9))])) =
     Inr (Some [(''akii'', 50 * dec_unit)],
       Some ((toy_release (20 * 10 ^ 9))\<lparr>ReleasedAmount := \<lparr>coin_Denom = ''akii'', coin_Amount = 50\<rparr>,
         LastReleaseTime := 15 * 10 ^ 9\<rparr>), [0, 50, 50])"
  by code_simp

lemma toy_rw_stuck:
  "map_sum id toy_rw_view (toy_rw_run (toy_setup (20 * 10 ^ 9 + 100000000) @ [RwBlock (toy_sec (19 * 10 ^ 9 + 900000000))])) =
     Inr (Some [(''akii'', 10 * dec_unit)],
       Some ((toy_release (20 * 10 ^ 9 + 100000000))\<lparr>ReleasedAmount := \<lparr>coin_Denom = ''akii'', coin_Amount = 90\<rparr>,
         LastReleaseTime := 19 * 10 ^ 9 + 900000000\<rparr>), [0, 10, 90])"
  by code_simp

lemma toy_rw_viewed:
  assumes "map_sum id toy_rw_view (toy_rw_run ops) = Inr (pool, s, bs)"
  obtains st where "toy_rw_run ops = Inr st" "rws_RewardPool st = pool" "rws_ReleaseSchedule st = s"
  using assms by (cases "toy_rw_run ops") (auto simp: toy_rw_view_def)

section \<open>The pool covers the schedule\<close>

text \<open>C9: In every reachable state no amount of the pool is negative and, while a schedule is
  active, its released amount is at most its total amount and the pool holds at least what is
  still to be released.\<close>

theorem rw_pool_covers:
  assumes "rewards_env k" and "rw_reachable k st"
  shows "\<exists>pool s. rws_RewardPool st = Some pool \<and> rws_ReleaseSchedule st = Some s \<and>
    (\<forall>d. 0 \<le> dc_AmountOf (rwk_pool k) pool d) \<and>
    (Active s \<longrightarrow> coin_Denom (ReleasedAmount s) = coin_Denom (TotalAmount s) \<and>
       0 \<le> coin_Amount (ReleasedAmount s) \<and> coin_Amount (ReleasedAmount s) \<le> coin_Amount (TotalAmount s) \<and>
       (coin_Amount (TotalAmount s) - coin_Amount (ReleasedAmount s)) * dec_unit
         \<le> dc_AmountOf (rwk_pool k) pool (coin_Denom (TotalAmount s)))"
  using rw_reachable_inv [OF assms]
  by (auto simp: rw_inv_def sched_covered_def sched_ok_def unreleased_def)

theorem rw_pool_covers_witness:
  "\<exists>st pool s. toy_rw_run (toy_setup (20 * 10 ^ 9) @ [RwBlock (toy_sec (15 * 10 ^ 9))]) = Inr st \<and>
     rws_RewardPool st = Some pool \<and> rws_ReleaseSchedule st = Some s \<and> Active s \<and>
     coin_Amount (ReleasedAmount s) = 50 \<and> 50 * dec_unit \<le> toy_AmountOf pool ''akii''"
proof -
  obtain st where st: "toy_rw_run (toy_setup (20 * 10 ^ 9) @ [RwBlock (toy_sec (15 * 10 ^ 9))]) = Inr st"
    "rws_ReleaseSchedule st = Some ((toy_release (20 * 10 ^ 9))\<lparr>ReleasedAmount := \<lparr>coin_Denom = ''akii'',
       coin_Amount = 50\<rparr>, LastReleaseTime := 15 * 10 ^ 9\<rparr>)"
    by (rule toy_rw_viewed [OF toy_rw_half])
  from rw_pool_covers [OF toy_rw.rewards_env_axioms toy_rw_reachable [OF st(1)]] st show ?thesis
    by (auto simp: toy_release_def toy_rw_def toy_dec_coins_def)
qed

section \<open>When a block fails\<close>

lemma block_without_time:
  assumes "rewards_env k" and "rw_inv k st" and "rws_ReleaseSchedule st = Some s"
    and "Active s" "0 < unreleased s" "LastReleaseTime s \<noteq> 0" "EndTime s = LastReleaseTime s \<or> period_secs s = 0"
  shows "\<not> is_ok (rw_BeginBlocker k x st)"
proof -
  note env = assms(1) [unfolded rewards_env_def]
  have ok: "sched_ok (rwk_checks k) s" "0 \<le> coin_Amount (ReleasedAmount s)"
    using assms(2-4) by (auto simp: rw_inv_def sched_covered_def sched_ok_def)
  have ur: "unreleased s \<noteq> 0" using assms(5) by simp
  have "\<exists>e. CalculateReward (rwk_checks k) (rwk_dec k) (BlockTime x) s = Inl e"
  proof (cases "EndTime s = LastReleaseTime s")
    case True
    then show ?thesis using ur reward_no_time [OF ok(1)] by blast
  next
    case False
    then show ?thesis using ur assms(7) reward_panics [OF _ ok(1)] env by blast
  qed
  moreover have "coin_Amount (TotalAmount s) \<noteq> 0"
    using assms(5) ok(2) by (simp add: unreleased_def)
  ultimately show ?thesis
    using assms(3-6) by (auto simp: rw_BeginBlocker_def)
qed

lemma block_fails_why:
  assumes "rewards_env k" and "rw_inv k st" and "rws_ReleaseSchedule st = Some s" and "unreleased s \<le> 2 ^ 128"
    and e: "rw_BeginBlocker k x st = Inl e"
  shows "Active s \<and> 0 < unreleased s \<and> LastReleaseTime s \<noteq> 0 \<and>
    (EndTime s = LastReleaseTime s \<or> period_secs s = 0 \<or>
     (\<exists>cs. bank_SendCoinsFromModuleToModule (rwk_bank k) rw_ModuleName (rwk_feeCollectorName k) cs (rws_bank st) = Inl e))"
proof -
  note env = assms(1) [unfolded rewards_env_def]
  have s: "Active s" "LastReleaseTime s \<noteq> 0"
    using e assms(3) by (auto simp: rw_BeginBlocker_def split: if_splits)
  obtain pool where pool: "rws_RewardPool st = Some pool" "\<forall>d. 0 \<le> dc_AmountOf (rwk_pool k) pool d"
    and cov: "sched_covered k pool s"
    using assms(2,3) s(1) by (auto simp: rw_inv_def)
  then have ok: "sched_ok (rwk_checks k) s"
    by (simp add: sched_covered_def)
  have pos: "0 < unreleased s"
  proof (rule ccontr)
    assume "\<not> 0 < unreleased s"
    then have "unreleased s = 0" using ok by (simp add: sched_ok_def)
    then show False
      using e assms(3) reward_none [OF ok] by (auto simp: rw_BeginBlocker_def split: if_splits)
  qed
  show ?thesis
  proof (cases "EndTime s = LastReleaseTime s \<or> period_secs s = 0")
    case False
    then obtain c where c: "CalculateReward (rwk_checks k) (rwk_dec k) (BlockTime x) s = Inr c"
      using reward_amount [OF _ _ ok pos assms(4)] env by metis
    note b = reward_bounds [OF c ok]
    have "rw_distribute k x c s st = Inl e"
      using e assms(3) s c b pos by (auto simp: rw_BeginBlocker_def split: if_splits)
    moreover have "c = \<lparr>coin_Denom = coin_Denom (TotalAmount s), coin_Amount = coin_Amount c\<rparr>" "0 < coin_Amount c"
      using b pos by (cases c, auto)
    ultimately show ?thesis
      using rewards_env.distribute_fails [OF assms(1) cov pool] b s pos by blast
  qed (use s pos in auto)
qed

text \<open>C10: In a reachable state the begin blocker fails only while an active schedule still has
  something to release, and then because the schedule ends at its last release, because less than
  a whole second is left of it, or because the bank refuses the transfer. In the first two cases
  it fails in every later block: the chain cannot go on.\<close>

theorem rw_BeginBlocker_errors:
  assumes "rewards_env k" and "rw_reachable k st" and "rws_ReleaseSchedule st = Some s" and "unreleased s \<le> 2 ^ 128"
  shows "(\<forall>x e. rw_BeginBlocker k x st = Inl e \<longrightarrow>
      Active s \<and> 0 < unreleased s \<and> LastReleaseTime s \<noteq> 0 \<and>
      (EndTime s = LastReleaseTime s \<or> period_secs s = 0 \<or>
       (\<exists>cs. bank_SendCoinsFromModuleToModule (rwk_bank k) rw_ModuleName (rwk_feeCollectorName k) cs
          (rws_bank st) = Inl e))) \<and>
    (Active s \<and> 0 < unreleased s \<and> LastReleaseTime s \<noteq> 0 \<and> (EndTime s = LastReleaseTime s \<or> period_secs s = 0)
      \<longrightarrow> (\<forall>x. \<not> is_ok (rw_BeginBlocker k x st)))"
  using block_fails_why [OF assms(1) rw_reachable_inv [OF assms(1,2)] assms(3,4)]
    block_without_time [OF assms(1) rw_reachable_inv [OF assms(1,2)] assms(3)] by blast

theorem rw_BeginBlocker_errors_witness:
  "\<exists>st. toy_rw_run (toy_setup (20 * 10 ^ 9 + 100000000) @ [RwBlock (toy_sec (19 * 10 ^ 9 + 900000000))]) = Inr st \<and>
     (\<forall>x. \<not> is_ok (rw_BeginBlocker toy_rw x st))"
proof -
  let ?s = "(toy_release (20 * 10 ^ 9 + 100000000))\<lparr>ReleasedAmount := \<lparr>coin_Denom = ''akii'', coin_Amount = 90\<rparr>,
         LastReleaseTime := 19 * 10 ^ 9 + 900000000\<rparr>"
  obtain st where st: "toy_rw_run (toy_setup (20 * 10 ^ 9 + 100000000) @ [RwBlock (toy_sec (19 * 10 ^ 9 + 900000000))]) = Inr st"
    "rws_ReleaseSchedule st = Some ?s"
    by (rule toy_rw_viewed [OF toy_rw_stuck])
  have s: "Active ?s" "unreleased ?s = 10" "LastReleaseTime ?s \<noteq> 0" "period_secs ?s = 0"
    by code_simp+
  from rw_BeginBlocker_errors [OF toy_rw.rewards_env_axioms toy_rw_reachable [OF st(1)] st(2)] s
  have "\<forall>x. \<not> is_ok (rw_BeginBlocker toy_rw x st)" by simp
  with st(1) show ?thesis by blast
qed

section \<open>What a block pays\<close>

text \<open>C12: A successful begin block in a reachable state either pays nothing and moves no coin, or
  moves at least one and at most the unreleased coins from the rewards account to the fee
  collector, takes the same amount from the pool and adds it to the released amount, so that the
  total paid by a schedule never exceeds its total amount.\<close>

theorem rw_BeginBlocker_correct:
  assumes "rewards_env k" and "rw_reachable k st" and "rw_BeginBlocker k x st = Inr st'"
    and "rws_ReleaseSchedule st = Some s" and "rws_RewardPool st = Some pool"
  shows "\<exists>s' pool'. rws_ReleaseSchedule st' = Some s' \<and> rws_RewardPool st' = Some pool' \<and>
    rws_Params st' = rws_Params st \<and> TotalAmount s' = TotalAmount s \<and> EndTime s' = EndTime s \<and>
    ((rws_bank st' = rws_bank st \<and> pool' = pool \<and> ReleasedAmount s' = ReleasedAmount s) \<or>
     (\<exists>a. 1 \<le> a \<and> a \<le> unreleased s \<and> Active s \<and> LastReleaseTime s' = BlockTime x \<and> unreleased s' = unreleased s - a \<and>
        (\<forall>d. dc_AmountOf (rwk_pool k) pool' d = dc_AmountOf (rwk_pool k) pool d -
           (if d = coin_Denom (TotalAmount s) then a * dec_unit else 0)) \<and>
        moved (rwk_bank k) (bank_ModuleAddr (rwk_bank k) rw_ModuleName)
          (bank_ModuleAddr (rwk_bank k) (rwk_feeCollectorName k))
          [\<lparr>coin_Denom = coin_Denom (TotalAmount s), coin_Amount = a\<rparr>] (rws_bank st) (rws_bank st')))"
proof (rule rewards_env.block_cases [OF assms(1) rw_reachable_inv [OF assms(1,2)] assms(3-5)])
  fix a pool' b
  assume a: "Active s" "1 \<le> a" "a \<le> unreleased s"
    and st': "st' = st\<lparr>rws_RewardPool := Some pool',
      rws_ReleaseSchedule := Some (schedule_after s a (BlockTime x)), rws_bank := b\<rparr>"
    and sub: "dc_Sub (rwk_pool k) pool [\<lparr>coin_Denom = coin_Denom (TotalAmount s), coin_Amount = a\<rparr>] = Inr pool'"
    and m: "moved (rwk_bank k) (bank_ModuleAddr (rwk_bank k) rw_ModuleName)
        (bank_ModuleAddr (rwk_bank k) (rwk_feeCollectorName k))
        [\<lparr>coin_Denom = coin_Denom (TotalAmount s), coin_Amount = a\<rparr>] (rws_bank st) b"
  have "dc_AmountOf (rwk_pool k) pool' d = dc_AmountOf (rwk_pool k) pool d -
      (if d = coin_Denom (TotalAmount s) then a * dec_unit else 0)" for d
    using dec_coins.sub [OF rewards_env.pools [OF assms(1)] sub] by auto
  with a m show ?thesis
    unfolding st'
    by (intro exI [of _ "schedule_after s a (BlockTime x)"] exI [of _ pool'] conjI disjI2 exI [of _ a]) simp_all
qed (use assms(4,5) in simp_all)

theorem rw_BeginBlocker_correct_witness:
  "\<exists>st st'. toy_rw_run (toy_setup (20 * 10 ^ 9)) = Inr st \<and>
     rw_BeginBlocker toy_rw (toy_sec (15 * 10 ^ 9)) st = Inr st' \<and> rws_Params st' = rws_Params st \<and>
     lg_bal (rws_bank st') (lg_module ''fees'') ''akii'' = 50"
proof -
  let ?ops = "toy_setup (20 * 10 ^ 9)" and ?b = "toy_sec (15 * 10 ^ 9)"
  obtain st' where st': "toy_rw_run (?ops @ [RwBlock ?b]) = Inr st'" "toy_rw_view st' =
      projr (map_sum id toy_rw_view (toy_rw_run (?ops @ [RwBlock ?b])))"
    using toy_rw_viewed [OF toy_rw_half] by auto
  then obtain st where st: "toy_rw_run ?ops = Inr st" "rw_BeginBlocker toy_rw ?b st = Inr st'"
    by (auto simp: toy_rw_run_snoc res_simps)
  note reach = toy_rw_reachable [OF st(1)]
  obtain s pool where s: "rws_ReleaseSchedule st = Some s" "rws_RewardPool st = Some pool"
    using rw_reachable_inv [OF toy_rw.rewards_env_axioms reach] by (auto simp: rw_inv_def)
  have "rws_Params st' = rws_Params st"
    using rw_BeginBlocker_correct [OF toy_rw.rewards_env_axioms reach st(2) s] by auto
  moreover have "lg_bal (rws_bank st') (lg_module ''fees'') ''akii'' = 50"
    using st'(2) unfolding toy_rw_half by (simp add: toy_rw_view_def)
  ultimately show ?thesis
    using st by blast
qed

section \<open>The end of a release\<close>

text \<open>C13: Once the time since the last release reaches the period that was left, a successful
  block releases everything that remains, the next one deactivates the schedule, and after that no
  block changes anything: the release ends.\<close>

theorem rw_release_ends:
  assumes "rewards_env k" and "rw_reachable k st" and "rws_ReleaseSchedule st = Some s" and "unreleased s \<le> 2 ^ 128"
    and "Active s" and "0 < unreleased s" and "LastReleaseTime s \<noteq> 0" and "EndTime s \<noteq> LastReleaseTime s"
    and "0 < period_secs s" and "period_secs s \<le> elapsed_secs (BlockTime x) s" and "BlockTime x \<noteq> 0"
    and "rw_BeginBlocker k x st = Inr st1"
  shows "\<exists>s1 s2 st2. rws_ReleaseSchedule st1 = Some s1 \<and> unreleased s1 = 0 \<and>
    (\<forall>y. rw_BeginBlocker k y st1 = Inr st2) \<and> rws_ReleaseSchedule st2 = Some s2 \<and> \<not> Active s2 \<and>
    (\<forall>z. rw_BeginBlocker k z st2 = Inr st2)"
proof -
  note env = assms(1) [unfolded rewards_env_def]
  obtain pool where pool: "rws_RewardPool st = Some pool"
    using rw_reachable_inv [OF assms(1,2)] by (auto simp: rw_inv_def)
  note inv1 = rw_reachable_inv [OF assms(1) rw_reach_step [OF assms(2), of "RwBlock x"]]
  have okS: "sched_ok (rwk_checks k) s"
    using rw_reachable_inv [OF assms(1,2)] assms(3,5) by (auto simp: rw_inv_def sched_covered_def)
  obtain c where c: "dec_Quo (rwk_dec k) (elapsed_secs (BlockTime x) s * dec_unit) (period_secs s * dec_unit) = Inr c"
    "CalculateReward (rwk_checks k) (rwk_dec k) (BlockTime x) s = Inr \<lparr>coin_Denom = coin_Denom (TotalAmount s),
       coin_Amount = min (max (tdiv (unreleased s * c) dec_unit) 1) (unreleased s)\<rparr>"
    using reward_amount [OF _ _ okS assms(6,4,8), of "rwk_dec k" "BlockTime x"] env assms(9) by auto
  then have all: "CalculateReward (rwk_checks k) (rwk_dec k) (BlockTime x) s =
      Inr \<lparr>coin_Denom = coin_Denom (TotalAmount s), coin_Amount = unreleased s\<rparr>"
    using release_dec.release_all [OF _ c(1) assms(10,9,6)] env by simp
  have total: "coin_Amount (TotalAmount s) \<noteq> 0"
    using okS assms(6) by (auto simp: sched_ok_def unreleased_def)
  define s1 where "s1 = schedule_after s (unreleased s) (BlockTime x)"
  have s1: "rws_ReleaseSchedule st1 = Some s1"
    by (rule rewards_env.block_cases [OF assms(1) rw_reachable_inv [OF assms(1,2)] assms(12,3) pool])
      (use assms(5-7) total all s1_def in auto)
  have z: "unreleased s1 = 0" "Active s1" "LastReleaseTime s1 \<noteq> 0" "coin_Amount (TotalAmount s1) \<noteq> 0"
    using assms(5,11) total by (simp_all add: s1_def)
  have "sched_ok (rwk_checks k) s1"
    using inv1 [of st1] assms(12) s1 z(2) by (auto simp: rw_inv_def sched_covered_def)
  note none = reward_none [OF this z(1)]
  define st2 where "st2 = st1\<lparr>rws_ReleaseSchedule := Some (s1\<lparr>Active := False\<rparr>)\<rparr>"
  have "rw_BeginBlocker k y st1 = Inr st2" for y
    using s1 z none by (simp add: rw_BeginBlocker_def st2_def)
  moreover have "rw_BeginBlocker k y st2 = Inr st2" for y
    by (simp add: rw_BeginBlocker_def st2_def)
  ultimately show ?thesis
    using s1 z(1) by (intro exI [of _ s1] exI [of _ "s1\<lparr>Active := False\<rparr>"] exI [of _ st2]) (simp add: st2_def)
qed

theorem rw_release_ends_witness:
  "\<exists>st1 s1. toy_rw_run (toy_setup (20 * 10 ^ 9) @ [RwBlock (toy_sec (15 * 10 ^ 9)), RwBlock (toy_sec (21 * 10 ^ 9))]) = Inr st1 \<and>
     rws_ReleaseSchedule st1 = Some s1 \<and> unreleased s1 = 0 \<and> is_ok (rw_BeginBlocker toy_rw (toy_sec (22 * 10 ^ 9)) st1)"
proof -
  let ?ops = "toy_setup (20 * 10 ^ 9) @ [RwBlock (toy_sec (15 * 10 ^ 9))]" and ?x = "toy_sec (21 * 10 ^ 9)"
  let ?s = "(toy_release (20 * 10 ^ 9))\<lparr>ReleasedAmount := \<lparr>coin_Denom = ''akii'', coin_Amount = 50\<rparr>,
         LastReleaseTime := 15 * 10 ^ 9\<rparr>"
  obtain st where st: "toy_rw_run ?ops = Inr st" "rws_ReleaseSchedule st = Some ?s"
    by (rule toy_rw_viewed [OF toy_rw_half])
  have "is_ok (toy_rw_run (?ops @ [RwBlock ?x]))"
    by code_simp
  then obtain st1 where st1: "toy_rw_run (?ops @ [RwBlock ?x]) = Inr st1"
    by (auto simp: is_ok_iff)
  then have b: "rw_BeginBlocker toy_rw ?x st = Inr st1"
    using st(1) unfolding toy_rw_run_snoc by simp
  have "unreleased ?s = 50" "Active ?s" "LastReleaseTime ?s \<noteq> 0" "EndTime ?s \<noteq> LastReleaseTime ?s"
    "0 < period_secs ?s" "period_secs ?s \<le> elapsed_secs (BlockTime ?x) ?s" "BlockTime ?x \<noteq> 0"
    by code_simp+
  from rw_release_ends [OF toy_rw.rewards_env_axioms toy_rw_reachable [OF st(1)] st(2) _ this(2) _ this(3-7) b] this(1)
  obtain s1 st2 where s1: "rws_ReleaseSchedule st1 = Some s1" "unreleased s1 = 0"
    "rw_BeginBlocker toy_rw (toy_sec (22 * 10 ^ 9)) st1 = Inr st2"
    by auto
  then show ?thesis
    using st1 by (intro exI [of _ st1] exI [of _ s1]) simp
qed

section \<open>The clock of the node\<close>

text \<open>C14: Whether a change of the schedule is accepted depends on the wall clock of the node that
  executes it: accepted by a node whose clock is not past the end time, the same message on the
  same state is rejected by every node whose clock is.\<close>

theorem ChangeSchedule_clock:
  assumes "ChangeSchedule k now authority s st = Inr st'"
  shows "now \<le> EndTime s \<and> st' = st\<lparr>rws_ReleaseSchedule := Some s\<rparr> \<and>
    (\<forall>now'. EndTime s < now' \<longrightarrow> ChangeSchedule k now' authority s st = Inl (Errorf ''invalid schedule''))"
proof (intro conjI allI impI)
  have v: "validateAuthority k authority = Inr ()" "validateSchedule k now s st = Inr ()"
    using assms by (auto simp: ChangeSchedule_def res_simps)
  then show "now \<le> EndTime s"
    by (auto simp: validateSchedule_def validateTimes_def validateEndTime_def check_def res_simps split: if_splits)
  show "st' = st\<lparr>rws_ReleaseSchedule := Some s\<rparr>"
    using assms by (auto simp: ChangeSchedule_def res_simps)
  fix now' assume late: "EndTime s < now'"
  have "\<not> is_ok (validateSchedule k now' s st)"
    using late by (auto simp: is_ok_iff validateSchedule_def validateTimes_def validateEndTime_def check_def res_simps)
  then show "ChangeSchedule k now' authority s st = Inl (Errorf ''invalid schedule'')"
    using v(1) by (cases "validateSchedule k now' s st") (auto simp: ChangeSchedule_def)
qed

theorem ChangeSchedule_clock_witness:
  "\<exists>st st'. toy_rw_run [RwFundPool ''kAnn'' \<lparr>coin_Denom = ''akii'', coin_Amount = 100\<rparr>] = Inr st \<and>
     ChangeSchedule toy_rw 5 ''kgov'' (toy_release 20) st = Inr st' \<and>
     ChangeSchedule toy_rw 21 ''kgov'' (toy_release 20) st = Inl (Errorf ''invalid schedule'')"
proof -
  let ?fund = "RwFundPool ''kAnn'' \<lparr>coin_Denom = ''akii'', coin_Amount = 100\<rparr>"
  have "is_ok (toy_rw_run [?fund, RwChangeSchedule 5 ''kgov'' (toy_release 20)])"
    by code_simp
  then obtain st st' where "toy_rw_run [?fund] = Inr st" "ChangeSchedule toy_rw 5 ''kgov'' (toy_release 20) st = Inr st'"
    by (auto simp: is_ok_iff toy_rw_run_def res_simps)
  with ChangeSchedule_clock [OF this(2)] show ?thesis
    by (fastforce simp: toy_release_def)
qed

end
