(* ===== verification/FeeAbs.thy ===== *)
theory FeeAbs
  imports OracleKeeper Rewards
begin

text \<open>
  \<open>x/feeabstraction\<close>: fees paid in other tokens. Parameters and fee tokens with their checks, the
  prices computed from the oracle's time-weighted averages, the conversion of a native fee, the
  message server, genesis, the begin blocker and the Cosmos fee decorator. The oracle is the
  model of theory OracleKeeper; the ERC-20 keeper, the fee checker, fee grants and the SDK's
  \<open>DeductFees\<close> are parameters. Events, logging and metrics are left out.
\<close>

section \<open>Parameters and fee tokens\<close>

record fa_Params =
  NativeDenom :: string
  NativeOracleDenom :: string
  fa_Enabled :: bool
  ClampFactor :: dec
  TwapLookbackWindow :: int
  FallbackNativePrice :: dec

record FeeTokenMetadata =
  ft_Denom :: string
  ft_OracleDenom :: string
  ft_Decimals :: int
  ft_Price :: dec
  ft_Enabled :: bool

text \<open>The genesis holds a pointer to the collection, which may be nil.\<close>

record fa_GenesisState =
  fag_Params :: fa_Params
  fag_FeeTokens :: "FeeTokenMetadata list option"

definition fa_DefaultParams :: fa_Params where
  "fa_DefaultParams =
     \<lparr>NativeDenom = ''akii'', NativeOracleDenom = ''kii'', fa_Enabled = True,
      ClampFactor = dec_with_prec 10 2, TwapLookbackWindow = 120, FallbackNativePrice = dec_with_prec 1 2\<rparr>"

definition fa_Params_Validate :: "sdk_checks \<Rightarrow> fa_Params \<Rightarrow> unit res" where
  "fa_Params_Validate S p =
     bindR (wrapR ErrInvalidParams (sc_ValidateDenom S (NativeDenom p))) (\<lambda>_.
     bindR (wrapR ErrInvalidParams (sc_ValidateDenom S (NativeOracleDenom p))) (\<lambda>_.
     if ClampFactor p < 0 \<or> dec_unit < ClampFactor p then Inl ErrInvalidParams
     else if FallbackNativePrice p < 0 \<or> FallbackNativePrice p = 0 then Inl ErrInvalidParams
     else if TwapLookbackWindow p = 0 then Inl ErrInvalidParams
     else Inr ()))"

definition NewFeeTokenMetadata :: "string \<Rightarrow> string \<Rightarrow> int \<Rightarrow> dec \<Rightarrow> FeeTokenMetadata" where
  "NewFeeTokenMetadata denom oracleDenom decs price =
     \<lparr>ft_Denom = denom, ft_OracleDenom = oracleDenom, ft_Decimals = decs, ft_Price = price, ft_Enabled = True\<rparr>"

definition FeeToken_Validate :: "sdk_checks \<Rightarrow> FeeTokenMetadata \<Rightarrow> unit res" where
  "FeeToken_Validate S f =
     bindR (wrapR ErrInvalidFeeTokenMetadata (sc_ValidateDenom S (ft_Denom f))) (\<lambda>_.
     bindR (wrapR ErrInvalidFeeTokenMetadata (sc_ValidateDenom S (ft_OracleDenom f))) (\<lambda>_.
     if ft_Decimals f < 1 \<or> 18 < ft_Decimals f then Inl ErrInvalidFeeTokenMetadata
     else if ft_Price f < 0 \<or> ft_Price f = 0 then Inl ErrInvalidFeeTokenMetadata
     else Inr ()))"

fun validate_tokens :: "sdk_checks \<Rightarrow> string list \<Rightarrow> FeeTokenMetadata list \<Rightarrow> unit res" where
  "validate_tokens S denomSet [] = Inr ()"
| "validate_tokens S denomSet (token # ts) =
     bindR (FeeToken_Validate S token) (\<lambda>_.
     if List.member denomSet (ft_Denom token) then Inl ErrInvalidFeeTokenMetadata
     else validate_tokens S (ft_Denom token # denomSet) ts)"

definition FeeTokens_Validate :: "sdk_checks \<Rightarrow> FeeTokenMetadata list option \<Rightarrow> unit res" where
  "FeeTokens_Validate S c =
     (case c of None \<Rightarrow> Inl ErrInvalidFeeTokenMetadata | Some items \<Rightarrow> validate_tokens S [] items)"

definition fa_NewGenesisState :: "fa_Params \<Rightarrow> FeeTokenMetadata list option \<Rightarrow> fa_GenesisState" where
  "fa_NewGenesisState params feeTokens = \<lparr>fag_Params = params, fag_FeeTokens = feeTokens\<rparr>"

definition fa_DefaultGenesisState :: fa_GenesisState where
  "fa_DefaultGenesisState = \<lparr>fag_Params = fa_DefaultParams, fag_FeeTokens = Some []\<rparr>"

definition fa_Genesis_Validate :: "sdk_checks \<Rightarrow> fa_GenesisState \<Rightarrow> unit res" where
  "fa_Genesis_Validate S gs =
     bindR (fa_Params_Validate S (fag_Params gs)) (\<lambda>_.
     bindR (deref (fag_FeeTokens gs)) (\<lambda>items.
     validate_tokens S [] items))"

section \<open>Prices and amounts\<close>

definition CalculateTokenPrice :: "dec_ops \<Rightarrow> dec \<Rightarrow> dec \<Rightarrow> dec res" where
  "CalculateTokenPrice D base other =
     (if base = 0 \<or> other = 0 then Inl (Errorf ''invalid input: base or other is zero'')
      else dec_Quo D base other)"

definition CalculateTokenAmountWithDecimals :: "dec_ops \<Rightarrow> dec \<Rightarrow> int \<Rightarrow> int \<Rightarrow> int \<Rightarrow> dec res" where
  "CalculateTokenAmountWithDecimals D price amountAtMinimal decimalsBase decimalsOther =
     (if decimalsBase = 0 \<or> decimalsOther = 0 then Inl (Errorf ''invalid decimals: must be > 0'')
      else if amountAtMinimal = 0 \<or> price = 0 then Inr 0
      else
        bindR (dec_OfInt D amountAtMinimal) (\<lambda>amount.
        bindR (dec_OfInt D 10) (\<lambda>ten.
        bindR (dec_Power D ten decimalsBase) (\<lambda>unitBase.
        bindR (dec_Quo D amount unitBase) (\<lambda>amountFull.
        bindR (dec_Mul D amountFull price) (\<lambda>amountInOtherFull.
        bindR (dec_Power D ten decimalsOther) (\<lambda>unitOther.
        dec_Mul D amountInOtherFull unitOther)))))))"

definition ClampPrice :: "dec_ops \<Rightarrow> dec \<Rightarrow> dec \<Rightarrow> dec \<Rightarrow> dec res" where
  "ClampPrice D prevPrice newPrice clampFactor =
     (if prevPrice = 0 \<or> clampFactor = 0 then Inr newPrice
      else
        bindR (bindR (dec_Sub D dec_unit clampFactor) (dec_Mul D prevPrice)) (\<lambda>lo.
        bindR (bindR (dec_Add D dec_unit clampFactor) (dec_Mul D prevPrice)) (\<lambda>hi.
        Inr (if newPrice < lo then lo else if hi < newPrice then hi else newPrice))))"

section \<open>Keeper and state\<close>

text \<open>A nil big integer of \<open>BalanceOf\<close> is \<open>None\<close>; a token pair is its contract address.\<close>

record 'w erc20_ops =
  erc_GetTokenPairID :: "'w \<Rightarrow> string \<Rightarrow> string"
  erc_GetTokenPair :: "'w \<Rightarrow> string \<Rightarrow> string option"
  erc_BalanceOf :: "'w \<Rightarrow> string \<Rightarrow> string \<Rightarrow> int option"
  erc_ConvertERC20 :: "int \<Rightarrow> addr \<Rightarrow> string \<Rightarrow> string \<Rightarrow> 'w \<Rightarrow> 'w res"
  erc_BytesToAddress :: "addr \<Rightarrow> string"

record 'w fa_Keeper =
  fak_checks :: sdk_checks
  fak_dec :: dec_ops
  fak_bank :: "'w bank_ops"
  fak_erc20 :: "'w erc20_ops"
  fak_authority :: string

record ('w, 'b, 's) fa_state =
  fas_Params :: "fa_Params option"
  fas_FeeTokens :: "FeeTokenMetadata list option"
  fas_world :: 'w
  fas_oracle :: "('b, 's) oracle_state"

definition BaseDenomUnit :: int where "BaseDenomUnit = 18"

section \<open>Converting a fee\<close>

definition hasSufficientNativeBalance :: "'w fa_Keeper \<Rightarrow> addr \<Rightarrow> coin \<Rightarrow> 'w \<Rightarrow> bool" where
  "hasSufficientNativeBalance k account fee w \<longleftrightarrow>
     coin_Amount fee \<le> bank_GetBalance (fak_bank k) w account (coin_Denom fee)"

definition convertERC20ToNative ::
  "'w fa_Keeper \<Rightarrow> addr \<Rightarrow> string \<Rightarrow> int \<Rightarrow> 'w \<Rightarrow> (bool \<times> 'w) res" where
  "convertERC20ToNative k account denom amount w =
     (if amount \<le> bank_GetBalance (fak_bank k) w account denom then Inr (True, w)
      else
        let pairID = erc_GetTokenPairID (fak_erc20 k) w denom;
            evmAddress = erc_BytesToAddress (fak_erc20 k) account
        in case erc_GetTokenPair (fak_erc20 k) w pairID of
             None \<Rightarrow> Inr (False, w)
           | Some contract \<Rightarrow>
               (case erc_BalanceOf (fak_erc20 k) w contract evmAddress of
                  None \<Rightarrow> Inr (False, w)
                | Some erc20Balance \<Rightarrow>
                    if amount \<le> erc20Balance
                    then bindR (erc_ConvertERC20 (fak_erc20 k) amount account contract evmAddress w)
                           (\<lambda>w'. Inr (True, w'))
                    else Inr (False, w)))"

fun convert_with :: "'w fa_Keeper \<Rightarrow> addr \<Rightarrow> coin \<Rightarrow> FeeTokenMetadata list \<Rightarrow> 'w \<Rightarrow> (coins \<times> 'w) res" where
  "convert_with k account fee [] w = Inl ErrInsufficientFunds"
| "convert_with k account fee (feePrice # rest) w =
     (if \<not> ft_Enabled feePrice then convert_with k account fee rest w
      else
        bindR (CalculateTokenAmountWithDecimals (fak_dec k) (ft_Price feePrice) (coin_Amount fee)
                 BaseDenomUnit (ft_Decimals feePrice)) (\<lambda>amountEquivalent.
        bindR (dec_RoundInt (fak_dec k) amountEquivalent) (\<lambda>amountEquivalentInt.
        if amountEquivalentInt = 0 then convert_with k account fee rest w
        else
          bindR (convertERC20ToNative k account (ft_Denom feePrice) amountEquivalentInt w) (\<lambda>(ok, w').
          if ok
          then bindR (NewCoin (fak_checks k) (ft_Denom feePrice) amountEquivalentInt) (\<lambda>c. Inr ([c], w'))
          else convert_with k account fee rest w'))))"

definition ConvertNativeFee ::
  "'w fa_Keeper \<Rightarrow> addr \<Rightarrow> coins \<Rightarrow> ('w, 'b, 's) fa_state \<Rightarrow> (coins \<times> ('w, 'b, 's) fa_state) res" where
  "ConvertNativeFee k account fees st =
     bindR (the_or ErrNotFound (fas_Params st)) (\<lambda>params.
     if \<not> fa_Enabled params then Inr (fees, st)
     else if list_all (\<lambda>c. coin_Amount c = 0) fees then Inr (fees, st)
     else if length fees \<noteq> 1 then Inr (fees, st)
     else
       let fee = fees ! 0
       in if coin_Denom fee \<noteq> NativeDenom params then Inr (fees, st)
          else if hasSufficientNativeBalance k account fee (fas_world st) then Inr (fees, st)
          else
            bindR (the_or ErrNotFound (fas_FeeTokens st)) (\<lambda>feePrices.
            bindR (convert_with k account fee feePrices (fas_world st)) (\<lambda>(newFee, w).
            Inr (newFee, st\<lparr>fas_world := w\<rparr>))))"

section \<open>Prices from the oracle\<close>

text \<open>Wrapping an error leaves a panic a panic.\<close>

fun wrapE :: "error \<Rightarrow> 'a res \<Rightarrow> 'a res" where
  "wrapE e (Inl (Panic m)) = Inl (Panic m)"
| "wrapE e (Inl x) = Inl e"
| "wrapE e (Inr x) = Inr x"

definition price_token :: "dec_ops \<Rightarrow> (string, dec) kv \<Rightarrow> dec \<Rightarrow> dec \<Rightarrow> FeeTokenMetadata \<Rightarrow> FeeTokenMetadata res" where
  "price_token D twapPriceMap baseTokenPrice clampFactor token =
     (if \<not> ft_Enabled token then Inr token
      else
        let tokenPrice = (case kv_get twapPriceMap (ft_OracleDenom token) of None \<Rightarrow> 0 | Some p \<Rightarrow> p)
        in if tokenPrice = 0 then Inr (token\<lparr>ft_Enabled := False, ft_Price := 0\<rparr>)
           else
             bindR (wrapE ErrInvalidRequest (CalculateTokenPrice D baseTokenPrice tokenPrice)) (\<lambda>price.
             bindR (ClampPrice D (ft_Price token) price clampFactor) (\<lambda>clamped.
             Inr (token\<lparr>ft_Price := clamped\<rparr>))))"

definition calculatePriceTokens ::
  "dec_ops \<Rightarrow> (string, dec) kv \<Rightarrow> dec \<Rightarrow> dec \<Rightarrow> ('w, 'b, 's) fa_state \<Rightarrow> FeeTokenMetadata list res" where
  "calculatePriceTokens D twapPriceMap baseTokenPrice clampFactor st =
     bindR (the_or ErrNotFound (fas_FeeTokens st)) (\<lambda>feeTokens.
     mapR (price_token D twapPriceMap baseTokenPrice clampFactor) feeTokens)"

text \<open>An error of the averages is logged and replaced by no averages; a panic is not recovered.\<close>

definition twaps_or_none :: "OracleTwap list res \<Rightarrow> OracleTwap list res" where
  "twaps_or_none r = (case r of Inl (Panic m) \<Rightarrow> Inl (Panic m) | Inl _ \<Rightarrow> Inr [] | Inr twaps \<Rightarrow> Inr twaps)"

definition twap_prices :: "OracleTwap list \<Rightarrow> (string, dec) kv" where
  "twap_prices twaps = fold (\<lambda>t. kv_set (twap_Denom t) (Twap t)) twaps []"

definition CalculateFeeTokenPrices ::
  "'w fa_Keeper \<Rightarrow> ctx \<Rightarrow> ('w, 'b, 's) fa_state \<Rightarrow> ('w, 'b, 's) fa_state res" where
  "CalculateFeeTokenPrices k c st =
     bindR (the_or ErrNotFound (fas_Params st)) (\<lambda>params.
     bindR (twaps_or_none (CalculateTwaps (fak_dec k) c (fas_oracle st) (TwapLookbackWindow params))) (\<lambda>twaps.
     let twapPriceMap = twap_prices twaps;
         baseTokenPrice = (case kv_get twapPriceMap (NativeOracleDenom params) of
                             None \<Rightarrow> FallbackNativePrice params | Some p \<Rightarrow> p)
     in bindR (calculatePriceTokens (fak_dec k) twapPriceMap baseTokenPrice (ClampFactor params) st) (\<lambda>updateTokens.
        Inr (st\<lparr>fas_FeeTokens := Some updateTokens\<rparr>))))"

definition fa_BeginBlocker :: "'w fa_Keeper \<Rightarrow> ctx \<Rightarrow> ('w, 'b, 's) fa_state \<Rightarrow> ('w, 'b, 's) fa_state res" where
  "fa_BeginBlocker k c st =
     bindR (the_or ErrNotFound (fas_Params st)) (\<lambda>params.
     if \<not> fa_Enabled params then Inr st
     else
       bindR (CalculateFeeTokenPrices k c st) (\<lambda>st1.
       bindR (the_or ErrNotFound (fas_FeeTokens st1)) (\<lambda>_. Inr st1)))"

section \<open>Messages and genesis\<close>

definition fa_validateAuthority :: "'w fa_Keeper \<Rightarrow> string \<Rightarrow> unit res" where
  "fa_validateAuthority k authority =
     bindR (wrapR ErrInvalidAddress (AccAddressFromBech32 (sc_codec (fak_checks k)) authority)) (\<lambda>_.
     if fak_authority k \<noteq> authority then Inl ErrInvalidSigner else Inr ())"

definition fa_MsgUpdateParams_Validate :: "sdk_checks \<Rightarrow> string \<Rightarrow> fa_Params \<Rightarrow> unit res" where
  "fa_MsgUpdateParams_Validate S authority params =
     bindR (AccAddressFromBech32 (sc_codec S) authority) (\<lambda>_. fa_Params_Validate S params)"

definition MsgUpdateFeeTokens_Validate :: "sdk_checks \<Rightarrow> string \<Rightarrow> FeeTokenMetadata list \<Rightarrow> unit res" where
  "MsgUpdateFeeTokens_Validate S authority items =
     bindR (AccAddressFromBech32 (sc_codec S) authority) (\<lambda>_. FeeTokens_Validate S (Some items))"

definition fa_UpdateParams ::
  "'w fa_Keeper \<Rightarrow> string \<Rightarrow> fa_Params \<Rightarrow> ('w, 'b, 's) fa_state \<Rightarrow> ('w, 'b, 's) fa_state res" where
  "fa_UpdateParams k authority params st =
     bindR (fa_validateAuthority k authority) (\<lambda>_.
     bindR (wrapR ErrInvalidRequest (fa_MsgUpdateParams_Validate (fak_checks k) authority params)) (\<lambda>_.
     bindR (wrapR ErrInvalidRequest (ValidateLookBackSeconds (fas_oracle st) (TwapLookbackWindow params))) (\<lambda>_.
     Inr (st\<lparr>fas_Params := Some params\<rparr>))))"

definition UpdateFeeTokens ::
  "'w fa_Keeper \<Rightarrow> string \<Rightarrow> FeeTokenMetadata list \<Rightarrow> ('w, 'b, 's) fa_state \<Rightarrow> ('w, 'b, 's) fa_state res" where
  "UpdateFeeTokens k authority items st =
     bindR (fa_validateAuthority k authority) (\<lambda>_.
     bindR (wrapR ErrInvalidRequest (MsgUpdateFeeTokens_Validate (fak_checks k) authority items)) (\<lambda>_.
     if list_all (\<lambda>t. List.member (GetVoteTargets (fas_oracle st)) (ft_OracleDenom t)) items
     then Inr (st\<lparr>fas_FeeTokens := Some items\<rparr>)
     else Inl ErrInvalidRequest))"

definition fa_InitGenesis ::
  "'w fa_Keeper \<Rightarrow> fa_GenesisState \<Rightarrow> ('w, 'b, 's) fa_state \<Rightarrow> ('w, 'b, 's) fa_state res" where
  "fa_InitGenesis k gs st =
     bindR (fa_Genesis_Validate (fak_checks k) gs) (\<lambda>_.
     bindR (deref (fag_FeeTokens gs)) (\<lambda>items.
     Inr (st\<lparr>fas_Params := Some (fag_Params gs), fas_FeeTokens := Some items\<rparr>)))"

definition fa_ExportGenesis :: "('w, 'b, 's) fa_state \<Rightarrow> fa_GenesisState res" where
  "fa_ExportGenesis st =
     bindR (the_or ErrNotFound (fas_Params st)) (\<lambda>params.
     bindR (the_or ErrNotFound (fas_FeeTokens st)) (\<lambda>feeTokens.
     Inr (fa_NewGenesisState params (Some feeTokens))))"

section \<open>The Cosmos fee decorator\<close>

record fee_tx =
  ftx_Gas :: int
  ftx_Fee :: coins
  ftx_FeePayer :: addr
  ftx_FeeGranter :: "addr option"

record 'w DeductFeeDecorator =
  dfd_GetModuleAddress :: "string \<Rightarrow> addr option"
  dfd_GetAccount :: "'w \<Rightarrow> addr \<Rightarrow> addr option"
  dfd_UseGrantedFees :: "(addr \<Rightarrow> addr \<Rightarrow> coins \<Rightarrow> 'w \<Rightarrow> 'w res) option"
  dfd_txFeeChecker :: "ctx \<Rightarrow> fee_tx \<Rightarrow> (coins \<times> int) res"
  dfd_DeductFees :: "addr \<Rightarrow> coins \<Rightarrow> 'w \<Rightarrow> 'w res"

definition FeeCollectorName :: string where "FeeCollectorName = ''fee_collector''"

definition use_grant ::
  "'w DeductFeeDecorator \<Rightarrow> fee_tx \<Rightarrow> coins \<Rightarrow> ('w, 'b, 's) fa_state \<Rightarrow> (addr \<times> ('w, 'b, 's) fa_state) res" where
  "use_grant dfd feeTx fee st =
     (case ftx_FeeGranter feeTx of
        None \<Rightarrow> Inr (ftx_FeePayer feeTx, st)
      | Some granter \<Rightarrow>
          (case dfd_UseGrantedFees dfd of
             None \<Rightarrow> Inl ErrInvalidRequest
           | Some useGranted \<Rightarrow>
               if granter \<noteq> ftx_FeePayer feeTx
               then bindR (useGranted granter (ftx_FeePayer feeTx) fee (fas_world st)) (\<lambda>w.
                      Inr (granter, st\<lparr>fas_world := w\<rparr>))
               else Inr (granter, st)))"

definition checkDeductFee ::
  "'w DeductFeeDecorator \<Rightarrow> 'w fa_Keeper \<Rightarrow> fee_tx \<Rightarrow> coins \<Rightarrow> ('w, 'b, 's) fa_state \<Rightarrow> ('w, 'b, 's) fa_state res" where
  "checkDeductFee dfd k feeTx fee st =
     (if dfd_GetModuleAddress dfd FeeCollectorName = None
      then Inl (Errorf ''fee collector module account has not been set'')
      else
        bindR (use_grant dfd feeTx fee st) (\<lambda>(deductFeesFrom, st1).
        bindR (the_or ErrUnknownAddress (dfd_GetAccount dfd (fas_world st1) deductFeesFrom)) (\<lambda>acc.
        if list_all (\<lambda>c. coin_Amount c = 0) fee then Inr st1
        else
          bindR (ConvertNativeFee k acc fee st1) (\<lambda>(convertedFee, st2).
          bindR (dfd_DeductFees dfd acc convertedFee (fas_world st2)) (\<lambda>w.
          Inr (st2\<lparr>fas_world := w\<rparr>))))))"

text \<open>\<open>None\<close> is a transaction that is not a \<open>FeeTx\<close>; the next handler gets the priority of the new
  context and the state.\<close>

definition DeductFee_AnteHandle ::
  "'w DeductFeeDecorator \<Rightarrow> 'w fa_Keeper \<Rightarrow> ctx \<Rightarrow> fee_tx option \<Rightarrow> bool \<Rightarrow>
   (int \<Rightarrow> ('w, 'b, 's) fa_state \<Rightarrow> 'r res) \<Rightarrow> ('w, 'b, 's) fa_state \<Rightarrow> 'r res" where
  "DeductFee_AnteHandle dfd k c tx simulate next_handler st =
     (case tx of
        None \<Rightarrow> Inl ErrTxDecode
      | Some feeTx \<Rightarrow>
          if \<not> simulate \<and> 0 < BlockHeight c \<and> ftx_Gas feeTx = 0 then Inl ErrInvalidGasLimit
          else
            bindR (if simulate then Inr (ftx_Fee feeTx, 0) else dfd_txFeeChecker dfd c feeTx) (\<lambda>(fee, priority).
            bindR (checkDeductFee dfd k feeTx fee st) (\<lambda>st'. next_handler priority st')))"

end
