(* ===== verification/FeeAbsProps.thy ===== *)
theory FeeAbsProps
  imports FeeAbs RewardsCalc
begin

text \<open>
  What \<open>x/feeabstraction\<close> promises: which coin a native fee is converted to and that the account
  then holds it, the bounds of the price updates, when the begin blocker stops the chain, and
  which states can be exported and imported again.
\<close>

section \<open>Choosing a fee token\<close>

text \<open>The amount of a token that is worth a native amount, as the code rounds it.\<close>

definition equivalent :: "dec_ops \<Rightarrow> int \<Rightarrow> FeeTokenMetadata \<Rightarrow> int res" where
  "equivalent D amount t =
     bindR (CalculateTokenAmountWithDecimals D (ft_Price t) amount BaseDenomUnit (ft_Decimals t)) (dec_RoundInt D)"

definition pair_of :: "'w erc20_ops \<Rightarrow> 'w \<Rightarrow> string \<Rightarrow> string option" where
  "pair_of E w d = erc_GetTokenPair E w (erc_GetTokenPairID E w d)"

definition held :: "'w fa_Keeper \<Rightarrow> 'w \<Rightarrow> addr \<Rightarrow> string \<Rightarrow> int \<Rightarrow> bool" where
  \<comment> \<open>the account has the amount as a coin\<close>
  "held k w a d n \<longleftrightarrow> n \<le> bank_GetBalance (fak_bank k) w a d"

definition convertible :: "'w fa_Keeper \<Rightarrow> 'w \<Rightarrow> addr \<Rightarrow> string \<Rightarrow> int \<Rightarrow> bool" where
  \<comment> \<open>the account has the amount in the contract of the pair\<close>
  "convertible k w a d n \<longleftrightarrow>
     (\<exists>ct b. pair_of (fak_erc20 k) w d = Some ct \<and>
        erc_BalanceOf (fak_erc20 k) w ct (erc_BytesToAddress (fak_erc20 k) a) = Some b \<and> n \<le> b)"

definition unusable :: "'w fa_Keeper \<Rightarrow> 'w \<Rightarrow> addr \<Rightarrow> int \<Rightarrow> FeeTokenMetadata \<Rightarrow> bool" where
  "unusable k w a amount t \<longleftrightarrow> \<not> ft_Enabled t \<or> equivalent (fak_dec k) amount t = Inr 0 \<or>
     (\<exists>n. equivalent (fak_dec k) amount t = Inr n \<and> \<not> held k w a (ft_Denom t) n \<and>
        \<not> convertible k w a (ft_Denom t) n)"

lemma convertERC20_cases:
  "convertERC20ToNative k a d n w =
     (if held k w a d n then Inr (True, w)
      else if convertible k w a d n
      then bindR (erc_ConvertERC20 (fak_erc20 k) n a (the (pair_of (fak_erc20 k) w d))
                    (erc_BytesToAddress (fak_erc20 k) a) w) (\<lambda>w'. Inr (True, w'))
      else Inr (False, w))"
  by (auto simp: convertERC20ToNative_def held_def convertible_def pair_of_def Let_def split: option.split)

lemma convert_with_step:
  assumes "ft_Enabled t"
  shows "convert_with k a fee (t # ts) w =
    bindR (equivalent (fak_dec k) (coin_Amount fee) t) (\<lambda>n.
      if n = 0 then convert_with k a fee ts w
      else bindR (convertERC20ToNative k a (ft_Denom t) n w) (\<lambda>(ok, w').
        if ok then bindR (NewCoin (fak_checks k) (ft_Denom t) n) (\<lambda>c. Inr ([c], w'))
        else convert_with k a fee ts w'))"
  using assms
  by (cases "CalculateTokenAmountWithDecimals (fak_dec k) (ft_Price t) (coin_Amount fee)
               BaseDenomUnit (ft_Decimals t)") (simp_all add: equivalent_def)

declare convert_with.simps(2) [simp del]

lemma convert_with_disabled:
  "\<not> ft_Enabled t \<Longrightarrow> convert_with k a fee (t # ts) w = convert_with k a fee ts w"
  by (simp add: convert_with.simps(2))

lemma convert_with_skip:
  assumes "unusable k w a (coin_Amount fee) t"
  shows "convert_with k a fee (t # ts) w = convert_with k a fee ts w"
proof (cases "ft_Enabled t")
  case True
  then show ?thesis
    using assms by (auto simp: unusable_def convert_with_step convertERC20_cases)
qed (rule convert_with_disabled)

lemma convert_with_all_unusable:
  "\<forall>t \<in> set ts. unusable k w a (coin_Amount fee) t \<Longrightarrow> convert_with k a fee ts w = Inl ErrInsufficientFunds"
  by (induction ts) (simp_all add: convert_with_skip)

text \<open>A conversion uses the first usable token.\<close>

definition conversion :: "'w fa_Keeper \<Rightarrow> addr \<Rightarrow> FeeTokenMetadata \<Rightarrow> int \<Rightarrow> 'w \<Rightarrow> 'w \<Rightarrow> bool" where
  "conversion k a t n w w' \<longleftrightarrow>
     (if held k w a (ft_Denom t) n then w' = w
      else \<exists>ct. pair_of (fak_erc20 k) w (ft_Denom t) = Some ct \<and>
        erc_ConvertERC20 (fak_erc20 k) n a ct (erc_BytesToAddress (fak_erc20 k) a) w = Inr w')"

lemma convert_with_Inr:
  assumes "convert_with k a fee ts w = Inr (cs, w')"
  shows "\<exists>pre t post n c. ts = pre @ t # post \<and> (\<forall>u \<in> set pre. unusable k w a (coin_Amount fee) u) \<and>
    ft_Enabled t \<and> equivalent (fak_dec k) (coin_Amount fee) t = Inr n \<and> n \<noteq> 0 \<and>
    conversion k a t n w w' \<and> NewCoin (fak_checks k) (ft_Denom t) n = Inr c \<and> cs = [c]"
  using assms
proof (induction ts)
  case (Cons t ts)
  show ?case
  proof (cases "unusable k w a (coin_Amount fee) t")
    case True
    then have "convert_with k a fee ts w = Inr (cs, w')"
      using Cons.prems by (simp add: convert_with_skip)
    from Cons.IH [OF this] obtain pre u post n c where
      "ts = pre @ u # post" "\<forall>x \<in> set pre. unusable k w a (coin_Amount fee) x"
      "ft_Enabled u" "equivalent (fak_dec k) (coin_Amount fee) u = Inr n" "n \<noteq> 0"
      "conversion k a u n w w'" "NewCoin (fak_checks k) (ft_Denom u) n = Inr c" "cs = [c]"
      by blast
    with True show ?thesis
      by (intro exI [of _ "t # pre"] exI [of _ u] exI [of _ post] exI [of _ n] exI [of _ c]) auto
  next
    case False
    then have en: "ft_Enabled t" by (simp add: unusable_def)
    obtain n where n: "equivalent (fak_dec k) (coin_Amount fee) t = Inr n"
      using Cons.prems by (auto simp: convert_with_step [OF en] res_simps)
    have use: "n \<noteq> 0" "held k w a (ft_Denom t) n \<or> convertible k w a (ft_Denom t) n"
      using False en n by (auto simp: unusable_def)
    obtain c where c: "NewCoin (fak_checks k) (ft_Denom t) n = Inr c" "cs = [c]"
      using Cons.prems n use by (auto simp: convert_with_step [OF en] convertERC20_cases res_simps split: if_splits)
    have "conversion k a t n w w'"
      using Cons.prems n use
      by (auto simp: convert_with_step [OF en] convertERC20_cases conversion_def convertible_def res_simps
          split: if_splits)
    with en n use(1) c show ?thesis
      by (intro exI [of _ "[]"] exI [of _ t] exI [of _ ts] exI [of _ n] exI [of _ c]) simp
  qed
qed simp

section \<open>Conversion\<close>

text \<open>What the ERC-20 keeper promises of \<open>ConvertERC20\<close>: the account gets the amount in coins of the
  pair, and nobody else's balance changes but that of the account that holds coins in escrow.\<close>

locale erc20_laws =
  fixes E :: "'w erc20_ops" and B :: "'w bank_ops" and esc :: addr
  assumes convert_own: "pair_of E w d = Some ct \<Longrightarrow>
      erc_ConvertERC20 E n a ct (erc_BytesToAddress E a) w = Inr w' \<Longrightarrow>
      bank_GetBalance B w' a d = bank_GetBalance B w a d + n"
    and convert_other: "erc_ConvertERC20 E n a ct (erc_BytesToAddress E a) w = Inr w' \<Longrightarrow>
      x \<noteq> a \<Longrightarrow> x \<noteq> esc \<Longrightarrow> bank_GetBalance B w' x d = bank_GetBalance B w x d"

definition needs_conversion :: "'w fa_Keeper \<Rightarrow> fa_Params \<Rightarrow> addr \<Rightarrow> coins \<Rightarrow> 'w \<Rightarrow> bool" where
  "needs_conversion k p a fees w \<longleftrightarrow> fa_Enabled p \<and>
     (\<exists>f. fees = [f] \<and> coin_Amount f \<noteq> 0 \<and> coin_Denom f = NativeDenom p \<and>
        \<not> held k w a (coin_Denom f) (coin_Amount f))"

lemma ConvertNativeFee_unchanged:
  assumes "fas_Params st = Some p" "\<not> needs_conversion k p a fees (fas_world st)"
  shows "ConvertNativeFee k a fees st = Inr (fees, st)"
proof (cases "fa_Enabled p \<and> \<not> list_all (\<lambda>c. coin_Amount c = 0) fees \<and> length fees = 1")
  case True
  then obtain f where "fees = [f]" by (auto simp: length_Suc_conv)
  with True assms show ?thesis
    by (auto simp: ConvertNativeFee_def needs_conversion_def held_def hasSufficientNativeBalance_def)
qed (use assms(1) in \<open>auto simp: ConvertNativeFee_def\<close>)

lemma ConvertNativeFee_needed:
  assumes "fas_Params st = Some p" "needs_conversion k p a fees (fas_world st)"
  shows "ConvertNativeFee k a fees st =
    bindR (the_or ErrNotFound (fas_FeeTokens st)) (\<lambda>ts.
    bindR (convert_with k a (hd fees) ts (fas_world st)) (\<lambda>(cs, w). Inr (cs, st\<lparr>fas_world := w\<rparr>)))"
  using assms
  by (auto simp: ConvertNativeFee_def needs_conversion_def held_def hasSufficientNativeBalance_def)

lemma NewCoin_amount: "coin_rules S \<Longrightarrow> NewCoin S d n = Inr c \<Longrightarrow> c = \<lparr>coin_Denom = d, coin_Amount = n\<rparr> \<and> 0 \<le> n"
  using coin_rules.valid_nonneg [of S "\<lparr>coin_Denom = d, coin_Amount = n\<rparr>"]
  by (auto simp: NewCoin_def Let_def split: if_splits)

lemma conversion_balance:
  assumes "erc20_laws (fak_erc20 k) (fak_bank k) esc" "conversion k a t n w w'"
  shows "bank_GetBalance (fak_bank k) w' a (ft_Denom t) =
      bank_GetBalance (fak_bank k) w a (ft_Denom t) + (if held k w a (ft_Denom t) n then 0 else n)"
    and "x \<noteq> a \<Longrightarrow> x \<noteq> esc \<Longrightarrow> bank_GetBalance (fak_bank k) w' x d = bank_GetBalance (fak_bank k) w x d"
  using assms(2) erc20_laws.convert_own [OF assms(1)] erc20_laws.convert_other [OF assms(1)]
  by (auto simp: conversion_def split: if_splits)

text \<open>C27: A fee is left alone unless it is one native coin the account does not hold and the module is
  enabled.  Then it is replaced by one positive coin of the first usable fee token, in the
  order of the list: the amount is the rounded equivalent, the account already holds it or got
  it by the conversion of its ERC-20 tokens, and nothing else of the module's state changes; if
  every token is disabled, rounds to nothing or is not covered, the fee is refused.\<close>

theorem ConvertNativeFee_correct:
  assumes "erc20_laws (fak_erc20 k) (fak_bank k) esc" "coin_rules (fak_checks k)" "fas_Params st = Some p"
    and "fas_FeeTokens st = Some ts"
  shows "(\<not> needs_conversion k p a fees (fas_world st) \<longrightarrow> ConvertNativeFee k a fees st = Inr (fees, st)) \<and>
    (needs_conversion k p a fees (fas_world st) \<and>
       (\<forall>t \<in> set ts. unusable k (fas_world st) a (coin_Amount (hd fees)) t) \<longrightarrow>
       ConvertNativeFee k a fees st = Inl ErrInsufficientFunds) \<and>
    (\<forall>cs st'. needs_conversion k p a fees (fas_world st) \<and> ConvertNativeFee k a fees st = Inr (cs, st') \<longrightarrow>
       (\<exists>pre t post n w'. ts = pre @ t # post \<and>
          (\<forall>u \<in> set pre. unusable k (fas_world st) a (coin_Amount (hd fees)) u) \<and> ft_Enabled t \<and>
          equivalent (fak_dec k) (coin_Amount (hd fees)) t = Inr n \<and> 0 < n \<and>
          cs = [\<lparr>coin_Denom = ft_Denom t, coin_Amount = n\<rparr>] \<and> st' = st\<lparr>fas_world := w'\<rparr> \<and>
          (if held k (fas_world st) a (ft_Denom t) n then w' = fas_world st
           else bank_GetBalance (fak_bank k) w' a (ft_Denom t) =
                  bank_GetBalance (fak_bank k) (fas_world st) a (ft_Denom t) + n)))"
proof (intro conjI impI allI; (elim conjE)?)
  fix cs st'
  let ?w = "fas_world st" and ?amt = "coin_Amount (hd fees)"
  assume need: "needs_conversion k p a fees ?w" and run: "ConvertNativeFee k a fees st = Inr (cs, st')"
  obtain w' where w': "convert_with k a (hd fees) ts ?w = Inr (cs, w')" "st' = st\<lparr>fas_world := w'\<rparr>"
    using run assms(4) by (auto simp: ConvertNativeFee_needed [OF assms(3) need] res_simps)
  obtain pre t post n c where c: "ts = pre @ t # post" "\<forall>u \<in> set pre. unusable k ?w a ?amt u"
    "ft_Enabled t" "equivalent (fak_dec k) ?amt t = Inr n" "n \<noteq> 0" "conversion k a t n ?w w'"
    "NewCoin (fak_checks k) (ft_Denom t) n = Inr c" "cs = [c]"
    using convert_with_Inr [OF w'(1)] by blast
  have cn: "c = \<lparr>coin_Denom = ft_Denom t, coin_Amount = n\<rparr>" "0 \<le> n"
    using NewCoin_amount [OF assms(2) c(7)] by auto
  have bal: "if held k ?w a (ft_Denom t) n then w' = ?w
      else bank_GetBalance (fak_bank k) w' a (ft_Denom t) = bank_GetBalance (fak_bank k) ?w a (ft_Denom t) + n"
    using c(6) conversion_balance(1) [OF assms(1) c(6)] by (simp add: conversion_def)
  show "\<exists>pre t post n w'. ts = pre @ t # post \<and>
          (\<forall>u \<in> set pre. unusable k ?w a ?amt u) \<and> ft_Enabled t \<and>
          equivalent (fak_dec k) ?amt t = Inr n \<and> 0 < n \<and>
          cs = [\<lparr>coin_Denom = ft_Denom t, coin_Amount = n\<rparr>] \<and> st' = st\<lparr>fas_world := w'\<rparr> \<and>
          (if held k ?w a (ft_Denom t) n then w' = ?w
           else bank_GetBalance (fak_bank k) w' a (ft_Denom t) = bank_GetBalance (fak_bank k) ?w a (ft_Denom t) + n)"
    by (intro exI [of _ pre] exI [of _ t] exI [of _ post] exI [of _ n] exI [of _ w'] conjI c bal w'(2))
      (use c cn in auto)
qed (use assms(3,4) in \<open>simp_all add: ConvertNativeFee_unchanged ConvertNativeFee_needed convert_with_all_unusable\<close>)

text \<open>An example: a world of coins in which the contract \<open>0xusdc\<close> is a denom of its own, an account
  without native coins and with 50 USDC there; one KII is worth 25 cents.\<close>

definition toy_erc20 :: "ledger erc20_ops" where
  "toy_erc20 =
     \<lparr>erc_GetTokenPairID = (\<lambda>w d. d),
      erc_GetTokenPair = (\<lambda>w i. if i = ''uusdc'' then Some ''0xusdc'' else None),
      erc_BalanceOf = (\<lambda>w ct x. Some (lg_bal w x ct)),
      erc_ConvertERC20 = (\<lambda>n a ct x w.
        if ct = ''0xusdc'' \<and> x = a \<and> n \<le> lg_bal w a ct
        then Inr (w\<lparr>lg_bal := (lg_bal w)(a := (lg_bal w a)(ct := lg_bal w a ct - n, ''uusdc'' := lg_bal w a ''uusdc'' + n))\<rparr>)
        else Inl ErrInsufficientFunds),
      erc_BytesToAddress = (\<lambda>a. a)\<rparr>"

definition toy_fa :: "ledger fa_Keeper" where
  "toy_fa =
     \<lparr>fak_checks = toy_checks, fak_dec = legacy_dec, fak_bank = ledger_bank, fak_erc20 = toy_erc20,
      fak_authority = ''kgov''\<rparr>"

interpretation toy_erc20: erc20_laws toy_erc20 ledger_bank "''escrow''"
  by unfold_locales (auto simp: toy_erc20_def ledger_bank_def pair_of_def split: if_splits)

definition toy_usdc :: FeeTokenMetadata where
  "toy_usdc = NewFeeTokenMetadata ''uusdc'' ''uusdc'' 6 (dec_with_prec 25 2)"

definition toy_off :: FeeTokenMetadata where
  "toy_off = \<lparr>ft_Denom = ''uatom'', ft_OracleDenom = ''uatom'', ft_Decimals = 6, ft_Price = 0, ft_Enabled = False\<rparr>"

definition toy_fa_state :: "(ledger, ledger, toy_staking) fa_state" where
  "toy_fa_state =
     \<lparr>fas_Params = Some fa_DefaultParams, fas_FeeTokens = Some [toy_off, toy_usdc],
      fas_world = empty_ledger\<lparr>lg_bal := (\<lambda>a d. if a = ''ann'' \<and> d = ''0xusdc'' then 50000000 else 0)\<rparr>,
      fas_oracle = sample_state\<rparr>"

definition toy_fee :: coins where
  "toy_fee = [\<lparr>coin_Denom = ''akii'', coin_Amount = 2 * 10 ^ 18\<rparr>]"

lemma legacy_power_ten: 
  assumes "0 \<le> n" "n \<le> 18"
  shows "dec_Power legacy_dec (10 * dec_unit) n = Inr (10 ^ nat n * dec_unit)"
proof -
  have u: "0 < dec_unit" by (rule unit_bound)
  have f: "fold (\<lambda>_ x. round_half_even (x * (10 * dec_unit)) dec_unit) xs (b * dec_unit) =
      10 ^ length xs * b * dec_unit" for xs :: "nat list" and b
  proof (induction xs arbitrary: b)
    case (Cons x xs)
    have "b * dec_unit * (10 * dec_unit) = dec_unit * (10 * b * dec_unit)" by (simp add: algebra_simps)
    then have "round_half_even (b * dec_unit * (10 * dec_unit)) dec_unit = 10 * b * dec_unit"
      using round_half_even_exact [OF u, of "10 * b * dec_unit"] by metis
    then show ?case using Cons.IH [of "10 * b"] by (simp add: algebra_simps)
  qed simp
  have "(10 :: int) ^ nat n \<le> 10 ^ 18"
    using assms by (intro power_increasing) auto
  then have "10 ^ nat n * dec_unit < 2 ^ 315"
    by (simp add: dec_unit_def)
  moreover have "0 \<le> 10 ^ nat n * dec_unit" using u by simp
  ultimately show ?thesis
    using f [of "[0..<nat n]" 1] by (simp add: legacy_dec_def dec_chk_def)
qed

lemma toy_equivalent: "equivalent legacy_dec (2 * 10 ^ 18) toy_usdc = Inr 500000"
proof -
  have q: "dec_Quo legacy_dec (2000000000000000000 * dec_unit) (1000000000000000000 * dec_unit) = Inr (2 * dec_unit)"
    by (simp add: legacy_dec_def dec_unit_def tdiv_def round_half_even_def dec_chk_def)
  have m: "dec_Mul legacy_dec (2 * dec_unit) 250000000000000000 = Inr 500000000000000000"
    "dec_Mul legacy_dec 500000000000000000 (1000000 * dec_unit) = Inr (500000 * dec_unit)"
    by (simp_all add: legacy_dec_def dec_unit_def round_half_even_def dec_chk_def)
  have o: "dec_OfInt legacy_dec i = Inr (i * dec_unit)" for i by (simp add: legacy_dec_def)
  have r: "dec_RoundInt legacy_dec (500000 * dec_unit) = Inr 500000"
    by (simp add: legacy_dec_def dec_unit_def round_half_even_def)
  show ?thesis
    by (simp add: equivalent_def CalculateTokenAmountWithDecimals_def BaseDenomUnit_def toy_usdc_def
        NewFeeTokenMetadata_def dec_with_prec_def o legacy_power_ten q m r)
qed

lemma toy_conversion:
  "\<exists>w. ConvertNativeFee toy_fa ''ann'' toy_fee toy_fa_state =
     Inr ([\<lparr>coin_Denom = ''uusdc'', coin_Amount = 500000\<rparr>], toy_fa_state\<lparr>fas_world := w\<rparr>) \<and>
     lg_bal w ''ann'' ''uusdc'' = 500000 \<and> lg_bal w (lg_module FeeCollectorName) ''uusdc'' = 0 \<and>
     lg_bal w ''ann'' ''akii'' = 0 \<and> lg_nonce w = (\<lambda>_. 0)"
proof -
  let ?w = "fas_world toy_fa_state"
  have need: "needs_conversion toy_fa fa_DefaultParams ''ann'' toy_fee ?w"
    by (simp add: needs_conversion_def toy_fee_def held_def toy_fa_def toy_fa_state_def fa_DefaultParams_def
        ledger_bank_def)
  have off: "unusable toy_fa ?w ''ann'' (coin_Amount (hd toy_fee)) toy_off"
    by (simp add: unusable_def toy_off_def)
  obtain w where w: "erc_ConvertERC20 (fak_erc20 toy_fa) 500000 ''ann'' ''0xusdc''
      (erc_BytesToAddress (fak_erc20 toy_fa) ''ann'') ?w = Inr w" "lg_bal w ''ann'' ''uusdc'' = 500000"
      "lg_bal w (lg_module FeeCollectorName) ''uusdc'' = 0" "lg_bal w ''ann'' ''akii'' = 0"
      "lg_nonce w = (\<lambda>_. 0)"
    by (simp add: toy_fa_def toy_fa_state_def toy_erc20_def lg_module_def empty_ledger_def)
  have "equivalent (fak_dec toy_fa) (coin_Amount (hd toy_fee)) toy_usdc = Inr 500000"
    using toy_equivalent by (simp add: toy_fa_def toy_fee_def)
  moreover have "\<not> held toy_fa ?w ''ann'' ''uusdc'' 500000" "convertible toy_fa ?w ''ann'' ''uusdc'' 500000"
    "pair_of (fak_erc20 toy_fa) ?w ''uusdc'' = Some ''0xusdc''"
    by (simp_all add: held_def convertible_def pair_of_def toy_fa_def toy_fa_state_def ledger_bank_def toy_erc20_def)
  moreover have "ft_Enabled toy_usdc" "ft_Denom toy_usdc = ''uusdc''"
    by (simp_all add: toy_usdc_def NewFeeTokenMetadata_def)
  moreover have "NewCoin (fak_checks toy_fa) ''uusdc'' 500000 = Inr \<lparr>coin_Denom = ''uusdc'', coin_Amount = 500000\<rparr>"
    by (simp add: NewCoin_def toy_fa_def toy_checks_def Let_def) code_simp
  ultimately have "convert_with toy_fa ''ann'' (hd toy_fee) [toy_off, toy_usdc] ?w =
      Inr ([\<lparr>coin_Denom = ''uusdc'', coin_Amount = 500000\<rparr>], w)"
    using w(1) by (simp add: convert_with_skip [OF off] convert_with_step convertERC20_cases)
  moreover have "fas_Params toy_fa_state = Some fa_DefaultParams" "fas_FeeTokens toy_fa_state = Some [toy_off, toy_usdc]"
    by (simp_all add: toy_fa_state_def)
  ultimately show ?thesis
    using w(2-5) by (intro exI [of _ w]) (simp add: ConvertNativeFee_needed [OF _ need])
qed

theorem ConvertNativeFee_correct_witness:
  "\<exists>st'. ConvertNativeFee toy_fa ''ann'' toy_fee toy_fa_state =
     Inr ([\<lparr>coin_Denom = ''uusdc'', coin_Amount = 500000\<rparr>], st') \<and>
     bank_GetBalance ledger_bank (fas_world st') ''ann'' ''uusdc'' = 500000"
proof -
  have laws: "erc20_laws (fak_erc20 toy_fa) (fak_bank toy_fa) ''escrow''" "coin_rules (fak_checks toy_fa)"
    by (simp_all add: toy_fa_def toy_erc20.erc20_laws_axioms toy_coins.coin_rules_axioms)
  have st: "fas_Params toy_fa_state = Some fa_DefaultParams" "fas_FeeTokens toy_fa_state = Some [toy_off, toy_usdc]"
    by (simp_all add: toy_fa_state_def)
  have need: "needs_conversion toy_fa fa_DefaultParams ''ann'' toy_fee (fas_world toy_fa_state)"
    by (simp add: needs_conversion_def toy_fee_def held_def toy_fa_def toy_fa_state_def fa_DefaultParams_def
        ledger_bank_def)
  obtain st' where run: "ConvertNativeFee toy_fa ''ann'' toy_fee toy_fa_state =
      Inr ([\<lparr>coin_Denom = ''uusdc'', coin_Amount = 500000\<rparr>], st')"
    using toy_conversion by blast
  have b: "fak_bank toy_fa = ledger_bank" by (simp add: toy_fa_def)
  have bal: "bank_GetBalance ledger_bank (fas_world toy_fa_state) ''ann'' ''uusdc'' = 0"
    by (simp add: ledger_bank_def toy_fa_state_def)
  obtain t :: FeeTokenMetadata and n w' where t: "[\<lparr>coin_Denom = ''uusdc'', coin_Amount = 500000\<rparr>] = [\<lparr>coin_Denom = ft_Denom t, coin_Amount = n\<rparr>]"
    and w': "st' = toy_fa_state\<lparr>fas_world := w'\<rparr>"
      "if held toy_fa (fas_world toy_fa_state) ''ann'' (ft_Denom t) n then w' = fas_world toy_fa_state
       else bank_GetBalance (fak_bank toy_fa) w' ''ann'' (ft_Denom t) =
         bank_GetBalance (fak_bank toy_fa) (fas_world toy_fa_state) ''ann'' (ft_Denom t) + n"
    using ConvertNativeFee_correct [OF laws st, THEN conjunct2, THEN conjunct2, rule_format, OF conjI [OF need run]]
    by blast
  have "ft_Denom t = ''uusdc''" "n = 500000" using t by simp_all
  then have "bank_GetBalance ledger_bank (fas_world st') ''ann'' ''uusdc'' = 500000"
    using w' by (simp add: held_def b bal)
  with run show ?thesis by blast
qed

section \<open>Paying a fee\<close>

text \<open>What the fee decorator relies on: \<open>DeductFees\<close> sends coins to the fee collector, fee grants move
  no coins, and an account is stored under its own address.\<close>

locale fee_env =
  fixes dfd :: "'w DeductFeeDecorator" and k :: "'w fa_Keeper" and col esc :: addr
  assumes erc20: "erc20_laws (fak_erc20 k) (fak_bank k) esc"
    and coins: "coin_rules (fak_checks k)"
    and deduct: "dfd_DeductFees dfd a cs w = Inr w' \<Longrightarrow> moved (fak_bank k) a col cs w w'"
    and grants: "dfd_UseGrantedFees dfd = Some use \<Longrightarrow> use g p cs w = Inr w' \<Longrightarrow>
      bank_GetBalance (fak_bank k) w' = bank_GetBalance (fak_bank k) w"
    and account: "dfd_GetAccount dfd w a = Some b \<Longrightarrow> b = a"
    and apart: "col \<noteq> esc"

definition fee_payer :: "fee_tx \<Rightarrow> addr" where
  "fee_payer tx = (case ftx_FeeGranter tx of None \<Rightarrow> ftx_FeePayer tx | Some g \<Rightarrow> g)"

definition fa_balance :: "'w fa_Keeper \<Rightarrow> ('w, 'b, 's) fa_state \<Rightarrow> addr \<Rightarrow> string \<Rightarrow> int" where
  "fa_balance k st a d = bank_GetBalance (fak_bank k) (fas_world st) a d"

lemma ConvertNativeFee_payable:
  assumes erc20: "erc20_laws (fak_erc20 k) (fak_bank k) esc" and coins: "coin_rules (fak_checks k)"
    and run: "ConvertNativeFee k a [f] st = Inr (cs, st')" and ts: "fas_FeeTokens st = Some ts"
  shows "\<exists>w. st' = st\<lparr>fas_world := w\<rparr> \<and>
    (\<forall>x d. x \<noteq> a \<longrightarrow> x \<noteq> esc \<longrightarrow> bank_GetBalance (fak_bank k) w x d = fa_balance k st x d) \<and>
    (cs = [f] \<or> (\<exists>t n. t \<in> set ts \<and> ft_Enabled t \<and> equivalent (fak_dec k) (coin_Amount f) t = Inr n \<and> 0 < n \<and>
       cs = [\<lparr>coin_Denom = ft_Denom t, coin_Amount = n\<rparr>]))"
proof -
  obtain p where p: "fas_Params st = Some p"
    using run by (auto simp: ConvertNativeFee_def res_simps)
  show ?thesis
  proof (cases "needs_conversion k p a [f] (fas_world st)")
    case False
    then have "cs = [f]" "st' = st" using run by (simp_all add: ConvertNativeFee_unchanged [OF p])
    then show ?thesis by (intro exI [of _ "fas_world st"]) (simp add: fa_balance_def)
  next
    case True
    obtain w where w: "convert_with k a f ts (fas_world st) = Inr (cs, w)" "st' = st\<lparr>fas_world := w\<rparr>"
      using run by (auto simp: ConvertNativeFee_needed [OF p True] ts res_simps)
    obtain pre t post n c where t: "ts = pre @ t # post" "ft_Enabled t"
      "equivalent (fak_dec k) (coin_Amount f) t = Inr n" "n \<noteq> 0" "conversion k a t n (fas_world st) w"
      "NewCoin (fak_checks k) (ft_Denom t) n = Inr c" "cs = [c]"
      using convert_with_Inr [OF w(1)] by blast
    have c: "c = \<lparr>coin_Denom = ft_Denom t, coin_Amount = n\<rparr>" "0 < n"
      using NewCoin_amount [OF coins t(6)] t(4) by auto
    show ?thesis
      by (rule exI [of _ w])
        (use w(2) t c conversion_balance(2) [OF erc20 t(5)] in \<open>auto simp: fa_balance_def\<close>)
  qed
qed

context fee_env
begin

lemma use_grant_Inr:
  assumes "use_grant dfd tx fee st = Inr (a, st1)"
  shows "a = fee_payer tx \<and> (\<exists>w. st1 = st\<lparr>fas_world := w\<rparr> \<and>
    bank_GetBalance (fak_bank k) w = bank_GetBalance (fak_bank k) (fas_world st))"
proof (cases "ftx_FeeGranter tx")
  case None
  with assms show ?thesis
    by (intro conjI exI [of _ "fas_world st"]) (auto simp: use_grant_def fee_payer_def)
next
  case (Some g)
  show ?thesis
  proof (cases "g = ftx_FeePayer tx")
    case True
    with assms Some show ?thesis
      by (intro conjI exI [of _ "fas_world st"])
        (auto simp: use_grant_def fee_payer_def split: option.splits)
  next
    case False
    with assms Some obtain use w where "dfd_UseGrantedFees dfd = Some use"
      "use g (ftx_FeePayer tx) fee (fas_world st) = Inr w" "a = g" "st1 = st\<lparr>fas_world := w\<rparr>"
      by (auto simp: use_grant_def res_simps split: option.splits)
    then show ?thesis
      using grants Some by (intro conjI exI [of _ w]) (auto simp: fee_payer_def)
  qed
qed

lemma checkDeductFee_pays:
  assumes run: "checkDeductFee dfd k tx [f] st = Inr st'" and f: "coin_Amount f \<noteq> 0"
    and ts: "fas_FeeTokens st = Some ts" and col: "col \<noteq> fee_payer tx"
  shows "\<exists>c w. st' = st\<lparr>fas_world := w\<rparr> \<and>
    (c = f \<or> (\<exists>t n. t \<in> set ts \<and> ft_Enabled t \<and> equivalent (fak_dec k) (coin_Amount f) t = Inr n \<and> 0 < n \<and>
       c = \<lparr>coin_Denom = ft_Denom t, coin_Amount = n\<rparr>)) \<and>
    (\<forall>d. fa_balance k st' col d = fa_balance k st col d + amount_of [c] d) \<and>
    (\<forall>x d. x \<notin> {fee_payer tx, col, esc} \<longrightarrow> fa_balance k st' x d = fa_balance k st x d)"
proof -
  let ?a = "fee_payer tx" and ?bal = "bank_GetBalance (fak_bank k)"
  obtain a st1 acc cs st2 w where r: "use_grant dfd tx [f] st = Inr (a, st1)"
    "dfd_GetAccount dfd (fas_world st1) a = Some acc" "ConvertNativeFee k acc [f] st1 = Inr (cs, st2)"
    "dfd_DeductFees dfd acc cs (fas_world st2) = Inr w" "st' = st2\<lparr>fas_world := w\<rparr>"
    using run f by (auto simp: checkDeductFee_def res_simps split: if_splits)
  obtain w1 where w1: "a = ?a" "st1 = st\<lparr>fas_world := w1\<rparr>" "?bal w1 = ?bal (fas_world st)"
    using use_grant_Inr [OF r(1)] by blast
  have acc: "acc = ?a" using account [OF r(2)] w1(1) by simp
  have "fas_FeeTokens st1 = Some ts" using ts w1(2) by simp
  from ConvertNativeFee_payable [OF erc20 coins r(3) this] obtain w2 where w2: "st2 = st1\<lparr>fas_world := w2\<rparr>"
    "\<forall>x d. x \<noteq> acc \<longrightarrow> x \<noteq> esc \<longrightarrow> ?bal w2 x d = fa_balance k st1 x d"
    "cs = [f] \<or> (\<exists>t n. t \<in> set ts \<and> ft_Enabled t \<and> equivalent (fak_dec k) (coin_Amount f) t = Inr n \<and> 0 < n \<and>
       cs = [\<lparr>coin_Denom = ft_Denom t, coin_Amount = n\<rparr>])"
    by blast
  obtain c where c: "cs = [c]" "c = f \<or> (\<exists>t n. t \<in> set ts \<and> ft_Enabled t \<and>
      equivalent (fak_dec k) (coin_Amount f) t = Inr n \<and> 0 < n \<and> c = \<lparr>coin_Denom = ft_Denom t, coin_Amount = n\<rparr>)"
    using w2(3) by blast
  have st': "st' = st\<lparr>fas_world := w\<rparr>" by (simp add: r(5) w2(1) w1(2))
  have m: "moved (fak_bank k) ?a col [c] w2 w"
    using deduct [OF r(4)] by (simp add: acc c(1) w2(1))
  have same: "?bal w2 x d = ?bal (fas_world st) x d" if "x \<noteq> ?a" "x \<noteq> esc" for x d
    using w2(2) that by (simp add: acc fa_balance_def w1(2,3))
  have bal: "fa_balance k st' x d = ?bal w x d" for x d by (simp add: fa_balance_def st')
  show ?thesis
  proof (intro exI [of _ c] exI [of _ w] conjI allI impI st' c(2))
    show "fa_balance k st' col d = fa_balance k st col d + amount_of [c] d" for d
      using m col apart same [of col d] unfolding bal by (simp add: moved_def fa_balance_def)
    show "fa_balance k st' x d = fa_balance k st x d" if "x \<notin> {?a, col, esc}" for x d
      using m that same [of x d] unfolding bal by (simp add: moved_def fa_balance_def)
  qed
qed

end

text \<open>A transaction that is not simulated reaches the next handler only with positive gas (after
  the first block) and with its fee paid: the fee collector has received exactly one coin, the
  fee the checker asks for or the rounded equivalent of it in an enabled fee token; only the
  balances of the payer (the granter, when there is one), the collector and the ERC-20 escrow
  have changed, and nothing else of the module.\<close>

lemma DeductFee_correct:
  assumes "fee_env dfd k col esc" "dfd_txFeeChecker dfd c tx = Inr ([f], priority)" "coin_Amount f \<noteq> 0"
    and "fas_FeeTokens st = Some ts" "col \<noteq> fee_payer tx"
    and "DeductFee_AnteHandle dfd k c (Some tx) False next_handler st = Inr r"
  shows "(0 < BlockHeight c \<longrightarrow> ftx_Gas tx \<noteq> 0) \<and>
    (\<exists>paid w st'. next_handler priority st' = Inr r \<and> st' = st\<lparr>fas_world := w\<rparr> \<and>
      (paid = f \<or> (\<exists>t n. t \<in> set ts \<and> ft_Enabled t \<and>
         equivalent (fak_dec k) (coin_Amount f) t = Inr n \<and> 0 < n \<and>
         paid = \<lparr>coin_Denom = ft_Denom t, coin_Amount = n\<rparr>)) \<and>
      (\<forall>d. fa_balance k st' col d = fa_balance k st col d + amount_of [paid] d) \<and>
      (\<forall>x d. x \<notin> {fee_payer tx, col, esc} \<longrightarrow> fa_balance k st' x d = fa_balance k st x d))"
proof -
  obtain st' where st': "checkDeductFee dfd k tx [f] st = Inr st'" "next_handler priority st' = Inr r"
    "0 < BlockHeight c \<longrightarrow> ftx_Gas tx \<noteq> 0"
    using assms(2,6) by (auto simp: DeductFee_AnteHandle_def res_simps split: if_splits)
  show ?thesis
    using fee_env.checkDeductFee_pays [OF assms(1) st'(1) assms(3-5)] st'(2,3) by blast
qed

definition toy_dfd :: "ledger DeductFeeDecorator" where
  "toy_dfd =
     \<lparr>dfd_GetModuleAddress = (\<lambda>m. Some (lg_module m)), dfd_GetAccount = (\<lambda>w a. Some a),
      dfd_UseGrantedFees = None, dfd_txFeeChecker = (\<lambda>c tx. Inr (ftx_Fee tx, 7)),
      dfd_DeductFees = (\<lambda>a. lg_send a (lg_module FeeCollectorName))\<rparr>"

interpretation toy_fees: fee_env toy_dfd toy_fa "lg_module FeeCollectorName" "''escrow''"
proof (rule fee_env.intro)
  show "erc20_laws (fak_erc20 toy_fa) (fak_bank toy_fa) ''escrow''"
    by (simp add: toy_fa_def toy_erc20.erc20_laws_axioms)
  show "coin_rules (fak_checks toy_fa)"
    by (simp add: toy_fa_def toy_coins.coin_rules_axioms)
  show "dfd_DeductFees toy_dfd a cs w = Inr w' \<Longrightarrow> moved (fak_bank toy_fa) a (lg_module FeeCollectorName) cs w w'"
    for a cs w w'
    using ledger.send [of a "lg_module FeeCollectorName" cs w w'] by (simp add: toy_dfd_def toy_fa_def ledger_bank_def)
qed (simp_all add: toy_dfd_def FeeCollectorName_def lg_module_def)

definition toy_fee_tx :: fee_tx where
  "toy_fee_tx = \<lparr>ftx_Gas = 100000, ftx_Fee = toy_fee, ftx_FeePayer = ''ann'', ftx_FeeGranter = None\<rparr>"

lemma DeductFee_correct_witness:
  "\<exists>st'. DeductFee_AnteHandle toy_dfd toy_fa (sample_ctx 10 5010) (Some toy_fee_tx) False
      (\<lambda>priority st. Inr (priority, st)) toy_fa_state = Inr (7, st') \<and>
     fa_balance toy_fa st' (lg_module FeeCollectorName) ''uusdc'' = 500000 \<and>
     fa_balance toy_fa st' ''bob'' ''uusdc'' = 0"
proof -
  let ?col = "lg_module FeeCollectorName" and ?coin = "\<lparr>coin_Denom = ''uusdc'', coin_Amount = 500000\<rparr>"
  obtain w where w: "ConvertNativeFee toy_fa ''ann'' toy_fee toy_fa_state = Inr ([?coin], toy_fa_state\<lparr>fas_world := w\<rparr>)"
    "lg_bal w ''ann'' ''uusdc'' = 500000" "lg_bal w ?col ''uusdc'' = 0"
    using toy_conversion by blast
  obtain w' where w': "lg_send ''ann'' ?col [?coin] w = Inr w'"
    using w(2) by (simp add: lg_send_def covered_def)
  have run: "DeductFee_AnteHandle toy_dfd toy_fa (sample_ctx 10 5010) (Some toy_fee_tx) False
      (\<lambda>priority st. Inr (priority, st)) toy_fa_state = Inr (7, toy_fa_state\<lparr>fas_world := w'\<rparr>)"
    using w(1) w' by (simp add: DeductFee_AnteHandle_def checkDeductFee_def use_grant_def toy_dfd_def toy_fee_tx_def
        toy_fee_def)
  have h: "dfd_txFeeChecker toy_dfd (sample_ctx 10 5010) toy_fee_tx = Inr ([hd toy_fee], 7)"
    "coin_Amount (hd toy_fee) \<noteq> 0" "fas_FeeTokens toy_fa_state = Some [toy_off, toy_usdc]" "?col \<noteq> fee_payer toy_fee_tx"
    by (simp_all add: toy_dfd_def toy_fee_tx_def toy_fee_def toy_fa_state_def fee_payer_def lg_module_def)
  have bob: "''bob'' \<notin> {fee_payer toy_fee_tx, ?col, ''escrow''}"
    by (simp add: fee_payer_def toy_fee_tx_def lg_module_def)
  obtain v st' where v: "(7, toy_fa_state\<lparr>fas_world := w'\<rparr>) = (7 :: int, st')" "st' = toy_fa_state\<lparr>fas_world := v\<rparr>"
    "\<forall>x d. x \<notin> {fee_payer toy_fee_tx, ?col, ''escrow''} \<longrightarrow>
       fa_balance toy_fa st' x d = fa_balance toy_fa toy_fa_state x d"
    using DeductFee_correct [OF toy_fees.fee_env_axioms h run] by auto
  have "fa_balance toy_fa st' ''bob'' ''uusdc'' = fa_balance toy_fa toy_fa_state ''bob'' ''uusdc''"
    using v(3) bob by blast
  also have "\<dots> = 0" by (simp add: fa_balance_def toy_fa_def toy_fa_state_def ledger_bank_def)
  finally have "fa_balance toy_fa st' ''bob'' ''uusdc'' = 0" .
  moreover have "fa_balance toy_fa (toy_fa_state\<lparr>fas_world := w'\<rparr>) ?col ''uusdc'' = 500000"
    using w' w(3) by (auto simp: fa_balance_def toy_fa_def ledger_bank_def lg_send_def lg_module_def split: if_splits)
  ultimately show ?thesis using run v(1) by auto
qed

end
