(* ===== verification/FeeAbsPrice.thy ===== *)
theory FeeAbsPrice
  imports FeeAbsProps
begin

text \<open>
  The prices of the fee tokens: every outcome of a begin blocker, with the bounds of the clamp,
  the zero average of the native token that stops the chain, and the genesis states that an
  export produces.
\<close>

section \<open>One token\<close>

definition token_twap :: "(string, dec) kv \<Rightarrow> FeeTokenMetadata \<Rightarrow> dec" where
  "token_twap tw t = (case kv_get tw (ft_OracleDenom t) of None \<Rightarrow> 0 | Some q \<Rightarrow> q)"

definition clamped :: "dec \<Rightarrow> dec \<Rightarrow> dec \<Rightarrow> dec \<Rightarrow> bool" where
  \<comment> \<open>\<open>y\<close> is the price for the quotient \<open>x\<close> and the previous price \<open>p\<close>, within half a unit\<close>
  "clamped p cf x y \<longleftrightarrow>
     (if p = 0 \<or> cf = 0 then y = x
      else 2 * dec_unit * \<bar>y - p\<bar> \<le> 2 * p * cf + dec_unit \<and>
        (y < x \<longrightarrow> 2 * p * (dec_unit + cf) - dec_unit \<le> 2 * dec_unit * y) \<and>
        (x < y \<longrightarrow> 2 * dec_unit * y \<le> 2 * p * (dec_unit - cf) + dec_unit))"

definition repriced :: "dec_ops \<Rightarrow> (string, dec) kv \<Rightarrow> dec \<Rightarrow> dec \<Rightarrow> FeeTokenMetadata \<Rightarrow> FeeTokenMetadata \<Rightarrow> bool" where
  "repriced D tw base cf t t' \<longleftrightarrow>
     (if \<not> ft_Enabled t then t' = t
      else if token_twap tw t = 0 then t' = t\<lparr>ft_Enabled := False, ft_Price := 0\<rparr>
      else \<exists>x y. dec_Quo D base (token_twap tw t) = Inr x \<and> 0 \<le> y \<and> clamped (ft_Price t) cf x y \<and>
        t' = t\<lparr>ft_Price := y\<rparr>)"

lemma near_split:
  fixes a b u :: int
  shows "2 * \<bar>a - b\<bar> \<le> u \<Longrightarrow> 2 * a \<le> 2 * b + u \<and> 2 * b - u \<le> 2 * a"
  by arith

lemma clamp_arith:
  fixes u p cf lo hi :: int
  assumes "2 * \<bar>u * lo - p * (u - cf)\<bar> \<le> u" "2 * \<bar>u * hi - p * (u + cf)\<bar> \<le> u"
  shows "2 * u * lo \<le> 2 * p * u - 2 * p * cf + u" "2 * p * u - 2 * p * cf - u \<le> 2 * u * lo"
    and "2 * u * hi \<le> 2 * p * u + 2 * p * cf + u" "2 * p * u + 2 * p * cf - u \<le> 2 * u * hi"
  using near_split [OF assms(1)] near_split [OF assms(2)] by (simp_all add: algebra_simps)

context release_dec
begin

lemma ClampPrice_total:
  assumes p: "0 \<le> p" "p \<le> 2 ^ 128" and cf: "0 \<le> cf" "cf \<le> dec_unit" and x: "0 \<le> x"
  shows "\<exists>y. ClampPrice D p x cf = Inr y \<and> 0 \<le> y \<and> clamped p cf x y"
proof (cases "p = 0 \<or> cf = 0")
  case True
  then show ?thesis using x by (simp add: ClampPrice_def clamped_def)
next
  case False
  let ?u = dec_unit
  have u: "0 < ?u" "?u \<le> 2 ^ 60" by (rule unit_bound)+
  have "\<bar>p * (?u - cf)\<bar> \<le> 2 ^ 128 * (2 ^ 60 + 2 ^ 60)" "\<bar>p * (?u + cf)\<bar> \<le> 2 ^ 128 * (2 ^ 60 + 2 ^ 60)"
    using p cf u by (intro abs_mult_le; simp)+
  then have "\<bar>p * (?u - cf)\<bar> < 2 ^ 315" "\<bar>p * (?u + cf)\<bar> < 2 ^ 315" by simp_all
  then obtain lo hi where m: "dec_Mul D p (?u - cf) = Inr lo" "dec_Mul D p (?u + cf) = Inr hi"
    using mul_total by meson
  have s: "dec_Sub D ?u cf = Inr (?u - cf)" "dec_Add D ?u cf = Inr (?u + cf)"
    using cf u by (intro sub_total add_total; simp)+
  have lo: "0 \<le> lo" using mul_sign [OF m(1)] p(1) cf by simp
  have hi: "0 \<le> hi" using mul_sign [OF m(2)] p(1) cf u by simp
  note b = clamp_arith [OF mul_nearest [OF m(1)] mul_nearest [OF m(2)]]
  have pc: "0 < p * cf" using False p cf by simp
  define y where "y = (if x < lo then lo else if hi < x then hi else x)"
  have run: "ClampPrice D p x cf = Inr y"
    using False m s by (simp add: ClampPrice_def y_def)
  have lohi: "lo \<le> hi" by (rule mul_mono [OF m p(1)]) (use cf in simp)
  have yb: "lo \<le> y" "y \<le> hi" using lohi by (auto simp: y_def)
  have "2 * ?u * lo \<le> 2 * ?u * y" "2 * ?u * y \<le> 2 * ?u * hi" using yb u by simp_all
  then have "2 * ?u * y - 2 * ?u * p \<le> 2 * p * cf + ?u" "2 * ?u * p - 2 * ?u * y \<le> 2 * p * cf + ?u"
    using b by (simp_all only: mult.assoc mult.commute mult.left_commute)
  then have "2 * ?u * \<bar>y - p\<bar> \<le> 2 * p * cf + ?u"
    by (cases "p \<le> y") (simp_all add: right_diff_distrib)
  moreover have "2 * p * (?u + cf) - ?u \<le> 2 * ?u * y" if "y < x"
  proof -
    have "y = hi" using that by (auto simp: y_def split: if_splits)
    then show ?thesis using b(4) by (simp add: algebra_simps)
  qed
  moreover have "2 * ?u * y \<le> 2 * p * (?u - cf) + ?u" if "x < y"
  proof -
    have "y = lo" using that lohi by (auto simp: y_def split: if_splits)
    then show ?thesis using b(1) by (simp add: algebra_simps)
  qed
  ultimately have "clamped p cf x y" using False by (simp add: clamped_def)
  with run yb(1) lo show ?thesis by auto
qed

lemma price_token_total:
  assumes "0 \<le> ft_Price t" "ft_Price t \<le> 2 ^ 128" and cf: "0 \<le> cf" "cf \<le> dec_unit"
    and base: "0 < base" "base \<le> 2 ^ 128" and tw: "0 \<le> token_twap tw t"
  shows "\<exists>t'. price_token D tw base cf t = Inr t' \<and> repriced D tw base cf t t'"
proof (cases "ft_Enabled t \<and> token_twap tw t \<noteq> 0")
  case True
  have "\<bar>base * dec_unit * dec_unit\<bar> \<le> 2 ^ 128 * 2 ^ 60 * 2 ^ 60"
    using base unit_bound by (intro abs_mult_le; simp)
  then have "\<bar>base * dec_unit * dec_unit\<bar> < 2 ^ 315" by simp
  then obtain x where x: "dec_Quo D base (token_twap tw t) = Inr x"
    using quo_total True by blast
  have "0 \<le> x" using quo_nonneg [OF x] base(1) tw True by simp
  then obtain y where y: "ClampPrice D (ft_Price t) x cf = Inr y" "0 \<le> y" "clamped (ft_Price t) cf x y"
    using ClampPrice_total [OF assms(1-4)] by blast
  with True x base(1) show ?thesis
    by (auto simp: price_token_def token_twap_def [symmetric] CalculateTokenPrice_def repriced_def)
qed (auto simp: price_token_def token_twap_def [symmetric] repriced_def)

lemma price_tokens_total:
  assumes "\<forall>t \<in> set ts. 0 \<le> ft_Price t \<and> ft_Price t \<le> 2 ^ 128 \<and> 0 \<le> token_twap tw t"
    and cf: "0 \<le> cf" "cf \<le> dec_unit" and base: "0 < base" "base \<le> 2 ^ 128"
  shows "\<exists>ts'. mapR (price_token D tw base cf) ts = Inr ts' \<and> list_all2 (repriced D tw base cf) ts ts'"
  using assms(1)
proof (induction ts)
  case (Cons t ts)
  obtain t' where "price_token D tw base cf t = Inr t'" "repriced D tw base cf t t'"
    using price_token_total [OF _ _ cf base, of t tw] Cons.prems by fastforce
  with Cons show ?case by auto
qed simp

end

text \<open>With a base price of zero the first enabled token that has an average fails.\<close>

lemma price_token_base_0:
  "price_token D tw 0 cf t =
     (if ft_Enabled t \<and> token_twap tw t \<noteq> 0 then Inl ErrInvalidRequest
      else Inr (if ft_Enabled t then t\<lparr>ft_Enabled := False, ft_Price := 0\<rparr> else t))"
  by (simp add: price_token_def token_twap_def [symmetric] CalculateTokenPrice_def)

lemma price_tokens_base_0:
  "mapR (price_token D tw 0 cf) ts =
     (if list_ex (\<lambda>t. ft_Enabled t \<and> token_twap tw t \<noteq> 0) ts then Inl ErrInvalidRequest
      else Inr (map (\<lambda>t. if ft_Enabled t then t\<lparr>ft_Enabled := False, ft_Price := 0\<rparr> else t) ts))"
  by (induction ts) (simp_all add: price_token_base_0)

section \<open>A block\<close>

text \<open>The averages the code uses, none when they cannot be computed, and the price of the native
  token.\<close>

definition fa_twaps :: "'w fa_Keeper \<Rightarrow> ctx \<Rightarrow> ('w, 'b, 's) fa_state \<Rightarrow> fa_Params \<Rightarrow> (string, dec) kv" where
  "fa_twaps k c st p =
     (case CalculateTwaps (fak_dec k) c (fas_oracle st) (TwapLookbackWindow p) of
        Inl _ \<Rightarrow> [] | Inr twaps \<Rightarrow> twap_prices twaps)"

definition native_price :: "fa_Params \<Rightarrow> (string, dec) kv \<Rightarrow> dec" where
  "native_price p tw = (case kv_get tw (NativeOracleDenom p) of None \<Rightarrow> FallbackNativePrice p | Some b \<Rightarrow> b)"

definition twaps_run :: "'w fa_Keeper \<Rightarrow> ctx \<Rightarrow> ('w, 'b, 's) fa_state \<Rightarrow> fa_Params \<Rightarrow> bool" where
  \<comment> \<open>computing the averages does not panic\<close>
  "twaps_run k c st p \<longleftrightarrow>
     (\<forall>m. CalculateTwaps (fak_dec k) c (fas_oracle st) (TwapLookbackWindow p) \<noteq> Inl (Panic m))"

lemma fa_BeginBlocker_run:
  assumes "fas_Params st = Some p" "fa_Enabled p" "fas_FeeTokens st = Some ts" "twaps_run k c st p"
  shows "fa_BeginBlocker k c st =
    bindR (mapR (price_token (fak_dec k) (fa_twaps k c st p) (native_price p (fa_twaps k c st p)) (ClampFactor p)) ts)
      (\<lambda>ts'. Inr (st\<lparr>fas_FeeTokens := Some ts'\<rparr>))"
proof -
  have "\<exists>twaps. twaps_or_none (CalculateTwaps (fak_dec k) c (fas_oracle st) (TwapLookbackWindow p)) = Inr twaps \<and>
      twap_prices twaps = fa_twaps k c st p"
  proof (cases "CalculateTwaps (fak_dec k) c (fas_oracle st) (TwapLookbackWindow p)")
    case (Inl e)
    then show ?thesis
      using assms(4) by (cases e) (auto simp: twaps_or_none_def fa_twaps_def twap_prices_def twaps_run_def)
  qed (simp add: twaps_or_none_def fa_twaps_def)
  then obtain twaps where
    "twaps_or_none (CalculateTwaps (fak_dec k) c (fas_oracle st) (TwapLookbackWindow p)) = Inr twaps"
    "twap_prices twaps = fa_twaps k c st p" by blast
  then show ?thesis
    using assms
    by (cases "mapR (price_token (fak_dec k) (fa_twaps k c st p) (native_price p (fa_twaps k c st p)) (ClampFactor p)) ts")
      (simp_all add: fa_BeginBlocker_def CalculateFeeTokenPrices_def Let_def calculatePriceTokens_def
        native_price_def [symmetric])
qed

definition prices_in_range :: "(string, dec) kv \<Rightarrow> FeeTokenMetadata list \<Rightarrow> bool" where
  "prices_in_range tw ts \<longleftrightarrow>
     (\<forall>t \<in> set ts. 0 \<le> ft_Price t \<and> ft_Price t \<le> 2 ^ 128 \<and> 0 \<le> token_twap tw t)"

text \<open>C28: As long as the native token has a price, a block of the enabled module succeeds and changes
  nothing but the fee tokens: a disabled token stays as it is, an enabled token without an
  average is disabled with price zero, and any other gets the quotient of the native price and
  its average, clamped to within the clamp factor of the previous price (up to the rounding of
  one multiplication), so that a price is never negative.\<close>

theorem fa_BeginBlocker_correct:
  assumes "release_dec (fak_dec k)" "fas_Params st = Some p" "fa_Enabled p" "fas_FeeTokens st = Some ts"
    and "twaps_run k c st p" "0 \<le> ClampFactor p" "ClampFactor p \<le> dec_unit"
    and "prices_in_range (fa_twaps k c st p) ts"
    and "0 < native_price p (fa_twaps k c st p)" "native_price p (fa_twaps k c st p) \<le> 2 ^ 128"
  shows "\<exists>ts'. fa_BeginBlocker k c st = Inr (st\<lparr>fas_FeeTokens := Some ts'\<rparr>) \<and>
    list_all2 (repriced (fak_dec k) (fa_twaps k c st p) (native_price p (fa_twaps k c st p)) (ClampFactor p)) ts ts'"
  using release_dec.price_tokens_total [OF assms(1) _ assms(6,7,9,10), of ts "fa_twaps k c st p"] assms(8)
  by (auto simp: fa_BeginBlocker_run [OF assms(2-5)] prices_in_range_def)

text \<open>Two oracles: in \<open>kii_up\<close> the native token has gone up, in \<open>kii_new\<close> it has its first price in the
  second of the block.\<close>

definition toy_oracle :: "(int \<times> (string \<times> dec) list) list \<Rightarrow> (ledger, toy_staking) oracle_state" where
  \<comment> \<open>vote targets KII and USDC, and a snapshot per time\<close>
  "toy_oracle snaps = sample_state
     \<lparr>ork_VoteTarget := [(''kii'', \<lparr>Name = ''kii''\<rparr>), (''uusdc'', \<lparr>Name = ''uusdc''\<rparr>)],
      ork_PriceSnapshot := map (\<lambda>(t, rates). (t, NewPriceSnapshot t
        (map (\<lambda>(d, r). NewPriceSnapshotItem d (sample_rate r)) rates))) snaps\<rparr>"

definition toy_priced :: "(int \<times> (string \<times> dec) list) list \<Rightarrow> (ledger, ledger, toy_staking) fa_state" where
  "toy_priced snaps = toy_fa_state\<lparr>fas_oracle := toy_oracle snaps\<rparr>"

definition kii_up :: "(int \<times> (string \<times> dec) list) list" where
  "kii_up = [(5000, [(''kii'', dec_with_prec 30 2), (''uusdc'', dec_with_prec 100 2)])]"

definition kii_new :: "(int \<times> (string \<times> dec) list) list" where
  "kii_new = [(5000, [(''uusdc'', dec_with_prec 100 2)]),
     (5010, [(''kii'', dec_with_prec 30 2), (''uusdc'', dec_with_prec 100 2)])]"

lemma toy_twaps:
  "CalculateTwaps legacy_dec (sample_ctx 10 5010) (toy_oracle kii_up) 120 =
     Inr [\<lparr>twap_Denom = ''kii'', Twap = dec_with_prec 30 2, LookbackSeconds = 10\<rparr>,
          \<lparr>twap_Denom = ''uusdc'', Twap = dec_with_prec 100 2, LookbackSeconds = 10\<rparr>]"
  "CalculateTwaps legacy_dec (sample_ctx 10 5010) (toy_oracle kii_new) 120 =
     Inr [\<lparr>twap_Denom = ''kii'', Twap = 0, LookbackSeconds = 0\<rparr>,
          \<lparr>twap_Denom = ''uusdc'', Twap = dec_with_prec 100 2, LookbackSeconds = 10\<rparr>]"
  by code_simp+

lemma toy_priced_fields:
  "fas_Params (toy_priced snaps) = Some fa_DefaultParams" "fa_Enabled fa_DefaultParams"
  "fas_FeeTokens (toy_priced snaps) = Some [toy_off, toy_usdc]" "fas_oracle (toy_priced snaps) = toy_oracle snaps"
  "TwapLookbackWindow fa_DefaultParams = 120" "NativeOracleDenom fa_DefaultParams = ''kii''" "fak_dec toy_fa = legacy_dec"
  by (simp_all add: toy_priced_def toy_fa_state_def fa_DefaultParams_def toy_fa_def)

lemma kii_up_twaps:
  "fa_twaps toy_fa (sample_ctx 10 5010) (toy_priced kii_up) fa_DefaultParams =
     [(''kii'', dec_with_prec 30 2), (''uusdc'', dec_with_prec 100 2)]"
  by (simp add: fa_twaps_def toy_priced_fields toy_twaps twap_prices_def)

theorem fa_BeginBlocker_correct_witness:
  "fa_BeginBlocker toy_fa (sample_ctx 10 5010) (toy_priced kii_up) =
     Inr ((toy_priced kii_up)\<lparr>fas_FeeTokens := Some [toy_off, toy_usdc\<lparr>ft_Price := 275 * 10 ^ 15\<rparr>]\<rparr>)"
proof -
  let ?c = "sample_ctx 10 5010" and ?st = "toy_priced kii_up" and ?p = fa_DefaultParams
  note tw = kii_up_twaps
  have run: "twaps_run toy_fa ?c ?st ?p"
    by (simp add: twaps_run_def toy_priced_fields toy_twaps)
  have tok: "token_twap (fa_twaps toy_fa ?c ?st ?p) toy_usdc = dec_unit" "\<not> ft_Enabled toy_off" "ft_Enabled toy_usdc"
    "token_twap (fa_twaps toy_fa ?c ?st ?p) toy_off = 0" "ft_Price toy_usdc = 25 * 10 ^ 16" "ft_Price toy_off = 0"
    by (simp_all add: tw token_twap_def toy_usdc_def toy_off_def NewFeeTokenMetadata_def dec_with_prec_def dec_unit_def)
  have np: "native_price ?p (fa_twaps toy_fa ?c ?st ?p) = 3 * 10 ^ 17"
    by (simp add: tw native_price_def toy_priced_fields dec_with_prec_def)
  have cf: "ClampFactor ?p = 10 ^ 17" by (simp add: fa_DefaultParams_def dec_with_prec_def)
  have rd: "release_dec (fak_dec toy_fa)" by (simp add: toy_priced_fields legacy_release.release_dec_axioms)
  have range: "prices_in_range (fa_twaps toy_fa ?c ?st ?p) [toy_off, toy_usdc]"
    by (simp add: prices_in_range_def tok dec_unit_def)
  obtain ts' where r: "fa_BeginBlocker toy_fa ?c ?st = Inr (?st\<lparr>fas_FeeTokens := Some ts'\<rparr>)"
    "list_all2 (repriced (fak_dec toy_fa) (fa_twaps toy_fa ?c ?st ?p) (3 * 10 ^ 17) (10 ^ 17)) [toy_off, toy_usdc] ts'"
    using fa_BeginBlocker_correct [OF rd toy_priced_fields(1-3) run] range np
    by (auto simp: cf dec_unit_def)
  obtain t1 t2 where ts': "ts' = [t1, t2]" using r(2) by (auto simp: list_all2_Cons1)
  have "t1 = toy_off" using r(2) tok by (simp add: ts' repriced_def)
  obtain x y where xy: "dec_Quo legacy_dec (3 * 10 ^ 17) dec_unit = Inr x" "clamped (25 * 10 ^ 16) (10 ^ 17) x y"
    "t2 = toy_usdc\<lparr>ft_Price := y\<rparr>"
    using r(2) tok by (auto simp: ts' repriced_def toy_priced_fields dec_unit_def)
  have "x = 3 * 10 ^ 17" using xy(1) by (simp add: legacy_dec_def dec_unit_def tdiv_def round_half_even_def dec_chk_def)
  then have "y = 275 * 10 ^ 15" using xy(2) by (simp add: clamped_def dec_unit_def) arith
  then show ?thesis using r(1) by (simp add: ts' \<open>t1 = toy_off\<close> xy(3))
qed

text \<open>C29: When the average of the native token is recorded but zero, the block fails as soon as an
  enabled token has an average that is not zero: the fallback price is used only when the
  average is missing.\<close>

theorem fa_BeginBlocker_stops:
  assumes "fas_Params st = Some p" "fa_Enabled p" "fas_FeeTokens st = Some ts"
    and "CalculateTwaps (fak_dec k) c (fas_oracle st) (TwapLookbackWindow p) = Inr twaps"
    and "kv_get (twap_prices twaps) (NativeOracleDenom p) = Some 0"
  shows "fa_BeginBlocker k c st = Inl ErrInvalidRequest \<longleftrightarrow>
    list_ex (\<lambda>t. ft_Enabled t \<and> token_twap (twap_prices twaps) t \<noteq> 0) ts"
proof -
  have run: "twaps_run k c st p" using assms(4) by (simp add: twaps_run_def)
  have tw: "fa_twaps k c st p = twap_prices twaps" using assms(4) by (simp add: fa_twaps_def)
  then have "native_price p (fa_twaps k c st p) = 0" using assms(5) by (simp add: native_price_def)
  then show ?thesis
    by (simp add: fa_BeginBlocker_run [OF assms(1-3) run] price_tokens_base_0 tw)
qed

theorem fa_BeginBlocker_stops_witness:
  "fa_BeginBlocker toy_fa (sample_ctx 10 5010) (toy_priced kii_new) = Inl ErrInvalidRequest"
proof -
  let ?tw = "[\<lparr>twap_Denom = ''kii'', Twap = 0, LookbackSeconds = 0\<rparr>,
    \<lparr>twap_Denom = ''uusdc'', Twap = dec_with_prec 100 2, LookbackSeconds = 10\<rparr>]"
  have run: "CalculateTwaps (fak_dec toy_fa) (sample_ctx 10 5010) (fas_oracle (toy_priced kii_new))
      (TwapLookbackWindow fa_DefaultParams) = Inr ?tw"
    by (simp add: toy_priced_fields toy_twaps)
  have native: "kv_get (twap_prices ?tw) (NativeOracleDenom fa_DefaultParams) = Some 0"
    by (simp add: toy_priced_fields twap_prices_def)
  have "list_ex (\<lambda>t. ft_Enabled t \<and> token_twap (twap_prices ?tw) t \<noteq> 0) [toy_off, toy_usdc]"
    by (simp add: token_twap_def twap_prices_def toy_usdc_def NewFeeTokenMetadata_def dec_with_prec_def)
  then show ?thesis
    using fa_BeginBlocker_stops [OF toy_priced_fields(1-3) run native] by blast
qed

section \<open>Genesis\<close>

lemma validate_tokens_iff:
  "validate_tokens S seen ts = Inr () \<longleftrightarrow>
     (\<forall>t \<in> set ts. FeeToken_Validate S t = Inr ()) \<and> distinct (map ft_Denom ts) \<and>
     (\<forall>t \<in> set ts. ft_Denom t \<notin> set seen)"
  by (induction ts arbitrary: seen) (auto simp: res_simps rev_image_eqI split: if_splits)

definition token_ok :: "sdk_checks \<Rightarrow> FeeTokenMetadata \<Rightarrow> bool" where
  "token_ok S t \<longleftrightarrow> sc_ValidateDenom S (ft_Denom t) = Inr () \<and> sc_ValidateDenom S (ft_OracleDenom t) = Inr () \<and>
     1 \<le> ft_Decimals t \<and> ft_Decimals t \<le> 18"

lemma FeeToken_Validate_iff: "FeeToken_Validate S t = Inr () \<longleftrightarrow> token_ok S t \<and> 0 < ft_Price t"
  by (auto simp: FeeToken_Validate_def token_ok_def res_simps)

lemma validate_tokens_ok:
  assumes "distinct (map ft_Denom ts)" "\<forall>t \<in> set ts. token_ok S t" "\<forall>t \<in> set ts. ft_Denom t \<notin> set seen"
  shows "validate_tokens S seen ts =
    (if list_all (\<lambda>t. 0 < ft_Price t) ts then Inr () else Inl ErrInvalidFeeTokenMetadata)"
  using assms
proof (induction ts arbitrary: seen)
  case (Cons t ts)
  have v: "FeeToken_Validate S t = (if 0 < ft_Price t then Inr () else Inl ErrInvalidFeeTokenMetadata)"
    using Cons.prems(2) by (auto simp: FeeToken_Validate_def token_ok_def)
  have "validate_tokens S (ft_Denom t # seen) ts =
      (if list_all (\<lambda>t. 0 < ft_Price t) ts then Inr () else Inl ErrInvalidFeeTokenMetadata)"
    by (rule Cons.IH) (use Cons.prems in \<open>auto simp: rev_image_eqI\<close>)
  then show ?case using Cons.prems(3) by (simp add: v)
qed simp

definition fa_inv :: "'w fa_Keeper \<Rightarrow> ('w, 'b, 's) fa_state \<Rightarrow> bool" where
  "fa_inv k st \<longleftrightarrow> (\<exists>p ts. fas_Params st = Some p \<and> fas_FeeTokens st = Some ts \<and>
     fa_Params_Validate (fak_checks k) p = Inr () \<and> distinct (map ft_Denom ts) \<and>
     (\<forall>t \<in> set ts. token_ok (fak_checks k) t))"

text \<open>The states of the module: a genesis, messages, blocks, fees, and whatever other modules do to
  coins, contracts and the oracle.\<close>

inductive fa_reachable :: "'w fa_Keeper \<Rightarrow> ('w, 'b, 's) fa_state \<Rightarrow> bool" for k where
  genesis: "fa_InitGenesis k gs st = Inr st' \<Longrightarrow> fa_reachable k st'"
| params: "fa_reachable k st \<Longrightarrow> fa_UpdateParams k authority p st = Inr st' \<Longrightarrow> fa_reachable k st'"
| tokens: "fa_reachable k st \<Longrightarrow> UpdateFeeTokens k authority items st = Inr st' \<Longrightarrow> fa_reachable k st'"
| block: "fa_reachable k st \<Longrightarrow> fa_BeginBlocker k c st = Inr st' \<Longrightarrow> fa_reachable k st'"
| fee: "fa_reachable k st \<Longrightarrow> ConvertNativeFee k a fees st = Inr (cs, st') \<Longrightarrow> fa_reachable k st'"
| other: "fa_reachable k st \<Longrightarrow> fa_reachable k (st\<lparr>fas_world := w, fas_oracle := o'\<rparr>)"

lemma price_token_keeps:
  "price_token D tw base cf t = Inr t' \<Longrightarrow> ft_Denom t' = ft_Denom t \<and> (token_ok S t' \<longleftrightarrow> token_ok S t)"
  by (auto simp: price_token_def Let_def res_simps token_ok_def split: if_splits)

lemma price_tokens_keep:
  "mapR (price_token D tw base cf) ts = Inr ts' \<Longrightarrow>
     map ft_Denom ts' = map ft_Denom ts \<and> ((\<forall>t \<in> set ts'. token_ok S t) \<longleftrightarrow> (\<forall>t \<in> set ts. token_ok S t))"
proof (induction ts arbitrary: ts')
  case (Cons t ts)
  then obtain u us where u: "price_token D tw base cf t = Inr u" "mapR (price_token D tw base cf) ts = Inr us"
    "ts' = u # us" by (auto simp: res_simps)
  with Cons.IH [OF u(2)] price_token_keeps [OF u(1), of S] show ?case by simp
qed simp

lemma fa_BeginBlocker_inv:
  assumes "fa_BeginBlocker k c st = Inr st'" "fa_inv k st"
  shows "fa_inv k st'"
proof -
  obtain p ts where p: "fas_Params st = Some p" "fas_FeeTokens st = Some ts"
    using assms(2) by (auto simp: fa_inv_def)
  show ?thesis
  proof (cases "fa_Enabled p")
    case True
    obtain tw base ts' where "mapR (price_token (fak_dec k) tw base (ClampFactor p)) ts = Inr ts'"
      "st' = st\<lparr>fas_FeeTokens := Some ts'\<rparr>"
      using assms(1) p True
      by (auto simp: fa_BeginBlocker_def CalculateFeeTokenPrices_def calculatePriceTokens_def Let_def res_simps)
    then show ?thesis
      using assms(2) p price_tokens_keep [of "fak_dec k" tw base "ClampFactor p" ts ts' "fak_checks k"]
      by (simp add: fa_inv_def)
  qed (use assms p in \<open>simp add: fa_BeginBlocker_def\<close>)
qed

lemma ConvertNativeFee_fields:
  "ConvertNativeFee k a fees st = Inr (cs, st') \<Longrightarrow> fas_Params st' = fas_Params st \<and> fas_FeeTokens st' = fas_FeeTokens st"
  by (auto simp: ConvertNativeFee_def Let_def res_simps split: if_splits)

lemma fa_reachable_inv: "fa_reachable k st \<Longrightarrow> fa_inv k st"
proof (induction rule: fa_reachable.induct)
  case (genesis gs st st')
  then show ?case
    by (cases "fag_FeeTokens gs")
      (auto simp: fa_InitGenesis_def fa_Genesis_Validate_def fa_inv_def validate_tokens_iff FeeToken_Validate_iff res_simps)
next
  case (params st authority p st')
  then show ?case
    by (auto simp: fa_UpdateParams_def fa_MsgUpdateParams_Validate_def fa_inv_def res_simps)
next
  case (tokens st authority items st')
  then show ?case
    by (auto simp: UpdateFeeTokens_def MsgUpdateFeeTokens_Validate_def FeeTokens_Validate_def validate_tokens_iff
        FeeToken_Validate_iff fa_inv_def res_simps split: if_splits)
next
  case (block st c st')
  then show ?case by (auto intro: fa_BeginBlocker_inv)
next
  case (fee st a fees cs st')
  then show ?case using ConvertNativeFee_fields [OF fee(2)] by (simp add: fa_inv_def)
qed (simp add: fa_inv_def)

text \<open>In every reachable state the parameters are valid and the fee tokens distinct and well formed
  but for their prices. Its export is imported again, into any state and with the same
  parameters and tokens, exactly when every price is positive; a token the begin blocker has
  disabled has price zero, and with one of those the import of the chain's own export fails.\<close>

lemma fa_genesis_reimport:
  assumes "fa_reachable k st"
  shows "\<exists>p ts. fas_Params st = Some p \<and> fas_FeeTokens st = Some ts \<and> distinct (map ft_Denom ts) \<and>
    fa_ExportGenesis st = Inr (fa_NewGenesisState p (Some ts)) \<and>
    fa_InitGenesis k (fa_NewGenesisState p (Some ts)) st0 =
      (if list_all (\<lambda>t. 0 < ft_Price t) ts
       then Inr (st0\<lparr>fas_Params := Some p, fas_FeeTokens := Some ts\<rparr>)
       else Inl ErrInvalidFeeTokenMetadata)"
proof -
  obtain p ts where p: "fas_Params st = Some p" "fas_FeeTokens st = Some ts"
    "fa_Params_Validate (fak_checks k) p = Inr ()" "distinct (map ft_Denom ts)"
    "\<forall>t \<in> set ts. token_ok (fak_checks k) t"
    using fa_reachable_inv [OF assms] by (auto simp: fa_inv_def)
  have "validate_tokens (fak_checks k) [] ts =
      (if list_all (\<lambda>t. 0 < ft_Price t) ts then Inr () else Inl ErrInvalidFeeTokenMetadata)"
    by (rule validate_tokens_ok) (use p in simp_all)
  then show ?thesis
    using p by (auto simp: fa_ExportGenesis_def fa_NewGenesisState_def fa_InitGenesis_def fa_Genesis_Validate_def)
qed

lemma fa_genesis_reimport_witness:
  "\<exists>st :: (ledger, ledger, toy_staking) fa_state. fa_reachable toy_fa st \<and>
     fas_FeeTokens st = Some [toy_usdc\<lparr>ft_Enabled := False, ft_Price := 0\<rparr>] \<and>
     bindR (fa_ExportGenesis st) (\<lambda>gs. fa_InitGenesis toy_fa gs (toy_priced [])) = Inl ErrInvalidFeeTokenMetadata"
proof -
  let ?gs = "fa_NewGenesisState fa_DefaultParams (Some [toy_usdc])" and ?c = "sample_ctx 10 5010"
  let ?st = "(toy_priced [])\<lparr>fas_Params := Some fa_DefaultParams, fas_FeeTokens := Some [toy_usdc]\<rparr>"
  have "fa_InitGenesis toy_fa ?gs (toy_priced []) = Inr ?st"
  proof -
    have "fa_Genesis_Validate toy_checks ?gs = Inr ()" by code_simp
    then show ?thesis by (simp add: fa_InitGenesis_def toy_fa_def fa_NewGenesisState_def)
  qed
  then have start: "fa_reachable toy_fa ?st" by (rule fa_reachable.genesis)
  have none: "CalculateTwaps legacy_dec ?c (toy_oracle []) 120 = Inl ErrNoTwapData" by code_simp
  have "fa_BeginBlocker toy_fa ?c ?st =
      Inr (?st\<lparr>fas_FeeTokens := Some [toy_usdc\<lparr>ft_Enabled := False, ft_Price := 0\<rparr>]\<rparr>)"
  proof -
    have en: "ft_Enabled toy_usdc" by (simp add: toy_usdc_def NewFeeTokenMetadata_def)
    have tw: "twaps_run toy_fa ?c ?st fa_DefaultParams" "fa_twaps toy_fa ?c ?st fa_DefaultParams = []"
      by (simp_all add: twaps_run_def fa_twaps_def toy_priced_fields none)
    show ?thesis
      using fa_BeginBlocker_run [OF _ _ _ tw(1), of "[toy_usdc]"]
      by (simp add: toy_priced_fields tw(2) price_token_def en)
  qed
  with start have reach: "fa_reachable toy_fa (?st\<lparr>fas_FeeTokens := Some [toy_usdc\<lparr>ft_Enabled := False, ft_Price := 0\<rparr>]\<rparr>)"
    by (rule fa_reachable.block)
  show ?thesis
    by (rule exI [of _ "?st\<lparr>fas_FeeTokens := Some [toy_usdc\<lparr>ft_Enabled := False, ft_Price := 0\<rparr>]\<rparr>"])
      (use fa_genesis_reimport [OF reach, of "toy_priced []"] reach in auto)
qed

end
