(* ===== verification/Ante.thy ===== *)
theory Ante
  imports FeeAbs OracleMsg
begin

text \<open>
  \<open>ante/\<close>: what a transaction passes before its messages run. Fee-less oracle votes, the stake a
  governance voter needs, expedited proposals and the gas of signatures. The decorators of the SDK, of
  \<open>wasmd\<close>, \<open>ibc-go\<close> and \<open>cosmos/evm\<close> are parameters, and so are the staking keeper and the gas
  meter.
\<close>

section \<open>Transactions\<close>

text \<open>The state carries the context: the block, the priority of the transaction and the value of
  \<open>ContextPaidFeesKey\<close>. The content of a legacy proposal is a pointer, and \<open>None\<close> a nil one; an element of
  \<open>MsgExec\<close> that cannot be unpacked is \<open>None\<close>. Every other message is \<open>OtherSdkMsg\<close> with its
  type URL.\<close>

datatype prop_msg = ExecLegacyContent "string option" | PropMsg string

datatype sdk_msg =
    OracleVote MsgAggregateExchangeRateVote
  | GovVoteBeta1 string
  | GovVoteV1 string
  | SubmitProposal bool "prop_msg list"
  | AuthzExec "sdk_msg option list"
  | OtherSdkMsg string

record ante_tx =
  atx_Msgs :: "sdk_msg list"
  atx_FeeTx :: "fee_tx option"
  atx_ExtensionOptions :: "string list option"

record ('w, 'b, 's) ante_state =
  as_ctx :: ctx
  as_priority :: int
  as_paidFees :: "coins option"
  as_app :: "('w, 'b, 's) fa_state"

type_synonym ('w, 'b, 's) handler =
  "ante_tx \<Rightarrow> bool \<Rightarrow> ('w, 'b, 's) ante_state \<Rightarrow> ('w, 'b, 's) ante_state res"
type_synonym ('w, 'b, 's) decorator =
  "('w, 'b, 's) handler \<Rightarrow> ('w, 'b, 's) handler"

section \<open>Fee-less votes\<close>

definition MaxInt64 :: int where "MaxInt64 = 2 ^ 63 - 1"

definition MsgAggregateExchangeRateVoteIsFeeless ::
  "('b, 's) oracle_Keeper \<Rightarrow> MsgAggregateExchangeRateVote \<Rightarrow> ('b, 's) oracle_state \<Rightarrow> bool res" where
  "MsgAggregateExchangeRateVoteIsFeeless k msg st =
     bindR (AccAddressFromBech32 (ok_codec k) (agm_Feeder msg)) (\<lambda>feederAddr.
     bindR (ValAddressFromBech32 (ok_codec k) (agm_Validator msg)) (\<lambda>valAddr.
     bindR (ValidateFeeder k st feederAddr valAddr) (\<lambda>_.
     case kv_get (ork_AggregateExchangeRateVote st) valAddr of
       None \<Rightarrow> Inr True
     | Some _ \<Rightarrow> Inr False)))"

definition IsTxFeeless ::
  "('b, 's) oracle_Keeper \<Rightarrow> sdk_msg list \<Rightarrow> ('b, 's) oracle_state \<Rightarrow> bool res" where
  "IsTxFeeless k msgs st =
     (if length msgs \<noteq> 1 then Inr False
      else case msgs ! 0 of
             OracleVote m \<Rightarrow> MsgAggregateExchangeRateVoteIsFeeless k m st
           | _ \<Rightarrow> Inr False)"

definition Feeless_AnteHandle ::
  "('b, 's) oracle_Keeper \<Rightarrow> ('w, 'b, 's) decorator \<Rightarrow> ('w, 'b, 's) decorator" where
  "Feeless_AnteHandle k feeDecorator next_handler tx simulate s =
     bindR (IsTxFeeless k (atx_Msgs tx) (fas_oracle (as_app s))) (\<lambda>isFeeless.
     if isFeeless then next_handler tx simulate (s\<lparr>as_priority := MaxInt64\<rparr>)
     else feeDecorator next_handler tx simulate s)"

section \<open>Governance votes\<close>

record delegation =
  del_ValidatorAddress :: string
  del_Shares :: dec

record 'w gov_staking =
  gs_Delegations :: "'w \<Rightarrow> addr \<Rightarrow> delegation list res"
  gs_GetValidator :: "'w \<Rightarrow> addr \<Rightarrow> validator_i res"

record 'w GovVoteDecorator =
  gvd_codec :: addr_codec
  gvd_dec :: dec_ops
  gvd_stakingKeeper :: "'w gov_staking"
  gvd_minStakedTokens :: dec

definition minStakedTokens :: dec where "minStakedTokens = 1000000 * dec_unit"

definition maxDelegationsChecked :: int where "maxDelegationsChecked = 100"

text \<open>The callback of \<open>IterateDelegatorDelegations\<close>: its state is \<open>enoughStake\<close>, \<open>delegationCount\<close>
  and \<open>stakedTokens\<close>.\<close>

definition check_delegation ::
  "'w GovVoteDecorator \<Rightarrow> 'w \<Rightarrow> delegation \<Rightarrow> bool \<times> int \<times> dec \<Rightarrow> (bool \<times> bool \<times> int \<times> dec) res" where
  "check_delegation g w delegation = (\<lambda>(enoughStake, delegationCount, stakedTokens).
     case ValAddressFromBech32 (gvd_codec g) (del_ValidatorAddress delegation) of
       Inl _ \<Rightarrow> Inl (Panic ''invalid validator address'')
     | Inr validatorAddr \<Rightarrow>
         (case gs_GetValidator (gvd_stakingKeeper g) w validatorAddr of
            Inl _ \<Rightarrow> Inr (maxDelegationsChecked \<le> delegationCount + 1, enoughStake, delegationCount + 1, stakedTokens)
          | Inr validator \<Rightarrow>
              bindR (TokensFromSharesTruncated validator (del_Shares delegation)) (\<lambda>tokens.
              bindR (dec_Add (gvd_dec g) stakedTokens tokens) (\<lambda>stakedTokens'.
              if gvd_minStakedTokens g \<le> stakedTokens' then Inr (True, True, delegationCount, stakedTokens')
              else Inr (maxDelegationsChecked \<le> delegationCount + 1, enoughStake, delegationCount + 1,
                        stakedTokens')))))"

definition check_stake :: "'w GovVoteDecorator \<Rightarrow> string \<Rightarrow> 'w \<Rightarrow> unit res" where
  "check_stake g voter w =
     bindR (AccAddressFromBech32 (gvd_codec g) voter) (\<lambda>accAddr.
     if gvd_minStakedTokens g = 0 then Inr ()
     else
       bindR (gs_Delegations (gvd_stakingKeeper g) w accAddr) (\<lambda>delegations.
       bindR (walkR (check_delegation g w) delegations (False, 0, 0)) (\<lambda>(enoughStake, _, _).
       if \<not> enoughStake then Inl ErrInsufficientStake else Inr ())))"

definition validMsg :: "'w GovVoteDecorator \<Rightarrow> sdk_msg \<Rightarrow> 'w \<Rightarrow> unit res" where
  "validMsg g m w =
     (case m of
        GovVoteBeta1 voter \<Rightarrow> check_stake g voter w
      | GovVoteV1 voter \<Rightarrow> check_stake g voter w
      | _ \<Rightarrow> Inr ())"

fun validAuthz :: "'w GovVoteDecorator \<Rightarrow> sdk_msg option list \<Rightarrow> 'w \<Rightarrow> unit res" where
  "validAuthz g [] w = Inr ()"
| "validAuthz g (None # ms) w = Inl ErrUnauthorizedKii"
| "validAuthz g (Some innerMsg # ms) w = bindR (validMsg g innerMsg w) (\<lambda>_. validAuthz g ms w)"

fun ValidateVoteMsgs :: "'w GovVoteDecorator \<Rightarrow> sdk_msg list \<Rightarrow> 'w \<Rightarrow> unit res" where
  "ValidateVoteMsgs g [] w = Inr ()"
| "ValidateVoteMsgs g (m # ms) w =
     bindR (case m of AuthzExec inner \<Rightarrow> validAuthz g inner w | _ \<Rightarrow> validMsg g m w) (\<lambda>_.
     ValidateVoteMsgs g ms w)"

definition GovVote_AnteHandle :: "'w GovVoteDecorator \<Rightarrow> ('w, 'b, 's) decorator" where
  "GovVote_AnteHandle g next_handler tx simulate s =
     (if simulate then next_handler tx simulate s
      else bindR (ValidateVoteMsgs g (atx_Msgs tx) (fas_world (as_app s))) (\<lambda>_. next_handler tx simulate s))"

section \<open>Expedited proposals\<close>

definition expeditedPropsWhitelist :: "string list" where
  "expeditedPropsWhitelist =
     [''/cosmos.upgrade.v1beta1.MsgSoftwareUpgrade'', ''/cosmos.upgrade.v1beta1.MsgCancelUpgrade'']"

definition isWhitelisted :: "string \<Rightarrow> bool" where
  "isWhitelisted msgType = List.member expeditedPropsWhitelist msgType"

fun validate_prop_msgs :: "prop_msg list \<Rightarrow> unit res" where
  "validate_prop_msgs [] = Inr ()"
| "validate_prop_msgs (ExecLegacyContent content # ms) =
     bindR (deref content) (\<lambda>url.
     if \<not> isWhitelisted url then Inl ErrInvalidExpeditedProposal else validate_prop_msgs ms)"
| "validate_prop_msgs (PropMsg url # ms) =
     (if \<not> isWhitelisted url then Inl ErrInvalidExpeditedProposal else validate_prop_msgs ms)"

definition validateExpeditedGovProp :: "prop_msg list \<Rightarrow> unit res" where
  "validateExpeditedGovProp msgs =
     (if length msgs = 0 then Inl ErrInvalidExpeditedProposal else validate_prop_msgs msgs)"

fun check_expedited :: "sdk_msg list \<Rightarrow> unit res" where
  "check_expedited [] = Inr ()"
| "check_expedited (m # ms) =
     (case m of
        SubmitProposal expedited msgs \<Rightarrow>
          bindR (if expedited then validateExpeditedGovProp msgs else Inr ()) (\<lambda>_. check_expedited ms)
      | _ \<Rightarrow> check_expedited ms)"

definition GovExpedited_AnteHandle :: "bool \<Rightarrow> ('w, 'b, 's) decorator" where
  "GovExpedited_AnteHandle expeditedPropDecoratorEnabled next_handler tx simulate s =
     bindR (if expeditedPropDecoratorEnabled then check_expedited (atx_Msgs tx) else Inr ()) (\<lambda>_.
     next_handler tx simulate s)"

section \<open>Gas of signatures\<close>

text \<open>A multisignature is a bit array with one signature per set bit; reading a slice out of range
  panics. The gas meter is a parameter: what \<open>ConsumeGas\<close> makes of it.\<close>

datatype pub_key =
  Secp256k1Key | EthSecp256k1Key | Ed25519Key | MultisigKey "pub_key list" | OtherKey

datatype sig_data = SingleSignature | MultiSignature "bool list" "sig_data list"

record sig_params =
  SigVerifyCostSecp256k1 :: int
  SigVerifyCostED25519 :: int

definition Secp256k1VerifyCost :: int where "Secp256k1VerifyCost = 21000"

definition slice_get :: "'a list \<Rightarrow> nat \<Rightarrow> 'a res" where
  "slice_get xs i = (if i < length xs then Inr (xs ! i) else Inl (Panic ''index out of range''))"

lemma slice_get_Inr_iff [res_simps]: "slice_get xs i = Inr x \<longleftrightarrow> i < length xs \<and> x = xs ! i"
  by (auto simp: slice_get_def)

lemma slice_get_size: "slice_get xs i = Inr x \<Longrightarrow> f x < Suc (size_list f xs)"
  by (auto simp: res_simps intro!: le_imp_less_Suc size_list_estimation')

function SigVerificationGasConsumer ::
    "(int \<Rightarrow> 'm \<Rightarrow> 'm res) \<Rightarrow> sig_params \<Rightarrow> pub_key \<Rightarrow> sig_data \<Rightarrow> 'm \<Rightarrow> 'm res"
  and ConsumeMultisignatureVerificationGas ::
    "(int \<Rightarrow> 'm \<Rightarrow> 'm res) \<Rightarrow> sig_params \<Rightarrow> pub_key list \<Rightarrow> sig_data list \<Rightarrow> bool list \<Rightarrow> nat \<Rightarrow> nat \<Rightarrow> 'm \<Rightarrow> 'm res" where
  "SigVerificationGasConsumer consume params pubkey sig meter =
     (case pubkey of
        Secp256k1Key \<Rightarrow> consume (SigVerifyCostSecp256k1 params) meter
      | EthSecp256k1Key \<Rightarrow> consume Secp256k1VerifyCost meter
      | Ed25519Key \<Rightarrow> bindR (consume (SigVerifyCostED25519 params) meter) (\<lambda>_. Inl ErrInvalidPubKey)
      | MultisigKey keys \<Rightarrow>
          (case sig of
             SingleSignature \<Rightarrow> Inl (Errorf ''expected MultiSignatureData'')
           | MultiSignature bits sigs \<Rightarrow>
               ConsumeMultisignatureVerificationGas consume params keys sigs bits 0 0 meter)
      | OtherKey \<Rightarrow> Inl ErrInvalidPubKey)"
| "ConsumeMultisignatureVerificationGas consume params keys sigs bits i sigIndex meter =
     (if i < length bits
      then
        if \<not> bits ! i
        then ConsumeMultisignatureVerificationGas consume params keys sigs bits (i + 1) sigIndex meter
        else
          bindR (slice_get keys i) (\<lambda>pubkey.
          bindR (slice_get sigs sigIndex) (\<lambda>sig.
          bindR (SigVerificationGasConsumer consume params pubkey sig meter) (\<lambda>meter'.
          ConsumeMultisignatureVerificationGas consume params keys sigs bits (i + 1) (sigIndex + 1) meter')))
      else Inr meter)"
  by pat_completeness auto
termination
  by (relation "inv_image (less_than <*lex*> less_than)
      (\<lambda>x. case x of Inl (_, _, _, sig, _) \<Rightarrow>
              (size sig, case sig of SingleSignature \<Rightarrow> 0 | MultiSignature bits _ \<Rightarrow> Suc (length bits))
            | Inr (_, _, _, sigs, bits, i, _, _) \<Rightarrow> (Suc (size_list size sigs), length bits - i))")
    (auto dest: slice_get_size [of _ _ _ size])

declare SigVerificationGasConsumer.simps [simp del] ConsumeMultisignatureVerificationGas.simps [simp del]

section \<open>The gas meter that does not consume\<close>

record noConsumptionGasMeter =
  ngm_consumed :: int

definition NewNoConsumptionGasMeter :: noConsumptionGasMeter where
  "NewNoConsumptionGasMeter = \<lparr>ngm_consumed = 0\<rparr>"

definition ngm_GasConsumed :: "noConsumptionGasMeter \<Rightarrow> int" where "ngm_GasConsumed g = 0"

definition ngm_GasRemaining :: "noConsumptionGasMeter \<Rightarrow> int" where
  "ngm_GasRemaining g = u64 (0 - ngm_consumed g)"

definition ngm_ConsumeGas :: "int \<Rightarrow> noConsumptionGasMeter \<Rightarrow> noConsumptionGasMeter res" where
  "ngm_ConsumeGas amount g = Inr g"

definition ngm_RefundGas :: "int \<Rightarrow> noConsumptionGasMeter \<Rightarrow> noConsumptionGasMeter res" where
  "ngm_RefundGas amount g =
     (if ngm_consumed g < amount then Inl (Panic ''negative gas consumed'')
      else Inr (g\<lparr>ngm_consumed := u64 (ngm_consumed g - amount)\<rparr>))"

end
