(* ===== verification/AnteProps.thy ===== *)
theory AnteProps
  imports Ante OracleGenesis FeeAbsProps
begin

text \<open>
  What the ante handler guarantees: which votes are free and how often, who may vote in
  governance, which proposals may be expedited, the gas of a multisignature, and all of it
  together along the chain of decorators.
\<close>

section \<open>Fee-less votes\<close>

lemma IsTxFeeless_iff:
  "IsTxFeeless k msgs st = Inr True \<longleftrightarrow>
     (\<exists>m feeder val. msgs = [OracleVote m] \<and>
        AccAddressFromBech32 (ok_codec k) (agm_Feeder m) = Inr feeder \<and>
        ValAddressFromBech32 (ok_codec k) (agm_Validator m) = Inr val \<and>
        ValidateFeeder k st feeder val = Inr () \<and> kv_get (ork_AggregateExchangeRateVote st) val = None)"
proof (cases "\<exists>m. msgs = [OracleVote m]")
  case True
  then show ?thesis
    by (auto simp: IsTxFeeless_def MsgAggregateExchangeRateVoteIsFeeless_def res_simps split: option.splits)
next
  case False
  then have "IsTxFeeless k msgs st = Inr False"
    by (cases msgs; cases "hd msgs") (auto simp: IsTxFeeless_def)
  with False show ?thesis by auto
qed

text \<open>What happens to the oracle within a vote period, over any number of blocks: its messages and its
  checks, the begin blocker of every block, the end blocker of every block but the last of the
  period, and whatever the bank and staking modules do.\<close>

inductive within_period ::
  "('b, 's) oracle_Keeper \<Rightarrow> parse_coin \<Rightarrow> ('b, 's) oracle_state \<Rightarrow> ('b, 's) oracle_state \<Rightarrow> bool" for k P where
  start: "within_period k P st st"
| vote: "within_period k P st st1 \<Longrightarrow> AggregateExchangeRateVote k P m st1 = Inr st2 \<Longrightarrow> within_period k P st st2"
| delegate: "within_period k P st st1 \<Longrightarrow> DelegateFeedConsent k d st1 = Inr st2 \<Longrightarrow> within_period k P st st2"
| params: "within_period k P st st1 \<Longrightarrow> oracle_UpdateParams k r st1 = Inr st2 \<Longrightarrow> within_period k P st st2"
| check: "within_period k P st st1 \<Longrightarrow> CheckOracleSpamming k c msgs st1 = Inr st2 \<Longrightarrow> within_period k P st st2"
| outside: "within_period k P st st1 \<Longrightarrow> within_period k P st (st1\<lparr>ork_bank := b, ork_staking := s\<rparr>)"
| begin_block: "within_period k P st st1 \<Longrightarrow> BeginBlocker k c st1 = Inr st2 \<Longrightarrow> within_period k P st st2"
| end_block: "within_period k P st st1 \<Longrightarrow> ork_Params st1 = Some par \<Longrightarrow>
    IsPeriodLastBlock c (VotePeriod par) = Inr False \<Longrightarrow> EndBlocker rng srt k c st1 = Inr st2 \<Longrightarrow>
    within_period k P st st2"

definition voted :: "('b, 's) oracle_state \<Rightarrow> addr \<Rightarrow> bool" where
  "voted st val \<longleftrightarrow> kv_get (ork_AggregateExchangeRateVote st) val \<noteq> None"

lemma vote_voted:
  assumes "AggregateExchangeRateVote k P m st = Inr st'"
  shows "voted st' v \<longleftrightarrow> voted st v \<or> ValAddressFromBech32 (ok_codec k) (agm_Validator m) = Inr v"
proof -
  obtain val vt where "ValAddressFromBech32 (ok_codec k) (agm_Validator m) = Inr val"
    "ork_AggregateExchangeRateVote st' = kv_set val vt (ork_AggregateExchangeRateVote st)"
    using assms by (auto simp: AggregateExchangeRateVote_def Let_def res_simps oracle_emit_def)
  then show ?thesis by (auto simp: voted_def kv_simps)
qed

lemma check_votes_same:
  "CheckOracleSpamming k c msgs st = Inr st' \<Longrightarrow>
   ork_AggregateExchangeRateVote st' = ork_AggregateExchangeRateVote st"
proof (induction k c msgs st rule: CheckOracleSpamming.induct)
  case (2 k c m msgs st)
  then obtain st1 where st1: "check_vote k c m st = Inr st1" "CheckOracleSpamming k c msgs st1 = Inr st'"
    by (auto simp: res_simps)
  have "ork_AggregateExchangeRateVote st1 = ork_AggregateExchangeRateVote st"
    using st1(1) by (auto simp: check_vote_def res_simps SetSpamPreventionCounterWithDefault_def split: if_splits)
  then show ?case using "2.IH" [OF st1] by simp
qed simp_all

lemma slash_counter_votes_same:
  assumes "slash_counter k p pr h x s = Inr (stop, s')"
  shows "ork_AggregateExchangeRateVote s' = ork_AggregateExchangeRateVote s"
proof -
  obtain a v where x: "x = (a, v)" by (cases x)
  show ?thesis
  proof (cases "total_votes v = 0")
    case False
    then obtain r s1 where s1: "(if r < MinValidPerWindow p
        then bindR (slash_validator k pr h (SlashFraction p) a (ork_staking s)) (\<lambda>t. Inr (s\<lparr>ork_staking := t\<rparr>))
        else Inr s) = Inr s1"
      and s': "s' = (let st = oracle_emit (EvEndSlashWindow a (MissCount v) (AbstainCount v) (SuccessCount v)) s1
        in st\<lparr>ork_VotePenaltyCounter := kv_remove a (ork_VotePenaltyCounter st)\<rparr>)"
      using assms unfolding x slash_counter_def Let_def by (auto elim!: bindR_InrE)
    have "ork_AggregateExchangeRateVote s1 = ork_AggregateExchangeRateVote s"
      using s1 by (cases "r < MinValidPerWindow p") (auto elim!: bindR_InrE)
    then show ?thesis
      by (simp add: s' oracle_emit_def Let_def)
  qed (use assms in \<open>simp add: x slash_counter_def Let_def\<close>)
qed

lemma BeginBlocker_votes_same:
  assumes "BeginBlocker k c st = Inr st'"
  shows "ork_AggregateExchangeRateVote st' = ork_AggregateExchangeRateVote st"
proof -
  let ?P = "\<lambda>s. ork_AggregateExchangeRateVote s = ork_AggregateExchangeRateVote st"
  have walk: "?P s'" if "walkR (slash_counter k p pr h) xs st = Inr s'" for p pr h xs s'
    using that refl by (rule walkR_inv [where P = ?P]) (metis slash_counter_votes_same)
  obtain par last where par: "ork_Params st = Some par" "IsPeriodLastBlock c (SlashWindow par) = Inr last"
    using assms by (auto simp: BeginBlocker_def oracle_GetParams_def res_simps)
  show ?thesis
  proof (cases last)
    case True
    then obtain st1 where "SlashAndResetCounters k c st = Inr st1" "st' = RemoveExcessFeeds st1"
      using assms par by (auto simp: BeginBlocker_def oracle_GetParams_def res_simps)
    then show ?thesis
      using walk par(1) by (simp add: SlashAndResetCounters_def oracle_GetParams_def RemoveExcessFeeds_def Let_def)
  qed (use assms par in \<open>simp add: BeginBlocker_def oracle_GetParams_def\<close>)
qed

lemma EndBlocker_open:
  "ork_Params st = Some par \<Longrightarrow> IsPeriodLastBlock c (VotePeriod par) = Inr False \<Longrightarrow> EndBlocker rng srt k c st = Inr st"
  by (simp add: EndBlocker_def oracle_GetParams_def)

lemma EndBlocker_close:
  assumes "ork_Params st = Some par" and "IsPeriodLastBlock c (VotePeriod par) = Inr True"
    and "EndBlocker rng srt k c st = Inr st'"
  shows "ork_AggregateExchangeRateVote st' = []"
proof -
  obtain cl where cl: "collect_claims k st = Inr cl"
    using assms unfolding EndBlocker_def oracle_GetParams_def by (cases "collect_claims k st") simp_all
  obtain p cl1 st1 cl2 st2 where
    "pickReferenceDenom (rng (kv_keys (OrganizeBallotByDenom srt st cl))) k st (ork_VoteTarget st)
      (OrganizeBallotByDenom srt st cl) = Inr p"
    "tally_reference srt k c (RewardBand par) (pk_reference p) (pk_votes p) (cl, st) = Inr (cl1, st1)"
    "tally_below k (RewardBand par) (pk_below p) cl1 = Inr cl2"
    and st2: "st2 = (fold (\<lambda>key. count_claim (int (length (pk_targets p))) (claim_at cl2 key))
       (rng (kv_keys cl2)) st1)\<lparr>ork_AggregateExchangeRateVote := []\<rparr>"
    and w: "bindR (ApplyWhitelist k (Whitelist par) (pk_targets p) st2) (take_snapshot c) = Inr st'"
    by (rule EndBlocker_steps [OF assms(3,1,2) cl])
  let ?P = "\<lambda>s. ork_AggregateExchangeRateVote s = []"
  obtain st3 where st3: "ApplyWhitelist k (Whitelist par) (pk_targets p) st2 = Inr st3" "take_snapshot c st3 = Inr st'"
    using w by (rule bindR_InrE)
  have item: "?P s'" if "whitelist_item k x s = Inr s'" "?P s" for x s s'
    using that by (auto simp: whitelist_item_def Let_def res_simps split: option.splits)
  have "foldR (whitelist_item k) (Whitelist par) (st2\<lparr>ork_VoteTarget := []\<rparr>) = Inr st3 \<or> st3 = st2"
    using st3(1) by (auto simp: ApplyWhitelist_def Let_def split: if_splits)
  then have "?P st3"
    using foldR_inv [of "whitelist_item k" "Whitelist par" _ st3 ?P] item by (auto simp: st2)
  then show ?thesis
    using st3(2) by (auto simp: take_snapshot_def AddPriceSnapshot_def Let_def res_simps split: if_splits)
qed

lemma within_period_voted: "within_period k P st st' \<Longrightarrow> voted st v \<Longrightarrow> voted st' v"
proof (induction rule: within_period.induct)
  case (vote st st1 m st2)
  then show ?case by (simp add: vote_voted)
next
  case (delegate st st1 d st2)
  then show ?case by (auto elim!: DelegateFeedConsent_Inr simp: voted_def)
next
  case (params st st1 r st2)
  then show ?case by (auto simp: UpdateParams_iff voted_def)
next
  case (check st st1 c msgs st2)
  then show ?case by (simp add: check_votes_same voted_def)
next
  case (begin_block st st1 c st2)
  then show ?case by (simp add: BeginBlocker_votes_same voted_def)
next
  case (end_block st st1 par c rng srt st2)
  then show ?case by (simp add: EndBlocker_open)
qed (simp_all add: voted_def)

text \<open>C25: A transaction is free exactly when it is a single oracle vote of a permitted feeder for a
  validator without a stored vote; it then gets the highest priority and pays nothing. After one
  vote for a validator has been delivered, every further vote for it by a permitted feeder goes
  through the fee decorator for the rest of the vote period, however many blocks it has and
  whatever else happens in them: messages, checks, begin blockers, and the end blockers of the
  blocks that do not close the period. The end blocker that closes it leaves no vote stored.\<close>

theorem feeless_once:
  assumes "AggregateExchangeRateVote k P m st = Inr st1" "within_period k P st1 (fas_oracle (as_app s))"
    and "ValAddressFromBech32 (ok_codec k) (agm_Validator m) = Inr val"
    and "atx_Msgs tx = [OracleVote m']" "ValAddressFromBech32 (ok_codec k) (agm_Validator m') = Inr val"
    and "AccAddressFromBech32 (ok_codec k) (agm_Feeder m') = Inr feeder"
    and "ValidateFeeder k (fas_oracle (as_app s)) feeder val = Inr ()"
  shows "Feeless_AnteHandle k feeDecorator next_handler tx simulate s = feeDecorator next_handler tx simulate s \<and>
    (IsTxFeeless k msgs st = Inr True \<longleftrightarrow>
       (\<exists>n f v. msgs = [OracleVote n] \<and> AccAddressFromBech32 (ok_codec k) (agm_Feeder n) = Inr f \<and>
          ValAddressFromBech32 (ok_codec k) (agm_Validator n) = Inr v \<and> ValidateFeeder k st f v = Inr () \<and>
          \<not> voted st v)) \<and>
    (atx_Msgs tx' = msgs \<and> fas_oracle (as_app s') = st \<and> IsTxFeeless k msgs st = Inr True \<longrightarrow>
       Feeless_AnteHandle k feeDecorator next_handler tx' simulate s' =
         next_handler tx' simulate (s'\<lparr>as_priority := MaxInt64\<rparr>)) \<and>
    (\<forall>par rng srt c st2 v. ork_Params (fas_oracle (as_app s)) = Some par \<and>
       IsPeriodLastBlock c (VotePeriod par) = Inr True \<and>
       EndBlocker rng srt k c (fas_oracle (as_app s)) = Inr st2 \<longrightarrow> \<not> voted st2 v)"
proof -
  have "voted st1 val" using assms(1,3) by (simp add: vote_voted)
  then have "voted (fas_oracle (as_app s)) val" by (rule within_period_voted [OF assms(2)])
  then have "IsTxFeeless k (atx_Msgs tx) (fas_oracle (as_app s)) = Inr False"
    using assms(4-7) by (auto simp: IsTxFeeless_def MsgAggregateExchangeRateVoteIsFeeless_def voted_def)
  then have "Feeless_AnteHandle k feeDecorator next_handler tx simulate s = feeDecorator next_handler tx simulate s"
    by (simp add: Feeless_AnteHandle_def)
  moreover have "Feeless_AnteHandle k feeDecorator next_handler tx' simulate s' =
      next_handler tx' simulate (s'\<lparr>as_priority := MaxInt64\<rparr>)"
    if "atx_Msgs tx' = msgs \<and> fas_oracle (as_app s') = st \<and> IsTxFeeless k msgs st = Inr True"
    using that by (auto simp: Feeless_AnteHandle_def)
  moreover have "\<not> voted st2 v" if "ork_Params (fas_oracle (as_app s)) = Some par"
    "IsPeriodLastBlock c (VotePeriod par) = Inr True" "EndBlocker rng srt k c (fas_oracle (as_app s)) = Inr st2"
    for par rng srt c st2 v
    using EndBlocker_close [OF that] by (simp add: voted_def)
  ultimately show ?thesis by (auto simp: IsTxFeeless_iff voted_def)
qed

text \<open>A free vote that fails in its handler stores nothing, so it is free again.\<close>

definition deliver_vote ::
  "('b, 's) oracle_Keeper \<Rightarrow> parse_coin \<Rightarrow> MsgAggregateExchangeRateVote \<Rightarrow> ('b, 's) oracle_state \<Rightarrow> ('b, 's) oracle_state" where
  "deliver_vote k P m st = (case AggregateExchangeRateVote k P m st of Inl _ \<Rightarrow> st | Inr st' \<Rightarrow> st')"

lemma failing_vote_stays_free:
  assumes "IsTxFeeless k [OracleVote m] st = Inr True" "AggregateExchangeRateVote k P m st = Inl e"
  shows "IsTxFeeless k [OracleVote m] ((deliver_vote k P m ^^ n) st) = Inr True"
proof -
  have "(deliver_vote k P m ^^ n) st = st" using assms(2) by (induction n) (simp_all add: deliver_vote_def)
  with assms(1) show ?thesis by simp
qed

section \<open>Governance votes\<close>

text \<open>The votes the decorator looks at: direct ones and those directly inside a \<open>MsgExec\<close>.\<close>

definition vote_of :: "sdk_msg \<Rightarrow> string list" where
  "vote_of m = (case m of GovVoteBeta1 v \<Rightarrow> [v] | GovVoteV1 v \<Rightarrow> [v] | _ \<Rightarrow> [])"

definition votes_in :: "sdk_msg \<Rightarrow> string list" where
  "votes_in m = (case m of AuthzExec inner \<Rightarrow> concat (map (case_option [] vote_of) inner) | _ \<Rightarrow> vote_of m)"

definition readable :: "sdk_msg \<Rightarrow> bool" where
  "readable m = (case m of AuthzExec inner \<Rightarrow> None \<notin> set inner | _ \<Rightarrow> True)"

lemma validMsg_iff: "validMsg g m w = Inr () \<longleftrightarrow> (\<forall>v \<in> set (vote_of m). check_stake g v w = Inr ())"
  by (cases m) (simp_all add: validMsg_def vote_of_def)

lemma validAuthz_iff:
  "validAuthz g ms w = Inr () \<longleftrightarrow>
     None \<notin> set ms \<and> (\<forall>v \<in> set (concat (map (case_option [] vote_of) ms)). check_stake g v w = Inr ())"
  by (induction g ms w rule: validAuthz.induct) (auto simp: res_simps validMsg_iff)

lemma ValidateVoteMsgs_iff:
  "ValidateVoteMsgs g ms w = Inr () \<longleftrightarrow>
     (\<forall>m \<in> set ms. readable m \<and> (\<forall>v \<in> set (votes_in m). check_stake g v w = Inr ()))"
proof (induction ms)
  case (Cons m ms)
  have "(case m of AuthzExec inner \<Rightarrow> validAuthz g inner w | _ \<Rightarrow> validMsg g m w) = Inr () \<longleftrightarrow>
      readable m \<and> (\<forall>v \<in> set (votes_in m). check_stake g v w = Inr ())"
    by (cases m) (simp_all add: validAuthz_iff validMsg_iff readable_def votes_in_def)
  with Cons show ?case by (simp add: res_simps)
qed simp

text \<open>What a delegation is worth, and the stake of an account: its first hundred delegations.\<close>

definition tokens_of :: "'w GovVoteDecorator \<Rightarrow> 'w \<Rightarrow> delegation \<Rightarrow> dec" where
  "tokens_of g w d =
     (case bindR (ValAddressFromBech32 (gvd_codec g) (del_ValidatorAddress d)) (gs_GetValidator (gvd_stakingKeeper g) w) of
        Inl _ \<Rightarrow> 0
      | Inr v \<Rightarrow> (case TokensFromSharesTruncated v (del_Shares d) of Inl _ \<Rightarrow> 0 | Inr t \<Rightarrow> t))"

definition delegation_ok :: "'w GovVoteDecorator \<Rightarrow> 'w \<Rightarrow> delegation \<Rightarrow> bool" where
  "delegation_ok g w d \<longleftrightarrow>
     (\<exists>a. ValAddressFromBech32 (gvd_codec g) (del_ValidatorAddress d) = Inr a \<and>
        (\<forall>v. gs_GetValidator (gvd_stakingKeeper g) w a = Inr v \<longrightarrow>
           (\<exists>t. TokensFromSharesTruncated v (del_Shares d) = Inr t \<and> 0 \<le> t \<and> t \<le> 2 ^ 300)))"

definition stake :: "'w GovVoteDecorator \<Rightarrow> 'w \<Rightarrow> delegation list \<Rightarrow> dec" where
  "stake g w ds = sum_list (map (tokens_of g w) (take (nat maxDelegationsChecked) ds))"

lemma check_delegation_run:
  assumes "decimals (gvd_dec g)" "delegation_ok g w d" "0 \<le> a" "a < gvd_minStakedTokens g"
    and "gvd_minStakedTokens g \<le> 2 ^ 300"
  shows "check_delegation g w d (False, c, a) =
      (if gvd_minStakedTokens g \<le> a + tokens_of g w d then Inr (True, True, c, a + tokens_of g w d)
       else Inr (maxDelegationsChecked \<le> c + 1, False, c + 1, a + tokens_of g w d))"
    and "0 \<le> tokens_of g w d"
proof -
  obtain x where x: "ValAddressFromBech32 (gvd_codec g) (del_ValidatorAddress d) = Inr x"
    "\<forall>v. gs_GetValidator (gvd_stakingKeeper g) w x = Inr v \<longrightarrow>
       (\<exists>t. TokensFromSharesTruncated v (del_Shares d) = Inr t \<and> 0 \<le> t \<and> t \<le> 2 ^ 300)"
    using assms(2) by (auto simp: delegation_ok_def)
  have "check_delegation g w d (False, c, a) =
      (if gvd_minStakedTokens g \<le> a + tokens_of g w d then Inr (True, True, c, a + tokens_of g w d)
       else Inr (maxDelegationsChecked \<le> c + 1, False, c + 1, a + tokens_of g w d)) \<and> 0 \<le> tokens_of g w d"
  proof (cases "gs_GetValidator (gvd_stakingKeeper g) w x")
    case (Inl e)
    then show ?thesis using x(1) assms(4) by (simp add: check_delegation_def tokens_of_def)
  next
    case (Inr v)
    then obtain t where t: "TokensFromSharesTruncated v (del_Shares d) = Inr t" "0 \<le> t" "t \<le> 2 ^ 300"
      using x(2) by blast
    have "\<bar>a + t\<bar> < 2 ^ 315" using t(2,3) assms(3-5) by simp
    then have "dec_Add (gvd_dec g) a t = Inr (a + t)" by (rule decimals.add_total [OF assms(1)])
    then show ?thesis using x(1) Inr t by (simp add: check_delegation_def tokens_of_def)
  qed
  then show "check_delegation g w d (False, c, a) =
      (if gvd_minStakedTokens g \<le> a + tokens_of g w d then Inr (True, True, c, a + tokens_of g w d)
       else Inr (maxDelegationsChecked \<le> c + 1, False, c + 1, a + tokens_of g w d))"
    and "0 \<le> tokens_of g w d" by blast+
qed

lemma walk_stake:
  assumes "decimals (gvd_dec g)" "gvd_minStakedTokens g \<le> 2 ^ 300"
    and "\<forall>d \<in> set ds. delegation_ok g w d" "0 \<le> c" "c < maxDelegationsChecked" "0 \<le> a" "a < gvd_minStakedTokens g"
  shows "\<exists>e c' a'. walkR (check_delegation g w) ds (False, c, a) = Inr (e, c', a') \<and>
    (e \<longleftrightarrow> gvd_minStakedTokens g \<le> a + sum_list (map (tokens_of g w) (take (nat (maxDelegationsChecked - c)) ds)))"
  using assms(3-7)
proof (induction ds arbitrary: c a)
  case (Cons d ds)
  let ?t = "tokens_of g w d"
  note d = check_delegation_run [OF assms(1) _ Cons.prems(4,5) assms(2), of w d]
  have ok: "delegation_ok g w d" "\<forall>x \<in> set ds. delegation_ok g w x" using Cons.prems(1) by simp_all
  have n: "nat (maxDelegationsChecked - c) = Suc (nat (maxDelegationsChecked - (c + 1)))"
    using Cons.prems(3) by simp
  have pos: "0 \<le> sum_list (map (tokens_of g w) (take i ds))" for i
    using ok(2) check_delegation_run(2) [OF assms(1) _ Cons.prems(4,5) assms(2)]
    by (intro sum_list_nonneg) (auto dest: in_set_takeD)
  consider (enough) "gvd_minStakedTokens g \<le> a + ?t"
    | (last) "a + ?t < gvd_minStakedTokens g" "maxDelegationsChecked \<le> c + 1"
    | (more) "a + ?t < gvd_minStakedTokens g" "c + 1 < maxDelegationsChecked" by linarith
  then show ?case
  proof cases
    case enough
    then show ?thesis
      using d(1) [OF ok(1)] pos [of "nat (maxDelegationsChecked - (c + 1))"] n by (intro exI [of _ True]) simp
  next
    case last
    then show ?thesis using d(1) [OF ok(1)] n by (intro exI [of _ False]) simp
  next
    case more
    have "0 \<le> a + ?t" "0 \<le> c + 1" using d(2) [OF ok(1)] Cons.prems(2,4) by simp_all
    from Cons.IH [OF ok(2) this(2) more(2) this(1) more(1)] show ?thesis
      using more d(1) [OF ok(1)] n by (simp add: add.assoc)
  qed
qed (auto simp: not_le)

lemma check_stake_iff:
  assumes "decimals (gvd_dec g)" "0 < gvd_minStakedTokens g" "gvd_minStakedTokens g \<le> 2 ^ 300"
    and "AccAddressFromBech32 (gvd_codec g) v = Inr a" "gs_Delegations (gvd_stakingKeeper g) w a = Inr ds"
    and "\<forall>d \<in> set ds. delegation_ok g w d"
  shows "check_stake g v w = (if gvd_minStakedTokens g \<le> stake g w ds then Inr () else Inl ErrInsufficientStake)"
proof -
  have "0 < maxDelegationsChecked" by (simp add: maxDelegationsChecked_def)
  from walk_stake [OF assms(1,3,6) _ this _ assms(2)] show ?thesis
    using assms(2,4,5) by (auto simp: check_stake_def stake_def)
qed

text \<open>The stake an account must have to vote: the minimum, in its first hundred delegations.\<close>

definition staked :: "'w GovVoteDecorator \<Rightarrow> 'w \<Rightarrow> string \<Rightarrow> bool" where
  "staked g w v \<longleftrightarrow>
     (\<exists>a ds. AccAddressFromBech32 (gvd_codec g) v = Inr a \<and> gs_Delegations (gvd_stakingKeeper g) w a = Inr ds \<and>
        gvd_minStakedTokens g \<le> stake g w ds)"

lemma check_stake_staked:
  assumes "decimals (gvd_dec g)" "0 < gvd_minStakedTokens g" "gvd_minStakedTokens g \<le> 2 ^ 300"
    and "\<forall>a ds. gs_Delegations (gvd_stakingKeeper g) w a = Inr ds \<longrightarrow> (\<forall>d \<in> set ds. delegation_ok g w d)"
    and "check_stake g v w = Inr ()"
  shows "staked g w v"
proof -
  obtain a ds where a: "AccAddressFromBech32 (gvd_codec g) v = Inr a" "gs_Delegations (gvd_stakingKeeper g) w a = Inr ds"
    using assms(2,5) by (auto simp: check_stake_def res_simps split: if_splits)
  then have "\<forall>d \<in> set ds. delegation_ok g w d"
    using assms(4) by blast
  from check_stake_iff [OF assms(1-3) a this] show ?thesis
    using a assms(5) by (auto simp: staked_def split: if_splits)
qed

text \<open>Unless a transaction is simulated, the governance decorator hands it on exactly when every
  message inside a \<open>MsgExec\<close> can be read and every account that votes, directly or one level
  inside a \<open>MsgExec\<close>, has the minimum staked in its first hundred delegations (delegations to
  validators that are gone count for nothing). A vote two levels deep is not looked at.\<close>

lemma GovVote_correct:
  assumes "decimals (gvd_dec g)" "0 < gvd_minStakedTokens g" "gvd_minStakedTokens g \<le> 2 ^ 300"
    and "\<forall>m \<in> set (atx_Msgs tx). \<forall>v \<in> set (votes_in m). \<exists>a ds. AccAddressFromBech32 (gvd_codec g) v = Inr a \<and>
      gs_Delegations (gvd_stakingKeeper g) (fas_world (as_app s)) a = Inr ds \<and>
      (\<forall>d \<in> set ds. delegation_ok g (fas_world (as_app s)) d)"
  shows "(if \<forall>m \<in> set (atx_Msgs tx). readable m \<and>
            (\<forall>v \<in> set (votes_in m). \<exists>a ds. AccAddressFromBech32 (gvd_codec g) v = Inr a \<and>
               gs_Delegations (gvd_stakingKeeper g) (fas_world (as_app s)) a = Inr ds \<and>
               gvd_minStakedTokens g \<le> stake g (fas_world (as_app s)) ds)
          then GovVote_AnteHandle g next_handler tx False s = next_handler tx False s
          else \<exists>e. GovVote_AnteHandle g next_handler tx False s = Inl e) \<and>
    votes_in (AuthzExec [Some (AuthzExec ms)]) = []"
proof -
  let ?w = "fas_world (as_app s)"
  have v: "check_stake g v ?w = Inr () \<longleftrightarrow>
      (\<exists>a ds. AccAddressFromBech32 (gvd_codec g) v = Inr a \<and> gs_Delegations (gvd_stakingKeeper g) ?w a = Inr ds \<and>
         gvd_minStakedTokens g \<le> stake g ?w ds)" if mv: "m \<in> set (atx_Msgs tx)" "v \<in> set (votes_in m)" for m v
  proof -
    obtain a and ds :: "delegation list" where "AccAddressFromBech32 (gvd_codec g) v = Inr a"
      "gs_Delegations (gvd_stakingKeeper g) ?w a = Inr ds" "\<forall>d \<in> set ds. delegation_ok g ?w d"
      using assms(4) mv by blast
    with check_stake_iff [OF assms(1-3) this] show ?thesis by auto
  qed
  have "ValidateVoteMsgs g (atx_Msgs tx) ?w = Inr () \<longleftrightarrow>
      (\<forall>m \<in> set (atx_Msgs tx). readable m \<and>
            (\<forall>v \<in> set (votes_in m). \<exists>a ds. AccAddressFromBech32 (gvd_codec g) v = Inr a \<and>
               gs_Delegations (gvd_stakingKeeper g) ?w a = Inr ds \<and> gvd_minStakedTokens g \<le> stake g ?w ds))"
    using v by (auto simp: ValidateVoteMsgs_iff)
  moreover have "votes_in (AuthzExec [Some (AuthzExec ms)]) = []"
    by (simp add: votes_in_def vote_of_def)
  ultimately show ?thesis
    by (cases "ValidateVoteMsgs g (atx_Msgs tx) ?w") (auto simp: GovVote_AnteHandle_def)
qed

section \<open>Expedited proposals\<close>

definition expeditable :: "prop_msg \<Rightarrow> bool" where
  "expeditable p \<longleftrightarrow> (case p of PropMsg u \<Rightarrow> isWhitelisted u
     | ExecLegacyContent c \<Rightarrow> (case c of None \<Rightarrow> False | Some u \<Rightarrow> isWhitelisted u))"

lemma expeditable_iff:
  "expeditable p \<longleftrightarrow> (\<exists>u. (p = PropMsg u \<or> p = ExecLegacyContent (Some u)) \<and>
      u \<in> {''/cosmos.upgrade.v1beta1.MsgSoftwareUpgrade'', ''/cosmos.upgrade.v1beta1.MsgCancelUpgrade''})"
  by (cases p) (auto simp: expeditable_def isWhitelisted_def expeditedPropsWhitelist_def split: option.splits)

lemma validate_prop_msgs_iff: "validate_prop_msgs ps = Inr () \<longleftrightarrow> (\<forall>p \<in> set ps. expeditable p)"
  by (induction ps rule: validate_prop_msgs.induct)
    (auto simp: expeditable_def res_simps split: option.splits)

lemma check_expedited_iff:
  "check_expedited ms = Inr () \<longleftrightarrow>
     (\<forall>ps. SubmitProposal True ps \<in> set ms \<longrightarrow> ps \<noteq> [] \<and> (\<forall>p \<in> set ps. expeditable p))"
proof (induction ms)
  case (Cons m ms)
  then show ?case
    by (cases m) (auto simp: res_simps validateExpeditedGovProp_def validate_prop_msgs_iff split: if_splits)
qed simp

text \<open>The decorator of expedited proposals hands a transaction on exactly when every expedited
  proposal among its messages has a message and consists of software upgrades and their
  cancellations only; a legacy content counts by its own type. Proposals inside a \<open>MsgExec\<close>
  are not looked at.\<close>

lemma GovExpedited_correct:
  "(if \<forall>ps. SubmitProposal True ps \<in> set (atx_Msgs tx) \<longrightarrow> ps \<noteq> [] \<and> (\<forall>p \<in> set ps. \<exists>u.
         (p = PropMsg u \<or> p = ExecLegacyContent (Some u)) \<and>
         u \<in> {''/cosmos.upgrade.v1beta1.MsgSoftwareUpgrade'', ''/cosmos.upgrade.v1beta1.MsgCancelUpgrade''})
    then GovExpedited_AnteHandle True next_handler tx simulate s = next_handler tx simulate s
    else \<exists>e. GovExpedited_AnteHandle True next_handler tx simulate s = Inl e) \<and>
   GovExpedited_AnteHandle True next_handler (tx\<lparr>atx_Msgs := [AuthzExec inner]\<rparr>) simulate s =
     next_handler (tx\<lparr>atx_Msgs := [AuthzExec inner]\<rparr>) simulate s"
  unfolding expeditable_iff [symmetric]
  by (cases "check_expedited (atx_Msgs tx)")
    (auto simp: GovExpedited_AnteHandle_def check_expedited_iff [symmetric])

section \<open>Gas of signatures\<close>

text \<open>What the gas meter does with an amount: it adds it, and panics past the limit.\<close>

locale gas_meter =
  fixes consume :: "int \<Rightarrow> 'm \<Rightarrow> 'm res" and used :: "'m \<Rightarrow> int" and limit :: int
  assumes within_limit: "used m + n \<le> limit \<Longrightarrow> 0 \<le> n \<Longrightarrow> \<exists>m'. consume n m = Inr m' \<and> used m' = used m + n"
    and past_limit: "limit < used m + n \<Longrightarrow> \<exists>x. consume n m = Inl (Panic x)"

text \<open>The keys that sign, and the cost of a signature: the sum over the signing keys, at every depth.\<close>

definition signers :: "bool list \<Rightarrow> 'a list \<Rightarrow> 'a list" where
  "signers bits keys = map snd (filter fst (zip bits keys))"

function sig_cost :: "sig_params \<Rightarrow> pub_key \<Rightarrow> sig_data \<Rightarrow> int" where
  "sig_cost P key sig =
     (case key of
        Secp256k1Key \<Rightarrow> SigVerifyCostSecp256k1 P
      | EthSecp256k1Key \<Rightarrow> 21000
      | MultisigKey keys \<Rightarrow>
          (case sig of SingleSignature \<Rightarrow> 0
           | MultiSignature bits sigs \<Rightarrow> sum_list (map (\<lambda>(k, d). sig_cost P k d) (zip (signers bits keys) sigs)))
      | _ \<Rightarrow> 0)"
  by pat_completeness auto
termination
  by (relation "measure (\<lambda>(_, _, sig). size sig)")
    (auto dest!: set_zip_rightD intro!: le_imp_less_Suc size_list_estimation')

function sig_supported :: "pub_key \<Rightarrow> sig_data \<Rightarrow> bool" where
  "sig_supported key sig =
     (case key of
        Secp256k1Key \<Rightarrow> True
      | EthSecp256k1Key \<Rightarrow> True
      | MultisigKey keys \<Rightarrow>
          (case sig of SingleSignature \<Rightarrow> False
           | MultiSignature bits sigs \<Rightarrow>
               length bits = length keys \<and> length sigs = length (signers bits keys) \<and>
               list_all (\<lambda>(k, d). sig_supported k d) (zip (signers bits keys) sigs))
      | _ \<Rightarrow> False)"
  by pat_completeness auto
termination
  by (relation "measure (\<lambda>(_, sig). size sig)")
    (auto dest!: set_zip_rightD intro!: le_imp_less_Suc size_list_estimation')

declare sig_cost.simps [simp del] sig_supported.simps [simp del]

lemma sig_leaf:
  "SigVerificationGasConsumer C P Secp256k1Key d m = C (SigVerifyCostSecp256k1 P) m"
  "SigVerificationGasConsumer C P EthSecp256k1Key d m = C 21000 m"
  "sig_cost P Secp256k1Key d = SigVerifyCostSecp256k1 P" "sig_cost P EthSecp256k1Key d = 21000"
  "\<not> sig_supported Ed25519Key d" "\<not> sig_supported OtherKey d"
  by (simp_all add: SigVerificationGasConsumer.simps sig_cost.simps sig_supported.simps Secp256k1VerifyCost_def)

lemma sig_cost_nonneg: "0 \<le> SigVerifyCostSecp256k1 P \<Longrightarrow> 0 \<le> sig_cost P key sig"
proof (induction P key sig rule: sig_cost.induct)
  case (1 P key sig)
  then show ?case
    by (subst sig_cost.simps) (auto split: pub_key.split sig_data.split intro!: sum_list_nonneg)
qed

lemma signers_drop:
  assumes "i < length bits" "length bits = length keys"
  shows "signers (drop i bits) (drop i keys) =
    (if bits ! i then [keys ! i] else []) @ signers (drop (i + 1) bits) (drop (i + 1) keys)"
  using assms by (simp add: signers_def Cons_nth_drop_Suc [symmetric])

text \<open>The signing keys from a position on, with their signatures.\<close>

definition signing :: "pub_key list \<Rightarrow> sig_data list \<Rightarrow> bool list \<Rightarrow> nat \<Rightarrow> nat \<Rightarrow> (pub_key \<times> sig_data) list" where
  "signing keys sigs bits i j = zip (signers (drop i bits) (drop i keys)) (drop j sigs)"

definition matching :: "pub_key list \<Rightarrow> sig_data list \<Rightarrow> bool list \<Rightarrow> nat \<Rightarrow> nat \<Rightarrow> bool" where
  "matching keys sigs bits i j \<longleftrightarrow> length bits = length keys \<and>
     length (drop j sigs) = length (signers (drop i bits) (drop i keys)) \<and>
     list_all (\<lambda>(k, d). sig_supported k d) (signing keys sigs bits i j)"

lemma matching_skip:
  assumes "matching keys sigs bits i j" "i < length bits" "\<not> bits ! i"
  shows "matching keys sigs bits (i + 1) j" "signing keys sigs bits i j = signing keys sigs bits (i + 1) j"
  using assms signers_drop [of i bits keys] by (auto simp: matching_def signing_def)

lemma matching_next:
  assumes "matching keys sigs bits i j" "i < length bits" "bits ! i"
  shows "j < length sigs" "matching keys sigs bits (i + 1) (j + 1)" "sig_supported (keys ! i) (sigs ! j)"
    and "signing keys sigs bits i j = (keys ! i, sigs ! j) # signing keys sigs bits (i + 1) (j + 1)"
proof -
  have s: "signers (drop i bits) (drop i keys) = keys ! i # signers (drop (i + 1) bits) (drop (i + 1) keys)"
    using assms signers_drop [of i bits keys] by (simp add: matching_def)
  have "length (drop j sigs) = Suc (length (signers (drop (i + 1) bits) (drop (i + 1) keys)))"
    using assms(1) unfolding matching_def s by simp
  then show j: "j < length sigs" by (cases "j < length sigs") simp_all
  then have d: "drop j sigs = sigs ! j # drop (j + 1) sigs" by (simp add: Cons_nth_drop_Suc)
  show z: "signing keys sigs bits i j = (keys ! i, sigs ! j) # signing keys sigs bits (i + 1) (j + 1)"
    by (simp add: signing_def s d)
  show "matching keys sigs bits (i + 1) (j + 1)" "sig_supported (keys ! i) (sigs ! j)"
    using assms(1) unfolding matching_def z by (simp_all add: s d)
qed

context gas_meter
begin

definition charged :: "'m \<Rightarrow> int \<Rightarrow> 'm res \<Rightarrow> bool" where
  "charged m n r \<longleftrightarrow>
     (if used m + n \<le> limit then \<exists>m'. r = Inr m' \<and> used m' = used m + n else \<exists>x. r = Inl (Panic x))"

lemma charged_consume: "0 \<le> n \<Longrightarrow> charged m n (consume n m)"
  using within_limit [of m n] past_limit [of m n] by (simp add: charged_def not_le)

lemma charged_seq:
  assumes "charged m a r" "0 \<le> b" "\<And>m'. r = Inr m' \<Longrightarrow> used m' \<le> limit \<Longrightarrow> charged m' b (f m')"
  shows "charged m (a + b) (bindR r f)"
proof (cases "used m + a \<le> limit")
  case True
  then obtain m' where m': "r = Inr m'" "used m' = used m + a" using assms(1) by (auto simp: charged_def)
  with assms(3) [OF m'(1)] True show ?thesis by (simp add: charged_def add.assoc split: if_splits)
next
  case False
  then show ?thesis using assms(1,2) by (auto simp: charged_def)
qed

lemma gas_charged:
  "C = consume \<Longrightarrow> 0 \<le> SigVerifyCostSecp256k1 P \<Longrightarrow> sig_supported key sig \<Longrightarrow> used m \<le> limit \<Longrightarrow>
     charged m (sig_cost P key sig) (SigVerificationGasConsumer C P key sig m)"
  "C = consume \<Longrightarrow> 0 \<le> SigVerifyCostSecp256k1 P \<Longrightarrow> matching keys sigs bits i j \<Longrightarrow> used m \<le> limit \<Longrightarrow>
     charged m (sum_list (map (\<lambda>(k, d). sig_cost P k d) (signing keys sigs bits i j)))
       (ConsumeMultisignatureVerificationGas C P keys sigs bits i j m)"
proof (induction C P key sig m and C P keys sigs bits i j m
    rule: SigVerificationGasConsumer_ConsumeMultisignatureVerificationGas.induct)
  case (1 C P key sig m)
  show ?case
  proof (cases key)
    case (MultisigKey keys)
    with "1.prems"(3) obtain bits sigs where sig: "sig = MultiSignature bits sigs"
      by (cases sig) (auto simp: sig_supported.simps [of "MultisigKey keys"])
    have "matching keys sigs bits 0 0"
      using "1.prems"(3) by (simp add: matching_def signing_def sig MultisigKey sig_supported.simps [of "MultisigKey keys"])
    from "1.IH" [OF MultisigKey sig "1.prems"(1,2) this "1.prems"(4)] show ?thesis
      by (simp add: sig MultisigKey sig_cost.simps [of P "MultisigKey keys"] signing_def
          SigVerificationGasConsumer.simps [of C P "MultisigKey keys"])
  qed (use "1.prems" charged_consume in \<open>simp_all add: sig_leaf\<close>)
next
  case (2 C P keys sigs bits i j m)
  let ?sum = "\<lambda>i j. sum_list (map (\<lambda>(k, d). sig_cost P k d) (signing keys sigs bits i j))"
  have pos: "0 \<le> ?sum i j" for i j
    using sig_cost_nonneg [OF "2.prems"(2)] by (intro sum_list_nonneg) auto
  consider (past) "\<not> i < length bits" | (skip) "i < length bits" "\<not> bits ! i" | (sign) "i < length bits" "bits ! i"
    by blast
  then show ?case
  proof cases
    case past
    moreover have "signing keys sigs bits i j = []"
      using past by (simp add: signing_def signers_def)
    ultimately show ?thesis
      using "2.prems"(4) by (simp add: charged_def ConsumeMultisignatureVerificationGas.simps [of _ P keys sigs bits i])
  next
    case skip
    with "2.IH"(1) "2.prems" matching_skip show ?thesis
      by (simp add: ConsumeMultisignatureVerificationGas.simps [of _ P keys sigs bits i])
  next
    case sign
    note n = matching_next [OF "2.prems"(3) sign]
    have k: "slice_get keys i = Inr (keys ! i)" "slice_get sigs j = Inr (sigs ! j)"
      using n(1) sign "2.prems"(3) by (simp_all add: slice_get_def matching_def)
    have "charged m (sig_cost P (keys ! i) (sigs ! j) + ?sum (i + 1) (j + 1))
        (bindR (SigVerificationGasConsumer C P (keys ! i) (sigs ! j) m)
          (ConsumeMultisignatureVerificationGas C P keys sigs bits (i + 1) (j + 1)))"
      using "2.IH"(2) [OF sign(1) _ k "2.prems"(1,2) n(3) "2.prems"(4)] "2.IH"(3) [OF sign(1) _ k _ "2.prems"(1,2) n(2)] sign(2)
      by (intro charged_seq pos) simp_all
    then show ?thesis
      using sign k by (simp add: n(4) ConsumeMultisignatureVerificationGas.simps [of _ P keys sigs bits i])
  qed
qed

end

text \<open>C26: A signature of supported keys, of any nesting of multisignatures whose bit arrays and
  signatures match their keys, costs exactly the sum over the keys that sign: the meter has
  grown by that sum, or the transaction panics when the sum passes the limit. An Ed25519 key is
  never accepted.\<close>

theorem sig_gas_correct:
  assumes "gas_meter consume used limit" "0 \<le> SigVerifyCostSecp256k1 P" "sig_supported key sig" "used m \<le> limit"
  shows "(if used m + sig_cost P key sig \<le> limit
      then \<exists>m'. SigVerificationGasConsumer consume P key sig m = Inr m' \<and> used m' = used m + sig_cost P key sig
      else \<exists>x. SigVerificationGasConsumer consume P key sig m = Inl (Panic x)) \<and>
    \<not> is_ok (SigVerificationGasConsumer consume P Ed25519Key sig m)"
proof -
  have "\<not> is_ok (SigVerificationGasConsumer consume P Ed25519Key sig m)"
    by (cases "consume (SigVerifyCostED25519 P) m") (simp_all add: SigVerificationGasConsumer.simps [of _ _ Ed25519Key])
  then show ?thesis
    using gas_meter.gas_charged(1) [OF assms(1) refl assms(2-4)] by (simp add: gas_meter.charged_def [OF assms(1)])
qed

definition basic_meter :: "int \<Rightarrow> int \<Rightarrow> int \<Rightarrow> int res" where
  "basic_meter limit n m = (if m + n \<le> limit then Inr (m + n) else Inl (Panic ''out of gas''))"

interpretation basic_meter: gas_meter "basic_meter l" "\<lambda>m. m" l
  by unfold_locales (auto simp: basic_meter_def)

text \<open>A two-of-three multisignature, one of the keys again a multisignature.\<close>

definition toy_key :: pub_key where
  "toy_key = MultisigKey [EthSecp256k1Key, Secp256k1Key, MultisigKey [EthSecp256k1Key, Secp256k1Key]]"

definition toy_sig :: sig_data where
  "toy_sig = MultiSignature [True, False, True] [SingleSignature, MultiSignature [False, True] [SingleSignature]]"

theorem sig_gas_correct_witness:
  "\<exists>x. SigVerificationGasConsumer (basic_meter 21500) \<lparr>SigVerifyCostSecp256k1 = 1000, SigVerifyCostED25519 = 590\<rparr>
     toy_key toy_sig 0 = Inl (Panic x)"
proof -
  let ?P = "\<lparr>SigVerifyCostSecp256k1 = 1000, SigVerifyCostED25519 = 590\<rparr>"
  have "sig_cost ?P toy_key toy_sig = 22000" "sig_supported toy_key toy_sig" by code_simp+
  with sig_gas_correct [OF basic_meter.gas_meter_axioms, of ?P toy_key toy_sig 0 21500] show ?thesis by simp
qed

text \<open>The gas meter of the repository that does not consume: since it counts nothing, it refunds
  nothing; every refund panics.\<close>

lemma no_gas_refund:
  "0 < n \<Longrightarrow> foldR ngm_ConsumeGas amounts NewNoConsumptionGasMeter = Inr NewNoConsumptionGasMeter \<and>
     \<not> is_ok (ngm_RefundGas n NewNoConsumptionGasMeter)"
  by (induction amounts) (simp_all add: ngm_ConsumeGas_def ngm_RefundGas_def NewNoConsumptionGasMeter_def)

section \<open>Examples\<close>

definition toy_ante :: "(ledger, toy_staking) oracle_state \<Rightarrow> (ledger, ledger, toy_staking) ante_state" where
  "toy_ante st = \<lparr>as_ctx = sample_ctx 10 5010, as_priority = 0, as_paidFees = None, as_app = toy_fa_state\<lparr>fas_oracle := st\<rparr>\<rparr>"

definition toy_tx :: "sdk_msg list \<Rightarrow> ante_tx" where
  "toy_tx msgs = \<lparr>atx_Msgs = msgs, atx_FeeTx = Some toy_fee_tx, atx_ExtensionOptions = Some []\<rparr>"

text \<open>A free vote, and a paid one two blocks into a period of three: the end blocker of the first block
  does not close the period, and the next block begins.\<close>

definition period_state :: "(ledger, toy_staking) oracle_state" where
  "period_state = sample_state\<lparr>ork_Params := Some (oracle_DefaultParams\<lparr>VotePeriod := 3\<rparr>)\<rparr>"

lemma period_vote_run:
  "is_ok (AggregateExchangeRateVote sample_keeper sample_parse sample_vote_msg period_state)"
  by code_simp

theorem feeless_once_witness:
  "\<exists>st1 st2 st3. AggregateExchangeRateVote sample_keeper sample_parse sample_vote_msg period_state = Inr st1 \<and>
     EndBlocker (\<lambda>ks. ks) isort_ballot sample_keeper (sample_ctx 9 5010) st1 = Inr st2 \<and>
     BeginBlocker sample_keeper (sample_ctx 10 5020) st2 = Inr st3 \<and>
     Feeless_AnteHandle sample_keeper (\<lambda>_ _ _ _. Inl ErrInsufficientFunds) (\<lambda>_ _. Inr)
       (toy_tx [OracleVote sample_vote_msg]) False (toy_ante period_state) =
       Inr ((toy_ante period_state)\<lparr>as_priority := MaxInt64\<rparr>) \<and>
     Feeless_AnteHandle sample_keeper (\<lambda>_ _ _ _. Inl ErrInsufficientFunds) (\<lambda>_ _. Inr)
       (toy_tx [OracleVote sample_vote_msg]) False (toy_ante st3) = Inl ErrInsufficientFunds"
proof -
  let ?tx = "toy_tx [OracleVote sample_vote_msg]" and ?par = "oracle_DefaultParams\<lparr>VotePeriod := 3\<rparr>"
  obtain st1 where st1: "AggregateExchangeRateVote sample_keeper sample_parse sample_vote_msg period_state = Inr st1"
    using period_vote_run by (auto simp: is_ok_iff)
  have a: "ValAddressFromBech32 (ok_codec sample_keeper) (agm_Validator sample_vote_msg) = Inr ''alice''"
    "AccAddressFromBech32 (ok_codec sample_keeper) (agm_Feeder sample_vote_msg) = Inr ''bob''"
    by code_simp+
  have o: "fas_oracle (as_app (toy_ante st)) = st" "atx_Msgs ?tx = [OracleVote sample_vote_msg]" for st
    by (simp_all add: toy_ante_def toy_tx_def)
  have st1_eq: "ork_FeederDelegation st1 = ork_FeederDelegation sample_state" "ork_staking st1 = ork_staking sample_state"
    "ork_Params st1 = Some ?par"
    using st1 by (auto simp: AggregateExchangeRateVote_def Let_def res_simps oracle_emit_def period_state_def)
  have "ValidateFeeder sample_keeper st1 ''bob'' ''alice'' = Inr ()"
    using sample_feeder st1_eq(1,2) by (simp add: ValidateFeeder_def GetFeederDelegationOrDefault_def)
  then have f: "ValidateFeeder sample_keeper (fas_oracle (as_app (toy_ante st1))) ''bob'' ''alice'' = Inr ()"
    by (simp add: o)
  have l: "IsPeriodLastBlock (sample_ctx 9 5010) (VotePeriod ?par) = Inr False"
    "IsPeriodLastBlock (sample_ctx 10 5020) (SlashWindow ?par) = Inr False"
    by code_simp+
  have e: "EndBlocker (\<lambda>ks. ks) isort_ballot sample_keeper (sample_ctx 9 5010) st1 = Inr st1"
    by (rule EndBlocker_open [OF st1_eq(3) l(1)])
  have b: "BeginBlocker sample_keeper (sample_ctx 10 5020) st1 = Inr st1"
    using st1_eq(3) l(2) by (simp add: BeginBlocker_def oracle_GetParams_def)
  have w: "within_period sample_keeper sample_parse st1 (fas_oracle (as_app (toy_ante st1)))"
    unfolding o using within_period.begin_block [OF within_period.end_block [OF within_period.start st1_eq(3) l(1) e] b] .
  have free: "IsTxFeeless sample_keeper [OracleVote sample_vote_msg] period_state = Inr True"
    by code_simp
  from feeless_once [OF st1 w a(1) o(2) a f, of "\<lambda>_ _ _ _. Inl ErrInsufficientFunds" "\<lambda>_ _. Inr" False
      "[OracleVote sample_vote_msg]" ?tx "toy_ante period_state"] free st1
  show ?thesis using e b by (auto simp: o)
qed

text \<open>Ann has two million tokens staked with a validator, Bob has none.\<close>

definition toy_gov :: "ledger GovVoteDecorator" where
  "toy_gov =
     \<lparr>gvd_codec = toy_codec, gvd_dec = legacy_dec,
      gvd_stakingKeeper =
        \<lparr>gs_Delegations = (\<lambda>w a. Inr (if a = ''ann'' then [\<lparr>del_ValidatorAddress = ''valice'', del_Shares = 2 * minStakedTokens\<rparr>] else [])),
         gs_GetValidator = (\<lambda>w a. if a = ''alice'' then Inr (toy_validator a 10) else Inl ErrNotFound)\<rparr>,
      gvd_minStakedTokens = minStakedTokens\<rparr>"

lemma toy_gov_facts:
  "decimals (gvd_dec toy_gov)" "0 < gvd_minStakedTokens toy_gov" "gvd_minStakedTokens toy_gov \<le> 2 ^ 300"
  "AccAddressFromBech32 (gvd_codec toy_gov) ''kann'' = Inr ''ann''"
  "AccAddressFromBech32 (gvd_codec toy_gov) ''kbob'' = Inr ''bob''"
  "gs_Delegations (gvd_stakingKeeper toy_gov) w ''ann'' = Inr [\<lparr>del_ValidatorAddress = ''valice'', del_Shares = 2 * minStakedTokens\<rparr>]"
  "gs_Delegations (gvd_stakingKeeper toy_gov) w ''bob'' = Inr []"
  by (simp_all add: toy_gov_def legacy.decimals_axioms minStakedTokens_def dec_unit_def toy_codec_def valid_addr_def)

lemma toy_gov_stake:
  "delegation_ok toy_gov w \<lparr>del_ValidatorAddress = ''valice'', del_Shares = 2 * minStakedTokens\<rparr>"
  "stake toy_gov w [\<lparr>del_ValidatorAddress = ''valice'', del_Shares = 2 * minStakedTokens\<rparr>] = 2 * minStakedTokens"
  "stake toy_gov w [] = 0"
  by (simp_all add: delegation_ok_def stake_def tokens_of_def toy_gov_def toy_codec_def valid_addr_def
      toy_validator_def minStakedTokens_def dec_unit_def maxDelegationsChecked_def)

lemma GovVote_correct_witness:
  "GovVote_AnteHandle toy_gov (\<lambda>_ _. Inr) (toy_tx [GovVoteV1 ''kann'']) False (toy_ante sample_state) =
     Inr (toy_ante sample_state) \<and>
   (\<exists>e. GovVote_AnteHandle toy_gov (\<lambda>_ _. Inr) (toy_tx [AuthzExec [Some (GovVoteV1 ''kbob'')]]) False
     (toy_ante sample_state) = Inl e)"
proof
  have v: "votes_in (GovVoteV1 a) = [a]" "votes_in (AuthzExec [Some (GovVoteV1 a)]) = [a]" for a
    by (simp_all add: votes_in_def vote_of_def)
  have r: "readable (GovVoteV1 a)" "readable (AuthzExec [Some (GovVoteV1 a)])" for a
    by (simp_all add: readable_def)
  have min: "\<not> gvd_minStakedTokens toy_gov \<le> 0" "gvd_minStakedTokens toy_gov \<le> 2 * minStakedTokens"
    by (simp_all add: toy_gov_def minStakedTokens_def dec_unit_def)
  note tx = toy_tx_def [of "[GovVoteV1 ''kann'']"] toy_tx_def [of "[AuthzExec [Some (GovVoteV1 ''kbob'')]]"]
  show "GovVote_AnteHandle toy_gov (\<lambda>_ _. Inr) (toy_tx [GovVoteV1 ''kann'']) False (toy_ante sample_state) =
     Inr (toy_ante sample_state)"
    using GovVote_correct [OF toy_gov_facts(1-3), of "toy_tx [GovVoteV1 ''kann'']" "toy_ante sample_state" "\<lambda>_ _. Inr"]
    by (simp add: toy_tx_def v r toy_gov_facts toy_gov_stake min)
  show "\<exists>e. GovVote_AnteHandle toy_gov (\<lambda>_ _. Inr) (toy_tx [AuthzExec [Some (GovVoteV1 ''kbob'')]]) False
     (toy_ante sample_state) = Inl e"
    using GovVote_correct [OF toy_gov_facts(1-3), of "toy_tx [AuthzExec [Some (GovVoteV1 ''kbob'')]]" "toy_ante sample_state" "\<lambda>_ _. Inr"]
    by (simp add: toy_tx_def v r toy_gov_facts toy_gov_stake min)
qed

lemma GovExpedited_correct_witness:
  "GovExpedited_AnteHandle True (\<lambda>_ _. Inr) (toy_tx [SubmitProposal True
     [PropMsg ''/cosmos.upgrade.v1beta1.MsgSoftwareUpgrade'']]) False (toy_ante sample_state) =
     Inr (toy_ante sample_state) \<and>
   (\<exists>e. GovExpedited_AnteHandle True (\<lambda>_ _. Inr) (toy_tx [SubmitProposal True
     [PropMsg ''/cosmos.bank.v1beta1.MsgSend'']]) False (toy_ante sample_state) = Inl e)"
  using GovExpedited_correct [of "toy_tx [SubmitProposal True [PropMsg ''/cosmos.upgrade.v1beta1.MsgSoftwareUpgrade'']]"
      "\<lambda>_ _. Inr" False "toy_ante sample_state" "[]"]
    GovExpedited_correct [of "toy_tx [SubmitProposal True [PropMsg ''/cosmos.bank.v1beta1.MsgSend'']]"
      "\<lambda>_ _. Inr" False "toy_ante sample_state" "[]"]
  by (simp add: toy_tx_def)

end
