(* ===== verification/EvmAnte.thy ===== *)
theory EvmAnte
  imports Ante
begin

text \<open>
  \<open>x/feeabstraction/ante/evm\<close>: the single decorator of an Ethereum transaction, with the fee
  conversion between the checks and the deduction. The checks of \<open>cosmos/evm\<close>, the EVM, account
  and fee market keepers are parameters; events and logging are left out.
\<close>

section \<open>Ethereum transactions\<close>

record eth_tx =
  et_Gas :: int
  et_DynamicFee :: bool
  et_Nonce :: int
  et_Value :: int

record eth_msg =
  em_Tx :: eth_tx
  em_From :: addr
  em_Fee :: int

record statedb_account =
  sa_Balance :: int
  sa_IsContract :: bool

text \<open>The utilities of the decorator: what the loop updates, the base fee, and the parameters, rules,
  signer and minimum prices that only the checks read.\<close>

record 'e mono_utils =
  mu_BaseFee :: "int option"
  mu_GasWanted :: int
  mu_MinPriority :: int
  mu_TxFee :: int
  mu_TxGasLimit :: int
  mu_params :: 'e

text \<open>A fee of the Cosmos envelope is its amount and its gas limit.\<close>

type_synonym tx_fee = "coins \<times> int"

record ('w, 'b, 's, 'e) evm_ops =
  eo_EVMCoinDenom :: string
  eo_ValidateTx :: "ante_tx \<Rightarrow> tx_fee res"
  eo_SetupContext :: "ante_tx \<Rightarrow> ('w, 'b, 's) ante_state \<Rightarrow> ('w, 'b, 's) ante_state res"
  eo_NewUtils :: "('w, 'b, 's) ante_state \<Rightarrow> 'e mono_utils res"
  eo_UnpackEthMsg :: "sdk_msg \<Rightarrow> eth_msg res"
  eo_CheckMempoolFee :: "dec \<Rightarrow> 'e mono_utils \<Rightarrow> dec \<Rightarrow> unit res"
  eo_GetEffectiveFee :: "eth_msg \<Rightarrow> int \<Rightarrow> int"
  eo_CheckGlobalFee :: "dec \<Rightarrow> 'e mono_utils \<Rightarrow> dec \<Rightarrow> unit res"
  eo_ValidateMsg :: "'e mono_utils \<Rightarrow> eth_tx \<Rightarrow> unit res"
  eo_SignatureVerification :: "eth_msg \<Rightarrow> 'e mono_utils \<Rightarrow> unit res"
  eo_BytesToAddress :: "addr \<Rightarrow> addr"
  eo_GetAccount :: "'w \<Rightarrow> addr \<Rightarrow> statedb_account option"
  eo_SetNewAccount :: "addr \<Rightarrow> 'w \<Rightarrow> 'w"
  eo_CanTransfer :: "('w, 'b, 's) ante_state \<Rightarrow> eth_msg \<Rightarrow> 'e mono_utils \<Rightarrow> unit res"
  eo_VerifyFee :: "eth_tx \<Rightarrow> string \<Rightarrow> 'e mono_utils \<Rightarrow> bool \<Rightarrow> coins res"
  eo_ConsumeFees :: "coins \<Rightarrow> addr \<Rightarrow> 'w \<Rightarrow> 'w res"
  eo_UpdateCumulativeGasWanted :: "('w, 'b, 's) ante_state \<Rightarrow> int \<Rightarrow> int \<Rightarrow> int \<Rightarrow> int"
  eo_GetMsgPriority :: "eth_tx \<Rightarrow> int \<Rightarrow> int option \<Rightarrow> int"
  eo_HasAccount :: "'w \<Rightarrow> addr \<Rightarrow> bool"
  eo_IncrementNonce :: "addr \<Rightarrow> int \<Rightarrow> 'w \<Rightarrow> 'w res"
  eo_CheckGasWanted :: "ante_tx \<Rightarrow> 'e mono_utils \<Rightarrow> ('w, 'b, 's) ante_state \<Rightarrow> 'w res"
  eo_CheckTxFee :: "tx_fee option \<Rightarrow> int \<Rightarrow> int \<Rightarrow> unit res"
  eo_CheckBlockGasLimit :: "int \<Rightarrow> int \<Rightarrow> ('w, 'b, 's) ante_state \<Rightarrow> ('w, 'b, 's) ante_state res"

record ('w, 'b, 's, 'e) MonoDecorator =
  md_evm :: "('w, 'b, 's, 'e) evm_ops"
  md_feeAbstractionKeeper :: "'w fa_Keeper"
  md_maxGasWanted :: int

section \<open>Account checks\<close>

definition VerifyIfAccountExists ::
  "('w, 'b, 's, 'e) evm_ops \<Rightarrow> statedb_account option \<Rightarrow> addr \<Rightarrow> 'w \<Rightarrow> 'w res" where
  "VerifyIfAccountExists E account from_addr w =
     (case account of
        Some a \<Rightarrow> if sa_IsContract a then Inl ErrInvalidType else Inr w
      | None \<Rightarrow> Inr (eo_SetNewAccount E from_addr w))"

definition checkSenderBalance :: "int \<Rightarrow> eth_tx \<Rightarrow> unit res" where
  "checkSenderBalance balance ethTx =
     (if et_Value ethTx < 0 then Inl ErrInvalidCoins
      else if balance < 0 \<or> balance < et_Value ethTx then Inl ErrInsufficientFunds
      else Inr ())"

definition VerifyAccountBalance :: "statedb_account option \<Rightarrow> eth_tx \<Rightarrow> unit res" where
  "VerifyAccountBalance account ethTx = bindR (deref account) (\<lambda>a. checkSenderBalance (sa_Balance a) ethTx)"

section \<open>The decorator\<close>

definition LegacyNewDecFromBigInt :: "int \<Rightarrow> dec" where
  "LegacyNewDecFromBigInt i = i * dec_unit"

definition with_world :: "'w \<Rightarrow> ('w, 'b, 's) ante_state \<Rightarrow> ('w, 'b, 's) ante_state" where
  "with_world w s = s\<lparr>as_app := (as_app s)\<lparr>fas_world := w\<rparr>\<rparr>"

abbreviation world_of :: "('w, 'b, 's) ante_state \<Rightarrow> 'w" where
  "world_of s \<equiv> fas_world (as_app s)"

text \<open>The fee checks of a message (steps 2 to 5 of the code), without effect on the state.\<close>

definition mono_checks ::
  "('w, 'b, 's, 'e) evm_ops \<Rightarrow> bool \<Rightarrow> 'e mono_utils \<Rightarrow> eth_msg \<Rightarrow> ('w, 'b, 's) ante_state \<Rightarrow> unit res" where
  "mono_checks E simulate utils ethMsg s =
     (let ethTx = em_Tx ethMsg;
          fee = LegacyNewDecFromBigInt (em_Fee ethMsg);
          gasLimit = LegacyNewDecFromBigInt (et_Gas ethTx)
      in bindR (if IsCheckTx (as_ctx s) \<and> \<not> simulate then eo_CheckMempoolFee E fee utils gasLimit else Inr ()) (\<lambda>_.
         let fee = (case mu_BaseFee utils of
                      Some baseFee \<Rightarrow> if et_DynamicFee ethTx
                                      then LegacyNewDecFromBigInt (eo_GetEffectiveFee E ethMsg baseFee) else fee
                    | None \<Rightarrow> fee)
         in bindR (eo_CheckGlobalFee E fee utils gasLimit) (\<lambda>_.
            bindR (eo_ValidateMsg E utils ethTx) (\<lambda>_.
            eo_SignatureVerification E ethMsg utils))))"

text \<open>Steps 6 to 8: the account, the transfer, the fee and its conversion. The result is the fee paid
  and the state.\<close>

definition mono_pay ::
  "('w, 'b, 's, 'e) MonoDecorator \<Rightarrow> string \<Rightarrow> 'e mono_utils \<Rightarrow> eth_msg \<Rightarrow> ('w, 'b, 's) ante_state \<Rightarrow>
   (coins \<times> ('w, 'b, 's) ante_state) res" where
  "mono_pay md evmDenom utils ethMsg s =
     (let E = md_evm md;
          from_acc = em_From ethMsg;
          fromAddr = eo_BytesToAddress E from_acc
      in bindR (VerifyIfAccountExists E (eo_GetAccount E (world_of s) fromAddr) fromAddr (world_of s)) (\<lambda>w.
         let s = with_world w s
         in bindR (eo_CanTransfer E s ethMsg utils) (\<lambda>_.
            bindR (eo_VerifyFee E (em_Tx ethMsg) evmDenom utils (IsCheckTx (as_ctx s))) (\<lambda>msgFees.
            bindR (ConvertNativeFee (md_feeAbstractionKeeper md) from_acc msgFees (as_app s)) (\<lambda>(convertedMsgFees, app).
            bindR (eo_ConsumeFees E convertedMsgFees from_acc (fas_world app)) (\<lambda>w.
            let s = with_world w (s\<lparr>as_app := app\<rparr>)
            in bindR (VerifyAccountBalance (eo_GetAccount E w fromAddr) (em_Tx ethMsg)) (\<lambda>_.
               Inr (convertedMsgFees, s))))))))"

text \<open>The whole body of the loop.\<close>

definition mono_msg ::
  "('w, 'b, 's, 'e) MonoDecorator \<Rightarrow> string \<Rightarrow> ante_tx \<Rightarrow> bool \<Rightarrow> sdk_msg \<Rightarrow>
   'e mono_utils \<times> ('w, 'b, 's) ante_state \<Rightarrow> ('e mono_utils \<times> ('w, 'b, 's) ante_state) res" where
  "mono_msg md evmDenom tx simulate msg = (\<lambda>(utils, s).
     let E = md_evm md
     in bindR (eo_UnpackEthMsg E msg) (\<lambda>ethMsg.
        let ethTx = em_Tx ethMsg; gas = et_Gas ethTx
        in bindR (mono_checks E simulate utils ethMsg s) (\<lambda>_.
           bindR (mono_pay md evmDenom utils ethMsg s) (\<lambda>(convertedMsgFees, s).
           let utils = utils\<lparr>mu_GasWanted := eo_UpdateCumulativeGasWanted E s gas (md_maxGasWanted md) (mu_GasWanted utils)\<rparr>;
               utils = utils\<lparr>mu_MinPriority := eo_GetMsgPriority E ethTx (mu_MinPriority utils) (mu_BaseFee utils)\<rparr>;
               utils = utils\<lparr>mu_TxFee := mu_TxFee utils + em_Fee ethMsg,
                             mu_TxGasLimit := u64 (mu_TxGasLimit utils + gas)\<rparr>
           in if \<not> eo_HasAccount E (world_of s) (em_From ethMsg) then Inl ErrUnknownAddress
              else
                bindR (eo_IncrementNonce E (em_From ethMsg) (et_Nonce ethTx) (world_of s)) (\<lambda>w.
                bindR (eo_CheckGasWanted E tx utils (with_world w s)) (\<lambda>w'.
                Inr (utils, (with_world w' s)\<lparr>as_paidFees := Some convertedMsgFees\<rparr>)))))))"

definition Mono_AnteHandle :: "('w, 'b, 's, 'e) MonoDecorator \<Rightarrow> ('w, 'b, 's) decorator" where
  "Mono_AnteHandle md next_handler tx simulate s =
     (let E = md_evm md
      in bindR (if \<not> IsReCheckTx (as_ctx s) then bindR (eo_ValidateTx E tx) (\<lambda>f. Inr (Some f)) else Inr None) (\<lambda>txFeeInfo.
         let evmDenom = eo_EVMCoinDenom E
         in bindR (eo_SetupContext E tx s) (\<lambda>s.
            bindR (eo_NewUtils E s) (\<lambda>decUtils.
            bindR (foldR (mono_msg md evmDenom tx simulate) (atx_Msgs tx) (decUtils, s)) (\<lambda>(decUtils, s).
            bindR (eo_CheckTxFee E txFeeInfo (mu_TxFee decUtils) (mu_TxGasLimit decUtils)) (\<lambda>_.
            bindR (eo_CheckBlockGasLimit E (mu_GasWanted decUtils) (mu_MinPriority decUtils) s) (\<lambda>s.
            next_handler tx simulate s)))))))"

end
