(* ===== verification/EvmProps.thy ===== *)
theory EvmProps
  imports EvmAnte FeeAbsProps
begin

text \<open>
  An Ethereum transaction reaches the next handler only signed, paid and covered.
\<close>

text \<open>What the decorator relies on: the fee is sent to the fee collector; creating an account, the nonce,
  the block's gas and the context move no coins.  The account keeper compares the nonce of the
  transaction with the sequence of the account (\<open>seq\<close>), a \<open>uint64\<close>, and counts the sequence up,
  which changes neither what the account owns nor what it is; counting the gas wanted and setting up
  the context leave sequences and accounts alone.\<close>

locale evm_env =
  fixes md :: "('w, 'b, 's, 'e) MonoDecorator" and col esc :: addr and seq :: "'w \<Rightarrow> addr \<Rightarrow> int"
  assumes erc20: "erc20_laws (fak_erc20 (md_feeAbstractionKeeper md)) (fak_bank (md_feeAbstractionKeeper md)) esc"
    and coins: "coin_rules (fak_checks (md_feeAbstractionKeeper md))"
    and consume: "eo_ConsumeFees (md_evm md) cs a w = Inr w' \<Longrightarrow>
      moved (fak_bank (md_feeAbstractionKeeper md)) a col cs w w'"
    and new_account: "bank_GetBalance (fak_bank (md_feeAbstractionKeeper md)) (eo_SetNewAccount (md_evm md) a w) =
      bank_GetBalance (fak_bank (md_feeAbstractionKeeper md)) w"
    and nonce: "eo_IncrementNonce (md_evm md) a i w = Inr w' \<Longrightarrow>
      bank_GetBalance (fak_bank (md_feeAbstractionKeeper md)) w' = bank_GetBalance (fak_bank (md_feeAbstractionKeeper md)) w \<and>
      eo_GetAccount (md_evm md) w' = eo_GetAccount (md_evm md) w \<and>
      seq w a = i \<and> seq w' = (seq w)(a := u64 (i + 1))"
    and gas_wanted: "eo_CheckGasWanted (md_evm md) tx u s = Inr w' \<Longrightarrow>
      bank_GetBalance (fak_bank (md_feeAbstractionKeeper md)) w' =
        bank_GetBalance (fak_bank (md_feeAbstractionKeeper md)) (world_of s) \<and>
      eo_GetAccount (md_evm md) w' = eo_GetAccount (md_evm md) (world_of s) \<and> seq w' = seq (world_of s)"
    and context_set: "eo_SetupContext (md_evm md) tx s = Inr s' \<Longrightarrow> as_app s' = as_app s"
    and block: "eo_CheckBlockGasLimit (md_evm md) n p s = Inr s' \<Longrightarrow>
      as_app s' = as_app s \<and> as_paidFees s' = as_paidFees s"
    and apart: "col \<noteq> esc"
begin

abbreviation "K \<equiv> md_feeAbstractionKeeper md"

lemma exists_balance:
  assumes "VerifyIfAccountExists (md_evm md) acc a w = Inr w'"
  shows "bank_GetBalance (fak_bank K) w' = bank_GetBalance (fak_bank K) w"
    and "acc = None \<or> (\<exists>x. acc = Some x \<and> \<not> sa_IsContract x)"
  using assms new_account by (auto simp: VerifyIfAccountExists_def split: option.splits if_splits)

lemma mono_pay_Inr:
  assumes run: "mono_pay md denom u em s = Inr (cs, s')" and ts: "fas_FeeTokens (as_app s) = Some ts"
    and fee: "\<forall>c fs. eo_VerifyFee (md_evm md) (em_Tx em) denom u c = Inr fs \<longrightarrow> fs = [f]"
    and col: "col \<noteq> em_From em"
  shows "\<exists>paid a. cs = [paid] \<and>
    (paid = f \<or> (\<exists>t n. t \<in> set ts \<and> ft_Enabled t \<and> equivalent (fak_dec K) (coin_Amount f) t = Inr n \<and> 0 < n \<and>
       paid = \<lparr>coin_Denom = ft_Denom t, coin_Amount = n\<rparr>)) \<and>
    (\<forall>d. fa_balance K (as_app s') col d = fa_balance K (as_app s) col d + amount_of [paid] d) \<and>
    (\<forall>x d. x \<notin> {em_From em, col, esc} \<longrightarrow> fa_balance K (as_app s') x d = fa_balance K (as_app s) x d) \<and>
    eo_GetAccount (md_evm md) (world_of s') (eo_BytesToAddress (md_evm md) (em_From em)) = Some a \<and>
    0 \<le> et_Value (em_Tx em) \<and> et_Value (em_Tx em) \<le> sa_Balance a"
proof -
  let ?E = "md_evm md" and ?from = "em_From em" and ?bal = "bank_GetBalance (fak_bank K)"
  let ?addr = "eo_BytesToAddress ?E ?from"
  obtain w app w' where r: "VerifyIfAccountExists ?E (eo_GetAccount ?E (world_of s) ?addr) ?addr (world_of s) = Inr w"
    "ConvertNativeFee K ?from [f] (as_app (with_world w s)) = Inr (cs, app)"
    "eo_ConsumeFees ?E cs ?from (fas_world app) = Inr w'"
    "VerifyAccountBalance (eo_GetAccount ?E w' ?addr) (em_Tx em) = Inr ()"
    "s' = with_world w' ((with_world w s)\<lparr>as_app := app\<rparr>)"
    using run fee by (fastforce simp: mono_pay_def Let_def res_simps)
  have "fas_FeeTokens (as_app (with_world w s)) = Some ts" using ts by (simp add: with_world_def)
  from ConvertNativeFee_payable [OF erc20 coins r(2) this] obtain v where v:
    "app = (as_app (with_world w s))\<lparr>fas_world := v\<rparr>"
    "\<forall>x d. x \<noteq> ?from \<longrightarrow> x \<noteq> esc \<longrightarrow> ?bal v x d = fa_balance K (as_app (with_world w s)) x d"
    "cs = [f] \<or> (\<exists>t n. t \<in> set ts \<and> ft_Enabled t \<and> equivalent (fak_dec K) (coin_Amount f) t = Inr n \<and> 0 < n \<and>
       cs = [\<lparr>coin_Denom = ft_Denom t, coin_Amount = n\<rparr>])"
    by blast
  obtain paid where p: "cs = [paid]" "paid = f \<or> (\<exists>t n. t \<in> set ts \<and> ft_Enabled t \<and>
      equivalent (fak_dec K) (coin_Amount f) t = Inr n \<and> 0 < n \<and> paid = \<lparr>coin_Denom = ft_Denom t, coin_Amount = n\<rparr>)"
    using v(3) by blast
  obtain a where a: "eo_GetAccount ?E w' ?addr = Some a" "0 \<le> et_Value (em_Tx em)" "et_Value (em_Tx em) \<le> sa_Balance a"
    using r(4) by (auto simp: VerifyAccountBalance_def checkSenderBalance_def res_simps split: if_splits)
  have m: "moved (fak_bank K) ?from col [paid] v w'" using consume [OF r(3)] by (simp add: p(1) v(1))
  have same: "?bal v x d = ?bal (world_of s) x d" if "x \<noteq> ?from" "x \<noteq> esc" for x d
    using v(2) that exists_balance(1) [OF r(1)] by (simp add: fa_balance_def with_world_def)
  have w': "world_of s' = w'" by (simp add: r(5) with_world_def)
  have "fa_balance K (as_app s') col d = fa_balance K (as_app s) col d + amount_of [paid] d" for d
    using m col apart same [of col d] by (simp add: fa_balance_def w' moved_def)
  moreover have "fa_balance K (as_app s') x d = fa_balance K (as_app s) x d" if "x \<notin> {?from, col, esc}" for x d
    using m that same [of x d] by (simp add: fa_balance_def w' moved_def)
  ultimately show ?thesis
    using p a unfolding w' by blast
qed

lemma mono_msg_Inr:
  assumes "mono_msg md denom tx simulate msg (u, s) = Inr (u', s')" and "eo_UnpackEthMsg (md_evm md) msg = Inr em"
  obtains cs s1 w w' v where "mono_checks (md_evm md) simulate u em s = Inr ()"
    "mono_pay md denom u em s = Inr (cs, s1)"
    "eo_IncrementNonce (md_evm md) (em_From em) (et_Nonce (em_Tx em)) (world_of s1) = Inr w"
    "eo_CheckGasWanted (md_evm md) tx v (with_world w s1) = Inr w'"
    "s' = (with_world w' s1)\<lparr>as_paidFees := Some cs\<rparr>"
  using assms by (auto simp: mono_msg_def Let_def res_simps split: if_splits)

text \<open>The second half of a message: the nonce is the account's sequence and is counted up in the
  resulting state, where the account is the one that was paid from.\<close>

lemma mono_msg_nonce:
  assumes "eo_IncrementNonce (md_evm md) a i (world_of s1) = Inr w"
    and "eo_CheckGasWanted (md_evm md) tx v (with_world w s1) = Inr w'"
  shows "bank_GetBalance (fak_bank K) w' = bank_GetBalance (fak_bank K) (world_of s1)"
    and "eo_GetAccount (md_evm md) w' = eo_GetAccount (md_evm md) (world_of s1)"
    and "seq (world_of s1) a = i" and "seq w' = (seq (world_of s1))(a := u64 (i + 1))"
  using nonce [OF assms(1)] gas_wanted [OF assms(2)] by (simp_all add: with_world_def)

lemma u64_Suc_neq: "u64 (i + 1) \<noteq> i"
proof
  assume i: "u64 (i + 1) = i"
  then have "0 \<le> i" "i < 2 ^ 64"
    using pos_mod_bound [of "2 ^ 64" "i + 1"] pos_mod_sign [of "2 ^ 64" "i + 1"] by (simp_all add: u64_def)
  then show False
    using i by (cases "i + 1 = 2 ^ 64") (simp_all add: u64_def)
qed

text \<open>A nonce that was used is refused.\<close>

lemma nonce_used: "seq w a = u64 (i + 1) \<Longrightarrow> \<not> is_ok (eo_IncrementNonce (md_evm md) a i w)"
  using nonce [of a i w] u64_Suc_neq [of i] by (cases "eo_IncrementNonce (md_evm md) a i w") auto

lemma mono_checks_Inr:
  "mono_checks E simulate u em s = Inr () \<Longrightarrow>
     eo_SignatureVerification E em u = Inr () \<and> eo_ValidateMsg E u (em_Tx em) = Inr ()"
  by (auto simp: mono_checks_def Let_def res_simps)

end

text \<open>C19: A transaction with one Ethereum message reaches the next handler only when its signature and
  contents are verified and its fee is paid.  In the state the next handler gets, the fee collector
  has gained exactly one coin, the native fee or its rounded equivalent in an enabled fee token,
  nobody but the sender, the collector and the ERC-20 escrow has gained or lost anything, and the
  context records that coin for the refund; the sender's account still holds the value of the
  transfer; and the sender's sequence is one more than the nonce of the transaction, so that the
  same nonce is refused from then on.\<close>

theorem Mono_correct:
  assumes "evm_env md col esc seq" "Mono_AnteHandle md next_handler tx simulate s = Inr r" "atx_Msgs tx = [msg]"
    and "eo_UnpackEthMsg (md_evm md) msg = Inr em" "fas_FeeTokens (as_app s) = Some ts" "col \<noteq> em_From em"
    and "\<forall>u c fs. eo_VerifyFee (md_evm md) (em_Tx em) (eo_EVMCoinDenom (md_evm md)) u c = Inr fs \<longrightarrow> fs = [f]"
  shows "\<exists>s1 u paid a. next_handler tx simulate s1 = Inr r \<and>
    eo_SignatureVerification (md_evm md) em u = Inr () \<and> eo_ValidateMsg (md_evm md) u (em_Tx em) = Inr () \<and>
    (paid = f \<or> (\<exists>t n. t \<in> set ts \<and> ft_Enabled t \<and>
       equivalent (fak_dec (md_feeAbstractionKeeper md)) (coin_Amount f) t = Inr n \<and> 0 < n \<and>
       paid = \<lparr>coin_Denom = ft_Denom t, coin_Amount = n\<rparr>)) \<and>
    as_paidFees s1 = Some [paid] \<and>
    (\<forall>d. fa_balance (md_feeAbstractionKeeper md) (as_app s1) col d =
       fa_balance (md_feeAbstractionKeeper md) (as_app s) col d + amount_of [paid] d) \<and>
    (\<forall>x d. x \<notin> {em_From em, col, esc} \<longrightarrow>
       fa_balance (md_feeAbstractionKeeper md) (as_app s1) x d = fa_balance (md_feeAbstractionKeeper md) (as_app s) x d) \<and>
    eo_GetAccount (md_evm md) (world_of s1) (eo_BytesToAddress (md_evm md) (em_From em)) = Some a \<and>
    0 \<le> et_Value (em_Tx em) \<and> et_Value (em_Tx em) \<le> sa_Balance a \<and>
    seq (world_of s1) (em_From em) = u64 (et_Nonce (em_Tx em) + 1) \<and>
    \<not> is_ok (eo_IncrementNonce (md_evm md) (em_From em) (et_Nonce (em_Tx em)) (world_of s1))"
proof -
  let ?E = "md_evm md" and ?K = "md_feeAbstractionKeeper md"
  let ?denom = "eo_EVMCoinDenom ?E"
  obtain s0 u u' s' s1 n q where r: "eo_SetupContext ?E tx s = Inr s0"
    "mono_msg md ?denom tx simulate msg (u, s0) = Inr (u', s')"
    "eo_CheckBlockGasLimit ?E n q s' = Inr s1" "next_handler tx simulate s1 = Inr r"
    using assms(2,3) by (fastforce simp: Mono_AnteHandle_def Let_def res_simps)
  have s0: "as_app s0 = as_app s" by (rule evm_env.context_set [OF assms(1) r(1)])
  have s1: "as_app s1 = as_app s'" "as_paidFees s1 = as_paidFees s'"
    using evm_env.block [OF assms(1) r(3)] by simp_all
  obtain cs t w w' v where m: "mono_checks ?E simulate u em s0 = Inr ()" "mono_pay md ?denom u em s0 = Inr (cs, t)"
    "eo_IncrementNonce ?E (em_From em) (et_Nonce (em_Tx em)) (world_of t) = Inr w"
    "eo_CheckGasWanted ?E tx v (with_world w t) = Inr w'" "s' = (with_world w' t)\<lparr>as_paidFees := Some cs\<rparr>"
    using evm_env.mono_msg_Inr [OF assms(1) r(2) assms(4)] .
  have ts: "fas_FeeTokens (as_app s0) = Some ts" using assms(5) s0 by simp
  have fee: "\<forall>c fs. eo_VerifyFee ?E (em_Tx em) ?denom u c = Inr fs \<longrightarrow> fs = [f]"
    using assms(7) by blast
  from evm_env.mono_pay_Inr [OF assms(1) m(2) ts fee assms(6)] obtain paid a where p: "cs = [paid]"
    "paid = f \<or> (\<exists>t n. t \<in> set ts \<and> ft_Enabled t \<and> equivalent (fak_dec ?K) (coin_Amount f) t = Inr n \<and> 0 < n \<and>
       paid = \<lparr>coin_Denom = ft_Denom t, coin_Amount = n\<rparr>)"
    "\<forall>d. fa_balance ?K (as_app t) col d = fa_balance ?K (as_app s) col d + amount_of [paid] d"
    "\<forall>x d. x \<notin> {em_From em, col, esc} \<longrightarrow> fa_balance ?K (as_app t) x d = fa_balance ?K (as_app s) x d"
    "eo_GetAccount ?E (world_of t) (eo_BytesToAddress ?E (em_From em)) = Some a"
    "0 \<le> et_Value (em_Tx em)" "et_Value (em_Tx em) \<le> sa_Balance a"
    unfolding s0 by blast
  note n = evm_env.mono_msg_nonce [OF assms(1) m(3,4)]
  have w1: "world_of s1 = w'" by (simp add: s1(1) m(5) with_world_def)
  have bal: "fa_balance ?K (as_app s1) x d = fa_balance ?K (as_app t) x d" for x d
    using n(1) by (simp add: fa_balance_def w1)
  have seq: "seq (world_of s1) (em_From em) = u64 (et_Nonce (em_Tx em) + 1)"
    unfolding w1 n(4) by simp
  have acc: "eo_GetAccount ?E (world_of s1) (eo_BytesToAddress ?E (em_From em)) = Some a"
    unfolding w1 n(2) by (rule p(5))
  have paid: "as_paidFees s1 = Some [paid]" by (simp add: s1(2) m(5) p(1))
  show ?thesis
    by (intro exI [of _ s1] exI [of _ u] exI [of _ paid] exI [of _ a]
        conjI r(4) p(2,6,7) paid acc seq evm_env.nonce_used [OF assms(1) seq])
      (use p(3,4) evm_env.mono_checks_Inr [OF assms(1) m(1)] in \<open>simp_all add: bal\<close>)
qed

text \<open>An example: the sender pays with USDC as in theory FeeAbsProps; the checks of the EVM accept
  everything but a wrong nonce, and the ledger keeps the nonces.\<close>

definition toy_evm :: "(ledger, ledger, toy_staking, unit) evm_ops" where
  "toy_evm =
     \<lparr>eo_EVMCoinDenom = ''akii'', eo_ValidateTx = (\<lambda>tx. Inr (toy_fee, 21000)), eo_SetupContext = (\<lambda>tx. Inr),
      eo_NewUtils = (\<lambda>s. Inr \<lparr>mu_BaseFee = None, mu_GasWanted = 0, mu_MinPriority = 0, mu_TxFee = 0,
        mu_TxGasLimit = 0, mu_params = ()\<rparr>),
      eo_UnpackEthMsg = (\<lambda>m. Inr \<lparr>em_Tx = \<lparr>et_Gas = 21000, et_DynamicFee = False, et_Nonce = 0, et_Value = 0\<rparr>,
        em_From = ''ann'', em_Fee = 2 * 10 ^ 18\<rparr>),
      eo_CheckMempoolFee = (\<lambda>_ _ _. Inr ()), eo_GetEffectiveFee = (\<lambda>em b. em_Fee em),
      eo_CheckGlobalFee = (\<lambda>_ _ _. Inr ()), eo_ValidateMsg = (\<lambda>_ _. Inr ()),
      eo_SignatureVerification = (\<lambda>_ _. Inr ()), eo_BytesToAddress = (\<lambda>a. a),
      eo_GetAccount = (\<lambda>w a. Some \<lparr>sa_Balance = lg_bal w a ''akii'', sa_IsContract = False\<rparr>),
      eo_SetNewAccount = (\<lambda>a w. w), eo_CanTransfer = (\<lambda>_ _ _. Inr ()), eo_VerifyFee = (\<lambda>_ _ _ _. Inr toy_fee),
      eo_ConsumeFees = (\<lambda>cs a. lg_send a (lg_module FeeCollectorName) cs),
      eo_UpdateCumulativeGasWanted = (\<lambda>_ g _ c. g + c), eo_GetMsgPriority = (\<lambda>_ p _. p),
      eo_HasAccount = (\<lambda>_ _. True), eo_IncrementNonce = (\<lambda>a n w. if n = lg_nonce w a then Inr (w\<lparr>lg_nonce := (lg_nonce w)(a := u64 (n + 1))\<rparr>)
        else Inl ErrInvalidRequest),
      eo_CheckGasWanted = (\<lambda>_ _ s. Inr (world_of s)), eo_CheckTxFee = (\<lambda>_ _ _. Inr ()),
      eo_CheckBlockGasLimit = (\<lambda>_ p s. Inr (s\<lparr>as_priority := p\<rparr>))\<rparr>"

definition toy_mono :: "(ledger, ledger, toy_staking, unit) MonoDecorator" where
  "toy_mono = \<lparr>md_evm = toy_evm, md_feeAbstractionKeeper = toy_fa, md_maxGasWanted = 0\<rparr>"

interpretation toy_mono: evm_env toy_mono "lg_module FeeCollectorName" "''escrow''" lg_nonce
proof (rule evm_env.intro)
  show "erc20_laws (fak_erc20 (md_feeAbstractionKeeper toy_mono)) (fak_bank (md_feeAbstractionKeeper toy_mono)) ''escrow''"
    by (simp add: toy_mono_def toy_fa_def toy_erc20.erc20_laws_axioms)
  show "coin_rules (fak_checks (md_feeAbstractionKeeper toy_mono))"
    by (simp add: toy_mono_def toy_fa_def toy_coins.coin_rules_axioms)
  show "eo_ConsumeFees (md_evm toy_mono) cs a w = Inr w' \<Longrightarrow>
      moved (fak_bank (md_feeAbstractionKeeper toy_mono)) a (lg_module FeeCollectorName) cs w w'" for cs a w w'
    using ledger.send [of a "lg_module FeeCollectorName" cs w w']
    by (simp add: toy_mono_def toy_evm_def toy_fa_def ledger_bank_def)
qed (auto simp: toy_mono_def toy_evm_def toy_fa_def ledger_bank_def lg_module_def FeeCollectorName_def split: if_splits)

definition toy_eth_tx :: ante_tx where
  "toy_eth_tx = \<lparr>atx_Msgs = [OtherSdkMsg ''/cosmos.evm.vm.v1.MsgEthereumTx''], atx_FeeTx = None,
     atx_ExtensionOptions = Some [''/cosmos.evm.vm.v1.ExtensionOptionsEthereumTx'']\<rparr>"

definition toy_eth_state :: "(ledger, ledger, toy_staking) ante_state" where
  "toy_eth_state = \<lparr>as_ctx = sample_ctx 10 5010, as_priority = 0, as_paidFees = None, as_app = toy_fa_state\<rparr>"

theorem Mono_correct_witness:
  "\<exists>r. Mono_AnteHandle toy_mono (\<lambda>_ _. Inr) toy_eth_tx False toy_eth_state = Inr r \<and>
     as_paidFees r = Some [\<lparr>coin_Denom = ''uusdc'', coin_Amount = 500000\<rparr>] \<and>
     fa_balance toy_fa (as_app r) ''bob'' ''uusdc'' = 0 \<and>
     lg_nonce (world_of toy_eth_state) ''ann'' = 0 \<and> lg_nonce (world_of r) ''ann'' = 1 \<and>
     \<not> is_ok (eo_IncrementNonce toy_evm ''ann'' 0 (world_of r))"
proof -
  let ?col = "lg_module FeeCollectorName" and ?coin = "\<lparr>coin_Denom = ''uusdc'', coin_Amount = 500000\<rparr>"
  let ?em = "\<lparr>em_Tx = \<lparr>et_Gas = 21000, et_DynamicFee = False, et_Nonce = 0, et_Value = 0\<rparr>,
        em_From = ''ann'', em_Fee = 2 * 10 ^ 18\<rparr>"
  obtain w where w: "ConvertNativeFee toy_fa ''ann'' toy_fee toy_fa_state = Inr ([?coin], toy_fa_state\<lparr>fas_world := w\<rparr>)"
    "lg_bal w ''ann'' ''uusdc'' = 500000" "lg_bal w ''ann'' ''akii'' = 0" "lg_nonce w = (\<lambda>_. 0)"
    using toy_conversion by blast
  obtain w' where w': "lg_send ''ann'' ?col [?coin] w = Inr w'"
    using w(2) by (simp add: lg_send_def covered_def)
  have "lg_bal w' ''ann'' ''akii'' = lg_bal w ''ann'' ''akii''" "lg_nonce w' = lg_nonce w"
    using w' by (auto simp: lg_send_def lg_module_def split: if_splits)
  then have "map_sum id as_paidFees (Mono_AnteHandle toy_mono (\<lambda>_ _. Inr) toy_eth_tx False toy_eth_state) =
      Inr (Some [?coin])"
    using w(1,3,4) w'
    by (simp add: Mono_AnteHandle_def mono_msg_def mono_checks_def mono_pay_def toy_mono_def toy_evm_def toy_eth_tx_def
        toy_eth_state_def VerifyIfAccountExists_def VerifyAccountBalance_def checkSenderBalance_def Let_def
        with_world_def sample_ctx_def)
  then obtain r where r: "Mono_AnteHandle toy_mono (\<lambda>_ _. Inr) toy_eth_tx False toy_eth_state = Inr r"
    "as_paidFees r = Some [?coin]"
    by (cases "Mono_AnteHandle toy_mono (\<lambda>_ _. Inr) toy_eth_tx False toy_eth_state") auto
  let ?msg = "OtherSdkMsg ''/cosmos.evm.vm.v1.MsgEthereumTx''"
  have h: "atx_Msgs toy_eth_tx = [?msg]" "eo_UnpackEthMsg (md_evm toy_mono) ?msg = Inr ?em"
    "fas_FeeTokens (as_app toy_eth_state) = Some [toy_off, toy_usdc]" "?col \<noteq> em_From ?em"
    "\<forall>u c fs. eo_VerifyFee (md_evm toy_mono) (em_Tx ?em) (eo_EVMCoinDenom (md_evm toy_mono)) u c = Inr fs \<longrightarrow>
       fs = [hd toy_fee]"
    by (simp_all add: toy_eth_tx_def toy_mono_def toy_evm_def toy_eth_state_def toy_fa_state_def lg_module_def toy_fee_def)
  obtain s1 where s1: "Inr s1 = (Inr r :: (ledger, ledger, toy_staking) ante_state res)"
    "\<forall>x d. x \<notin> {em_From ?em, ?col, ''escrow''} \<longrightarrow> fa_balance (md_feeAbstractionKeeper toy_mono) (as_app s1) x d =
       fa_balance (md_feeAbstractionKeeper toy_mono) (as_app toy_eth_state) x d"
    "lg_nonce (world_of s1) (em_From ?em) = u64 (et_Nonce (em_Tx ?em) + 1)"
    "\<not> is_ok (eo_IncrementNonce (md_evm toy_mono) (em_From ?em) (et_Nonce (em_Tx ?em)) (world_of s1))"
    using Mono_correct [OF toy_mono.evm_env_axioms r(1) h] by blast
  have "''bob'' \<notin> {em_From ?em, ?col, ''escrow''}" by (simp add: lg_module_def)
  with s1(2) have "fa_balance (md_feeAbstractionKeeper toy_mono) (as_app s1) ''bob'' ''uusdc'' =
      fa_balance (md_feeAbstractionKeeper toy_mono) (as_app toy_eth_state) ''bob'' ''uusdc''"
    by blast
  then have "fa_balance toy_fa (as_app r) ''bob'' ''uusdc'' = fa_balance toy_fa (as_app toy_eth_state) ''bob'' ''uusdc''"
    using s1(1) by (simp add: toy_mono_def)
  also have "\<dots> = 0"
    by (simp add: fa_balance_def toy_fa_def toy_eth_state_def toy_fa_state_def ledger_bank_def)
  finally have "fa_balance toy_fa (as_app r) ''bob'' ''uusdc'' = 0" .
  moreover have "lg_nonce (world_of toy_eth_state) ''ann'' = 0"
    by (simp add: toy_eth_state_def toy_fa_state_def empty_ledger_def)
  moreover have "lg_nonce (world_of r) ''ann'' = 1" "\<not> is_ok (eo_IncrementNonce toy_evm ''ann'' 0 (world_of r))"
    using s1(1,3,4) by (simp_all add: u64_def toy_mono_def)
  ultimately show ?thesis using r by blast
qed

end
