(* ===== verification/AnteChain.thy ===== *)
theory AnteChain
  imports AnteProps EvmProps
begin

text \<open>
  \<open>ante/ante.go\<close>, \<open>ante_cosmos.go\<close> and \<open>ante_evm.go\<close>: the ante handler as a whole, and what a Cosmos transaction has passed, and paid, when the last
  decorator returns.
\<close>

section \<open>The handler\<close>

text \<open>A chain of decorators ends in the terminator of the SDK, which returns the context.\<close>

definition ChainAnteDecorators :: "('w, 'b, 's) decorator list \<Rightarrow> ('w, 'b, 's) handler" where
  "ChainAnteDecorators chain = foldr (\<lambda>d next_handler. d next_handler) chain (\<lambda>tx simulate s. Inr s)"

text \<open>The options the model needs, with the decorators from outside in the order of the code: nine
  before the governance checks up to the memo, nine after them, and the fee decorator of the
  repository.\<close>

record ('w, 'b, 's, 'e) HandlerOptions =
  ho_before :: "('w, 'b, 's) decorator list"
  ho_after :: "('w, 'b, 's) decorator list"
  ho_StakingKeeper :: "'w GovVoteDecorator"
  ho_expedited :: bool
  ho_UseFeeMarketDecorator :: bool
  ho_DeductFee :: "'w DeductFeeDecorator"
  ho_FeeAbstractionKeeper :: "'w fa_Keeper"
  ho_OracleKeeper :: "('b, 's) oracle_Keeper"
  ho_EvmKeeper :: "('w, 'b, 's, 'e) MonoDecorator"

text \<open>\<open>Validate\<close>: which fields of the options are not nil.  It asks for twelve of them; the
  fee grant keeper may be nil, and so may, though the handler reads through it, the
  configuration of wasm.\<close>

record option_fields =
  has_Cdc :: bool
  has_AccountKeeper :: bool
  has_BankKeeper :: bool
  has_IBCKeeper :: bool
  has_FeeMarketKeeper :: bool
  has_EvmKeeper :: bool
  has_FeeAbstractionKeeper :: bool
  has_FeegrantKeeper :: bool
  has_SignModeHandler :: bool
  has_SigGasConsumer :: bool
  has_TxFeeChecker :: bool
  has_StakingKeeper :: bool
  has_TXCounterStoreService :: bool
  has_WasmConfig :: bool
  has_OracleKeeper :: bool

definition HandlerOptions_Validate :: "option_fields \<Rightarrow> unit res" where
  "HandlerOptions_Validate options =
     (if \<not> has_Cdc options then Inl ErrLogic
      else if \<not> has_AccountKeeper options then Inl ErrLogic
      else if \<not> has_BankKeeper options then Inl ErrLogic
      else if \<not> has_IBCKeeper options then Inl ErrLogic
      else if \<not> has_FeeMarketKeeper options then Inl ErrLogic
      else if \<not> has_EvmKeeper options then Inl ErrLogic
      else if \<not> has_FeeAbstractionKeeper options then Inl ErrLogic
      else if \<not> has_SigGasConsumer options then Inl ErrLogic
      else if \<not> has_SignModeHandler options then Inl ErrLogic
      else if \<not> has_TxFeeChecker options then Inl ErrLogic
      else if \<not> has_StakingKeeper options then Inl ErrLogic
      else if \<not> has_OracleKeeper options then Inl ErrLogic
      else Inr ())"

definition simulation_gas_limit :: "option_fields \<Rightarrow> 'g \<Rightarrow> 'g res" where
  \<comment> \<open>\<open>options.WasmConfig.SimulationGasLimit\<close>\<close>
  "simulation_gas_limit options limit = deref (if has_WasmConfig options then Some limit else None)"

lemma Validate_not_enough:
  "\<exists>options. HandlerOptions_Validate options = Inr () \<and>
     simulation_gas_limit options limit = Inl (Panic ''nil pointer dereference'')"
  by (rule exI [of _ "\<lparr>has_Cdc = True, has_AccountKeeper = True, has_BankKeeper = True, has_IBCKeeper = True,
        has_FeeMarketKeeper = True, has_EvmKeeper = True, has_FeeAbstractionKeeper = True,
        has_FeegrantKeeper = False, has_SignModeHandler = True, has_SigGasConsumer = True,
        has_TxFeeChecker = True, has_StakingKeeper = True, has_TXCounterStoreService = False,
        has_WasmConfig = False, has_OracleKeeper = True\<rparr>"])
    (simp add: HandlerOptions_Validate_def simulation_gas_limit_def)

definition DeductFee_decorator ::
  "'w DeductFeeDecorator \<Rightarrow> 'w fa_Keeper \<Rightarrow> ('w, 'b, 's) decorator" where
  "DeductFee_decorator dfd k next_handler tx simulate s =
     DeductFee_AnteHandle dfd k (as_ctx s) (atx_FeeTx tx) simulate
       (\<lambda>priority st. next_handler tx simulate (s\<lparr>as_priority := priority, as_app := st\<rparr>)) (as_app s)"

definition NewCosmosAnteHandler :: "('w, 'b, 's, 'e) HandlerOptions \<Rightarrow> ('w, 'b, 's) handler" where
  "NewCosmosAnteHandler ho =
     ChainAnteDecorators
       (ho_before ho @
        [GovVote_AnteHandle (ho_StakingKeeper ho), GovExpedited_AnteHandle (ho_expedited ho)] @
        ho_after ho @
        (if ho_UseFeeMarketDecorator ho
         then [Feeless_AnteHandle (ho_OracleKeeper ho)
                 (DeductFee_decorator (ho_DeductFee ho) (ho_FeeAbstractionKeeper ho))]
         else []))"

definition newMonoEVMAnteHandler :: "('w, 'b, 's, 'e) HandlerOptions \<Rightarrow> ('w, 'b, 's) handler" where
  "newMonoEVMAnteHandler ho = ChainAnteDecorators [Mono_AnteHandle (ho_EvmKeeper ho)]"

text \<open>The route of a transaction; \<open>None\<close> is a transaction that has no extension options.\<close>

definition NewAnteHandler :: "('w, 'b, 's, 'e) HandlerOptions \<Rightarrow> ('w, 'b, 's) handler" where
  "NewAnteHandler ho tx sim s =
     (case atx_ExtensionOptions tx of
        Some (typeURL # _) \<Rightarrow>
          if typeURL = ''/cosmos.evm.vm.v1.ExtensionOptionsEthereumTx'' then newMonoEVMAnteHandler ho tx sim s
          else if typeURL = ''/cosmos.evm.types.v1.ExtensionOptionDynamicFeeTx''
          then NewCosmosAnteHandler ho tx sim s
          else Inl ErrUnknownExtensionOptions
      | _ \<Rightarrow> NewCosmosAnteHandler ho tx sim s)"

section \<open>Chains\<close>

lemma Chain_Nil: "ChainAnteDecorators [] tx simulate s = Inr s"
  by (simp add: ChainAnteDecorators_def)

lemma Chain_Cons: "ChainAnteDecorators (d # ds) = d (ChainAnteDecorators ds)"
  by (simp add: ChainAnteDecorators_def)

text \<open>What the decorators from outside may do: refuse a transaction, or hand it on in a state with
  the same oracle, fee parameters and tokens, balances and stakes.\<close>

definition same_for ::
  "'w GovVoteDecorator \<Rightarrow> 'w fa_Keeper \<Rightarrow> ('w, 'b, 's) ante_state \<Rightarrow> ('w, 'b, 's) ante_state \<Rightarrow> bool" where
  "same_for g k s s' \<longleftrightarrow> fas_oracle (as_app s') = fas_oracle (as_app s) \<and>
     fas_Params (as_app s') = fas_Params (as_app s) \<and> fas_FeeTokens (as_app s') = fas_FeeTokens (as_app s) \<and>
     fa_balance k (as_app s') = fa_balance k (as_app s) \<and>
     (\<forall>v. check_stake g v (fas_world (as_app s')) = check_stake g v (fas_world (as_app s)))"

definition hands_on :: "'w GovVoteDecorator \<Rightarrow> 'w fa_Keeper \<Rightarrow> ('w, 'b, 's) decorator \<Rightarrow> bool" where
  "hands_on g k d \<longleftrightarrow> (\<forall>next_handler tx s r. d next_handler tx False s = Inr r \<longrightarrow>
     (\<exists>s'. same_for g k s s' \<and> next_handler tx False s' = Inr r))"

lemma same_for_refl: "same_for g k s s"
  by (simp add: same_for_def)

lemma same_for_trans: "same_for g k s s' \<Longrightarrow> same_for g k s' s'' \<Longrightarrow> same_for g k s s''"
  by (simp add: same_for_def)

lemma Chain_hands_on:
  assumes "\<forall>d \<in> set ds. hands_on g k d" "ChainAnteDecorators (ds @ rest) tx False s = Inr r"
  shows "\<exists>s'. same_for g k s s' \<and> ChainAnteDecorators rest tx False s' = Inr r"
  using assms
proof (induction ds arbitrary: s)
  case Nil
  then show ?case using same_for_refl by fastforce
next
  case (Cons d ds)
  from Cons.prems(2) have "d (ChainAnteDecorators (ds @ rest)) tx False s = Inr r"
    by (simp add: Chain_Cons)
  then obtain s1 where s1: "same_for g k s s1" "ChainAnteDecorators (ds @ rest) tx False s1 = Inr r"
    using Cons.prems(1) unfolding hands_on_def by (meson list.set_intros(1))
  with Cons.IH Cons.prems(1) obtain s2 where "same_for g k s1 s2" "ChainAnteDecorators rest tx False s2 = Inr r"
    by auto
  with s1(1) show ?case by (blast intro: same_for_trans)
qed

lemma same_for_votes:
  "same_for g k s s' \<Longrightarrow> ValidateVoteMsgs g ms (fas_world (as_app s')) = Inr () \<longleftrightarrow>
     ValidateVoteMsgs g ms (fas_world (as_app s)) = Inr ()"
  by (simp add: ValidateVoteMsgs_iff same_for_def)

text \<open>The handler with the fee decorators of the fee abstraction, in an environment as above.\<close>

locale ante_env =
  fixes ho :: "('w, 'b, 's, 'e) HandlerOptions" and col esc :: addr
  assumes fees: "fee_env (ho_DeductFee ho) (ho_FeeAbstractionKeeper ho) col esc"
    and outside: "\<And>d. d \<in> set (ho_before ho) \<union> set (ho_after ho) \<Longrightarrow>
      hands_on (ho_StakingKeeper ho) (ho_FeeAbstractionKeeper ho) d"
    and enabled: "ho_expedited ho" "ho_UseFeeMarketDecorator ho"
begin

abbreviation "same \<equiv> same_for (ho_StakingKeeper ho) (ho_FeeAbstractionKeeper ho)"

lemma cosmos_checked:
  assumes "NewCosmosAnteHandler ho tx False s = Inr r"
  shows "ValidateVoteMsgs (ho_StakingKeeper ho) (atx_Msgs tx) (fas_world (as_app s)) = Inr ()"
    and "check_expedited (atx_Msgs tx) = Inr ()"
    and "\<exists>s'. same s s' \<and> Feeless_AnteHandle (ho_OracleKeeper ho)
      (DeductFee_decorator (ho_DeductFee ho) (ho_FeeAbstractionKeeper ho)) (\<lambda>_ _. Inr) tx False s' = Inr r"
proof -
  let ?fl = "Feeless_AnteHandle (ho_OracleKeeper ho) (DeductFee_decorator (ho_DeductFee ho) (ho_FeeAbstractionKeeper ho))"
  let ?rest = "ho_after ho @ [?fl]"
  let ?gov = "[GovVote_AnteHandle (ho_StakingKeeper ho), GovExpedited_AnteHandle (ho_expedited ho)] @ ?rest"
  have run: "ChainAnteDecorators (ho_before ho @ ?gov) tx False s = Inr r"
    using assms enabled by (simp add: NewCosmosAnteHandler_def)
  obtain s1 where s1: "same s s1" "ChainAnteDecorators ?gov tx False s1 = Inr r"
    using Chain_hands_on [OF _ run] outside by blast
  have g: "ValidateVoteMsgs (ho_StakingKeeper ho) (atx_Msgs tx) (fas_world (as_app s1)) = Inr ()"
    "check_expedited (atx_Msgs tx) = Inr ()" "ChainAnteDecorators ?rest tx False s1 = Inr r"
    using s1(2) enabled by (auto simp: Chain_Cons GovVote_AnteHandle_def GovExpedited_AnteHandle_def res_simps)
  then show "ValidateVoteMsgs (ho_StakingKeeper ho) (atx_Msgs tx) (fas_world (as_app s)) = Inr ()"
    "check_expedited (atx_Msgs tx) = Inr ()"
    using same_for_votes [OF s1(1)] by auto
  obtain s2 where "same s1 s2" "ChainAnteDecorators [?fl] tx False s2 = Inr r"
    using Chain_hands_on [OF _ g(3)] outside by blast
  then show "\<exists>s'. same s s' \<and> ?fl (\<lambda>_ _. Inr) tx False s' = Inr r"
    using same_for_trans [OF s1(1)] by (auto simp: ChainAnteDecorators_def)
qed

text \<open>The fee of a transaction that is not free.\<close>

lemma cosmos_paid:
  assumes run: "NewCosmosAnteHandler ho tx False s = Inr r" and fl: "atx_FeeTx tx = Some ftx"
    and chk: "\<And>c. dfd_txFeeChecker (ho_DeductFee ho) c ftx = Inr ([f], priority)" and f: "coin_Amount f \<noteq> 0"
    and ts: "fas_FeeTokens (as_app s) = Some ts" and col: "col \<noteq> fee_payer ftx"
  shows "if IsTxFeeless (ho_OracleKeeper ho) (atx_Msgs tx) (fas_oracle (as_app s)) = Inr True
    then as_priority r = MaxInt64 \<and>
      fa_balance (ho_FeeAbstractionKeeper ho) (as_app r) = fa_balance (ho_FeeAbstractionKeeper ho) (as_app s)
    else as_priority r = priority \<and>
      (\<exists>paid. (paid = f \<or> (\<exists>t n. t \<in> set ts \<and> ft_Enabled t \<and>
           equivalent (fak_dec (ho_FeeAbstractionKeeper ho)) (coin_Amount f) t = Inr n \<and> 0 < n \<and>
           paid = \<lparr>coin_Denom = ft_Denom t, coin_Amount = n\<rparr>)) \<and>
         (\<forall>d. fa_balance (ho_FeeAbstractionKeeper ho) (as_app r) col d =
            fa_balance (ho_FeeAbstractionKeeper ho) (as_app s) col d + amount_of [paid] d))"
proof -
  let ?k = "ho_FeeAbstractionKeeper ho" and ?ok = "ho_OracleKeeper ho"
  obtain s' where s': "same s s'"
    "Feeless_AnteHandle ?ok (DeductFee_decorator (ho_DeductFee ho) ?k) (\<lambda>_ _. Inr) tx False s' = Inr r"
    using cosmos_checked(3) [OF run] by blast
  have same: "fas_oracle (as_app s') = fas_oracle (as_app s)" "fas_FeeTokens (as_app s') = Some ts"
    "fa_balance ?k (as_app s') = fa_balance ?k (as_app s)"
    using s'(1) ts by (simp_all add: same_for_def)
  show ?thesis
  proof (cases "IsTxFeeless ?ok (atx_Msgs tx) (fas_oracle (as_app s)) = Inr True")
    case True
    then have "r = s'\<lparr>as_priority := MaxInt64\<rparr>"
      using s'(2) by (simp add: Feeless_AnteHandle_def same(1))
    with True show ?thesis by (simp add: same(3))
  next
    case False
    then have "DeductFee_decorator (ho_DeductFee ho) ?k (\<lambda>_ _. Inr) tx False s' = Inr r"
      using s'(2) by (auto simp: Feeless_AnteHandle_def same(1) res_simps split: if_splits)
    then obtain st where st: "checkDeductFee (ho_DeductFee ho) ?k ftx [f] (as_app s') = Inr st"
      "r = s'\<lparr>as_priority := priority, as_app := st\<rparr>"
      using fl chk by (auto simp: DeductFee_decorator_def DeductFee_AnteHandle_def res_simps split: if_splits)
    obtain paid where paid: "paid = f \<or> (\<exists>t n. t \<in> set ts \<and> ft_Enabled t \<and>
        equivalent (fak_dec ?k) (coin_Amount f) t = Inr n \<and> 0 < n \<and> paid = \<lparr>coin_Denom = ft_Denom t, coin_Amount = n\<rparr>)"
      "\<forall>d. fa_balance ?k st col d = fa_balance ?k (as_app s) col d + amount_of [paid] d"
      using fee_env.checkDeductFee_pays [OF fees st(1) f same(2) col] unfolding same(3) by blast
    have "as_priority r = priority" "as_app r = st" by (simp_all add: st(2))
    with paid show ?thesis unfolding if_not_P [OF False] by blast
  qed
qed

end

text \<open>C18: A Cosmos transaction that passes the ante handler carries no unsupported extension; every
  account that votes with a \<open>MsgVote\<close>, of either version, as a message of the transaction or
  directly inside a \<open>MsgExec\<close> of it, has at least the minimum staked in its first hundred
  delegations; every expedited proposal among the messages of the transaction consists of software
  upgrades and their cancellations; and then either the transaction is a single oracle vote of a
  permitted feeder for a validator without a stored vote, has the highest priority and no balance
  has changed, or the fee collector has gained exactly one coin, the fee the checker asked for or
  its rounded equivalent in an enabled fee token. All of this holds in the state before the handler,
  whatever the decorators from outside do among themselves. Weighted votes, votes inside two
  \<open>MsgExec\<close>s and expedited proposals inside a \<open>MsgExec\<close> are not guarded by the code, and nothing
  is said of them.\<close>

theorem ante_safe:
  assumes "ante_env ho col esc" "NewAnteHandler ho tx False s = Inr r" "atx_FeeTx tx = Some ftx"
    and "\<forall>us. atx_ExtensionOptions tx \<noteq> Some (''/cosmos.evm.vm.v1.ExtensionOptionsEthereumTx'' # us)"
    and "\<forall>c. dfd_txFeeChecker (ho_DeductFee ho) c ftx = Inr ([f], priority)" "coin_Amount f \<noteq> 0"
    and "fas_FeeTokens (as_app s) = Some ts" "col \<noteq> fee_payer ftx"
    and "decimals (gvd_dec (ho_StakingKeeper ho))"
    and "0 < gvd_minStakedTokens (ho_StakingKeeper ho)" "gvd_minStakedTokens (ho_StakingKeeper ho) \<le> 2 ^ 300"
    and "\<forall>a ds. gs_Delegations (gvd_stakingKeeper (ho_StakingKeeper ho)) (fas_world (as_app s)) a = Inr ds \<longrightarrow>
      (\<forall>d \<in> set ds. delegation_ok (ho_StakingKeeper ho) (fas_world (as_app s)) d)"
  shows "(\<forall>u us. atx_ExtensionOptions tx = Some (u # us) \<longrightarrow> u = ''/cosmos.evm.types.v1.ExtensionOptionDynamicFeeTx'') \<and>
    (\<forall>m \<in> set (atx_Msgs tx). \<forall>v. m = GovVoteBeta1 v \<or> m = GovVoteV1 v \<or>
         (\<exists>inner. m = AuthzExec inner \<and> (Some (GovVoteBeta1 v) \<in> set inner \<or> Some (GovVoteV1 v) \<in> set inner)) \<longrightarrow>
       (\<exists>a ds. AccAddressFromBech32 (gvd_codec (ho_StakingKeeper ho)) v = Inr a \<and>
          gs_Delegations (gvd_stakingKeeper (ho_StakingKeeper ho)) (fas_world (as_app s)) a = Inr ds \<and>
          gvd_minStakedTokens (ho_StakingKeeper ho) \<le> stake (ho_StakingKeeper ho) (fas_world (as_app s)) ds)) \<and>
    (\<forall>ps. SubmitProposal True ps \<in> set (atx_Msgs tx) \<longrightarrow> ps \<noteq> [] \<and> (\<forall>p \<in> set ps. \<exists>u.
         (p = PropMsg u \<or> p = ExecLegacyContent (Some u)) \<and>
         u \<in> {''/cosmos.upgrade.v1beta1.MsgSoftwareUpgrade'', ''/cosmos.upgrade.v1beta1.MsgCancelUpgrade''})) \<and>
    (if \<exists>m feeder val. atx_Msgs tx = [OracleVote m] \<and>
         AccAddressFromBech32 (ok_codec (ho_OracleKeeper ho)) (agm_Feeder m) = Inr feeder \<and>
         ValAddressFromBech32 (ok_codec (ho_OracleKeeper ho)) (agm_Validator m) = Inr val \<and>
         ValidateFeeder (ho_OracleKeeper ho) (fas_oracle (as_app s)) feeder val = Inr () \<and>
         kv_get (ork_AggregateExchangeRateVote (fas_oracle (as_app s))) val = None
     then as_priority r = MaxInt64 \<and>
       fa_balance (ho_FeeAbstractionKeeper ho) (as_app r) = fa_balance (ho_FeeAbstractionKeeper ho) (as_app s)
     else as_priority r = priority \<and>
       (\<exists>paid. (paid = f \<or> (\<exists>t n. t \<in> set ts \<and> ft_Enabled t \<and>
            equivalent (fak_dec (ho_FeeAbstractionKeeper ho)) (coin_Amount f) t = Inr n \<and> 0 < n \<and>
            paid = \<lparr>coin_Denom = ft_Denom t, coin_Amount = n\<rparr>)) \<and>
          (\<forall>d. fa_balance (ho_FeeAbstractionKeeper ho) (as_app r) col d =
             fa_balance (ho_FeeAbstractionKeeper ho) (as_app s) col d + amount_of [paid] d)))"
  unfolding IsTxFeeless_iff [symmetric] staked_def [symmetric] expeditable_iff [symmetric]
proof (intro conjI)
  let ?g = "ho_StakingKeeper ho" and ?w = "fas_world (as_app s)"
  have route: "NewCosmosAnteHandler ho tx False s = Inr r \<and>
      (\<forall>u us. atx_ExtensionOptions tx = Some (u # us) \<longrightarrow> u = ''/cosmos.evm.types.v1.ExtensionOptionDynamicFeeTx'')"
    using assms(2,4) by (auto simp: NewAnteHandler_def split: option.splits list.splits if_splits)
  then show "\<forall>u us. atx_ExtensionOptions tx = Some (u # us) \<longrightarrow> u = ''/cosmos.evm.types.v1.ExtensionOptionDynamicFeeTx''"
    by blast
  note run = conjunct1 [OF route]
  have votes: "\<forall>m \<in> set (atx_Msgs tx). \<forall>v \<in> set (votes_in m). check_stake ?g v ?w = Inr ()"
    using ante_env.cosmos_checked(1) [OF assms(1) run] by (simp add: ValidateVoteMsgs_iff)
  have "v \<in> set (votes_in m)" if "m = GovVoteBeta1 v \<or> m = GovVoteV1 v \<or>
      (\<exists>inner. m = AuthzExec inner \<and> (Some (GovVoteBeta1 v) \<in> set inner \<or> Some (GovVoteV1 v) \<in> set inner))" for m v
    using that by (force simp: votes_in_def vote_of_def)
  then show "\<forall>m \<in> set (atx_Msgs tx). \<forall>v. m = GovVoteBeta1 v \<or> m = GovVoteV1 v \<or>
         (\<exists>inner. m = AuthzExec inner \<and> (Some (GovVoteBeta1 v) \<in> set inner \<or> Some (GovVoteV1 v) \<in> set inner)) \<longrightarrow>
       staked ?g ?w v"
    using votes check_stake_staked [OF assms(9-12)] by meson
  show "\<forall>ps. SubmitProposal True ps \<in> set (atx_Msgs tx) \<longrightarrow> ps \<noteq> [] \<and> (\<forall>p \<in> set ps. expeditable p)"
    using ante_env.cosmos_checked(2) [OF assms(1) run] by (simp add: check_expedited_iff)
  have chk: "dfd_txFeeChecker (ho_DeductFee ho) c ftx = Inr ([f], priority)" for c using assms(5) by blast
  show "if IsTxFeeless (ho_OracleKeeper ho) (atx_Msgs tx) (fas_oracle (as_app s)) = Inr True
     then as_priority r = MaxInt64 \<and>
       fa_balance (ho_FeeAbstractionKeeper ho) (as_app r) = fa_balance (ho_FeeAbstractionKeeper ho) (as_app s)
     else as_priority r = priority \<and>
       (\<exists>paid. (paid = f \<or> (\<exists>t n. t \<in> set ts \<and> ft_Enabled t \<and>
            equivalent (fak_dec (ho_FeeAbstractionKeeper ho)) (coin_Amount f) t = Inr n \<and> 0 < n \<and>
            paid = \<lparr>coin_Denom = ft_Denom t, coin_Amount = n\<rparr>)) \<and>
          (\<forall>d. fa_balance (ho_FeeAbstractionKeeper ho) (as_app r) col d =
             fa_balance (ho_FeeAbstractionKeeper ho) (as_app s) col d + amount_of [paid] d))"
    by (rule ante_env.cosmos_paid [OF assms(1) run assms(3) chk assms(6-8)])
qed

text \<open>An example: one decorator before, that wants a message, and one after, that counts in the
  priority.\<close>

definition toy_ho :: "(ledger, ledger, toy_staking, unit) HandlerOptions" where
  "toy_ho =
     \<lparr>ho_before = [\<lambda>n tx sim s. if atx_Msgs tx = [] then Inl ErrInvalidRequest else n tx sim s],
      ho_after = [\<lambda>n tx sim s. n tx sim (s\<lparr>as_priority := as_priority s + 1\<rparr>)],
      ho_StakingKeeper = toy_gov, ho_expedited = True, ho_UseFeeMarketDecorator = True, ho_DeductFee = toy_dfd,
      ho_FeeAbstractionKeeper = toy_fa, ho_OracleKeeper = sample_keeper, ho_EvmKeeper = toy_mono\<rparr>"

interpretation toy_ho: ante_env toy_ho "lg_module FeeCollectorName" "''escrow''"
proof (rule ante_env.intro)
  show "fee_env (ho_DeductFee toy_ho) (ho_FeeAbstractionKeeper toy_ho) (lg_module FeeCollectorName) ''escrow''"
    by (simp add: toy_ho_def toy_fees.fee_env_axioms)
  have "hands_on toy_gov toy_fa (\<lambda>n tx sim (s :: (ledger, ledger, toy_staking) ante_state). if atx_Msgs tx = [] then Inl ErrInvalidRequest else n tx sim s)"
    unfolding hands_on_def using same_for_refl by (metis sum.simps(4))
  moreover have "hands_on toy_gov toy_fa (\<lambda>n tx sim (s :: (ledger, ledger, toy_staking) ante_state). n tx sim (s\<lparr>as_priority := as_priority s + 1\<rparr>))"
    unfolding hands_on_def
  proof (intro allI impI)
    fix n :: "(ledger, ledger, toy_staking) handler" and tx s r
    assume "n tx False (s\<lparr>as_priority := as_priority s + 1\<rparr>) = Inr r"
    then show "\<exists>s'. same_for toy_gov toy_fa s s' \<and> n tx False s' = Inr r"
      by (intro exI [of _ "s\<lparr>as_priority := as_priority s + 1\<rparr>"]) (simp add: same_for_def)
  qed
  ultimately show "d \<in> set (ho_before toy_ho) \<union> set (ho_after toy_ho) \<Longrightarrow>
      hands_on (ho_StakingKeeper toy_ho) (ho_FeeAbstractionKeeper toy_ho) d" for d
    by (auto simp: toy_ho_def)
qed (simp_all add: toy_ho_def)

text \<open>Ann votes twice, once inside a \<open>MsgExec\<close>, submits an expedited upgrade, and pays the fee in
  USDC; and the free oracle vote.\<close>

definition toy_gov_tx :: ante_tx where
  "toy_gov_tx = toy_tx [GovVoteV1 ''kann'', AuthzExec [Some (GovVoteBeta1 ''kann'')],
     SubmitProposal True [PropMsg ''/cosmos.upgrade.v1beta1.MsgSoftwareUpgrade'']]"

lemma toy_gov_delegations: "gs_Delegations (gvd_stakingKeeper toy_gov) w a = Inr ds \<Longrightarrow> d \<in> set ds \<Longrightarrow> delegation_ok toy_gov w d"
  using toy_gov_stake(1) [of w] by (auto simp: toy_gov_def split: if_splits)

lemma toy_gov_run:
  "\<exists>r. NewAnteHandler toy_ho toy_gov_tx False (toy_ante sample_state) = Inr r \<and>
     fa_balance toy_fa (as_app r) (lg_module FeeCollectorName) ''uusdc'' = 500000"
proof -
  let ?col = "lg_module FeeCollectorName" and ?coin = "\<lparr>coin_Denom = ''uusdc'', coin_Amount = 500000\<rparr>"
  obtain w where w: "ConvertNativeFee toy_fa ''ann'' toy_fee toy_fa_state = Inr ([?coin], toy_fa_state\<lparr>fas_world := w\<rparr>)"
    "lg_bal w ''ann'' ''uusdc'' = 500000" "lg_bal w ?col ''uusdc'' = 0"
    using toy_conversion by blast
  obtain w' where w': "lg_send ''ann'' ?col [?coin] w = Inr w'"
    using w(2) by (simp add: lg_send_def covered_def)
  have app: "toy_fa_state\<lparr>fas_oracle := sample_state\<rparr> = toy_fa_state"
    by (simp add: toy_fa_state_def)
  have stake: "check_stake toy_gov ''kann'' w = Inr ()" for w
    using check_stake_iff [OF toy_gov_facts(1-4,6)] toy_gov_stake(1,2) [of w]
    by (simp add: toy_gov_def minStakedTokens_def dec_unit_def)
  have up: "check_expedited (atx_Msgs toy_gov_tx) = Inr ()"
    unfolding check_expedited_iff expeditable_iff by (auto simp: toy_gov_tx_def toy_tx_def)
  have votes: "ValidateVoteMsgs toy_gov (atx_Msgs toy_gov_tx) w = Inr ()" for w
    unfolding ValidateVoteMsgs_iff using stake
    by (simp add: toy_gov_tx_def toy_tx_def readable_def votes_in_def vote_of_def)
  have paid: "IsTxFeeless sample_keeper (atx_Msgs toy_gov_tx) st = Inr False" for st
    by (simp add: toy_gov_tx_def toy_tx_def IsTxFeeless_def)
  have fee: "atx_FeeTx toy_gov_tx = Some toy_fee_tx" "atx_ExtensionOptions toy_gov_tx = Some []"
    "atx_Msgs toy_gov_tx \<noteq> []"
    by (simp_all add: toy_gov_tx_def toy_tx_def)
  have "NewAnteHandler toy_ho toy_gov_tx False (toy_ante sample_state) =
      Inr ((toy_ante sample_state)\<lparr>as_priority := 7, as_app := toy_fa_state\<lparr>fas_world := w'\<rparr>\<rparr>)"
    using w(1) w' fee votes up paid
    by (simp add: NewAnteHandler_def NewCosmosAnteHandler_def ChainAnteDecorators_def toy_ho_def toy_ante_def app
        GovVote_AnteHandle_def GovExpedited_AnteHandle_def Feeless_AnteHandle_def DeductFee_decorator_def
        DeductFee_AnteHandle_def checkDeductFee_def use_grant_def toy_dfd_def toy_fee_tx_def toy_fee_def)
  moreover have "fa_balance toy_fa (toy_fa_state\<lparr>fas_world := w'\<rparr>) ?col ''uusdc'' = 500000"
    using w' w(3) by (auto simp: fa_balance_def toy_fa_def ledger_bank_def lg_send_def lg_module_def split: if_splits)
  ultimately show ?thesis by simp
qed

theorem ante_safe_witness:
  "(\<exists>r a ds. NewAnteHandler toy_ho toy_gov_tx False (toy_ante sample_state) = Inr r \<and> as_priority r = 7 \<and>
     fa_balance toy_fa (as_app r) (lg_module FeeCollectorName) ''uusdc'' = 500000 \<and>
     AccAddressFromBech32 toy_codec ''kann'' = Inr a \<and>
     gs_Delegations (gvd_stakingKeeper toy_gov) (fas_world toy_fa_state) a = Inr ds \<and>
     minStakedTokens \<le> stake toy_gov (fas_world toy_fa_state) ds) \<and>
   (\<exists>r. NewAnteHandler toy_ho (toy_tx [OracleVote sample_vote_msg]) False (toy_ante sample_state) = Inr r \<and>
     as_priority r = MaxInt64)"
proof (rule conjI)
  let ?s = "toy_ante sample_state"
  have h: "atx_FeeTx (toy_tx ms) = Some toy_fee_tx"
    "\<forall>us. atx_ExtensionOptions (toy_tx ms) \<noteq> Some (''/cosmos.evm.vm.v1.ExtensionOptionsEthereumTx'' # us)"
    "\<forall>c. dfd_txFeeChecker (ho_DeductFee toy_ho) c toy_fee_tx = Inr ([hd toy_fee], 7)" "coin_Amount (hd toy_fee) \<noteq> 0"
    "fas_FeeTokens (as_app ?s) = Some [toy_off, toy_usdc]" "lg_module FeeCollectorName \<noteq> fee_payer toy_fee_tx"
    "decimals (gvd_dec (ho_StakingKeeper toy_ho))"
    "0 < gvd_minStakedTokens (ho_StakingKeeper toy_ho)" "gvd_minStakedTokens (ho_StakingKeeper toy_ho) \<le> 2 ^ 300"
    "\<forall>a ds. gs_Delegations (gvd_stakingKeeper (ho_StakingKeeper toy_ho)) (fas_world (as_app ?s)) a = Inr ds \<longrightarrow>
      (\<forall>d \<in> set ds. delegation_ok (ho_StakingKeeper toy_ho) (fas_world (as_app ?s)) d)" for ms
    using toy_gov_facts(1-3) toy_gov_delegations
    by (auto simp: toy_tx_def toy_ho_def toy_dfd_def toy_fee_tx_def toy_fee_def toy_ante_def toy_fa_state_def
        lg_module_def fee_payer_def)
  obtain r where r: "NewAnteHandler toy_ho toy_gov_tx False ?s = Inr r"
    "fa_balance toy_fa (as_app r) (lg_module FeeCollectorName) ''uusdc'' = 500000"
    using toy_gov_run by blast
  have w: "fas_world (as_app ?s) = fas_world toy_fa_state" "ho_StakingKeeper toy_ho = toy_gov"
    "gvd_codec toy_gov = toy_codec" "gvd_minStakedTokens toy_gov = minStakedTokens"
    by (simp_all add: toy_ante_def toy_ho_def toy_gov_def)
  have msgs: "GovVoteV1 ''kann'' \<in> set (atx_Msgs toy_gov_tx)" "\<not> (\<exists>m. atx_Msgs toy_gov_tx = [OracleVote m])"
    by (simp_all add: toy_gov_tx_def toy_tx_def)
  note safe = ante_safe [OF toy_ho.ante_env_axioms r(1) [unfolded toy_gov_tx_def] h, folded toy_gov_tx_def, unfolded w]
  have "as_priority r = 7" using safe msgs(2) by (auto split: if_splits)
  moreover obtain a ds where "AccAddressFromBech32 toy_codec ''kann'' = Inr a"
    "gs_Delegations (gvd_stakingKeeper toy_gov) (fas_world toy_fa_state) a = Inr ds"
    "minStakedTokens \<le> stake toy_gov (fas_world toy_fa_state) ds"
    using conjunct1 [OF conjunct2 [OF safe]] msgs(1) by blast
  ultimately show "\<exists>r a ds. NewAnteHandler toy_ho toy_gov_tx False ?s = Inr r \<and> as_priority r = 7 \<and>
     fa_balance toy_fa (as_app r) (lg_module FeeCollectorName) ''uusdc'' = 500000 \<and>
     AccAddressFromBech32 toy_codec ''kann'' = Inr a \<and>
     gs_Delegations (gvd_stakingKeeper toy_gov) (fas_world toy_fa_state) a = Inr ds \<and>
     minStakedTokens \<le> stake toy_gov (fas_world toy_fa_state) ds"
    using r by blast
  let ?tx = "toy_tx [OracleVote sample_vote_msg]"
  have free: "IsTxFeeless sample_keeper [OracleVote sample_vote_msg] sample_state = Inr True"
    by code_simp
  then have "is_ok (NewAnteHandler toy_ho ?tx False ?s)"
    by (simp add: NewAnteHandler_def NewCosmosAnteHandler_def ChainAnteDecorators_def toy_ho_def toy_tx_def toy_ante_def
        GovVote_AnteHandle_def validMsg_def GovExpedited_AnteHandle_def Feeless_AnteHandle_def)
  then obtain r where r: "NewAnteHandler toy_ho ?tx False ?s = Inr r" by (auto simp: is_ok_iff)
  have "IsTxFeeless (ho_OracleKeeper toy_ho) (atx_Msgs ?tx) (fas_oracle (as_app ?s)) = Inr True"
    using free by (simp add: toy_ho_def toy_tx_def toy_ante_def)
  then show "\<exists>r. NewAnteHandler toy_ho ?tx False ?s = Inr r \<and> as_priority r = MaxInt64"
    using ante_safe [OF toy_ho.ante_env_axioms r h, folded IsTxFeeless_iff] r by auto
qed

end
