(* ===== verification/WasmBind.thy ===== *)
theory WasmBind
  imports TokenProps OracleMsg
begin

text \<open>
  \<open>wasmbinding/\<close>: what a CosmWasm contract can ask of the modules of the chain. A contract message
  of the token factory is executed by its message server with the contract as sender; queries read
  the token factory, the oracle and the EVM and the
  address codec. The outcome of \<open>json.Unmarshal\<close> on the bytes of a contract is a parameter of a message
  or query, and a response is the value that is marshalled. The EVM itself is a record of operations.
\<close>

section \<open>Messages\<close>

text \<open>\<open>tokenfactory/types\<close>. A field left out by the contract is nil: \<open>None\<close>, or an empty string. An
  amount left out is a nil \<open>math.Int\<close>, which \<open>ValidateBasic\<close> refuses as it does a negative one.\<close>

record tfb_DenomUnit =
  tfb_Denom :: string
  tfb_Exponent :: int
  tfb_Aliases :: "string list"

record tfb_Metadata =
  tfb_Description :: string
  tfb_DenomUnits :: "tfb_DenomUnit list"
  tfb_Base :: string
  tfb_Display :: string
  tfb_Name :: string
  tfb_Symbol :: string

record tfb_CreateDenom =
  bc_Subdenom :: string
  bc_Metadata :: "tfb_Metadata option"

record tfb_ChangeAdmin =
  ba_Denom :: string
  ba_NewAdminAddress :: string

record tfb_MintTokens =
  bm_Denom :: string
  bm_Amount :: int
  bm_MintToAddress :: string

record tfb_BurnTokens =
  bb_Denom :: string
  bb_Amount :: int
  bb_BurnFromAddress :: string

record tfb_SetMetadata =
  bs_Denom :: string
  bs_Metadata :: tfb_Metadata

record tfb_ForceTransfer =
  bf_Denom :: string
  bf_Amount :: int
  bf_FromAddress :: string
  bf_ToAddress :: string

record tfb_Msg =
  msg_CreateDenom :: "tfb_CreateDenom option"
  msg_ChangeAdmin :: "tfb_ChangeAdmin option"
  msg_MintTokens :: "tfb_MintTokens option"
  msg_BurnTokens :: "tfb_BurnTokens option"
  msg_SetMetadata :: "tfb_SetMetadata option"
  msg_ForceTransfer :: "tfb_ForceTransfer option"

definition tfb_no_msg :: tfb_Msg where
  "tfb_no_msg = \<lparr>msg_CreateDenom = None, msg_ChangeAdmin = None, msg_MintTokens = None,
                 msg_BurnTokens = None, msg_SetMetadata = None, msg_ForceTransfer = None\<rparr>"

definition parseAddress :: "addr_codec \<Rightarrow> string \<Rightarrow> addr res" where
  \<comment> \<open>\<open>VerifyAddressFormat\<close> without a verifier of the application\<close>
  "parseAddress C a =
     bindR (AccAddressFromBech32 C a) (\<lambda>parsed.
     if valid_addr parsed then Inr parsed else Inl (External ''verify address format''))"

definition WasmMetadataToSdk :: "tfb_Metadata \<Rightarrow> metadata" where
  "WasmMetadataToSdk m =
     \<lparr>md_Description = tfb_Description m,
      md_DenomUnits = map (\<lambda>u. \<lparr>du_Denom = tfb_Denom u, du_Exponent = tfb_Exponent u, du_Aliases = tfb_Aliases u\<rparr>)
        (tfb_DenomUnits m),
      md_Base = tfb_Base m, md_Display = tfb_Display m, md_Name = tfb_Name m, md_Symbol = tfb_Symbol m\<rparr>"

definition SdkMetadataToWasm :: "metadata \<Rightarrow> tfb_Metadata" where
  "SdkMetadataToWasm m =
     \<lparr>tfb_Description = md_Description m,
      tfb_DenomUnits = map (\<lambda>u. \<lparr>tfb_Denom = du_Denom u, tfb_Exponent = du_Exponent u, tfb_Aliases = du_Aliases u\<rparr>)
        (md_DenomUnits m),
      tfb_Base = md_Base m, tfb_Display = md_Display m, tfb_Name = md_Name m, tfb_Symbol = md_Symbol m\<rparr>"

section \<open>The token factory messenger\<close>

text \<open>\<open>tokenfactory/message_plugin.go\<close>. The bank of the messenger is the bank of the keeper. A
  pointer to a message is an option.\<close>

definition PerformSetMetadata ::
  "'b tf_Keeper \<Rightarrow> addr \<Rightarrow> string \<Rightarrow> tfb_Metadata \<Rightarrow> 'b tf_state \<Rightarrow> 'b tf_state res" where
  "PerformSetMetadata f contractAddr denom metadata st =
     bindR (GetAuthorityMetadata st denom) (\<lambda>auth.
     if Admin auth \<noteq> AccAddressString (sc_codec (tk_checks f)) contractAddr
     then Inl (External ''only admin can set metadata'')
     else if tfb_Base metadata \<noteq> [] \<and> tfb_Base metadata \<noteq> denom
     then Inl (External ''Base must be the same as denom'')
     else
       let bankMetadata = WasmMetadataToSdk (metadata\<lparr>tfb_Base := denom\<rparr>)
       in bindR (sc_Metadata_Validate (tk_checks f) bankMetadata) (\<lambda>_.
          Inr (st\<lparr>tfs_bank := bank_SetDenomMetaData (tk_bank f) bankMetadata (tfs_bank st)\<rparr>)))"

text \<open>The response of a creation carries the new denom.\<close>

definition PerformCreateDenom ::
  "'b tf_Keeper \<Rightarrow> addr \<Rightarrow> tfb_CreateDenom option \<Rightarrow> 'b tf_state \<Rightarrow> (string \<times> 'b tf_state) res" where
  "PerformCreateDenom f contractAddr req st =
     (case req of
        None \<Rightarrow> Inl (External ''create denom null create denom'')
      | Some createDenom \<Rightarrow>
          let msgCreateDenom = \<lparr>cd_Sender = AccAddressString (sc_codec (tk_checks f)) contractAddr,
                                cd_Subdenom = bc_Subdenom createDenom\<rparr>
          in bindR (MsgCreateDenom_ValidateBasic (tk_checks f) msgCreateDenom) (\<lambda>_.
             bindR (tf_CreateDenom f msgCreateDenom st) (\<lambda>(newDenom, st).
             case bc_Metadata createDenom of
               None \<Rightarrow> Inr (newDenom, st)
             | Some metadata \<Rightarrow>
                 bindR (PerformSetMetadata f contractAddr newDenom metadata st) (\<lambda>st. Inr (newDenom, st)))))"

text \<open>The message mints to the contract, which then sends the coins on. For a blocked recipient the
  code wraps \<open>err\<close>, which is nil at that point: \<open>errorsmod.Wrapf\<close> of nil is nil, so the call
  returns without an error.\<close>

definition PerformMint ::
  "'b tf_Keeper \<Rightarrow> addr \<Rightarrow> tfb_MintTokens option \<Rightarrow> 'b tf_state \<Rightarrow> 'b tf_state res" where
  "PerformMint f contractAddr req st =
     (case req of
        None \<Rightarrow> Inl (External ''mint token null mint'')
      | Some mint \<Rightarrow>
          bindR (parseAddress (sc_codec (tk_checks f)) (bm_MintToAddress mint)) (\<lambda>rcpt.
          let coin = \<lparr>coin_Denom = bm_Denom mint, coin_Amount = bm_Amount mint\<rparr>;
              sdkMsg = \<lparr>mm_Sender = AccAddressString (sc_codec (tk_checks f)) contractAddr,
                        mm_Amount = coin, mm_MintToAddress = []\<rparr>
          in bindR (MsgMint_ValidateBasic (tk_checks f) sdkMsg) (\<lambda>_.
             bindR (tf_Mint f sdkMsg st) (\<lambda>st.
             if bank_BlockedAddr (tk_bank f) rcpt then Inr st
             else bindR (NewCoins (tk_checks f) coin) (\<lambda>cs.
               with_bank st (bank_SendCoins (tk_bank f) contractAddr rcpt cs (tfs_bank st)))))))"

definition bind_ChangeAdmin ::
  "'b tf_Keeper \<Rightarrow> addr \<Rightarrow> tfb_ChangeAdmin option \<Rightarrow> 'b tf_state \<Rightarrow> 'b tf_state res" where
  "bind_ChangeAdmin f contractAddr req st =
     (case req of
        None \<Rightarrow> Inl (External ''changeAdmin is nil'')
      | Some changeAdmin \<Rightarrow>
          bindR (parseAddress (sc_codec (tk_checks f)) (ba_NewAdminAddress changeAdmin)) (\<lambda>newAdminAddr.
          let changeAdminMsg = \<lparr>mc_Sender = AccAddressString (sc_codec (tk_checks f)) contractAddr,
                mc_Denom = ba_Denom changeAdmin,
                mc_NewAdmin = AccAddressString (sc_codec (tk_checks f)) newAdminAddr\<rparr>
          in bindR (MsgChangeAdmin_ValidateBasic (tk_checks f) changeAdminMsg) (\<lambda>_.
             tf_ChangeAdmin f changeAdminMsg st)))"

definition PerformBurn ::
  "'b tf_Keeper \<Rightarrow> addr \<Rightarrow> tfb_BurnTokens option \<Rightarrow> 'b tf_state \<Rightarrow> 'b tf_state res" where
  "PerformBurn f contractAddr req st =
     (case req of
        None \<Rightarrow> Inl (External ''burn token null mint'')
      | Some burn \<Rightarrow>
          let coin = \<lparr>coin_Denom = bb_Denom burn, coin_Amount = bb_Amount burn\<rparr>;
              sdkMsg = \<lparr>mb_Sender = AccAddressString (sc_codec (tk_checks f)) contractAddr,
                        mb_Amount = coin, mb_BurnFromAddress = []\<rparr>;
              sdkMsg = (if bb_BurnFromAddress burn \<noteq> []
                        then sdkMsg\<lparr>mb_BurnFromAddress := bb_BurnFromAddress burn\<rparr> else sdkMsg)
          in bindR (MsgBurn_ValidateBasic (tk_checks f) sdkMsg) (\<lambda>_. tf_Burn f sdkMsg st))"

definition PerformForceTransfer ::
  "'b tf_Keeper \<Rightarrow> addr \<Rightarrow> tfb_ForceTransfer option \<Rightarrow> 'b tf_state \<Rightarrow> 'b tf_state res" where
  "PerformForceTransfer f contractAddr req st =
     (case req of
        None \<Rightarrow> Inl (External ''force transfer null'')
      | Some forcetransfer \<Rightarrow>
          bindR (parseAddress (sc_codec (tk_checks f)) (bf_FromAddress forcetransfer)) (\<lambda>_.
          bindR (parseAddress (sc_codec (tk_checks f)) (bf_ToAddress forcetransfer)) (\<lambda>_.
          let coin = \<lparr>coin_Denom = bf_Denom forcetransfer, coin_Amount = bf_Amount forcetransfer\<rparr>;
              sdkMsg = \<lparr>mf_Sender = AccAddressString (sc_codec (tk_checks f)) contractAddr, mf_Amount = coin,
                        mf_TransferFromAddress = bf_FromAddress forcetransfer,
                        mf_TransferToAddress = bf_ToAddress forcetransfer\<rparr>
          in bindR (MsgForceTransfer_ValidateBasic (tk_checks f) sdkMsg) (\<lambda>_.
             tf_ForceTransfer f sdkMsg st))))"

text \<open>The result is the data of the message and the state: the response of a creation, nothing
  otherwise.\<close>

definition no_data :: "'b tf_state res \<Rightarrow> (string list \<times> 'b tf_state) res" where
  "no_data r = bindR r (\<lambda>st. Inr ([], st))"

definition tfb_DispatchMsg ::
  "'b tf_Keeper \<Rightarrow> addr \<Rightarrow> tfb_Msg \<Rightarrow> 'b tf_state \<Rightarrow> (string list \<times> 'b tf_state) res" where
  "tfb_DispatchMsg m contractAddr msg st =
     (if msg_CreateDenom msg \<noteq> None
      then bindR (PerformCreateDenom m contractAddr (msg_CreateDenom msg) st) (\<lambda>(bz, st). Inr ([bz], st))
      else if msg_MintTokens msg \<noteq> None then no_data (PerformMint m contractAddr (msg_MintTokens msg) st)
      else if msg_ChangeAdmin msg \<noteq> None then no_data (bind_ChangeAdmin m contractAddr (msg_ChangeAdmin msg) st)
      else if msg_BurnTokens msg \<noteq> None then no_data (PerformBurn m contractAddr (msg_BurnTokens msg) st)
      else case msg_SetMetadata msg of
        Some setMetadata \<Rightarrow>
          no_data (PerformSetMetadata m contractAddr (bs_Denom setMetadata) (bs_Metadata setMetadata) st)
      | None \<Rightarrow>
          if msg_ForceTransfer msg \<noteq> None
          then no_data (PerformForceTransfer m contractAddr (msg_ForceTransfer msg) st)
          else Inl (External ''unknown token factory msg variant''))"

section \<open>The custom messenger\<close>

text \<open>\<open>message_plugin.go\<close>: \<open>cm_Custom\<close> holds the outcome of \<open>json.Unmarshal\<close> on the custom bytes of a
  message, if it has any; \<open>cm_rest\<close> is the rest of the message, which the wrapped messenger
  handles.\<close>

record KiichainMsg =
  km_TokenFactory :: "tfb_Msg option"

record 'm CosmosMsg =
  cm_Custom :: "KiichainMsg res option"
  cm_rest :: 'm

record ('b, 'm) CustomMessenger =
  cm_wrapped :: "addr \<Rightarrow> 'm CosmosMsg \<Rightarrow> 'b tf_state \<Rightarrow> (string list \<times> 'b tf_state) res"
  cm_tokenFactory :: "'b tf_Keeper"

definition DispatchMsg ::
  "('b, 'm) CustomMessenger \<Rightarrow> addr \<Rightarrow> 'm CosmosMsg \<Rightarrow> 'b tf_state \<Rightarrow> (string list \<times> 'b tf_state) res" where
  "DispatchMsg m contractAddr msg st =
     (case cm_Custom msg of
        Some custom \<Rightarrow>
          bindR custom (\<lambda>contractMsg.
          case km_TokenFactory contractMsg of
            Some tf \<Rightarrow> tfb_DispatchMsg (cm_tokenFactory m) contractAddr tf st
          | None \<Rightarrow> Inl (External ''unknown kiichain msg variant''))
      | None \<Rightarrow> cm_wrapped m contractAddr msg st)"

section \<open>Token factory queries\<close>

text \<open>\<open>tokenfactory/queries.go\<close>. Coins are handed out with their amount as a decimal string.\<close>

fun nat_String :: "nat \<Rightarrow> string" where
  "nat_String n = (if n < 10 then [char_of (48 + n)] else nat_String (n div 10) @ [char_of (48 + n mod 10)])"

declare nat_String.simps [simp del]

definition int_String :: "int \<Rightarrow> string" where
  \<comment> \<open>\<open>big.Int.String\<close>\<close>
  "int_String i = (if i < 0 then CHR ''-'' # nat_String (nat (- i)) else nat_String (nat i))"

definition GetFullDenom :: "sdk_checks \<Rightarrow> string \<Rightarrow> string \<Rightarrow> string res" where
  "GetFullDenom S contract subDenom =
     bindR (parseAddress (sc_codec S) contract) (\<lambda>_. GetTokenDenom S contract subDenom)"

definition GetTokenfactoryDenomAdmin :: "'b tf_state \<Rightarrow> string \<Rightarrow> string res" where
  "GetTokenfactoryDenomAdmin st denom =
     bindR (wrapR (Errorf ''failed to get admin for denom'') (GetAuthorityMetadata st denom)) (\<lambda>metadata.
     Inr (Admin metadata))"

definition GetTokenfactoryDenomsByCreator :: "'b tf_Keeper \<Rightarrow> 'b tf_state \<Rightarrow> string \<Rightarrow> string list res" where
  "GetTokenfactoryDenomsByCreator k st creator =
     (let creator = trim_space creator
      in bindR (wrapR ErrInvalidAddress (AccAddressFromBech32 (sc_codec (tk_checks k)) creator)) (\<lambda>_.
         Inr (GetDenomsFromCreator st creator)))"

definition GetTokenfactoryMetadata :: "'b tf_Keeper \<Rightarrow> 'b tf_state \<Rightarrow> string \<Rightarrow> tfb_Metadata option" where
  "GetTokenfactoryMetadata k st denom =
     map_option SdkMetadataToWasm (bank_GetDenomMetaData (tk_bank k) (tfs_bank st) denom)"

definition ConvertSdkCoinToWasmCoin :: "coin \<Rightarrow> string \<times> string" where
  "ConvertSdkCoinToWasmCoin c = (coin_Denom c, int_String (coin_Amount c))"

definition GetTokenfactoryParams :: "'b tf_state \<Rightarrow> (string \<times> string) list res" where
  "GetTokenfactoryParams st =
     bindR (tf_GetParams st) (\<lambda>params. Inr (map ConvertSdkCoinToWasmCoin (DenomCreationFee params)))"

record tfb_Query =
  tq_FullDenom :: "(string \<times> string) option"
  tq_Admin :: "string option"
  tq_Metadata :: "string option"
  tq_DenomsByCreator :: "string option"
  tq_Params :: "unit option"

text \<open>The responses that are marshalled to JSON.\<close>

datatype wasm_response =
    FullDenomResponse string | AdminResponse string | MetadataResponse "tfb_Metadata option"
  | DenomsByCreatorResponse "string list" | ParamsResponse "(string \<times> string) list"
  | EthCallResponse string | ERC20InformationResponse int string string string
  | ERC20BalanceResponse string | ERC20AllowanceResponse string
  | HexToBech32Response string | Bech32ToHexResponse string
  | ExchangeRateResponse OracleExchangeRate | ExchangeRatesResponse "(string \<times> OracleExchangeRate) list"
  | TwapsResponse "OracleTwap list"

definition mapR_res :: "('a \<Rightarrow> 'b) \<Rightarrow> 'a res \<Rightarrow> 'b res" where
  "mapR_res f r = bindR r (\<lambda>x. Inr (f x))"

definition HandleTokenFactoryQuery ::
  "'b tf_Keeper \<Rightarrow> 'b tf_state \<Rightarrow> tfb_Query \<Rightarrow> wasm_response res" where
  "HandleTokenFactoryQuery k st q =
     (case tq_FullDenom q of
        Some (creator, subdenom) \<Rightarrow> mapR_res FullDenomResponse (GetFullDenom (tk_checks k) creator subdenom)
      | None \<Rightarrow>
     (case tq_Admin q of
        Some denom \<Rightarrow> mapR_res AdminResponse (GetTokenfactoryDenomAdmin st denom)
      | None \<Rightarrow>
     (case tq_Metadata q of
        Some denom \<Rightarrow> Inr (MetadataResponse (GetTokenfactoryMetadata k st denom))
      | None \<Rightarrow>
     (case tq_DenomsByCreator q of
        Some creator \<Rightarrow> mapR_res DenomsByCreatorResponse (GetTokenfactoryDenomsByCreator k st creator)
      | None \<Rightarrow>
     (case tq_Params q of
        Some _ \<Rightarrow> mapR_res ParamsResponse (GetTokenfactoryParams st)
      | None \<Rightarrow> Inl (External ''unknown token factory query variant''))))))"

section \<open>EVM queries\<close>

text \<open>\<open>evm/queries.go\<close>. The operations of the EVM: an address from text, hexadecimal data, a call
  with data (an error text, or the VM error and the returned data), a contract call by method, and
  the unpacking of its return value. \<open>ev_reason\<close> is the text of \<open>NewExecErrorWithReason\<close>.\<close>

datatype abi_value = ANil | ABool bool | AUint8 int | AUint64 int | AInt64 int | ABigInt int | AString string
  | AStrings "string list" | ABigInts "int list"

record evm_calls =
  ev_HexToAddress :: "string \<Rightarrow> addr"
  ev_AddressString :: "addr \<Rightarrow> string"
  ev_BytesToAddress :: "string \<Rightarrow> addr"
  ev_hex_Decode :: "string \<Rightarrow> string + string"
  ev_hex_Encode :: "string \<Rightarrow> string"
  ev_EthCall :: "addr \<Rightarrow> string \<Rightarrow> string + (string \<times> string)"
  ev_reason :: "string \<Rightarrow> string"
  ev_CallEVM :: "addr \<Rightarrow> string \<Rightarrow> addr list \<Rightarrow> string res"
  ev_Unpack :: "string \<Rightarrow> string \<Rightarrow> abi_value list res"

definition vm_ErrExecutionReverted :: string where "vm_ErrExecutionReverted = ''execution reverted''"
definition ErrExecutionReverted :: error where "ErrExecutionReverted = External ''evm_wasmbinding: execution reverted''"
definition ErrExecutingEthCall :: error where "ErrExecutingEthCall = External ''evm_wasmbinding: error executing eth call''"

text \<open>The errors of a call are compared by their text, so they are texts here.\<close>

definition handleRevertError :: "(string \<Rightarrow> string) \<Rightarrow> string \<Rightarrow> string \<Rightarrow> string option" where
  "handleRevertError reason vmError ret =
     (if vmError \<noteq> []
      then if vmError \<noteq> vm_ErrExecutionReverted then Some (''rpc error: code = Internal desc = '' @ vmError)
           else if ret = [] then Some vmError
           else Some (reason ret)
      else None)"

definition callEVMAndHandleRevertError :: "evm_calls \<Rightarrow> addr \<Rightarrow> string \<Rightarrow> string + string" where
  "callEVMAndHandleRevertError E to_addr data =
     (case ev_EthCall E to_addr data of
        Inl e \<Rightarrow> Inl e
      | Inr (vmError, ret) \<Rightarrow>
          (case handleRevertError (ev_reason E) vmError ret of Some e \<Rightarrow> Inl e | None \<Rightarrow> Inr ret))"

definition HandleEthCall :: "evm_calls \<Rightarrow> string \<times> string \<Rightarrow> string + string" where
  "HandleEthCall E = (\<lambda>(contract, call_data).
     (let to_addr = ev_HexToAddress E contract
      in case ev_hex_Decode E call_data of
           Inl e \<Rightarrow> Inl e
         | Inr data \<Rightarrow> (case callEVMAndHandleRevertError E to_addr data of
                          Inl e \<Rightarrow> Inl e | Inr ret \<Rightarrow> Inr (ev_hex_Encode E ret))))"

text \<open>One call of a method of an ERC-20 contract: \<open>unpacked[0]\<close>, if it has the expected type.\<close>

definition erc20_query :: "evm_calls \<Rightarrow> addr \<Rightarrow> string \<Rightarrow> addr list \<Rightarrow> (abi_value \<Rightarrow> 'a option) \<Rightarrow> 'a res" where
  "erc20_query E to_addr method args as_type =
     bindR (ev_CallEVM E to_addr method args) (\<lambda>ret.
     bindR (ev_Unpack E method ret) (\<lambda>unpacked.
     case unpacked of
       [] \<Rightarrow> Inl (Panic ''index out of range'')
     | v # _ \<Rightarrow> the_or (Errorf ''unexpected type'') (as_type v)))"

fun as_uint8 :: "abi_value \<Rightarrow> int option" where
  "as_uint8 (AUint8 n) = Some n"
| "as_uint8 _ = None"

fun as_string :: "abi_value \<Rightarrow> string option" where
  "as_string (AString s) = Some s"
| "as_string _ = None"

fun as_bigint :: "abi_value \<Rightarrow> int option" where
  "as_bigint (ABigInt n) = Some n"
| "as_bigint _ = None"

definition HandleERC20Information :: "evm_calls \<Rightarrow> string \<Rightarrow> wasm_response res" where
  "HandleERC20Information E contract =
     (let to_addr = ev_HexToAddress E contract
      in bindR (erc20_query E to_addr ''decimals'' [] as_uint8) (\<lambda>decimals.
         bindR (erc20_query E to_addr ''name'' [] as_string) (\<lambda>name.
         bindR (erc20_query E to_addr ''symbol'' [] as_string) (\<lambda>symbol.
         bindR (erc20_query E to_addr ''totalSupply'' [] as_bigint) (\<lambda>totalSupply.
         Inr (ERC20InformationResponse decimals name symbol (int_String totalSupply)))))))"

definition HandleERC20Balance :: "evm_calls \<Rightarrow> string \<times> string \<Rightarrow> wasm_response res" where
  "HandleERC20Balance E = (\<lambda>(contract, address).
     bindR (erc20_query E (ev_HexToAddress E contract) ''balanceOf'' [ev_HexToAddress E address] as_bigint) (\<lambda>balance.
     Inr (ERC20BalanceResponse (int_String balance))))"

definition HandleERC20Allowance :: "evm_calls \<Rightarrow> string \<times> string \<times> string \<Rightarrow> wasm_response res" where
  "HandleERC20Allowance E = (\<lambda>(contract, owner, spender).
     bindR (erc20_query E (ev_HexToAddress E contract) ''allowance''
              [ev_HexToAddress E owner, ev_HexToAddress E spender] as_bigint) (\<lambda>allowance.
     Inr (ERC20AllowanceResponse (int_String allowance))))"

record evmb_Query =
  eq_EthCall :: "(string \<times> string) option"
  eq_ERC20Information :: "string option"
  eq_ERC20Balance :: "(string \<times> string) option"
  eq_ERC20Allowance :: "(string \<times> string \<times> string) option"

definition HandleEVMQuery :: "evm_calls \<Rightarrow> evmb_Query \<Rightarrow> wasm_response res" where
  "HandleEVMQuery E q =
     (case eq_EthCall q of
        Some call \<Rightarrow>
          (case HandleEthCall E call of
             Inl err \<Rightarrow> if err = vm_ErrExecutionReverted then Inl ErrExecutionReverted else Inl ErrExecutingEthCall
           | Inr data \<Rightarrow> Inr (EthCallResponse data))
      | None \<Rightarrow>
     (case eq_ERC20Information q of
        Some contract \<Rightarrow> HandleERC20Information E contract
      | None \<Rightarrow>
     (case eq_ERC20Balance q of
        Some req \<Rightarrow> HandleERC20Balance E req
      | None \<Rightarrow>
     (case eq_ERC20Allowance q of
        Some req \<Rightarrow> HandleERC20Allowance E req
      | None \<Rightarrow> Inl (External ''unknown token factory query variant'')))))"

section \<open>Address queries\<close>

text \<open>\<open>bech32/queries.go\<close>. The codec with a prefix of the caller belongs to the SDK.\<close>

record bech32_any =
  ba_Bech32ifyAddressBytes :: "string \<Rightarrow> addr \<Rightarrow> string res"
  ba_GetFromBech32 :: "string \<Rightarrow> string \<Rightarrow> addr res"

definition HandleHexToBech32 :: "evm_calls \<Rightarrow> bech32_any \<Rightarrow> string \<times> string \<Rightarrow> string res" where
  "HandleHexToBech32 E B = (\<lambda>(address, bech32_prefix).
     ba_Bech32ifyAddressBytes B bech32_prefix (ev_HexToAddress E address))"

definition HandleBech32ToHex :: "evm_calls \<Rightarrow> bech32_any \<Rightarrow> string \<Rightarrow> string res" where
  "HandleBech32ToHex E B address =
     (let bech32Prefix = takeWhile (\<lambda>c. c \<noteq> CHR ''1'') address
      in if bech32Prefix = address then Inl (Errorf ''invalid bech32 address'')
         else bindR (ba_GetFromBech32 B address bech32Prefix) (\<lambda>addressBz.
           if \<not> valid_addr addressBz then Inl (External ''verify address format'')
           else Inr (ev_AddressString E (ev_BytesToAddress E addressBz))))"

record bech32b_Query =
  bq_HexToBech32 :: "(string \<times> string) option"
  bq_Bech32ToHex :: "string option"

definition HandleBech32Query :: "evm_calls \<Rightarrow> bech32_any \<Rightarrow> bech32b_Query \<Rightarrow> wasm_response res" where
  "HandleBech32Query E B q =
     (case bq_HexToBech32 q of
        Some req \<Rightarrow> mapR_res HexToBech32Response (HandleHexToBech32 E B req)
      | None \<Rightarrow>
     (case bq_Bech32ToHex q of
        Some req \<Rightarrow> mapR_res Bech32ToHexResponse (HandleBech32ToHex E B req)
      | None \<Rightarrow> Inl (External ''unknown bech32 query variant'')))"

section \<open>Oracle queries\<close>

text \<open>\<open>oracle/queries.go\<close>: the query server of the oracle.\<close>

definition HandleExchangeRate :: "('o, 's) oracle_state \<Rightarrow> string \<Rightarrow> wasm_response res" where
  "HandleExchangeRate st denom =
     (if denom = [] then Inl (External ''empty denom'')
      else mapR_res ExchangeRateResponse (q_ExchangeRate st (Some denom)))"

definition HandleExchangeRates :: "('o, 's) oracle_state \<Rightarrow> wasm_response res" where
  "HandleExchangeRates st = Inr (ExchangeRatesResponse (q_ExchangeRates st))"

definition HandleTwaps :: "('o, 's) oracle_Keeper \<Rightarrow> ctx \<Rightarrow> ('o, 's) oracle_state \<Rightarrow> int \<Rightarrow> wasm_response res" where
  "HandleTwaps k c st lookbackSeconds = mapR_res TwapsResponse (q_Twaps k c st lookbackSeconds)"

record oracleb_Query =
  oq_ExchangeRate :: "string option"
  oq_ExchangeRates :: "unit option"
  oq_Twaps :: "int option"

definition HandleOracleQuery ::
  "('o, 's) oracle_Keeper \<Rightarrow> ctx \<Rightarrow> ('o, 's) oracle_state \<Rightarrow> oracleb_Query \<Rightarrow> wasm_response res" where
  "HandleOracleQuery k c st q =
     (case oq_ExchangeRate q of
        Some denom \<Rightarrow> HandleExchangeRate st denom
      | None \<Rightarrow>
     (case oq_ExchangeRates q of
        Some _ \<Rightarrow> HandleExchangeRates st
      | None \<Rightarrow>
     (case oq_Twaps q of
        Some lookbackSeconds \<Rightarrow> HandleTwaps k c st lookbackSeconds
      | None \<Rightarrow> Inl (External ''unknown oracle query variant''))))"

section \<open>The custom querier\<close>

text \<open>\<open>query_plugin.go\<close>: the handlers a query is routed to, and the routes in their order.\<close>

record KiichainQuery =
  kq_TokenFactory :: "tfb_Query option"
  kq_EVM :: "evmb_Query option"
  kq_Bech32 :: "bech32b_Query option"
  kq_Oracle :: "oracleb_Query option"

record ('b, 'o, 's) QueryPlugin =
  qp_tokenFactory :: "'b tf_Keeper"
  qp_evm :: evm_calls
  qp_bech32 :: bech32_any
  qp_oracle :: "('o, 's) oracle_Keeper"

definition CustomQuerier ::
  "('b, 'o, 's) QueryPlugin \<Rightarrow> ctx \<Rightarrow> 'b tf_state \<Rightarrow> ('o, 's) oracle_state \<Rightarrow> KiichainQuery res \<Rightarrow> wasm_response res" where
  "CustomQuerier qp c st ost request =
     bindR request (\<lambda>contractQuery.
     case kq_TokenFactory contractQuery of
       Some q \<Rightarrow> HandleTokenFactoryQuery (qp_tokenFactory qp) st q
     | None \<Rightarrow>
     (case kq_EVM contractQuery of
       Some q \<Rightarrow> HandleEVMQuery (qp_evm qp) q
     | None \<Rightarrow>
     (case kq_Bech32 contractQuery of
       Some q \<Rightarrow> HandleBech32Query (qp_evm qp) (qp_bech32 qp) q
     | None \<Rightarrow>
     (case kq_Oracle contractQuery of
       Some q \<Rightarrow> HandleOracleQuery (qp_oracle qp) c ost q
     | None \<Rightarrow> Inl (External ''unknown query variant'')))))"

end
