(* ===== verification/WasmProps.thy ===== *)
theory WasmProps
  imports WasmBind TokenFactory
begin

text \<open>
  What a contract can do through the bindings of \<open>wasmbinding/\<close>: its messages keep the invariant of the
  token factory and change only denoms it administers; where minted coins go; what the queries answer
  after a creation; and the conversion of addresses.
\<close>

section \<open>Messages of a contract\<close>

lemma untouched_trans: "untouched k d st st1 \<Longrightarrow> untouched k d st1 st2 \<Longrightarrow> untouched k d st st2"
  by (simp add: untouched_def)

text \<open>What the operations of the contract with the address \<open>s\<close> keep.\<close>

definition kept_by :: "'b tf_Keeper \<Rightarrow> string \<Rightarrow> 'b tf_state \<Rightarrow> 'b tf_state \<Rightarrow> bool" where
  "kept_by k s st st' \<longleftrightarrow> tf_inv k st' \<and>
     (\<forall>d m p. kv_get (tfs_store st) (metadata_key d) = Some (VMetadata m) \<longrightarrow> Admin m \<noteq> s \<longrightarrow>
        tf_GetParams st = Inr p \<longrightarrow> amount_of (DenomCreationFee p) d = 0 \<longrightarrow> untouched k d st st')"

lemma parseAddress_parsed: "parseAddress C a = Inr x \<Longrightarrow> AccAddressFromBech32 C a = Inr x"
  by (auto simp: parseAddress_def res_simps split: if_splits)

lemma PerformSetMetadata_cases:
  assumes "PerformSetMetadata k c d md st = Inr st'"
  shows "GetAuthorityMetadata st d = Inr \<lparr>Admin = AccAddressString (sc_codec (tk_checks k)) c\<rparr> \<and>
    st' = st\<lparr>tfs_bank := bank_SetDenomMetaData (tk_bank k) (WasmMetadataToSdk (md\<lparr>tfb_Base := d\<rparr>)) (tfs_bank st)\<rparr>"
proof -
  obtain auth where "GetAuthorityMetadata st d = Inr auth"
    "Admin auth = AccAddressString (sc_codec (tk_checks k)) c"
    "st' = st\<lparr>tfs_bank := bank_SetDenomMetaData (tk_bank k) (WasmMetadataToSdk (md\<lparr>tfb_Base := d\<rparr>)) (tfs_bank st)\<rparr>"
    using assms by (auto simp: PerformSetMetadata_def Let_def res_simps split: if_splits)
  then show ?thesis by simp
qed

lemma PerformMint_cases:
  assumes "PerformMint k c (Some mint) st = Inr st'"
  obtains rcpt st1 where "AccAddressFromBech32 (sc_codec (tk_checks k)) (bm_MintToAddress mint) = Inr rcpt"
    "bm_Amount mint \<noteq> 0"
    "tf_Mint k \<lparr>mm_Sender = AccAddressString (sc_codec (tk_checks k)) c,
       mm_Amount = \<lparr>coin_Denom = bm_Denom mint, coin_Amount = bm_Amount mint\<rparr>, mm_MintToAddress = []\<rparr> st = Inr st1"
    "if bank_BlockedAddr (tk_bank k) rcpt then st' = st1
     else \<exists>cs b. NewCoins (tk_checks k) \<lparr>coin_Denom = bm_Denom mint, coin_Amount = bm_Amount mint\<rparr> = Inr cs \<and>
       bank_SendCoins (tk_bank k) c rcpt cs (tfs_bank st1) = Inr b \<and> st' = st1\<lparr>tfs_bank := b\<rparr>"
  using assms
  by (auto simp: PerformMint_def MsgMint_ValidateBasic_def with_bank_def Let_def res_simps
      dest!: parseAddress_parsed split: if_splits)

text \<open>What a dispatched message runs: a message of the message server with the contract as sender, or
  one of the three operations above.\<close>

definition runs_as :: "'b tf_Keeper \<Rightarrow> addr \<Rightarrow> 'b tf_state \<Rightarrow> 'b tf_state \<Rightarrow> bool" where
  "runs_as k c st st' \<longleftrightarrow>
     (\<exists>m. tf_exec k m st = Inr st' \<and> tf_sender m = AccAddressString (sc_codec (tk_checks k)) c)"

lemma runs_asI:
  "tf_ChangeAdmin k cm st = Inr st' \<Longrightarrow> mc_Sender cm = AccAddressString (sc_codec (tk_checks k)) c \<Longrightarrow> runs_as k c st st'"
  "tf_Burn k bm st = Inr st' \<Longrightarrow> mb_Sender bm = AccAddressString (sc_codec (tk_checks k)) c \<Longrightarrow> runs_as k c st st'"
  "tf_ForceTransfer k fm st = Inr st' \<Longrightarrow> mf_Sender fm = AccAddressString (sc_codec (tk_checks k)) c \<Longrightarrow> runs_as k c st st'"
  unfolding runs_as_def
  by (metis tf_exec.simps(5) tf_sender.simps(5), metis tf_exec.simps(3) tf_sender.simps(3),
      metis tf_exec.simps(4) tf_sender.simps(4))

lemma runs_as_contract:
  "bind_ChangeAdmin k c r st = Inr st' \<Longrightarrow> runs_as k c st st'"
  "PerformBurn k c r' st = Inr st' \<Longrightarrow> runs_as k c st st'"
  "PerformForceTransfer k c r'' st = Inr st' \<Longrightarrow> runs_as k c st st'"
  by (auto simp: bind_ChangeAdmin_def PerformBurn_def PerformForceTransfer_def Let_def res_simps
      split: option.splits if_splits elim!: runs_asI)

lemma tfb_Dispatch_cases:
  assumes "tfb_DispatchMsg k c msg st = Inr (data, st')"
  shows "(\<exists>cd d. msg_CreateDenom msg = Some cd \<and> data = [d] \<and> PerformCreateDenom k c (Some cd) st = Inr (d, st')) \<or>
    (\<exists>mint. PerformMint k c (Some mint) st = Inr st') \<or> (\<exists>d md. PerformSetMetadata k c d md st = Inr st') \<or>
    runs_as k c st st'"
proof (cases "msg_CreateDenom msg")
  case (Some cd)
  then show ?thesis
    using assms by (auto simp: tfb_DispatchMsg_def res_simps)
next
  case None
  then show ?thesis
    using assms
    by (auto simp: tfb_DispatchMsg_def no_data_def res_simps dest: runs_as_contract split: if_splits option.splits)
qed

context tf_env
begin

abbreviation text_of :: "addr \<Rightarrow> string" where
  "text_of c \<equiv> AccAddressString (sc_codec (tk_checks k)) c"

text \<open>An operation that is a message of the contract, and the two that are not.\<close>

lemma kept_exec:
  assumes "tf_inv k st" and "tf_exec k msg st = Inr st'" and "tf_sender msg = s" and "s \<noteq> []"
  shows "kept_by k s st st'"
  unfolding kept_by_def using exec_inv [OF assms(1,2)] exec_untouched [OF assms(1,2)] assms(3,4) by metis

lemma kept_set_metadata:
  assumes inv: "tf_inv k st" and ok: "PerformSetMetadata k c d md st = Inr st'" and c: "text_of c \<noteq> []"
  shows "tf_inv k st'" and "kv_get (tfs_store st) (metadata_key d') = Some (VMetadata m) \<Longrightarrow> Admin m \<noteq> text_of c \<Longrightarrow>
    untouched k d' st st'"
proof -
  note s = PerformSetMetadata_cases [OF ok]
  show "tf_inv k st'"
    by (rule tf_inv_bank [OF inv])
      (use s in \<open>auto simp: denom_meta_def bank.get_set_meta [OF bank_laws] WasmMetadataToSdk_def\<close>)
  assume "kv_get (tfs_store st) (metadata_key d') = Some (VMetadata m)" "Admin m \<noteq> text_of c"
  then have "d' \<noteq> d"
    using s authority_unique by fastforce
  then show "untouched k d' st st'"
    using s by (simp add: untouched_def bank_view bank.get_set_meta [OF bank_laws] WasmMetadataToSdk_def
        bank.bal_set_meta [OF bank_laws] bank.supply_set_meta [OF bank_laws])
qed

lemma kept_then:
  assumes "kept_by k s st st1" and "tf_inv k st1 \<Longrightarrow> tf_inv k st2"
    and "\<And>d m. kv_get (tfs_store st1) (metadata_key d) = Some (VMetadata m) \<Longrightarrow> Admin m \<noteq> s \<Longrightarrow>
      untouched k d st1 st2"
  shows "kept_by k s st st2"
  unfolding kept_by_def
proof (intro conjI allI impI)
  show "tf_inv k st2"
    using assms(1,2) by (simp add: kept_by_def)
  fix d m p
  assume m: "kv_get (tfs_store st) (metadata_key d) = Some (VMetadata m)" "Admin m \<noteq> s"
    and "tf_GetParams st = Inr p" "amount_of (DenomCreationFee p) d = 0"
  then have u: "untouched k d st st1"
    using assms(1) by (simp add: kept_by_def)
  then have "untouched k d st1 st2"
    using assms(3) [of d m] m by (simp add: untouched_def)
  with u show "untouched k d st st2"
    by (rule untouched_trans)
qed

lemma kept_create:
  assumes inv: "tf_inv k st" and ok: "PerformCreateDenom k c (Some cd) st = Inr (d, st')" and c: "text_of c \<noteq> []"
  shows "kept_by k (text_of c) st st'"
proof -
  let ?m = "\<lparr>cd_Sender = text_of c, cd_Subdenom = bc_Subdenom cd\<rparr>"
  obtain st1 where st1: "tf_CreateDenom k ?m st = Inr (d, st1)"
    "case bc_Metadata cd of None \<Rightarrow> st' = st1 | Some md \<Rightarrow> PerformSetMetadata k c d md st1 = Inr st'"
    using ok by (auto simp: PerformCreateDenom_def Let_def res_simps split: option.splits)
  have kept: "kept_by k (text_of c) st st1"
    by (rule kept_exec [OF inv, of "TfCreateDenom ?m"]) (use st1(1) c in auto)
  show ?thesis
  proof (cases "bc_Metadata cd")
    case None
    with st1 kept show ?thesis by simp
  next
    case (Some md)
    then have set: "PerformSetMetadata k c d md st1 = Inr st'" using st1(2) by simp
    show ?thesis
      by (rule kept_then [OF kept]) (use kept_set_metadata [OF _ set c] kept in \<open>auto simp: kept_by_def\<close>)
  qed
qed

lemma moved_untouched:
  assumes "moved (tk_bank k) f t cs (tfs_bank st) b" and "amount_of cs d = 0"
  shows "untouched k d st (st\<lparr>tfs_bank := b\<rparr>)"
  using assms by (simp add: untouched_def bank_view moved_def)

lemma kept_mint:
  assumes inv: "tf_inv k st" and ok: "PerformMint k c (Some mint) st = Inr st'" and c: "text_of c \<noteq> []"
  shows "kept_by k (text_of c) st st'"
proof -
  let ?c = "\<lparr>coin_Denom = bm_Denom mint, coin_Amount = bm_Amount mint\<rparr>"
  let ?m = "\<lparr>mm_Sender = text_of c, mm_Amount = ?c, mm_MintToAddress = []\<rparr>"
  obtain rcpt st1 where st1: "tf_Mint k ?m st = Inr st1"
    and sent: "if bank_BlockedAddr (tk_bank k) rcpt then st' = st1
     else \<exists>cs b. NewCoins (tk_checks k) ?c = Inr cs \<and>
       bank_SendCoins (tk_bank k) c rcpt cs (tfs_bank st1) = Inr b \<and> st' = st1\<lparr>tfs_bank := b\<rparr>"
    using PerformMint_cases [OF ok] by metis
  have kept: "kept_by k (text_of c) st st1"
    by (rule kept_exec [OF inv, of "TfMint ?m"]) (use st1 c in auto)
  show ?thesis
  proof (cases "bank_BlockedAddr (tk_bank k) rcpt")
    case True
    with sent kept show ?thesis by simp
  next
    case False
    then obtain cs b where b: "NewCoins (tk_checks k) ?c = Inr cs"
      "bank_SendCoins (tk_bank k) c rcpt cs (tfs_bank st1) = Inr b" "st' = st1\<lparr>tfs_bank := b\<rparr>"
      using sent by auto
    have admin: "GetAuthorityMetadata st1 (bm_Denom mint) = Inr \<lparr>Admin = text_of c\<rparr>"
      using tf_Mint_effect [OF bank_laws st1] by (auto simp: bank_effect_def GetAuthorityMetadata_def)
    show ?thesis
    proof (rule kept_then [OF kept])
      show "tf_inv k st'" if "tf_inv k st1"
        by (rule tf_inv_bank [OF that])
          (use bank.send [OF bank_laws b(2)] b(3) in \<open>auto simp: denom_meta_def moved_def\<close>)
      fix d m
      assume "kv_get (tfs_store st1) (metadata_key d) = Some (VMetadata m)" "Admin m \<noteq> text_of c"
      then have "d \<noteq> bm_Denom mint"
        using authority_unique [OF admin] by auto
      then have "amount_of cs d = 0"
        using NewCoins_amount [OF b(1)] by auto
      then show "untouched k d st1 st'"
        using moved_untouched [OF bank.send [OF bank_laws b(2)]] b(3) by simp
    qed
  qed
qed

lemma tfb_Dispatch_kept:
  assumes inv: "tf_inv k st" and ok: "tfb_DispatchMsg k c msg st = Inr (data, st')" and c: "text_of c \<noteq> []"
  shows "kept_by k (text_of c) st st'"
proof -
  consider (create) cd d where "msg_CreateDenom msg = Some cd" "PerformCreateDenom k c (Some cd) st = Inr (d, st')"
    | (mint) mint where "PerformMint k c (Some mint) st = Inr st'"
    | (meta) d md where "PerformSetMetadata k c d md st = Inr st'"
    | (exec) m where "tf_exec k m st = Inr st'" "tf_sender m = text_of c"
    using tfb_Dispatch_cases [OF ok] unfolding runs_as_def by metis
  then show ?thesis
  proof cases
    case create
    from kept_create [OF inv create(2) c] show ?thesis .
  next
    case mint
    from kept_mint [OF inv mint c] show ?thesis .
  next
    case meta
    from kept_set_metadata [OF inv meta c] show ?thesis by (simp add: kept_by_def)
  next
    case exec
    from kept_exec [OF inv exec c] show ?thesis .
  qed
qed

end

section \<open>Reachable states\<close>

text \<open>The states of a chain with contracts: genesis, then messages of accounts and custom messages
  of contracts, which have an address.\<close>

inductive wasm_reachable :: "('b, 'm) CustomMessenger \<Rightarrow> 'b tf_state \<Rightarrow> bool" for M where
  wasm_init: "tf_InitGenesis (cm_tokenFactory M) g st = Inr st' \<Longrightarrow> tfs_store st = [] \<Longrightarrow> wasm_reachable M st'"
| wasm_msg: "wasm_reachable M st \<Longrightarrow> tf_sender msg \<noteq> [] \<Longrightarrow> tf_exec (cm_tokenFactory M) msg st = Inr st' \<Longrightarrow>
    wasm_reachable M st'"
| wasm_contract: "wasm_reachable M st \<Longrightarrow>
    AccAddressString (sc_codec (tk_checks (cm_tokenFactory M))) c \<noteq> [] \<Longrightarrow> cm_Custom msg = Some custom \<Longrightarrow>
    DispatchMsg M c msg st = Inr (data, st') \<Longrightarrow> wasm_reachable M st'"

lemma tf_reachable_wasm: "tf_reachable (cm_tokenFactory M) st \<Longrightarrow> wasm_reachable M st"
  by (induction rule: tf_reachable.induct) (auto intro: wasm_reachable.intros)

lemma DispatchMsg_custom:
  assumes "DispatchMsg M c msg st = Inr (data, st')" and "cm_Custom msg = Some custom"
  obtains tf where "custom = Inr \<lparr>km_TokenFactory = Some tf\<rparr>"
    "tfb_DispatchMsg (cm_tokenFactory M) c tf st = Inr (data, st')"
proof -
  obtain km tf where "custom = Inr km" "km_TokenFactory km = Some tf"
    "tfb_DispatchMsg (cm_tokenFactory M) c tf st = Inr (data, st')"
    using assms by (auto simp: DispatchMsg_def res_simps split: option.splits)
  moreover from this have "km = \<lparr>km_TokenFactory = Some tf\<rparr>"
    by (cases km) simp
  ultimately show ?thesis using that by blast
qed

lemma Dispatch_kept:
  assumes "tf_env (cm_tokenFactory M)" and "tf_inv (cm_tokenFactory M) st"
    and "AccAddressString (sc_codec (tk_checks (cm_tokenFactory M))) c \<noteq> []"
    and "cm_Custom msg = Some custom" and "DispatchMsg M c msg st = Inr (data, st')"
  shows "kept_by (cm_tokenFactory M) (AccAddressString (sc_codec (tk_checks (cm_tokenFactory M))) c) st st'"
proof -
  obtain tf where "tfb_DispatchMsg (cm_tokenFactory M) c tf st = Inr (data, st')"
    using DispatchMsg_custom [OF assms(5,4)] by blast
  from tf_env.tfb_Dispatch_kept [OF assms(1,2) this assms(3)] show ?thesis .
qed

lemma wasm_reachable_inv:
  assumes "tf_env (cm_tokenFactory M)" and "wasm_reachable M st"
  shows "tf_inv (cm_tokenFactory M) st"
  using assms(2)
proof (induction rule: wasm_reachable.induct)
  case (wasm_init g st st')
  then show ?case by (rule tf_env.init_inv [OF assms(1)])
next
  case (wasm_msg st msg st')
  then show ?case using tf_env.exec_inv [OF assms(1)] by blast
next
  case (wasm_contract st c msg custom data st')
  then show ?case using Dispatch_kept [OF assms(1)] by (auto simp: kept_by_def)
qed

text \<open>C15: In every state a chain with contracts can reach, a custom message of a contract keeps the
  invariant of the token factory (typed records, an index that lists every denom), and changes
  neither the admin, nor the bank metadata, nor the supply, nor a balance of any factory denom the
  contract does not administer (a denom the creation fee is paid in is left to the fee).\<close>

theorem wasm_dispatch_safe:
  assumes "tf_env (cm_tokenFactory M)" and "wasm_reachable M st"
    and "AccAddressString (sc_codec (tk_checks (cm_tokenFactory M))) contractAddr \<noteq> []"
    and "cm_Custom msg = Some custom" and "DispatchMsg M contractAddr msg st = Inr (data, st')"
  shows "tf_inv (cm_tokenFactory M) st' \<and>
    (\<forall>d m p. kv_get (tfs_store st) (metadata_key d) = Some (VMetadata m) \<longrightarrow>
       Admin m \<noteq> AccAddressString (sc_codec (tk_checks (cm_tokenFactory M))) contractAddr \<longrightarrow>
       tf_GetParams st = Inr p \<longrightarrow> amount_of (DenomCreationFee p) d = 0 \<longrightarrow>
       GetAuthorityMetadata st' d = Inr m \<and>
       denom_meta (cm_tokenFactory M) st' d = denom_meta (cm_tokenFactory M) st d \<and>
       tf_supply (cm_tokenFactory M) st' d = tf_supply (cm_tokenFactory M) st d \<and>
       (\<forall>a. balance (cm_tokenFactory M) st' a d = balance (cm_tokenFactory M) st a d))"
  using Dispatch_kept [OF assms(1) wasm_reachable_inv [OF assms(1,2)] assms(3-5)]
  by (simp add: kept_by_def untouched_def GetAuthority_stored)

text \<open>The example: the contract \<open>Ann\<close> creates silver with metadata of its own.\<close>

definition toy_cm :: "(ledger, unit) CustomMessenger" where
  "toy_cm = \<lparr>cm_wrapped = (\<lambda>_ _ _. Inl (External ''no other messages'')), cm_tokenFactory = toy_tf\<rparr>"

definition toy_silver_metadata :: tfb_Metadata where
  "toy_silver_metadata =
     \<lparr>tfb_Description = ''silver'', tfb_DenomUnits = [\<lparr>tfb_Denom = toy_silver, tfb_Exponent = 0, tfb_Aliases = [''ag'']\<rparr>],
      tfb_Base = [], tfb_Display = ''ag'', tfb_Name = ''Silver'', tfb_Symbol = ''AG''\<rparr>"

definition toy_bind_create :: tfb_Msg where
  "toy_bind_create =
     tfb_no_msg\<lparr>msg_CreateDenom := Some \<lparr>bc_Subdenom = ''silver'', bc_Metadata = Some toy_silver_metadata\<rparr>\<rparr>"

definition toy_contract_msg :: "tfb_Msg \<Rightarrow> unit CosmosMsg" where
  "toy_contract_msg m = \<lparr>cm_Custom = Some (Inr \<lparr>km_TokenFactory = Some m\<rparr>), cm_rest = ()\<rparr>"

lemma toy_wasm_create:
  "map_sum id (map_prod id toy_tf_view)
     (bindR (toy_tf_run [TfMint toy_mint]) (DispatchMsg toy_cm ''Ann'' (toy_contract_msg toy_bind_create))) =
   Inr ([toy_silver],
     [(tf_ParamsKey, VParams (tg_Params toy_tf_genesis)),
       (''creator|kAnn|factory/kAnn/silver'', VDenom toy_silver),
       (''creator|kBob|factory/kBob/gold'', VDenom toy_gold),
       (''denoms|factory/kAnn/silver|authoritymetadata'', VMetadata \<lparr>Admin = ''kAnn''\<rparr>),
       (''denoms|factory/kBob/gold|authoritymetadata'', VMetadata \<lparr>Admin = ''kBob''\<rparr>)],
      [(toy_silver, WasmMetadataToSdk (toy_silver_metadata\<lparr>tfb_Base := toy_silver\<rparr>)),
       (toy_gold, default_metadata toy_gold)], [0, 50, 90], 50)"
  by code_simp

lemma toy_wasm_created:
  obtains st st' where "toy_tf_run [TfMint toy_mint] = Inr st"
    "DispatchMsg toy_cm ''Ann'' (toy_contract_msg toy_bind_create) st = Inr ([toy_silver], st')"
    "wasm_reachable toy_cm st" "tfs_store st = toy_tf_store" "tf_supply toy_tf st toy_gold = 50"
proof -
  obtain st where st: "toy_tf_run [TfMint toy_mint] = Inr st" "tfs_store st = toy_tf_store"
    "tf_supply toy_tf st toy_gold = 50"
    using toy_tf_viewed [OF toy_tf_run1] by (auto simp: toy_tf_sees)
  obtain st' where "DispatchMsg toy_cm ''Ann'' (toy_contract_msg toy_bind_create) st = Inr ([toy_silver], st')"
    using toy_wasm_create st(1)
    by (cases "DispatchMsg toy_cm ''Ann'' (toy_contract_msg toy_bind_create) st") auto
  moreover have "wasm_reachable toy_cm st"
    by (rule tf_reachable_wasm, unfold toy_cm_def CustomMessenger.simps, rule toy_tf_reachable [OF st(1)])
      (simp add: toy_mint_def)
  ultimately show ?thesis using that st by blast
qed

theorem wasm_dispatch_safe_witness:
  "\<exists>st st'. toy_tf_run [TfMint toy_mint] = Inr st \<and>
     DispatchMsg toy_cm ''Ann'' (toy_contract_msg toy_bind_create) st = Inr ([toy_silver], st') \<and>
     GetAuthorityMetadata st' toy_gold = Inr \<lparr>Admin = ''kBob''\<rparr> \<and> tf_supply toy_tf st' toy_gold = 50"
proof -
  obtain st st' where st: "toy_tf_run [TfMint toy_mint] = Inr st"
    "DispatchMsg toy_cm ''Ann'' (toy_contract_msg toy_bind_create) st = Inr ([toy_silver], st')"
    "wasm_reachable toy_cm st" "tfs_store st = toy_tf_store" "tf_supply toy_tf st toy_gold = 50"
    by (rule toy_wasm_created)
  have k: "cm_tokenFactory toy_cm = toy_tf" "tf_env (cm_tokenFactory toy_cm)"
    "AccAddressString (sc_codec (tk_checks (cm_tokenFactory toy_cm))) ''Ann'' = ''kAnn''"
    using toy_tf.tf_env_axioms by (simp_all add: toy_cm_def toy_tf_def toy_checks_def toy_codec_def)
  have "kv_get (tfs_store st) (metadata_key toy_gold) = Some (VMetadata \<lparr>Admin = ''kBob''\<rparr>)"
    "tf_GetParams st = Inr (tg_Params toy_tf_genesis)" "amount_of (DenomCreationFee (tg_Params toy_tf_genesis)) toy_gold = 0"
    unfolding tf_GetParams_def st(4) by code_simp+
  then show ?thesis
    using wasm_dispatch_safe [OF k(2) st(3) _ _ st(2)] st k by (fastforce simp: toy_contract_msg_def)
qed

end
