(* ===== verification/WasmFlow.thy ===== *)
theory WasmFlow
  imports WasmProps
begin

text \<open>
  Where the coins go that a contract mints, and what the queries of \<open>wasmbinding/\<close> answer: about a denom a
  contract has created, about addresses in another notation, and about reverted calls of the EVM.
\<close>

section \<open>Minting\<close>

text \<open>C16: A mint of a contract succeeds only for the admin of the denom and a positive amount. The
  supply grows by the amount, and one balance: that of the recipient of the message, except when the
  recipient is blocked, where the coins stay with the contract and no error is reported.\<close>

theorem wasm_mint_correct:
  assumes "tf_env k" and "valid_addr contractAddr" and "PerformMint k contractAddr (Some mint) st = Inr st'"
  shows "GetAuthorityMetadata st (bm_Denom mint) = Inr \<lparr>Admin = AccAddressString (sc_codec (tk_checks k)) contractAddr\<rparr> \<and>
    0 < bm_Amount mint \<and> tfs_store st' = tfs_store st \<and> denom_meta k st' = denom_meta k st \<and>
    (\<forall>d. tf_supply k st' d = tf_supply k st d + (if d = bm_Denom mint then bm_Amount mint else 0)) \<and>
    (\<exists>rcpt. AccAddressFromBech32 (sc_codec (tk_checks k)) (bm_MintToAddress mint) = Inr rcpt \<and>
       (\<forall>a d. balance k st' a d = balance k st a d +
          (if d = bm_Denom mint \<and> a = (if bank_BlockedAddr (tk_bank k) rcpt then contractAddr else rcpt)
           then bm_Amount mint else 0)))"
proof -
  note laws = tf_env.bank_laws [OF assms(1)]
  let ?c = "\<lparr>coin_Denom = bm_Denom mint, coin_Amount = bm_Amount mint\<rparr>"
  obtain rcpt st1 where rcpt: "AccAddressFromBech32 (sc_codec (tk_checks k)) (bm_MintToAddress mint) = Inr rcpt"
    and n: "bm_Amount mint \<noteq> 0"
    and st1: "tf_Mint k \<lparr>mm_Sender = AccAddressString (sc_codec (tk_checks k)) contractAddr, mm_Amount = ?c,
        mm_MintToAddress = []\<rparr> st = Inr st1"
    and sent: "if bank_BlockedAddr (tk_bank k) rcpt then st' = st1
     else \<exists>cs b. NewCoins (tk_checks k) ?c = Inr cs \<and>
       bank_SendCoins (tk_bank k) contractAddr rcpt cs (tfs_bank st1) = Inr b \<and> st' = st1\<lparr>tfs_bank := b\<rparr>"
    using PerformMint_cases [OF assms(3)] by metis
  have parse: "AccAddressFromBech32 (sc_codec (tk_checks k)) (AccAddressString (sc_codec (tk_checks k)) contractAddr) =
      Inr contractAddr"
    by (rule bech32.acc_roundtrip [OF sdk_rules.codec [OF tf_env.rules [OF assms(1)]] assms(2)])
  have admin: "GetAuthorityMetadata st (bm_Denom mint) = Inr \<lparr>Admin = AccAddressString (sc_codec (tk_checks k)) contractAddr\<rparr>"
    and e: "bank_effect k (Some contractAddr) None 1 ?c st st1"
    using tf_Mint_effect [OF laws st1] parse by auto
  have "tfs_store st' = tfs_store st \<and> denom_meta k st' = denom_meta k st \<and>
    (\<forall>d. tf_supply k st' d = tf_supply k st d + (if d = bm_Denom mint then bm_Amount mint else 0)) \<and>
    (\<forall>a d. balance k st' a d = balance k st a d +
       (if d = bm_Denom mint \<and> a = (if bank_BlockedAddr (tk_bank k) rcpt then contractAddr else rcpt)
        then bm_Amount mint else 0))"
  proof (cases "bank_BlockedAddr (tk_bank k) rcpt")
    case True
    with sent e show ?thesis by (auto simp: bank_effect_def)
  next
    case False
    then obtain cs b where b: "NewCoins (tk_checks k) ?c = Inr cs"
      "bank_SendCoins (tk_bank k) contractAddr rcpt cs (tfs_bank st1) = Inr b" "st' = st1\<lparr>tfs_bank := b\<rparr>"
      using sent by auto
    show ?thesis
      using e False NewCoins_amount [OF b(1)] bank.send [OF laws b(2)] b(3)
      by (auto simp: bank_effect_def moved_def bank_view fun_eq_iff)
  qed
  then show ?thesis
    using admin rcpt n e by (auto simp: bank_effect_def)
qed

definition toy_bind_mint :: tfb_MintTokens where
  "toy_bind_mint = \<lparr>bm_Denom = toy_gold, bm_Amount = 50, bm_MintToAddress = ''kmodule/gov''\<rparr>"

lemma toy_wasm_mint:
  "map_sum id (\<lambda>st. (toy_tf_view st, lg_bal (tfs_bank st) ''module/gov'' toy_gold))
     (bindR (toy_tf_run []) (PerformMint toy_tf ''Bob'' (Some toy_bind_mint))) =
   Inr ((toy_tf_store, [(toy_gold, default_metadata toy_gold)], [50, 0, 100], 50), 0)"
  by code_simp

theorem wasm_mint_correct_witness:
  "\<exists>st st'. toy_tf_run [] = Inr st \<and> PerformMint toy_tf ''Bob'' (Some toy_bind_mint) st = Inr st' \<and>
     bank_BlockedAddr (tk_bank toy_tf) ''module/gov'' \<and>
     balance toy_tf st' ''Bob'' toy_gold = balance toy_tf st ''Bob'' toy_gold + 50 \<and>
     balance toy_tf st' ''module/gov'' toy_gold = balance toy_tf st ''module/gov'' toy_gold"
proof -
  obtain st where st: "toy_tf_run [] = Inr st"
    using toy_tf_viewed [OF toy_tf_init] by blast
  obtain st' where st': "PerformMint toy_tf ''Bob'' (Some toy_bind_mint) st = Inr st'"
    using toy_wasm_mint st by (cases "PerformMint toy_tf ''Bob'' (Some toy_bind_mint) st") auto
  have b: "bank_BlockedAddr (tk_bank toy_tf) ''module/gov''"
    "AccAddressFromBech32 (sc_codec (tk_checks toy_tf)) ''kmodule/gov'' = Inr ''module/gov''" "valid_addr ''Bob''"
    by code_simp+
  show ?thesis
    using wasm_mint_correct [OF toy_tf.tf_env_axioms b(3) st'] st st' b(1,2) by (simp add: toy_bind_mint_def)
qed

section \<open>A created denom in the queries\<close>

definition tq_none :: tfb_Query where
  "tq_none = \<lparr>tq_FullDenom = None, tq_Admin = None, tq_Metadata = None, tq_DenomsByCreator = None, tq_Params = None\<rparr>"

lemma metadata_there_and_back [simp]: "SdkMetadataToWasm (WasmMetadataToSdk m) = m"
  by (auto simp: SdkMetadataToWasm_def WasmMetadataToSdk_def comp_def
      intro!: tfb_Metadata.equality tfb_DenomUnit.equality map_idI)

lemma PerformCreate_effect:
  assumes "tf_env k" and "PerformCreateDenom k c (Some cd) st = Inr (d, st')"
  shows "denom_meta k st d = None \<and>
    GetTokenDenom (tk_checks k) (AccAddressString (sc_codec (tk_checks k)) c) (bc_Subdenom cd) = Inr d \<and>
    MsgCreateDenom_ValidateBasic (tk_checks k)
      \<lparr>cd_Sender = AccAddressString (sc_codec (tk_checks k)) c, cd_Subdenom = bc_Subdenom cd\<rparr> = Inr () \<and>
    kv_get (tfs_store st') (metadata_key d) = Some (VMetadata \<lparr>Admin = AccAddressString (sc_codec (tk_checks k)) c\<rparr>) \<and>
    kv_get (tfs_store st') (GetCreatorPrefix (AccAddressString (sc_codec (tk_checks k)) c) @ d) = Some (VDenom d) \<and>
    denom_meta k st' d = Some (case bc_Metadata cd of None \<Rightarrow> default_metadata d
      | Some md \<Rightarrow> WasmMetadataToSdk (md\<lparr>tfb_Base := d\<rparr>))"
proof -
  let ?m = "\<lparr>cd_Sender = AccAddressString (sc_codec (tk_checks k)) c, cd_Subdenom = bc_Subdenom cd\<rparr>"
  obtain st1 where st1: "tf_CreateDenom k ?m st = Inr (d, st1)" "MsgCreateDenom_ValidateBasic (tk_checks k) ?m = Inr ()"
    "case bc_Metadata cd of None \<Rightarrow> st' = st1 | Some md \<Rightarrow> PerformSetMetadata k c d md st1 = Inr st'"
    using assms(2) by (auto simp: PerformCreateDenom_def Let_def res_simps split: option.splits)
  obtain st0 where st0: "createDenomAfterValidation k (cd_Sender ?m) d st0 = Inr st1" "denom_meta k st d = None"
    "GetTokenDenom (tk_checks k) (cd_Sender ?m) (cd_Subdenom ?m) = Inr d"
    using tf_env.CreateDenom_effect [OF assms(1) st1(1)] by blast
  note e = tf_env.create_effect [OF assms(1) st0(1)]
  show ?thesis
  proof (cases "bc_Metadata cd")
    case None
    then show ?thesis using st1 st0(2,3) e by simp
  next
    case (Some md)
    then have "PerformSetMetadata k c d md st1 = Inr st'" using st1(3) by simp
    note s = PerformSetMetadata_cases [OF this]
    have "denom_meta k st' d = Some (WasmMetadataToSdk (md\<lparr>tfb_Base := d\<rparr>))" "tfs_store st' = tfs_store st1"
      using s by (simp_all add: denom_meta_def bank.get_set_meta [OF tf_env.bank_laws [OF assms(1)]] WasmMetadataToSdk_def)
    then show ?thesis using Some st1(2) st0(2,3) e by simp
  qed
qed

text \<open>After a contract has created a denom, the full denom query gives the denom of the response,
  the admin query the contract, the list of its denoms contains it, and the metadata query gives what
  the contract supplied, or the default; before, there was no metadata, and the same creation again
  is refused.\<close>

lemma wasm_create_visible:
  assumes "tf_env k" and "valid_addr contractAddr"
    and "trim_space (AccAddressString (sc_codec (tk_checks k)) contractAddr) =
      AccAddressString (sc_codec (tk_checks k)) contractAddr"
    and "msg_CreateDenom msg = Some cd" and "tfb_DispatchMsg k contractAddr msg st = Inr (data, st')"
  shows "\<exists>d ds. data = [d] \<and>
    HandleTokenFactoryQuery k st (tq_none\<lparr>tq_Metadata := Some d\<rparr>) = Inr (MetadataResponse None) \<and>
    HandleTokenFactoryQuery k st' (tq_none\<lparr>tq_FullDenom :=
      Some (AccAddressString (sc_codec (tk_checks k)) contractAddr, bc_Subdenom cd)\<rparr>) = Inr (FullDenomResponse d) \<and>
    HandleTokenFactoryQuery k st' (tq_none\<lparr>tq_Admin := Some d\<rparr>) =
      Inr (AdminResponse (AccAddressString (sc_codec (tk_checks k)) contractAddr)) \<and>
    HandleTokenFactoryQuery k st' (tq_none\<lparr>tq_DenomsByCreator :=
      Some (AccAddressString (sc_codec (tk_checks k)) contractAddr)\<rparr>) = Inr (DenomsByCreatorResponse ds) \<and>
    d \<in> set ds \<and>
    HandleTokenFactoryQuery k st' (tq_none\<lparr>tq_Metadata := Some d\<rparr>) =
      Inr (MetadataResponse (Some (case bc_Metadata cd of None \<Rightarrow> SdkMetadataToWasm (default_metadata d)
        | Some md \<Rightarrow> md\<lparr>tfb_Base := d\<rparr>))) \<and>
    tfb_DispatchMsg k contractAddr msg st' = Inl ErrDenomExists"
proof -
  have parse: "AccAddressFromBech32 (sc_codec (tk_checks k)) (AccAddressString (sc_codec (tk_checks k)) contractAddr) =
      Inr contractAddr"
    by (rule bech32.acc_roundtrip [OF sdk_rules.codec [OF tf_env.rules [OF assms(1)]] assms(2)])
  obtain d where d: "data = [d]" "PerformCreateDenom k contractAddr (Some cd) st = Inr (d, st')"
    using assms(4,5) by (auto simp: tfb_DispatchMsg_def res_simps)
  note e = PerformCreate_effect [OF assms(1) d(2)]
  have again: "tfb_DispatchMsg k contractAddr msg st' = Inl ErrDenomExists"
    using e assms(4) by (auto simp: tfb_DispatchMsg_def PerformCreateDenom_def tf_CreateDenom_def CreateDenom_def
        validateCreateDenom_def denom_meta_def Let_def)
  show ?thesis
    using e d(1) assms(2,3) parse again listed_for_creator [of st' _ d] GetAuthority_stored [of st' d]
    by (intro exI [of _ d] exI [of _ "GetDenomsFromCreator st' (AccAddressString (sc_codec (tk_checks k)) contractAddr)"])
      (auto simp: HandleTokenFactoryQuery_def tq_none_def mapR_res_def GetFullDenom_def parseAddress_def
        GetTokenfactoryDenomAdmin_def GetTokenfactoryDenomsByCreator_def GetTokenfactoryMetadata_def denom_meta_def
        split: option.splits)
qed

lemma wasm_create_visible_witness:
  "\<exists>st st' ds. toy_tf_run [TfMint toy_mint] = Inr st \<and>
     tfb_DispatchMsg toy_tf ''Ann'' toy_bind_create st = Inr ([toy_silver], st') \<and>
     HandleTokenFactoryQuery toy_tf st' (tq_none\<lparr>tq_DenomsByCreator := Some ''kAnn''\<rparr>) =
       Inr (DenomsByCreatorResponse ds) \<and> toy_silver \<in> set ds \<and>
     HandleTokenFactoryQuery toy_tf st' (tq_none\<lparr>tq_Metadata := Some toy_silver\<rparr>) =
       Inr (MetadataResponse (Some (toy_silver_metadata\<lparr>tfb_Base := toy_silver\<rparr>)))"
proof -
  obtain st st' where st: "toy_tf_run [TfMint toy_mint] = Inr st"
    "DispatchMsg toy_cm ''Ann'' (toy_contract_msg toy_bind_create) st = Inr ([toy_silver], st')"
    by (rule toy_wasm_created)
  then have d: "tfb_DispatchMsg toy_tf ''Ann'' toy_bind_create st = Inr ([toy_silver], st')"
    by (simp add: DispatchMsg_def toy_contract_msg_def toy_cm_def)
  have s: "AccAddressString (sc_codec (tk_checks toy_tf)) ''Ann'' = ''kAnn''" "trim_space ''kAnn'' = ''kAnn''"
    "valid_addr ''Ann''" "msg_CreateDenom toy_bind_create = Some \<lparr>bc_Subdenom = ''silver'', bc_Metadata = Some toy_silver_metadata\<rparr>"
    by code_simp+
  show ?thesis
    using wasm_create_visible [OF toy_tf.tf_env_axioms s(3) _ s(4) d, unfolded s(1,2)] st(1) d by auto
qed

section \<open>Calls of the EVM\<close>

text \<open>A reverted call is reported as reverted only when the text of its error is exactly that of the
  EVM: a revert with a reason is reported as any other failed call.\<close>

lemma eth_call_errors:
  assumes "eq_EthCall q = Some (contract, call_data)" and "ev_hex_Decode E call_data = Inr data"
    and "ev_EthCall E (ev_HexToAddress E contract) data = Inr (vmError, ret)"
  shows "HandleEVMQuery E q =
    (if vmError = [] then Inr (EthCallResponse (ev_hex_Encode E ret))
     else if vmError = vm_ErrExecutionReverted \<and> (ret = [] \<or> ev_reason E ret = vm_ErrExecutionReverted)
     then Inl ErrExecutionReverted else Inl ErrExecutingEthCall)"
  using assms
  by (simp add: HandleEVMQuery_def HandleEthCall_def callEVMAndHandleRevertError_def handleRevertError_def
      vm_ErrExecutionReverted_def)

section \<open>Addresses in another notation\<close>

text \<open>What the conversion relies on: an EVM address has 20 bytes, which \<open>BytesToAddress\<close> leaves as they
  are; a bech32 text is prefix, separator and data, and only its own prefix decodes it (the codec
  compares with lower case).\<close>

definition lower_case :: "string \<Rightarrow> bool" where
  "lower_case p = list_all (\<lambda>c. \<not> (CHR ''A'' \<le> c \<and> c \<le> CHR ''Z'')) p"

locale address_codecs =
  fixes E :: evm_calls and B :: bech32_any
  assumes address_length: "length (ev_HexToAddress E s) = 20"
    and address_bytes: "length b = 20 \<Longrightarrow> ev_BytesToAddress E b = b"
    and text_form: "ba_Bech32ifyAddressBytes B p b = Inr t \<Longrightarrow> \<exists>data. t = p @ CHR ''1'' # data"
    and own_prefix: "ba_Bech32ifyAddressBytes B p b = Inr t \<Longrightarrow> lower_case p \<Longrightarrow> ba_GetFromBech32 B t p = Inr b"
    and other_prefix: "ba_Bech32ifyAddressBytes B p b = Inr t \<Longrightarrow> lower_case p \<Longrightarrow> q \<noteq> p \<Longrightarrow>
      \<exists>e. ba_GetFromBech32 B t q = Inl e"
begin

lemma converted_back:
  assumes "HandleHexToBech32 E B (address, p) = Inr t" and "lower_case p" and "CHR ''1'' \<notin> set p"
  shows "HandleBech32ToHex E B t = Inr (ev_AddressString E (ev_HexToAddress E address))"
proof -
  have enc: "ba_Bech32ifyAddressBytes B p (ev_HexToAddress E address) = Inr t"
    using assms(1) by (simp add: HandleHexToBech32_def)
  obtain data where t: "t = p @ CHR ''1'' # data"
    using text_form [OF enc] by blast
  have "takeWhile (\<lambda>c. c \<noteq> CHR ''1'') t = p"
    using assms(3) unfolding t by (subst takeWhile_append2) auto
  moreover have "valid_addr (ev_HexToAddress E address)"
    using address_length [of address] by (auto simp: valid_addr_def)
  ultimately show ?thesis
    using t own_prefix [OF enc assms(2)] address_bytes [OF address_length]
    by (simp add: HandleBech32ToHex_def Let_def)
qed

lemma not_converted_back:
  assumes "HandleHexToBech32 E B (address, p) = Inr t" and "lower_case p" and "CHR ''1'' \<in> set p"
  shows "\<exists>e. HandleBech32ToHex E B t = Inl e"
proof -
  have enc: "ba_Bech32ifyAddressBytes B p (ev_HexToAddress E address) = Inr t"
    using assms(1) by (simp add: HandleHexToBech32_def)
  obtain data where t: "t = p @ CHR ''1'' # data"
    using text_form [OF enc] by blast
  have w: "takeWhile (\<lambda>c. c \<noteq> CHR ''1'') t = takeWhile (\<lambda>c. c \<noteq> CHR ''1'') p"
    using assms(3) unfolding t by (subst takeWhile_append1) auto
  have "takeWhile (\<lambda>c. c \<noteq> CHR ''1'') p \<noteq> p"
    using assms(3) by (metis set_takeWhileD)
  from other_prefix [OF enc assms(2) this] show ?thesis
    by (auto simp: HandleBech32ToHex_def Let_def w)
qed

end

text \<open>Codecs for the examples: two letters for a byte, and addresses of the right length.\<close>

definition nibble :: "nat \<Rightarrow> char" where "nibble n = char_of (97 + n)"

fun toy_data :: "string \<Rightarrow> string" where
  "toy_data [] = []"
| "toy_data (c # b) = nibble (of_char c div 16) # nibble (of_char c mod 16) # toy_data b"

fun toy_bytes :: "string \<Rightarrow> string" where
  "toy_bytes (x # y # t) = char_of ((of_char x - 97) * 16 + (of_char y - 97) :: nat) # toy_bytes t"
| "toy_bytes _ = []"

definition toy_bech32 :: bech32_any where
  "toy_bech32 =
     \<lparr>ba_Bech32ifyAddressBytes = (\<lambda>p b. if p = [] then Inl (External ''bech32'') else Inr (p @ CHR ''1'' # toy_data b)),
      ba_GetFromBech32 = (\<lambda>t q.
        let data = rev (takeWhile (\<lambda>c. c \<noteq> CHR ''1'') (rev t))
        in if t = q @ CHR ''1'' # data then Inr (toy_bytes data) else Inl (External ''bech32 prefix''))\<rparr>"

definition toy_evm :: evm_calls where
  "toy_evm =
     \<lparr>ev_HexToAddress = (\<lambda>s. take 20 (s @ replicate 20 (CHR ''0''))), ev_AddressString = (\<lambda>a. ''0x'' @ a),
      ev_BytesToAddress = (\<lambda>b. drop (length b - 20) b), ev_hex_Decode = Inr, ev_hex_Encode = id,
      ev_EthCall = (\<lambda>a d. if d = [] then Inr (''execution reverted'', ''no data'') else Inr ([], d)),
      ev_reason = (\<lambda>r. ''execution reverted: '' @ r),
      ev_CallEVM = (\<lambda>a m args. Inr m), ev_Unpack = (\<lambda>m r. Inr [AString r])\<rparr>"

lemma of_nibble: "n < 16 \<Longrightarrow> of_char (nibble n) = 97 + n"
  by (simp add: nibble_def of_char_of)

lemma high_nibble: "(of_char c :: nat) div 16 < 16"
  by (simp add: less_mult_imp_div_less)

lemma toy_bytes_data: "toy_bytes (toy_data b) = b"
  by (induction b) (simp_all add: of_nibble high_nibble)

lemma toy_data_letters: "c \<in> set (toy_data b) \<Longrightarrow> c \<noteq> CHR ''1''"
proof (induction b)
  case (Cons x b)
  have "nibble n \<noteq> CHR ''1''" if "n < 16" for n
    using of_nibble [OF that] by auto
  from this [OF high_nibble [of x]] this [of "of_char x mod 16"] show ?case
    using Cons by auto
qed simp

lemma toy_separator: "rev (takeWhile (\<lambda>c. c \<noteq> CHR ''1'') (rev (p @ CHR ''1'' # toy_data b))) = toy_data b"
  by (simp add: takeWhile_append2 toy_data_letters takeWhile_append)

interpretation toy_addresses: address_codecs toy_evm toy_bech32
proof unfold_locales
  fix p b t q
  assume "ba_Bech32ifyAddressBytes toy_bech32 p b = Inr t"
  then have t: "t = p @ CHR ''1'' # toy_data b"
    by (simp add: toy_bech32_def split: if_splits)
  then show "\<exists>data. t = p @ CHR ''1'' # data"
    by blast
  show "ba_GetFromBech32 toy_bech32 t p = Inr b"
    using toy_separator [of p b] by (simp add: toy_bech32_def Let_def t toy_bytes_data)
  show "\<exists>e. ba_GetFromBech32 toy_bech32 t q = Inl e" if "q \<noteq> p"
    using toy_separator [of p b] that by (simp add: toy_bech32_def Let_def t)
qed (simp_all add: toy_evm_def)

text \<open>An address in hexadecimal that a contract has converted to bech32 converts back to itself,
  for every prefix in lower case without the digit one; with such a digit, which bech32 allows in a
  prefix, the conversion back always fails.\<close>

lemma address_conversion:
  assumes "address_codecs E B" and "HandleHexToBech32 E B (address, bech32_prefix) = Inr t" and "lower_case bech32_prefix"
  shows "if CHR ''1'' \<in> set bech32_prefix then \<exists>e. HandleBech32ToHex E B t = Inl e
    else HandleBech32ToHex E B t = Inr (ev_AddressString E (ev_HexToAddress E address))"
  using address_codecs.converted_back [OF assms] address_codecs.not_converted_back [OF assms] by simp

lemma address_conversion_witness:
  "\<exists>t. HandleHexToBech32 toy_evm toy_bech32 (''abc'', ''kii'') = Inr t \<and>
     HandleBech32ToHex toy_evm toy_bech32 t = Inr (''0xabc'' @ replicate 17 (CHR ''0''))"
proof -
  obtain t where t: "HandleHexToBech32 toy_evm toy_bech32 (''abc'', ''kii'') = Inr t"
    by (simp add: HandleHexToBech32_def toy_bech32_def)
  have "lower_case ''kii''" "CHR ''1'' \<notin> set ''kii''"
    "ev_AddressString toy_evm (ev_HexToAddress toy_evm ''abc'') = ''0xabc'' @ replicate 17 (CHR ''0'')"
    by code_simp+
  then show ?thesis
    using address_conversion [OF toy_addresses.address_codecs_axioms t] t by simp
qed

end
