(* ===== verification/Precompiles.thy ===== *)
theory Precompiles
  imports WasmFlow
begin

text \<open>
  \<open>precompiles/\<close>: the contracts of the EVM that the chain implements itself, the oracle queries and the
  IBC transfers. Unpacking the call data and packing the result are done by go-ethereum: arguments and
  results are ABI values. \<open>RunSetup\<close> of cosmos/evm is given by its outcome, the name of the method and
  the arguments; its deferred handler of out-of-gas panics is left out, as is logging.
\<close>

section \<open>A call\<close>

text \<open>\<open>evm.Origin\<close> signed the transaction, \<open>contract.Caller()\<close> called the precompile; they differ when a
  contract calls. \<open>pc_Gas\<close> is the gas left to the call.\<close>

record precompile_call =
  pc_Origin :: addr
  pc_Caller :: addr
  pc_setup :: "(string \<times> abi_value list) res"
  pc_Gas :: int

definition ErrUnknownMethod :: error where "ErrUnknownMethod = Errorf ''unknown method''"
definition vm_ErrOutOfGas :: error where "vm_ErrOutOfGas = External ''out of gas''"

text \<open>The end of \<open>Run\<close>: the gas the keepers used is charged to the call.\<close>

definition charge_call :: "precompile_call \<Rightarrow> int \<Rightarrow> int \<Rightarrow> int res" where
  "charge_call call consumed initialGas =
     (let cost = u64 (consumed - initialGas)
      in if pc_Gas call < cost then Inl vm_ErrOutOfGas else Inr (pc_Gas call - cost))"

section \<open>Oracle queries\<close>

definition ParseGetExchangeRateArgs :: "abi_value list \<Rightarrow> string res" where
  "ParseGetExchangeRateArgs args =
     (if length args \<noteq> 1 then Inl (Errorf ''invalid number of arguments'')
      else case as_string (args ! 0) of
        Some denom \<Rightarrow> if denom = [] then Inl (Errorf ''invalid denom'') else Inr denom
      | None \<Rightarrow> Inl (Errorf ''invalid denom''))"

definition ParseGetExchangeRatesArgs :: "abi_value list \<Rightarrow> unit res" where
  "ParseGetExchangeRatesArgs args =
     (if length args \<noteq> 0 then Inl (Errorf ''invalid number of arguments'') else Inr ())"

text \<open>\<open>big.Int.Uint64\<close> keeps the low 64 bits of the absolute value.\<close>

definition ParseGetTwapsArgs :: "abi_value list \<Rightarrow> int res" where
  "ParseGetTwapsArgs args =
     (if length args \<noteq> 1 then Inl (Errorf ''invalid number of arguments'')
      else case as_bigint (args ! 0) of
        Some lookbackPeriod \<Rightarrow> Inr (u64 \<bar>lookbackPeriod\<bar>)
      | None \<Rightarrow> Inl (Errorf ''invalid lookback period''))"

text \<open>\<open>dec_String\<close> is \<open>LegacyDec.String\<close> of the SDK.\<close>

definition pc_GetExchangeRate ::
  "(dec \<Rightarrow> string) \<Rightarrow> ('o, 's) oracle_state \<Rightarrow> abi_value list \<Rightarrow> abi_value list res" where
  "pc_GetExchangeRate dec_String st args =
     bindR (ParseGetExchangeRateArgs args) (\<lambda>denom.
     bindR (q_ExchangeRate st (Some denom)) (\<lambda>res.
     Inr [AString (dec_String (ExchangeRate res)), AString (int_String (LastUpdate res)),
          AInt64 (LastUpdateTimestamp res)]))"

definition pc_GetExchangeRates ::
  "(dec \<Rightarrow> string) \<Rightarrow> ('o, 's) oracle_state \<Rightarrow> abi_value list \<Rightarrow> abi_value list res" where
  "pc_GetExchangeRates dec_String st args =
     bindR (ParseGetExchangeRatesArgs args) (\<lambda>_.
     let res = q_ExchangeRates st
     in Inr [AStrings (map fst res), AStrings (map (\<lambda>(_, r). dec_String (ExchangeRate r)) res),
             AStrings (map (\<lambda>(_, r). int_String (LastUpdate r)) res),
             ABigInts (map (\<lambda>(_, r). LastUpdateTimestamp r) res)])"

definition pc_GetTwaps ::
  "('o, 's) oracle_Keeper \<Rightarrow> (dec \<Rightarrow> string) \<Rightarrow> ctx \<Rightarrow> ('o, 's) oracle_state \<Rightarrow> abi_value list \<Rightarrow> abi_value list res" where
  "pc_GetTwaps k dec_String c st args =
     bindR (ParseGetTwapsArgs args) (\<lambda>lookback.
     bindR (q_Twaps k c st lookback) (\<lambda>twaps.
     Inr [AStrings (map twap_Denom twaps), AStrings (map (\<lambda>t. dec_String (Twap t)) twaps)]))"

text \<open>The result is the packed values and the gas left; the oracle does not change. \<open>initialGas\<close> is the
  meter before the query and \<open>consumed\<close> the meter after it.\<close>

definition oracle_Run ::
  "('o, 's) oracle_Keeper \<Rightarrow> (dec \<Rightarrow> string) \<Rightarrow> ctx \<Rightarrow> ('o, 's) oracle_state \<Rightarrow> int \<Rightarrow> int \<Rightarrow> precompile_call \<Rightarrow>
   (abi_value list \<times> int) res" where
  "oracle_Run k dec_String c st initialGas consumed call =
     bindR (pc_setup call) (\<lambda>(method, args).
     bindR (if method = ''getExchangeRate'' then pc_GetExchangeRate dec_String st args
            else if method = ''getExchangeRates'' then pc_GetExchangeRates dec_String st args
            else if method = ''getTwaps'' then pc_GetTwaps k dec_String c st args
            else Inl ErrUnknownMethod) (\<lambda>bz.
     bindR (charge_call call consumed initialGas) (\<lambda>gas.
     Inr (bz, gas))))"

section \<open>IBC transfers\<close>

record Height =
  RevisionNumber :: int
  RevisionHeight :: int

record MsgTransfer =
  mt_SourcePort :: string
  mt_SourceChannel :: string
  mt_Token :: coin
  mt_Sender :: string
  mt_Receiver :: string
  mt_TimeoutHeight :: Height
  mt_TimeoutTimestamp :: int
  mt_Memo :: string

text \<open>The event of a transfer, as it is written to the log of the EVM.\<close>

record TransferEvent =
  te_Caller :: addr
  te_Receiver :: string
  te_Denom :: string
  te_Port :: string
  te_Channel :: string
  te_Amount :: int
  te_Height :: Height
  te_TimeoutTimestamp :: int
  te_Memo :: string

text \<open>The keepers of ibc-go over a state \<open>'i\<close> of the chain, and the state of the EVM. A channel is given
  by its connection hops, a connection by its client.\<close>

record 'i ibc_Precompile =
  ip_AccAddressString :: "addr \<Rightarrow> string"
  ip_GetChannel :: "'i \<Rightarrow> string \<Rightarrow> string \<Rightarrow> string list option"
  ip_GetConnection :: "'i \<Rightarrow> string \<Rightarrow> string option"
  ip_GetClientLatestHeight :: "'i \<Rightarrow> string \<Rightarrow> Height"
  ip_GetClientTimestampAtHeight :: "'i \<Rightarrow> string \<Rightarrow> Height \<Rightarrow> int res"
  ip_ValidateBasic :: "MsgTransfer \<Rightarrow> unit res"
  ip_Transfer :: "MsgTransfer \<Rightarrow> 'i \<Rightarrow> 'i res"
  ip_AddLog :: "TransferEvent \<Rightarrow> 'i \<Rightarrow> 'i"
  ip_GasConsumed :: "'i \<Rightarrow> int"

definition DefaultBlockIncrement :: int where "DefaultBlockIncrement = 100"
definition DefaultTimeIncrement :: int where "DefaultTimeIncrement = 10 * 60 * 1000000000"

definition ValidateArgsLength :: "abi_value list \<Rightarrow> nat \<Rightarrow> unit res" where
  "ValidateArgsLength args n = (if length args \<noteq> n then Inl (Errorf ''wrong number of arguments'') else Inr ())"

definition GetKiiAddressByEvmAddress :: "addr \<Rightarrow> addr res" where
  "GetKiiAddressByEvmAddress evmAddress = Inr evmAddress"

record ValidatedArgs =
  va_senderKiiAddr :: addr
  va_receiver :: string
  va_port :: string
  va_channelID :: string
  va_denom :: string
  va_amount :: int

definition nonempty_string :: "abi_value \<Rightarrow> string res" where
  "nonempty_string v =
     bindR (the_or (Errorf ''not a string'') (as_string v)) (\<lambda>s.
     if s = [] then Inl (Errorf ''empty'') else Inr s)"

definition validateCommonArgs :: "abi_value list \<Rightarrow> addr \<Rightarrow> ValidatedArgs res" where
  "validateCommonArgs args caller =
     bindR (GetKiiAddressByEvmAddress caller) (\<lambda>senderKiiAddr.
     bindR (nonempty_string (args ! 0)) (\<lambda>receiver.
     bindR (nonempty_string (args ! 1)) (\<lambda>port.
     bindR (nonempty_string (args ! 2)) (\<lambda>channelID.
     bindR (nonempty_string (args ! 3)) (\<lambda>denom.
     bindR (the_or (Errorf ''amount is not a big.Int'') (as_bigint (args ! 4))) (\<lambda>amount.
     Inr \<lparr>va_senderKiiAddr = senderKiiAddr, va_receiver = receiver, va_port = port, va_channelID = channelID,
          va_denom = denom, va_amount = amount\<rparr>))))))"

definition addMemo :: "abi_value \<Rightarrow> MsgTransfer \<Rightarrow> MsgTransfer" where
  "addMemo memoArg msg =
     (let memo = (case as_string memoArg of Some m \<Rightarrow> m | None \<Rightarrow> []) in msg\<lparr>mt_Memo := memo\<rparr>)"

fun as_uint64 :: "abi_value \<Rightarrow> int option" where
  "as_uint64 (AUint64 n) = Some n"
| "as_uint64 _ = None"

definition NewMsgTransfer :: "'i ibc_Precompile \<Rightarrow> addr \<Rightarrow> abi_value list \<Rightarrow> MsgTransfer res" where
  "NewMsgTransfer p sender args =
     bindR (ValidateArgsLength args 9) (\<lambda>_.
     bindR (validateCommonArgs args sender) (\<lambda>v.
     if va_amount v = 0 then Inl (Errorf ''amount is zero, transaction is invalid'')
     else
       bindR (the_or (Errorf ''revisionNumber is not a uint64'') (as_uint64 (args ! 5))) (\<lambda>revisionNumber.
       bindR (the_or (Errorf ''revisionHeight is not a uint64'') (as_uint64 (args ! 6))) (\<lambda>revisionHeight.
       bindR (the_or (Errorf ''timeoutTimestamp is not a uint64'') (as_uint64 (args ! 7))) (\<lambda>timeoutTimestamp.
       let msg = \<lparr>mt_SourcePort = va_port v, mt_SourceChannel = va_channelID v,
             mt_Token = \<lparr>coin_Denom = va_denom v, coin_Amount = va_amount v\<rparr>,
             mt_Sender = ip_AccAddressString p (va_senderKiiAddr v), mt_Receiver = va_receiver v,
             mt_TimeoutHeight = \<lparr>RevisionNumber = revisionNumber, RevisionHeight = revisionHeight\<rparr>,
             mt_TimeoutTimestamp = timeoutTimestamp, mt_Memo = []\<rparr>;
           msg = addMemo (args ! 8) msg
       in bindR (ip_ValidateBasic p msg) (\<lambda>_. Inr msg))))))"

definition getChannelConnection :: "'i ibc_Precompile \<Rightarrow> 'i \<Rightarrow> string \<Rightarrow> string \<Rightarrow> string res" where
  "getChannelConnection p w port channelID =
     bindR (the_or (Errorf ''channel not found'') (ip_GetChannel p w port channelID)) (\<lambda>hops.
     case hops of
       [] \<Rightarrow> Inl (Panic ''index out of range'')
     | h # _ \<Rightarrow> the_or (Errorf ''connection not found'') (ip_GetConnection p w h))"

definition getConsensusLatestHeight :: "'i ibc_Precompile \<Rightarrow> 'i \<Rightarrow> string \<Rightarrow> Height" where
  "getConsensusLatestHeight p w connection = ip_GetClientLatestHeight p w connection"

text \<open>The time stamp goes through a \<open>time.Time\<close> and back: both conversions are modulo \<open>2 ^ 64\<close>.\<close>

definition GetAdjustedTimestamp :: "'i ibc_Precompile \<Rightarrow> 'i \<Rightarrow> string \<Rightarrow> Height \<Rightarrow> int res" where
  "GetAdjustedTimestamp p w clientID height =
     bindR (ip_GetClientTimestampAtHeight p w clientID height) (\<lambda>timeoutTimestamp.
     let adjustedTime = i64 timeoutTimestamp
     in Inr (u64 (i64 (adjustedTime + DefaultTimeIncrement))))"

definition NewMsgTransferDefaultTimeout ::
  "'i ibc_Precompile \<Rightarrow> 'i \<Rightarrow> addr \<Rightarrow> abi_value list \<Rightarrow> MsgTransfer res" where
  "NewMsgTransferDefaultTimeout p w sender args =
     bindR (ValidateArgsLength args 6) (\<lambda>_.
     bindR (validateCommonArgs args sender) (\<lambda>v.
     if va_amount v = 0 then Inl (Errorf ''amount is zero, transaction is invalid'')
     else
       bindR (getChannelConnection p w (va_port v) (va_channelID v)) (\<lambda>connection.
       let latest = getConsensusLatestHeight p w connection
       in bindR (GetAdjustedTimestamp p w connection latest) (\<lambda>timeoutTimestamp.
          let msg = \<lparr>mt_SourcePort = va_port v, mt_SourceChannel = va_channelID v,
                mt_Token = \<lparr>coin_Denom = va_denom v, coin_Amount = va_amount v\<rparr>,
                mt_Sender = ip_AccAddressString p (va_senderKiiAddr v), mt_Receiver = va_receiver v,
                mt_TimeoutHeight = \<lparr>RevisionNumber = RevisionNumber latest,
                                    RevisionHeight = u64 (RevisionHeight latest + DefaultBlockIncrement)\<rparr>,
                mt_TimeoutTimestamp = timeoutTimestamp, mt_Memo = []\<rparr>;
              msg = addMemo (args ! 5) msg
          in bindR (ip_ValidateBasic p msg) (\<lambda>_. Inr msg)))))"

definition transfer_event :: "addr \<Rightarrow> MsgTransfer \<Rightarrow> TransferEvent" where
  "transfer_event caller msg =
     \<lparr>te_Caller = caller, te_Receiver = mt_Receiver msg, te_Denom = coin_Denom (mt_Token msg),
      te_Port = mt_SourcePort msg, te_Channel = mt_SourceChannel msg, te_Amount = coin_Amount (mt_Token msg),
      te_Height = mt_TimeoutHeight msg, te_TimeoutTimestamp = mt_TimeoutTimestamp msg, te_Memo = mt_Memo msg\<rparr>"

definition run_transfer :: "'i ibc_Precompile \<Rightarrow> addr \<Rightarrow> MsgTransfer res \<Rightarrow> 'i \<Rightarrow> (abi_value list \<times> 'i) res" where
  "run_transfer p caller new_msg w =
     bindR new_msg (\<lambda>msg.
     bindR (ip_Transfer p msg w) (\<lambda>w.
     Inr ([ABool True], ip_AddLog p (transfer_event caller msg) w)))"

definition ibc_Transfer :: "'i ibc_Precompile \<Rightarrow> abi_value list \<Rightarrow> addr \<Rightarrow> 'i \<Rightarrow> (abi_value list \<times> 'i) res" where
  "ibc_Transfer p args caller w = run_transfer p caller (NewMsgTransfer p caller args) w"

definition TransferWithDefaultTimeout ::
  "'i ibc_Precompile \<Rightarrow> abi_value list \<Rightarrow> addr \<Rightarrow> 'i \<Rightarrow> (abi_value list \<times> 'i) res" where
  "TransferWithDefaultTimeout p args caller w = run_transfer p caller (NewMsgTransferDefaultTimeout p w caller args) w"

definition ibc_Run :: "'i ibc_Precompile \<Rightarrow> precompile_call \<Rightarrow> 'i \<Rightarrow> (abi_value list \<times> int \<times> 'i) res" where
  "ibc_Run p call w =
     bindR (pc_setup call) (\<lambda>(method, args).
     let initialGas = ip_GasConsumed p w
     in bindR (if method = ''transfer'' then ibc_Transfer p args (pc_Origin call) w
               else if method = ''transferWithDefaultTimeout'' then TransferWithDefaultTimeout p args (pc_Origin call) w
               else Inl ErrUnknownMethod) (\<lambda>(bz, w).
        bindR (charge_call call (ip_GasConsumed p w) initialGas) (\<lambda>gas.
        Inr (bz, gas, w))))"

definition ibc_IsTransaction :: "string \<Rightarrow> bool" where
  "ibc_IsTransaction method = (method = ''transfer'' \<or> method = ''transferWithDefaultTimeout'')"

end
