(* ===== verification/PrecompileProps.thy ===== *)
theory PrecompileProps
  imports Precompiles
begin

text \<open>
  What a call of the IBC precompile transfers, from whom and until when, and the oracle precompile as a
  view of the oracle's query server.
\<close>

section \<open>Messages\<close>

lemma as_string_Some [simp]: "as_string v = Some s \<longleftrightarrow> v = AString s"
  by (cases v) auto

lemma as_bigint_Some [simp]: "as_bigint v = Some n \<longleftrightarrow> v = ABigInt n"
  by (cases v) auto

lemma as_uint64_Some [simp]: "as_uint64 v = Some n \<longleftrightarrow> v = AUint64 n"
  by (cases v) auto

lemma nonempty_string_Inr [res_simps]: "nonempty_string v = Inr s \<longleftrightarrow> v = AString s \<and> s \<noteq> []"
  by (auto simp: nonempty_string_def res_simps split: if_splits)

lemma common_args:
  assumes "validateCommonArgs args caller = Inr v"
  shows "va_senderKiiAddr v = caller \<and> args ! 0 = AString (va_receiver v) \<and> args ! 1 = AString (va_port v) \<and>
    args ! 2 = AString (va_channelID v) \<and> args ! 3 = AString (va_denom v) \<and> args ! 4 = ABigInt (va_amount v) \<and>
    va_receiver v \<noteq> [] \<and> va_port v \<noteq> [] \<and> va_channelID v \<noteq> [] \<and> va_denom v \<noteq> []"
  using assms by (auto simp: validateCommonArgs_def GetKiiAddressByEvmAddress_def res_simps)

text \<open>What a message must be, field by field, for a method and its arguments; written on the arguments
  and the interface of ibc-go alone.  The memo is optional: an argument that is not a string means
  the empty one.  Without explicit timeouts, they are 100 blocks and ten minutes after the latest
  height and time stamp that the client of the channel knows, modulo \<open>2 ^ 64\<close>.\<close>

fun memo_of :: "abi_value \<Rightarrow> string" where
  "memo_of (AString m) = m"
| "memo_of _ = []"

definition explicit_timeout :: "abi_value list \<Rightarrow> MsgTransfer \<Rightarrow> bool" where
  "explicit_timeout args msg \<longleftrightarrow>
     args ! 5 = AUint64 (RevisionNumber (mt_TimeoutHeight msg)) \<and>
     args ! 6 = AUint64 (RevisionHeight (mt_TimeoutHeight msg)) \<and> args ! 7 = AUint64 (mt_TimeoutTimestamp msg)"

definition default_timeout :: "'i ibc_Precompile \<Rightarrow> 'i \<Rightarrow> MsgTransfer \<Rightarrow> bool" where
  "default_timeout p w msg \<longleftrightarrow>
     (\<exists>hop hops client ts. ip_GetChannel p w (mt_SourcePort msg) (mt_SourceChannel msg) = Some (hop # hops) \<and>
        ip_GetConnection p w hop = Some client \<and>
        ip_GetClientTimestampAtHeight p w client (ip_GetClientLatestHeight p w client) = Inr ts \<and>
        mt_TimeoutHeight msg = \<lparr>RevisionNumber = RevisionNumber (ip_GetClientLatestHeight p w client),
          RevisionHeight = (RevisionHeight (ip_GetClientLatestHeight p w client) + 100) mod 2 ^ 64\<rparr> \<and>
        mt_TimeoutTimestamp msg = (ts + 600000000000) mod 2 ^ 64)"

definition message_of ::
  "'i ibc_Precompile \<Rightarrow> 'i \<Rightarrow> addr \<Rightarrow> string \<Rightarrow> abi_value list \<Rightarrow> MsgTransfer \<Rightarrow> bool" where
  "message_of p w sender mname args msg \<longleftrightarrow>
     args ! 0 = AString (mt_Receiver msg) \<and> args ! 1 = AString (mt_SourcePort msg) \<and>
     args ! 2 = AString (mt_SourceChannel msg) \<and> args ! 3 = AString (coin_Denom (mt_Token msg)) \<and>
     args ! 4 = ABigInt (coin_Amount (mt_Token msg)) \<and> coin_Amount (mt_Token msg) \<noteq> 0 \<and>
     mt_Receiver msg \<noteq> [] \<and> mt_SourcePort msg \<noteq> [] \<and> mt_SourceChannel msg \<noteq> [] \<and> coin_Denom (mt_Token msg) \<noteq> [] \<and>
     mt_Sender msg = ip_AccAddressString p sender \<and>
     (if mname = ''transfer'' then length args = 9 \<and> explicit_timeout args msg \<and> mt_Memo msg = memo_of (args ! 8)
      else mname = ''transferWithDefaultTimeout'' \<and> length args = 6 \<and> default_timeout p w msg \<and>
        mt_Memo msg = memo_of (args ! 5)) \<and>
     ip_ValidateBasic p msg = Inr ()"

lemma as_string_memo: "(case as_string v of Some m \<Rightarrow> m | None \<Rightarrow> []) = memo_of v"
  by (cases v) auto

lemma i64_mod: "i64 x mod 2 ^ 64 = x mod 2 ^ 64"
  by (simp add: i64_def mod_simps)

lemma u64_i64_add: "u64 (i64 (i64 x + y)) = u64 (x + y)"
proof -
  have "(i64 x + y) mod 2 ^ 64 = (x + y) mod 2 ^ 64"
    using i64_mod [of x] by (metis mod_add_left_eq)
  then show ?thesis
    using i64_mod [of "i64 x + y"] by (simp add: u64_def)
qed

lemma NewMsgTransfer_message:
  assumes "NewMsgTransfer p sender args = Inr msg"
  shows "message_of p w sender ''transfer'' args msg"
  using assms
  by (auto simp: NewMsgTransfer_def ValidateArgsLength_def addMemo_def message_of_def explicit_timeout_def
      as_string_memo Let_def res_simps dest!: common_args split: if_splits)

lemma getChannelConnection_Inr:
  "getChannelConnection p w port ch = Inr client \<longleftrightarrow>
     (\<exists>hop hops. ip_GetChannel p w port ch = Some (hop # hops) \<and> ip_GetConnection p w hop = Some client)"
  unfolding getChannelConnection_def
  by (cases "ip_GetChannel p w port ch") (auto simp: res_simps split: list.split)

lemma default_message:
  assumes "NewMsgTransferDefaultTimeout p w sender args = Inr msg"
  shows "message_of p w sender ''transferWithDefaultTimeout'' args msg"
proof -
  obtain v client ts where v: "validateCommonArgs args sender = Inr v" "va_amount v \<noteq> 0" "length args = 6"
    "getChannelConnection p w (va_port v) (va_channelID v) = Inr client"
    "ip_GetClientTimestampAtHeight p w client (ip_GetClientLatestHeight p w client) = Inr ts"
    "msg = \<lparr>mt_SourcePort = va_port v, mt_SourceChannel = va_channelID v,
       mt_Token = \<lparr>coin_Denom = va_denom v, coin_Amount = va_amount v\<rparr>,
       mt_Sender = ip_AccAddressString p (va_senderKiiAddr v), mt_Receiver = va_receiver v,
       mt_TimeoutHeight = \<lparr>RevisionNumber = RevisionNumber (ip_GetClientLatestHeight p w client),
         RevisionHeight = u64 (RevisionHeight (ip_GetClientLatestHeight p w client) + 100)\<rparr>,
       mt_TimeoutTimestamp = u64 (i64 (i64 ts + 600000000000)), mt_Memo = memo_of (args ! 5)\<rparr>"
    "ip_ValidateBasic p msg = Inr ()"
    using assms
    by (auto simp: NewMsgTransferDefaultTimeout_def ValidateArgsLength_def GetAdjustedTimestamp_def
        getConsensusLatestHeight_def DefaultBlockIncrement_def DefaultTimeIncrement_def addMemo_def
        as_string_memo Let_def res_simps split: if_splits)
  then have "default_timeout p w msg"
    unfolding default_timeout_def getChannelConnection_Inr u64_i64_add by (auto simp: u64_def)
  then show ?thesis
    using v(2,3,6,7) common_args [OF v(1)] by (simp add: message_of_def)
qed

section \<open>The transfer of a call\<close>

lemma u64_add_less:
  assumes "0 \<le> x" "x < 2 ^ 64" "0 < y" "y < 2 ^ 64"
  shows "x < u64 (x + y) \<longleftrightarrow> x < 2 ^ 64 - y"
proof (cases "x + y < 2 ^ 64")
  case True
  then show ?thesis using assms by (simp add: u64_def)
next
  case False
  have "u64 (x + y) = (x + y - 2 ^ 64) mod 2 ^ 64"
    by (simp only: u64_def minus_mod_self2)
  also have "\<dots> = x + y - 2 ^ 64"
    by (rule mod_pos_pos_trivial) (use assms False in linarith)+
  finally have "u64 (x + y) = x + y - 2 ^ 64" .
  then show ?thesis using assms False by simp
qed

text \<open>Examples: a state of gas used, messages sent and events logged, one channel with a client at
  height 5 of revision 1.\<close>

type_synonym toy_ibc_state = "int \<times> MsgTransfer list \<times> TransferEvent list"

definition toy_ibc :: "toy_ibc_state ibc_Precompile" where
  "toy_ibc =
     \<lparr>ip_AccAddressString = AccAddressString toy_codec,
      ip_GetChannel = (\<lambda>w port ch. if port = ''transfer'' \<and> ch = ''channel-0'' then Some [''connection-0''] else None),
      ip_GetConnection = (\<lambda>w h. if h = ''connection-0'' then Some ''07-tendermint-0'' else None),
      ip_GetClientLatestHeight = (\<lambda>w cl. \<lparr>RevisionNumber = 1, RevisionHeight = 5\<rparr>),
      ip_GetClientTimestampAtHeight = (\<lambda>w cl h. Inr 1000),
      ip_ValidateBasic = (\<lambda>m. if 0 < coin_Amount (mt_Token m) then Inr () else Inl ErrInvalidCoins),
      ip_Transfer = (\<lambda>m (g, ms, es). Inr (g + 30, m # ms, es)),
      ip_AddLog = (\<lambda>e (g, ms, es). (g, ms, e # es)), ip_GasConsumed = fst\<rparr>"

definition toy_ibc_args :: "abi_value list" where
  "toy_ibc_args = [AString ''osmo1'', AString ''transfer'', AString ''channel-0'', AString ''akii'', ABigInt 7, ANil]"

definition toy_call :: precompile_call where
  "toy_call = \<lparr>pc_Origin = ''Ann'', pc_Caller = ''Eve'',
     pc_setup = Inr (''transferWithDefaultTimeout'', toy_ibc_args), pc_Gas = 100\<rparr>"

definition toy_transfer_msg :: MsgTransfer where
  "toy_transfer_msg =
     \<lparr>mt_SourcePort = ''transfer'', mt_SourceChannel = ''channel-0'',
      mt_Token = \<lparr>coin_Denom = ''akii'', coin_Amount = 7\<rparr>, mt_Sender = ''kAnn'', mt_Receiver = ''osmo1'',
      mt_TimeoutHeight = \<lparr>RevisionNumber = 1, RevisionHeight = 105\<rparr>, mt_TimeoutTimestamp = 600000001000, mt_Memo = []\<rparr>"

definition toy_explicit_args :: "abi_value list" where
  "toy_explicit_args = [AString ''osmo1'', AString ''transfer'', AString ''channel-0'', AString ''akii'', ABigInt 7,
     AUint64 2, AUint64 900, AUint64 77, AString ''memo'']"

definition toy_explicit_msg :: MsgTransfer where
  "toy_explicit_msg = toy_transfer_msg\<lparr>mt_TimeoutHeight := \<lparr>RevisionNumber = 2, RevisionHeight = 900\<rparr>,
     mt_TimeoutTimestamp := 77, mt_Memo := ''memo''\<rparr>"

text \<open>C17: A successful call of the IBC precompile makes exactly one transfer, the one of its arguments,
  logs it and charges its gas. Every field of the message is pinned: receiver, port, channel, denom
  and non-zero amount from the first five arguments, revision number, revision height, time stamp
  and memo from the next four, or the memo from the sixth and the default timeouts, 100 blocks and
  ten minutes after what the channel's client knows; the event repeats them. The tokens are those of
  the account that signed the transaction: who called the precompile plays no part, so a contract
  transfers the funds of whoever called it.\<close>

theorem ibc_Run_correct:
  assumes "ibc_Run p call w = Inr (bz, gas, w')"
  shows "\<exists>mname args msg w1. pc_setup call = Inr (mname, args) \<and>
    message_of p w (pc_Origin call) mname args msg \<and> ip_Transfer p msg w = Inr w1 \<and>
    w' = ip_AddLog p
      \<lparr>te_Caller = pc_Origin call, te_Receiver = mt_Receiver msg, te_Denom = coin_Denom (mt_Token msg),
       te_Port = mt_SourcePort msg, te_Channel = mt_SourceChannel msg, te_Amount = coin_Amount (mt_Token msg),
       te_Height = mt_TimeoutHeight msg, te_TimeoutTimestamp = mt_TimeoutTimestamp msg, te_Memo = mt_Memo msg\<rparr> w1 \<and>
    bz = [ABool True] \<and>
    gas = pc_Gas call - u64 (ip_GasConsumed p w' - ip_GasConsumed p w) \<and> 0 \<le> gas \<and>
    (\<forall>caller. ibc_Run p (call\<lparr>pc_Caller := caller\<rparr>) w = Inr (bz, gas, w'))"
proof -
  obtain mname args where call: "pc_setup call = Inr (mname, args)"
    and run: "(if mname = ''transfer'' then ibc_Transfer p args (pc_Origin call) w
       else if mname = ''transferWithDefaultTimeout'' then TransferWithDefaultTimeout p args (pc_Origin call) w
       else Inl ErrUnknownMethod) = Inr (bz, w')"
    and gas: "charge_call call (ip_GasConsumed p w') (ip_GasConsumed p w) = Inr gas"
    using assms by (auto simp: ibc_Run_def Let_def res_simps)
  obtain msg w1 where msg: "message_of p w (pc_Origin call) mname args msg"
    and w1: "ip_Transfer p msg w = Inr w1" "w' = ip_AddLog p (transfer_event (pc_Origin call) msg) w1" "bz = [ABool True]"
    using run NewMsgTransfer_message [of p "pc_Origin call" args _ w] default_message [of p w "pc_Origin call" args]
    by (auto simp: ibc_Transfer_def TransferWithDefaultTimeout_def run_transfer_def res_simps split: if_splits)
  have "ibc_Run p (call\<lparr>pc_Caller := caller\<rparr>) w = Inr (bz, gas, w')" for caller
    unfolding assms [symmetric] by (simp add: ibc_Run_def charge_call_def Let_def cong: if_cong)
  moreover have "gas = pc_Gas call - u64 (ip_GasConsumed p w' - ip_GasConsumed p w)" "0 \<le> gas"
    using gas by (auto simp: charge_call_def Let_def split: if_splits)
  ultimately show ?thesis
    using call msg w1 unfolding transfer_event_def
    by (intro exI [of _ mname] exI [of _ args] exI [of _ msg] exI [of _ w1]) blast
qed

theorem ibc_Run_correct_witness:
  "ibc_Run toy_ibc toy_call (0, [], []) =
     Inr ([ABool True], 70, 30, [toy_transfer_msg], [transfer_event ''Ann'' toy_transfer_msg]) \<and>
   ibc_Run toy_ibc (toy_call\<lparr>pc_Caller := ''Ann''\<rparr>) (0, [], []) = ibc_Run toy_ibc toy_call (0, [], []) \<and>
   (\<exists>bz gas w' msg w1. ibc_Run toy_ibc (toy_call\<lparr>pc_setup := Inr (''transfer'', toy_explicit_args)\<rparr>) (0, [], []) =
       Inr (bz, gas, w') \<and> ip_Transfer toy_ibc msg (0, [], []) = Inr w1 \<and> w' = ip_AddLog toy_ibc (transfer_event ''Ann'' msg) w1 \<and>
     mt_TimeoutHeight msg = \<lparr>RevisionNumber = 2, RevisionHeight = 900\<rparr> \<and> mt_TimeoutTimestamp msg = 77 \<and>
     mt_Memo msg = ''memo'')"
proof -
  have run: "ibc_Run toy_ibc toy_call (0, [], []) =
      Inr ([ABool True], 70, 30, [toy_transfer_msg], [transfer_event ''Ann'' toy_transfer_msg])"
    by code_simp
  let ?call = "toy_call\<lparr>pc_setup := Inr (''transfer'', toy_explicit_args)\<rparr>"
  have ex: "ibc_Run toy_ibc ?call (0, [], []) =
      Inr ([ABool True], 70, 30, [toy_explicit_msg], [transfer_event ''Ann'' toy_explicit_msg])"
    by code_simp
  obtain msg w1 where m: "message_of toy_ibc (0, [], []) ''Ann'' ''transfer'' toy_explicit_args msg"
    "ip_Transfer toy_ibc msg (0, [], []) = Inr w1"
    "(30, [toy_explicit_msg], [transfer_event ''Ann'' toy_explicit_msg]) = ip_AddLog toy_ibc (transfer_event ''Ann'' msg) w1"
    using ibc_Run_correct [OF ex] by (auto simp: toy_call_def transfer_event_def)
  have h: "mt_TimeoutHeight msg = \<lparr>RevisionNumber = 2, RevisionHeight = 900\<rparr>"
    using m(1) by (cases "mt_TimeoutHeight msg") (simp add: message_of_def explicit_timeout_def toy_explicit_args_def)
  have "mt_TimeoutTimestamp msg = 77" "mt_Memo msg = ''memo''"
    using m(1) by (simp_all add: message_of_def explicit_timeout_def toy_explicit_args_def)
  then show ?thesis
    using ibc_Run_correct [OF run] run ex m(2,3) h by metis
qed

text \<open>The default timeout of a transfer is 100 blocks and ten minutes after the latest height and
  time stamp the chain's client knows of the other chain, both modulo \<open>2 ^ 64\<close>: later than the known
  ones exactly when they are not within that distance of the end of the range.\<close>

lemma ibc_default_timeout:
  assumes "NewMsgTransferDefaultTimeout p w sender args = Inr msg"
    and "getChannelConnection p w (mt_SourcePort msg) (mt_SourceChannel msg) = Inr client"
    and "ip_GetClientLatestHeight p w client = \<lparr>RevisionNumber = n, RevisionHeight = h\<rparr>" and "0 \<le> h" and "h < 2 ^ 64"
    and "ip_GetClientTimestampAtHeight p w client \<lparr>RevisionNumber = n, RevisionHeight = h\<rparr> = Inr ts"
    and "0 \<le> ts" and "ts < 2 ^ 64"
  shows "mt_TimeoutHeight msg = \<lparr>RevisionNumber = n, RevisionHeight = (h + 100) mod 2 ^ 64\<rparr> \<and>
    mt_TimeoutTimestamp msg = (ts + 600000000000) mod 2 ^ 64 \<and>
    (h < RevisionHeight (mt_TimeoutHeight msg) \<longleftrightarrow> h < 2 ^ 64 - 100) \<and>
    (ts < mt_TimeoutTimestamp msg \<longleftrightarrow> ts < 2 ^ 64 - 600000000000)"
proof -
  have height: "mt_TimeoutHeight msg = \<lparr>RevisionNumber = n, RevisionHeight = u64 (h + 100)\<rparr>"
    and time: "mt_TimeoutTimestamp msg = u64 (ts + 600000000000)"
    using default_message [OF assms(1)] assms(2,3,6)
    by (auto simp: message_of_def default_timeout_def getChannelConnection_Inr u64_def)
  show ?thesis
    using height time u64_add_less [OF assms(4,5), of 100] u64_add_less [OF assms(7,8), of 600000000000]
    by (simp add: u64_def)
qed

lemma ibc_default_timeout_witness:
  "\<exists>msg. NewMsgTransferDefaultTimeout toy_ibc (0, [], []) ''Ann'' toy_ibc_args = Inr msg \<and>
     5 < RevisionHeight (mt_TimeoutHeight msg) \<and> 1000 < mt_TimeoutTimestamp msg"
proof -
  have run: "NewMsgTransferDefaultTimeout toy_ibc (0, [], []) ''Ann'' toy_ibc_args = Inr toy_transfer_msg"
    by code_simp
  have client: "getChannelConnection toy_ibc (0, [], []) (mt_SourcePort toy_transfer_msg) (mt_SourceChannel toy_transfer_msg) =
      Inr ''07-tendermint-0''"
    "ip_GetClientLatestHeight toy_ibc (0, [], []) ''07-tendermint-0'' = \<lparr>RevisionNumber = 1, RevisionHeight = 5\<rparr>"
    "ip_GetClientTimestampAtHeight toy_ibc (0, [], []) ''07-tendermint-0'' \<lparr>RevisionNumber = 1, RevisionHeight = 5\<rparr> = Inr 1000"
    by code_simp+
  show ?thesis
    using ibc_default_timeout [OF run client(1,2) _ _ client(3)] run by simp
qed

section \<open>The oracle precompile\<close>

text \<open>The precompile and the querier of contracts answer from the same query server; a look-back that
  does not fit 64 bits is cut down without an error.\<close>

lemma pc_GetTwaps_view:
  "pc_GetTwaps k f c st [ABigInt lookback] =
     bindR (q_Twaps k c st (u64 \<bar>lookback\<bar>)) (\<lambda>ts. Inr [AStrings (map twap_Denom ts), AStrings (map (\<lambda>t. f (Twap t)) ts)])"
  by (simp add: pc_GetTwaps_def ParseGetTwapsArgs_def)

lemma lookback_cut_down: "pc_GetTwaps k f c st [ABigInt (2 ^ 64 + n)] = pc_GetTwaps k f c st [ABigInt n]"
  if "0 \<le> n" "n < 2 ^ 64"
  using that by (simp add: pc_GetTwaps_view u64_def)

lemma oracle_precompile_agrees:
  "denom \<noteq> [] \<Longrightarrow>
   pc_GetExchangeRate f st [AString denom] =
     bindR (HandleExchangeRate st denom) (\<lambda>r. case r of
       ExchangeRateResponse e \<Rightarrow>
         Inr [AString (f (ExchangeRate e)), AString (int_String (LastUpdate e)), AInt64 (LastUpdateTimestamp e)]
     | _ \<Rightarrow> Inl StatusInternal)"
  by (cases "q_ExchangeRate st (Some denom)")
    (simp_all add: pc_GetExchangeRate_def ParseGetExchangeRateArgs_def HandleExchangeRate_def mapR_res_def)

end
