(* ===== verification/Upgrades.thy ===== *)
theory Upgrades
  imports Sdk
begin

text \<open>
  \<open>app/upgrades\<close>: the handlers of the software upgrades and the migrations of v5.0.0, which move
  the precompiles of the erc20 module from two lists of address texts to one entry each, and
  carry some parameters of the EVM module over to its new type.  The module manager, the EVM
  and erc20 keepers, the store service, \<open>common.HexToAddress\<close> and the generated decoder of the
  old parameters are arguments; their documented behaviour is the locale \<open>erc20_store\<close>.
\<close>

section \<open>Keepers from outside\<close>

record erc20_params =
  EnableErc20 :: bool
  PermissionlessRegistration :: bool

record ('a, 'w) erc20_Keeper =
  ek_SetDynamicPrecompile :: "'a \<Rightarrow> 'w \<Rightarrow> 'w"
  ek_SetNativePrecompile :: "'a \<Rightarrow> 'w \<Rightarrow> 'w"
  ek_IsDynamicPrecompile :: "'a \<Rightarrow> 'w \<Rightarrow> bool"
  ek_IsNativePrecompile :: "'a \<Rightarrow> 'w \<Rightarrow> bool"
  ek_GetParams :: "'w \<Rightarrow> erc20_params"
  ek_SetParams :: "erc20_params \<Rightarrow> 'w \<Rightarrow> 'w res"

text \<open>A value read from a store is a slice: its bytes, and those between its length and its
  capacity, which a slice expression can still reach.\<close>

record 'w kv_service =
  kv_Get :: "string \<Rightarrow> 'w \<Rightarrow> (string \<times> string) res"
  kv_Delete :: "string \<Rightarrow> 'w \<Rightarrow> 'w res"

definition DynamicPrecompiles_key :: string where
  "DynamicPrecompiles_key = ''DynamicPrecompiles''"

definition NativePrecompiles_key :: string where
  "NativePrecompiles_key = ''NativePrecompiles''"

definition addressLength :: nat where
  "addressLength = 42"

section \<open>MigrateERC20\<close>

text \<open>The loop over the rest of the list; slicing past the capacity panics.\<close>

function migrate_addresses ::
  "(string \<Rightarrow> 'a) \<Rightarrow> ('a \<Rightarrow> 'w \<Rightarrow> 'w) \<Rightarrow> string \<Rightarrow> string \<Rightarrow> 'w \<Rightarrow> 'w res" where
  "migrate_addresses HexToAddress set_precompile spare oldData w =
     (if oldData = [] then Inr w
      else if length (oldData @ spare) < addressLength then Inl (Panic ''slice bounds out of range'')
      else migrate_addresses HexToAddress set_precompile spare (drop addressLength oldData)
             (set_precompile (HexToAddress (take addressLength (oldData @ spare))) w))"
  by pat_completeness auto
termination
  by (relation "measure (\<lambda>(_, _, _, d, _). length d)") (auto simp: addressLength_def)

declare migrate_addresses.simps [simp del]

lemma migrate_addresses_ok:
  "\<forall>t \<in> set ts. length t = 42 \<Longrightarrow>
   migrate_addresses H f spare (concat ts) w = Inr (fold (\<lambda>t. f (H t)) ts w)"
proof (induction ts arbitrary: w)
  case Nil
  then show ?case
    by (simp add: migrate_addresses.simps)
next
  case (Cons t ts)
  then have "t \<noteq> []" "take addressLength (concat (t # ts) @ spare) = t"
    "drop addressLength (concat (t # ts)) = concat ts"
    by (auto simp: addressLength_def)
  then show ?case
    using Cons by (subst migrate_addresses.simps) (simp add: addressLength_def)
qed

text \<open>A list that is cut off inside an address panics, unless its slice has capacity left.\<close>

lemma migrate_addresses_panic:
  "length d mod 42 \<noteq> 0 \<Longrightarrow> \<exists>m. migrate_addresses H f [] d w = Inl (Panic m)"
proof (induction d arbitrary: w rule: length_induct)
  case (1 d)
  show ?case
  proof (cases "length d < 42")
    case True
    then show ?thesis
      using 1(2) by (subst migrate_addresses.simps) (auto simp: addressLength_def)
  next
    case False
    have "\<exists>m. migrate_addresses H f [] (drop 42 d) w' = Inl (Panic m)" for w'
      using 1 False by (intro 1(1) [rule_format]) (auto simp: le_mod_geq)
    then show ?thesis
      using False by (subst migrate_addresses.simps) (auto simp: addressLength_def)
  qed
qed

definition migrate_list ::
  "(string \<Rightarrow> 'a) \<Rightarrow> 'w kv_service \<Rightarrow> ('a \<Rightarrow> 'w \<Rightarrow> 'w) \<Rightarrow> string \<Rightarrow> 'w \<Rightarrow> 'w res" where
  "migrate_list HexToAddress S set_precompile key w =
     bindR (kv_Get S key w) (\<lambda>(oldData, spare).
       if oldData \<noteq> [] then
         bindR (migrate_addresses HexToAddress set_precompile spare oldData w) (kv_Delete S key)
       else Inr w)"

definition MigrateERC20 :: "(string \<Rightarrow> 'a) \<Rightarrow> 'w kv_service \<Rightarrow> ('a, 'w) erc20_Keeper \<Rightarrow> 'w \<Rightarrow> 'w res" where
  "MigrateERC20 HexToAddress S K w =
     bindR (migrate_list HexToAddress S (ek_SetDynamicPrecompile K) DynamicPrecompiles_key w) (\<lambda>w1.
     bindR (migrate_list HexToAddress S (ek_SetNativePrecompile K) NativePrecompiles_key w1) (\<lambda>w2.
       ek_SetParams K ((ek_GetParams K w2)\<lparr>PermissionlessRegistration := True\<rparr>) w2))"

section \<open>MigrateEVMParams and the handlers\<close>

text \<open>The fields of the new and the old parameters; \<open>'c\<close> is the access control.\<close>

record 'c evm_params =
  EvmDenom :: string
  ExtraEIPs :: "string list"
  EVMChannels :: "string list"
  AllowUnprotectedTxs :: bool
  AccessControl :: 'c
  ActiveStaticPrecompiles :: "string list"

text \<open>\<open>zero_params\<close> is the zero value of the old type, \<open>defaults\<close> is \<open>DefaultParams()\<close>, \<open>denom\<close>
  the denomination of \<open>GetEVMCoinDenom()\<close>; a missing value is nil.\<close>

definition MigrateEVMParams ::
  "(string \<Rightarrow> 'c evm_params res) \<Rightarrow> 'c evm_params \<Rightarrow> 'c evm_params \<Rightarrow> string \<Rightarrow>
   ('w \<Rightarrow> string option res) \<Rightarrow> ('c evm_params \<Rightarrow> 'w \<Rightarrow> 'w res) \<Rightarrow> 'w \<Rightarrow> 'w res" where
  "MigrateEVMParams Unmarshal zero_params defaults denom get_params SetParams w =
     bindR (get_params w) (\<lambda>oldData.
     bindR (case oldData of None \<Rightarrow> Inr zero_params | Some d \<Rightarrow> Unmarshal d) (\<lambda>oldParams.
       SetParams (defaults\<lparr>EvmDenom := denom, ActiveStaticPrecompiles := ActiveStaticPrecompiles oldParams,
         EVMChannels := EVMChannels oldParams, AllowUnprotectedTxs := AllowUnprotectedTxs oldParams\<rparr>) w))"

text \<open>v5.0.0; the version map is returned with the error of a step, so the state is all that
  differs.  v2.0.0 and v4.0.0 run the module migrations only.\<close>

definition v5_UpgradeHandler ::
  "('v \<Rightarrow> 'w \<Rightarrow> ('v \<times> 'w) res) \<Rightarrow> (string \<Rightarrow> 'c evm_params res) \<Rightarrow> 'c evm_params \<Rightarrow> 'c evm_params \<Rightarrow>
   string \<Rightarrow> ('w \<Rightarrow> string option res) \<Rightarrow> ('c evm_params \<Rightarrow> 'w \<Rightarrow> 'w res) \<Rightarrow>
   (string \<Rightarrow> 'a) \<Rightarrow> 'w kv_service \<Rightarrow> ('a, 'w) erc20_Keeper \<Rightarrow> 'v \<Rightarrow> 'w \<Rightarrow> ('v \<times> 'w) res" where
  "v5_UpgradeHandler RunMigrations Unmarshal zero_params defaults denom get_params SetParams HexToAddress S K vm w =
     bindR (RunMigrations vm w) (\<lambda>(vm', w1).
     bindR (MigrateEVMParams Unmarshal zero_params defaults denom get_params SetParams w1) (\<lambda>w2.
     bindR (MigrateERC20 HexToAddress S K w2) (\<lambda>w3. Inr (vm', w3))))"

definition v2_UpgradeHandler :: "('v \<Rightarrow> 'w \<Rightarrow> ('v \<times> 'w) res) \<Rightarrow> 'v \<Rightarrow> 'w \<Rightarrow> ('v \<times> 'w) res" where
  "v2_UpgradeHandler RunMigrations vm w = RunMigrations vm w"

definition v4_UpgradeHandler :: "('v \<Rightarrow> 'w \<Rightarrow> ('v \<times> 'w) res) \<Rightarrow> 'v \<Rightarrow> 'w \<Rightarrow> ('v \<times> 'w) res" where
  "v4_UpgradeHandler RunMigrations vm w = RunMigrations vm w"

definition InstallNewPrecompiles :: "('a list \<Rightarrow> 'w \<Rightarrow> 'w res) \<Rightarrow> 'a list \<Rightarrow> 'w \<Rightarrow> 'w res" where
  "InstallNewPrecompiles EnableStaticPrecompiles precompiles w = EnableStaticPrecompiles precompiles w"

definition v3_UpgradeHandler ::
  "('v \<Rightarrow> 'w \<Rightarrow> ('v \<times> 'w) res) \<Rightarrow> ('a list \<Rightarrow> 'w \<Rightarrow> 'w res) \<Rightarrow> (string \<Rightarrow> 'a) \<Rightarrow> string \<Rightarrow>
   'v \<Rightarrow> 'w \<Rightarrow> ('v \<times> 'w) res" where
  "v3_UpgradeHandler RunMigrations EnableStaticPrecompiles HexToAddress OraclePrecompileAddress vm w =
     bindR (RunMigrations vm w) (\<lambda>(vm', w1).
     bindR (InstallNewPrecompiles EnableStaticPrecompiles [HexToAddress OraclePrecompileAddress] w1) (\<lambda>w2.
       Inr (vm', w2)))"

section \<open>Store loaders\<close>

text \<open>The stores an upgrade adds and deletes, and those of the upgrade that is due.\<close>

record Upgrade =
  UpgradeName :: string
  StoreAdded :: "string list"
  StoreDeleted :: "string list"

definition v5_Upgrade :: Upgrade where
  "v5_Upgrade = \<lparr>UpgradeName = ''v5.0.0'', StoreAdded = [], StoreDeleted = [''crisis'', ''capability'', ''feeibc'']\<rparr>"

definition app_Upgrades :: "Upgrade list" where
  "app_Upgrades = [v5_Upgrade]"

text \<open>\<open>None\<close> leaves the store loader as it is; a failed read panics.\<close>

definition setupUpgradeStoreLoaders ::
  "(string \<times> int) res \<Rightarrow> (int \<Rightarrow> bool) \<Rightarrow> Upgrade list \<Rightarrow> (int \<times> string list \<times> string list) option res" where
  "setupUpgradeStoreLoaders info IsSkipHeight upgrades =
     (case info of
        Inl e \<Rightarrow> Inl (Panic ''failed to read upgrade info from disk'')
      | Inr (name, height) \<Rightarrow>
          if IsSkipHeight height then Inr None
          else Inr (fold (\<lambda>u loader. if name = UpgradeName u
                      then Some (height, StoreAdded u, StoreDeleted u) else loader) upgrades None))"

section \<open>What the keepers promise\<close>

definition legacy :: "string set" where
  "legacy = {DynamicPrecompiles_key, NativePrecompiles_key}"

lemma legacy_keys [simp]:
  "DynamicPrecompiles_key \<in> legacy" "NativePrecompiles_key \<in> legacy"
  "DynamicPrecompiles_key \<noteq> NativePrecompiles_key"
  by (simp_all add: legacy_def DynamicPrecompiles_key_def NativePrecompiles_key_def)

locale erc20_store =
  fixes K :: "('a, 'w) erc20_Keeper" and S :: "'w kv_service"
  assumes set_dynamic: "ek_IsDynamicPrecompile K b (ek_SetDynamicPrecompile K a w) \<longleftrightarrow> b = a \<or> ek_IsDynamicPrecompile K b w"
      "ek_IsNativePrecompile K b (ek_SetDynamicPrecompile K a w) = ek_IsNativePrecompile K b w"
      "ek_GetParams K (ek_SetDynamicPrecompile K a w) = ek_GetParams K w"
      "k \<in> legacy \<Longrightarrow> kv_Get S k (ek_SetDynamicPrecompile K a w) = kv_Get S k w"
    and set_native: "ek_IsNativePrecompile K b (ek_SetNativePrecompile K a w) \<longleftrightarrow> b = a \<or> ek_IsNativePrecompile K b w"
      "ek_IsDynamicPrecompile K b (ek_SetNativePrecompile K a w) = ek_IsDynamicPrecompile K b w"
      "ek_GetParams K (ek_SetNativePrecompile K a w) = ek_GetParams K w"
      "k \<in> legacy \<Longrightarrow> kv_Get S k (ek_SetNativePrecompile K a w) = kv_Get S k w"
    and delete: "k \<in> legacy \<Longrightarrow> \<exists>w'. kv_Delete S k w = Inr w'"
      "k \<in> legacy \<Longrightarrow> kv_Delete S k w = Inr w' \<Longrightarrow> ek_IsDynamicPrecompile K b w' = ek_IsDynamicPrecompile K b w"
      "k \<in> legacy \<Longrightarrow> kv_Delete S k w = Inr w' \<Longrightarrow> ek_IsNativePrecompile K b w' = ek_IsNativePrecompile K b w"
      "k \<in> legacy \<Longrightarrow> kv_Delete S k w = Inr w' \<Longrightarrow> ek_GetParams K w' = ek_GetParams K w"
      "k \<in> legacy \<Longrightarrow> k' \<in> legacy \<Longrightarrow> kv_Delete S k w = Inr w' \<Longrightarrow>
        kv_Get S k' w' = (if k' = k then Inr ([], []) else kv_Get S k' w)"
    and set_params: "\<exists>w'. ek_SetParams K p w = Inr w'"
      "ek_SetParams K p w = Inr w' \<Longrightarrow> ek_GetParams K w' = p"
      "ek_SetParams K p w = Inr w' \<Longrightarrow> ek_IsDynamicPrecompile K b w' = ek_IsDynamicPrecompile K b w"
      "ek_SetParams K p w = Inr w' \<Longrightarrow> ek_IsNativePrecompile K b w' = ek_IsNativePrecompile K b w"
      "ek_SetParams K p w = Inr w' \<Longrightarrow> k \<in> legacy \<Longrightarrow> kv_Get S k w' = kv_Get S k w"
begin

text \<open>One list: \<open>f\<close> registers an address in \<open>is1\<close> and leaves \<open>is2\<close>, the parameters and the
  two lists alone.\<close>

lemma list_step:
  fixes f :: "'a \<Rightarrow> 'w \<Rightarrow> 'w" and is1 is2 :: "'a \<Rightarrow> 'w \<Rightarrow> bool"
  assumes set: "\<And>a b w. is1 b (f a w) \<longleftrightarrow> b = a \<or> is1 b w" "\<And>a b w. is2 b (f a w) = is2 b w"
      "\<And>a w. ek_GetParams K (f a w) = ek_GetParams K w" "\<And>k a w. k \<in> legacy \<Longrightarrow> kv_Get S k (f a w) = kv_Get S k w"
    and del: "\<And>w w' b. kv_Delete S key w = Inr w' \<Longrightarrow> is1 b w' = is1 b w"
      "\<And>w w' b. kv_Delete S key w = Inr w' \<Longrightarrow> is2 b w' = is2 b w"
    and key: "key \<in> legacy" and data: "kv_Get S key w = Inr (concat ds, spare)" "\<forall>t \<in> set ds. length t = 42"
  obtains w' where "migrate_list H S f key w = Inr w'"
    "\<forall>a. is1 a w' \<longleftrightarrow> a \<in> H ` set ds \<or> is1 a w" "\<forall>a. is2 a w' \<longleftrightarrow> is2 a w"
    "ek_GetParams K w' = ek_GetParams K w"
    "\<forall>k \<in> legacy. k \<noteq> key \<longrightarrow> kv_Get S k w' = kv_Get S k w" "\<exists>sp. kv_Get S key w' = Inr ([], sp)"
proof -
  let ?f = "\<lambda>w. fold (\<lambda>t. f (H t)) ds w"
  have f: "is1 a (?f w) \<longleftrightarrow> a \<in> H ` set ds \<or> is1 a w" "is2 a (?f w) = is2 a w"
    "ek_GetParams K (?f w) = ek_GetParams K w" "k \<in> legacy \<Longrightarrow> kv_Get S k (?f w) = kv_Get S k w" for a k w
    by (induction ds arbitrary: w) (auto simp: set)
  show thesis
  proof (cases "concat ds = []")
    case True
    then have "ds = []"
      using data(2) by (cases ds) auto
    then show thesis
      using that [of w] data(1) by (simp add: migrate_list_def)
  next
    case False
    obtain w' where w': "kv_Delete S key (?f w) = Inr w'"
      using delete(1) key by blast
    have "migrate_list H S f key w = Inr w'"
      using data(1) False w' by (simp add: migrate_list_def migrate_addresses_ok [OF data(2)])
    moreover have "kv_Get S k w' = (if k = key then Inr ([], []) else kv_Get S k w)" if "k \<in> legacy" for k
      using delete(5) [OF key that w'] f(4) [OF that] by simp
    moreover note delete(4) [OF key w'] del [OF w'] f(1-3)
    ultimately show thesis
      using that [of w'] key by simp
  qed
qed

lemma migrate_all:
  assumes "kv_Get S DynamicPrecompiles_key w = Inr (concat ds, sp)" "\<forall>t \<in> set ds. length t = 42"
    "kv_Get S NativePrecompiles_key w = Inr (concat ns, sp')" "\<forall>t \<in> set ns. length t = 42"
  shows "\<exists>w'. MigrateERC20 H S K w = Inr w' \<and>
    (\<forall>a. ek_IsDynamicPrecompile K a w' \<longleftrightarrow> a \<in> H ` set ds \<or> ek_IsDynamicPrecompile K a w) \<and>
    (\<forall>a. ek_IsNativePrecompile K a w' \<longleftrightarrow> a \<in> H ` set ns \<or> ek_IsNativePrecompile K a w) \<and>
    ek_GetParams K w' = (ek_GetParams K w)\<lparr>PermissionlessRegistration := True\<rparr> \<and>
    (\<forall>k \<in> legacy. \<exists>sp. kv_Get S k w' = Inr ([], sp))"
proof -
  obtain w1 where w1: "migrate_list H S (ek_SetDynamicPrecompile K) DynamicPrecompiles_key w = Inr w1"
    "\<forall>a. ek_IsDynamicPrecompile K a w1 \<longleftrightarrow> a \<in> H ` set ds \<or> ek_IsDynamicPrecompile K a w"
    "\<forall>a. ek_IsNativePrecompile K a w1 \<longleftrightarrow> ek_IsNativePrecompile K a w"
    "ek_GetParams K w1 = ek_GetParams K w"
    "\<forall>k \<in> legacy. k \<noteq> DynamicPrecompiles_key \<longrightarrow> kv_Get S k w1 = kv_Get S k w"
    "\<exists>sp. kv_Get S DynamicPrecompiles_key w1 = Inr ([], sp)"
    by (rule list_step [where H = H, OF set_dynamic delete(2,3) legacy_keys(1) assms(1,2)]) (use legacy_keys(1) in auto)
  have g: "kv_Get S NativePrecompiles_key w1 = Inr (concat ns, sp')"
    using w1(5) legacy_keys(2,3) assms(3) by metis
  obtain w2 where w2: "migrate_list H S (ek_SetNativePrecompile K) NativePrecompiles_key w1 = Inr w2"
    "\<forall>a. ek_IsNativePrecompile K a w2 \<longleftrightarrow> a \<in> H ` set ns \<or> ek_IsNativePrecompile K a w1"
    "\<forall>a. ek_IsDynamicPrecompile K a w2 \<longleftrightarrow> ek_IsDynamicPrecompile K a w1"
    "ek_GetParams K w2 = ek_GetParams K w1"
    "\<forall>k \<in> legacy. k \<noteq> NativePrecompiles_key \<longrightarrow> kv_Get S k w2 = kv_Get S k w1"
    "\<exists>sp. kv_Get S NativePrecompiles_key w2 = Inr ([], sp)"
    by (rule list_step [where H = H, OF set_native delete(3,2) legacy_keys(2) g assms(4)]) (use legacy_keys(2) in auto)
  obtain w3 where w3: "ek_SetParams K ((ek_GetParams K w2)\<lparr>PermissionlessRegistration := True\<rparr>) w2 = Inr w3"
    using set_params(1) by blast
  have "MigrateERC20 H S K w = Inr w3"
    using w1(1) w2(1) w3 by (simp add: MigrateERC20_def)
  then show ?thesis
    using w1 w2 set_params(2-5) [OF w3] legacy_keys(3) by (auto simp: legacy_def)
qed

end

section \<open>The keepers on a store\<close>

text \<open>The erc20 module keeps an entry per precompile under a prefix, and an entry per parameter
  that is set.\<close>

type_synonym erc20_kv = "string \<Rightarrow> string option"

definition set_key :: "string \<Rightarrow> bool \<Rightarrow> erc20_kv \<Rightarrow> erc20_kv" where
  "set_key k b w = w(k := if b then Some ''0x01'' else None)"

definition kv_service_of_map :: "erc20_kv kv_service" where
  "kv_service_of_map = \<lparr>kv_Get = (\<lambda>k w. Inr (case w k of None \<Rightarrow> [] | Some d \<Rightarrow> d, [])),
     kv_Delete = (\<lambda>k w. Inr (w(k := None)))\<rparr>"

definition erc20_keeper_of_map :: "(string, erc20_kv) erc20_Keeper" where
  "erc20_keeper_of_map = \<lparr>
     ek_SetDynamicPrecompile = (\<lambda>a. set_key (CHR 0x05 # a) True),
     ek_SetNativePrecompile = (\<lambda>a. set_key (CHR 0x06 # a) True),
     ek_IsDynamicPrecompile = (\<lambda>a w. w (CHR 0x05 # a) \<noteq> None),
     ek_IsNativePrecompile = (\<lambda>a w. w (CHR 0x06 # a) \<noteq> None),
     ek_GetParams = (\<lambda>w. \<lparr>EnableErc20 = w ''EnableErc20'' \<noteq> None,
       PermissionlessRegistration = w ''PermissionlessRegistration'' \<noteq> None\<rparr>),
     ek_SetParams = (\<lambda>p w. Inr (set_key ''PermissionlessRegistration'' (PermissionlessRegistration p)
       (set_key ''EnableErc20'' (EnableErc20 p) w)))\<rparr>"

interpretation erc20_map: erc20_store erc20_keeper_of_map kv_service_of_map
  by unfold_locales
    (auto simp: erc20_keeper_of_map_def kv_service_of_map_def set_key_def legacy_def
      DynamicPrecompiles_key_def NativePrecompiles_key_def)

text \<open>C40: The erc20 migration of v5.0.0 loses no precompile: from two lists of 42-byte address
  texts it ends without an error in a state where exactly the listed addresses have been added
  to the dynamic and to the native precompiles, the lists are empty, permissionless
  registration is on and the other parameter is as it was.\<close>

theorem MigrateERC20_correct:
  assumes "erc20_store K S"
    and "kv_Get S DynamicPrecompiles_key w = Inr (concat ds, sp)" "\<forall>t \<in> set ds. length t = 42"
    and "kv_Get S NativePrecompiles_key w = Inr (concat ns, sp')" "\<forall>t \<in> set ns. length t = 42"
  shows "\<exists>w'. MigrateERC20 HexToAddress S K w = Inr w' \<and>
    (\<forall>a. ek_IsDynamicPrecompile K a w' \<longleftrightarrow> a \<in> HexToAddress ` set ds \<or> ek_IsDynamicPrecompile K a w) \<and>
    (\<forall>a. ek_IsNativePrecompile K a w' \<longleftrightarrow> a \<in> HexToAddress ` set ns \<or> ek_IsNativePrecompile K a w) \<and>
    ek_GetParams K w' = (ek_GetParams K w)\<lparr>PermissionlessRegistration := True\<rparr> \<and>
    (\<exists>sp. kv_Get S DynamicPrecompiles_key w' = Inr ([], sp)) \<and>
    (\<exists>sp. kv_Get S NativePrecompiles_key w' = Inr ([], sp))"
proof -
  obtain w' where "MigrateERC20 HexToAddress S K w = Inr w'"
    "\<forall>a. ek_IsDynamicPrecompile K a w' \<longleftrightarrow> a \<in> HexToAddress ` set ds \<or> ek_IsDynamicPrecompile K a w"
    "\<forall>a. ek_IsNativePrecompile K a w' \<longleftrightarrow> a \<in> HexToAddress ` set ns \<or> ek_IsNativePrecompile K a w"
    "ek_GetParams K w' = (ek_GetParams K w)\<lparr>PermissionlessRegistration := True\<rparr>"
    "\<forall>k \<in> legacy. \<exists>sp. kv_Get S k w' = Inr ([], sp)"
    using erc20_store.migrate_all [OF assms, of HexToAddress] by (elim exE conjE)
  then show ?thesis
    using legacy_keys(1,2) by (intro exI [of _ w'] conjI) simp_all
qed

definition ex_address :: "char \<Rightarrow> string" where
  "ex_address c = ''0x'' @ replicate 40 c"

definition ex_erc20 :: erc20_kv where
  "ex_erc20 = [DynamicPrecompiles_key \<mapsto> concat [ex_address CHR ''a'', ex_address CHR ''b''],
     ''EnableErc20'' \<mapsto> ''0x01'']"

theorem MigrateERC20_correct_witness:
  "\<exists>w'. MigrateERC20 id kv_service_of_map erc20_keeper_of_map ex_erc20 = Inr w' \<and>
     ek_IsDynamicPrecompile erc20_keeper_of_map (ex_address CHR ''b'') w' \<and>
     \<not> ek_IsDynamicPrecompile erc20_keeper_of_map (ex_address CHR ''c'') w' \<and>
     ek_GetParams erc20_keeper_of_map w' = \<lparr>EnableErc20 = True, PermissionlessRegistration = True\<rparr>"
proof -
  let ?ds = "[ex_address CHR ''a'', ex_address CHR ''b'']"
  have g: "kv_Get kv_service_of_map DynamicPrecompiles_key ex_erc20 = Inr (concat ?ds, [])"
    "kv_Get kv_service_of_map NativePrecompiles_key ex_erc20 = Inr (concat [], [])"
    by (simp_all add: kv_service_of_map_def ex_erc20_def DynamicPrecompiles_key_def
        NativePrecompiles_key_def)
  have l: "\<forall>t \<in> set ?ds. length t = 42" "\<forall>t \<in> set ([] :: string list). length t = 42"
    by (simp_all add: ex_address_def)
  have p: "ek_GetParams erc20_keeper_of_map ex_erc20 = \<lparr>EnableErc20 = True, PermissionlessRegistration = False\<rparr>"
    "\<not> ek_IsDynamicPrecompile erc20_keeper_of_map (ex_address CHR ''c'') ex_erc20"
    by (simp_all add: erc20_keeper_of_map_def ex_erc20_def DynamicPrecompiles_key_def)
  have n: "ex_address CHR ''c'' \<notin> id ` set ?ds" "ex_address CHR ''b'' \<in> id ` set ?ds"
    by (simp_all add: ex_address_def)
  show ?thesis
    using MigrateERC20_correct [OF erc20_map.erc20_store_axioms g(1) l(1) g(2) l(2), of id] p n by auto
qed

text \<open>What the EVM migration keeps: the precompiles, the channels and the flag of the old
  parameters.  The access control and the extra EIPs are those of the defaults.\<close>

lemma MigrateEVMParams_fields:
  assumes "MigrateEVMParams Unmarshal zero defaults denom get_params SetParams w = Inr w'"
    "get_params w = Inr (Some d)" "Unmarshal d = Inr old"
  shows "\<exists>p. SetParams p w = Inr w' \<and> EvmDenom p = denom \<and>
    ActiveStaticPrecompiles p = ActiveStaticPrecompiles old \<and> EVMChannels p = EVMChannels old \<and>
    AllowUnprotectedTxs p = AllowUnprotectedTxs old \<and> AccessControl p = AccessControl defaults \<and>
    ExtraEIPs p = ExtraEIPs defaults"
  using assms by (auto simp: MigrateEVMParams_def)

end
