(* ===== verification/SwaggerLoader.thy ===== *)
theory SwaggerLoader
  imports Prelude
begin

text \<open>
  The module loader of the swagger-ui bundles (client/docs/swagger-ui/*.js).  Every bundle
  is one minified program on line 2 of its file, whose first function is the loader

    function n(r){if(t[r])return t[r].exports;var o=t[r]={i:r,l:!1,exports:{}};
      return e[r].call(o.exports,o,o.exports,n),o.l=!0,o.exports}

  with \<open>e\<close> the array of module factories and \<open>t\<close> the module cache.  A factory is a
  parameter of the model: a \<open>body\<close> of effects on the JS heap, requires of other modules
  (with the continuation after a return and the one of an enclosing catch) and assignments
  to \<open>module.exports\<close>.  Values of type \<open>'v\<close> are JS values (references of objects
  included), \<open>'h\<close> is the rest of the JS heap.  Fuel bounds the nesting depth of requires;
  \<open>webpack_require_terminates\<close> shows that one more than the number of modules not yet
  cached is enough.
\<close>

section \<open>Modules and the loader state\<close>

datatype ('h, 'v) body =
    Finish
  | Throw 'v
  | Effect "'h \<Rightarrow> 'h" "'h \<Rightarrow> ('h, 'v) body"
  | Require nat "'v \<Rightarrow> ('h, 'v) body" "'v \<Rightarrow> ('h, 'v) body"
  | SetExports 'v "('h, 'v) body"

record 'v js_module =
  mod_i :: nat
  mod_l :: bool
  mod_exports :: 'v

text \<open>\<open>ld_calls\<close> is a history variable: the modules whose factory was called, the latest
  first.  Nothing reads it but the properties.\<close>

record ('h, 'v) loader =
  ld_cache :: "nat \<rightharpoonup> 'v js_module"
  ld_heap :: 'h
  ld_calls :: "nat list"

text \<open>The environment of a bundle: its factories (called with \<open>module.exports\<close>), the
  allocation of the object literal \<open>{}\<close>, and the TypeError of calling undefined.\<close>

record ('h, 'v) js_bundle =
  bd_factories :: "nat \<rightharpoonup> ('v \<Rightarrow> ('h, 'v) body)"
  bd_new_object :: "'h \<Rightarrow> 'v \<times> 'h"
  bd_type_error :: 'v

datatype ('r, 'v) outcome = Returned 'r | Threw 'v | OutOfFuel

section \<open>The loader\<close>

text \<open>The code of a factory, run for module \<open>r\<close> with the loader \<open>req\<close>.\<close>

primrec run_body ::
  "(nat \<Rightarrow> ('h, 'v) loader \<Rightarrow> ('v, 'v) outcome \<times> ('h, 'v) loader) \<Rightarrow> nat \<Rightarrow>
   ('h, 'v) body \<Rightarrow> ('h, 'v) loader \<Rightarrow> (unit, 'v) outcome \<times> ('h, 'v) loader" where
  "run_body req r Finish s = (Returned (), s)"
| "run_body req r (Throw v) s = (Threw v, s)"
| "run_body req r (Effect g k) s =
     run_body req r (k (g (ld_heap s))) (s\<lparr>ld_heap := g (ld_heap s)\<rparr>)"
| "run_body req r (Require q k c) s =
     (case req q s of
        (Returned v, s') \<Rightarrow> run_body req r (k v) s'
      | (Threw v, s') \<Rightarrow> run_body req r (c v) s'
      | (OutOfFuel, s') \<Rightarrow> (OutOfFuel, s'))"
| "run_body req r (SetExports v b) s =
     run_body req r b
       (s\<lparr>ld_cache := (ld_cache s)(r := map_option (\<lambda>m. m\<lparr>mod_exports := v\<rparr>) (ld_cache s r))\<rparr>)"

definition fresh_module :: "nat \<Rightarrow> 'v \<Rightarrow> 'v js_module" where
  "fresh_module r v = \<lparr>mod_i = r, mod_l = False, mod_exports = v\<rparr>"

definition enter_module :: "('h, 'v) js_bundle \<Rightarrow> nat \<Rightarrow> ('h, 'v) loader \<Rightarrow> 'v \<times> ('h, 'v) loader" where
  "enter_module e r s =
     (let (v, h) = bd_new_object e (ld_heap s)
      in (v, s\<lparr>ld_cache := (ld_cache s)(r \<mapsto> fresh_module r v), ld_heap := h\<rparr>))"

text \<open>The record \<open>o\<close> of the code is the one in the cache under \<open>r\<close>: entries are never removed
  (\<open>webpack_require_frame\<close>), so the \<open>None\<close> branch is not reached.\<close>

definition leave_module ::
  "nat \<Rightarrow> (unit, 'v) outcome \<times> ('h, 'v) loader \<Rightarrow> ('v, 'v) outcome \<times> ('h, 'v) loader" where
  "leave_module r res =
     (case res of
        (Returned _, s) \<Rightarrow>
          (case ld_cache s r of
             Some m \<Rightarrow>
               (Returned (mod_exports m), s\<lparr>ld_cache := (ld_cache s)(r \<mapsto> m\<lparr>mod_l := True\<rparr>)\<rparr>)
           | None \<Rightarrow> (OutOfFuel, s))
      | (Threw v, s) \<Rightarrow> (Threw v, s)
      | (OutOfFuel, s) \<Rightarrow> (OutOfFuel, s))"

primrec webpack_require ::
  "nat \<Rightarrow> ('h, 'v) js_bundle \<Rightarrow> nat \<Rightarrow> ('h, 'v) loader \<Rightarrow> ('v, 'v) outcome \<times> ('h, 'v) loader" where
  "webpack_require 0 e r s =
     (case ld_cache s r of
        Some m \<Rightarrow> (Returned (mod_exports m), s)
      | None \<Rightarrow> (OutOfFuel, s))"
| "webpack_require (Suc f) e r s =
     (case ld_cache s r of
        Some m \<Rightarrow> (Returned (mod_exports m), s)
      | None \<Rightarrow>
          (let (v, s1) = enter_module e r s
           in (case bd_factories e r of
                 None \<Rightarrow> (Threw (bd_type_error e), s1)
               | Some factory \<Rightarrow>
                   leave_module r
                     (run_body (webpack_require f e) r (factory v)
                        (s1\<lparr>ld_calls := r # ld_calls s1\<rparr>)))))"

text \<open>The last expression of a bundle, \<open>n(n.s=479)\<close>: load the entry module.\<close>

definition bundle_boot :: "nat \<Rightarrow> ('h, 'v) js_bundle \<Rightarrow> 'h \<Rightarrow> ('v, 'v) outcome \<times> ('h, 'v) loader" where
  "bundle_boot f e h =
     webpack_require f e 479 \<lparr>ld_cache = Map.empty, ld_heap = h, ld_calls = []\<rparr>"

section \<open>What a require keeps\<close>

text \<open>
  A require keeps every entry that was in the cache before it: entries of modules that are
  still loading are written only by the run of their own factory.  \<open>keeps\<close> is that frame;
  \<open>others\<close> is the cache without the entry of the module that is running.
\<close>

definition others :: "nat \<Rightarrow> ('h, 'v) loader \<Rightarrow> nat \<rightharpoonup> 'v js_module" where
  "others r s = (ld_cache s)(r := None)"

definition new_calls :: "('h, 'v) loader \<Rightarrow> ('h, 'v) loader \<Rightarrow> bool" where
  "new_calls s s' \<longleftrightarrow>
     (\<exists>new. ld_calls s' = new @ ld_calls s \<and> distinct new \<and>
        set new \<subseteq> dom (ld_cache s') - dom (ld_cache s))"

definition keeps :: "('h, 'v) loader \<Rightarrow> ('h, 'v) loader \<Rightarrow> bool" where
  "keeps s s' \<longleftrightarrow> ld_cache s \<subseteq>\<^sub>m ld_cache s' \<and> new_calls s s'"

definition keeps_others :: "nat \<Rightarrow> ('h, 'v) loader \<Rightarrow> ('h, 'v) loader \<Rightarrow> bool" where
  "keeps_others r s s' \<longleftrightarrow>
     others r s \<subseteq>\<^sub>m others r s' \<and> dom (ld_cache s) \<subseteq> dom (ld_cache s') \<and> new_calls s s'"

lemma keeps_others_refl:
  "ld_cache s = ld_cache s' \<Longrightarrow> ld_calls s = ld_calls s' \<Longrightarrow> keeps_others r s s'"
  by (simp add: keeps_others_def others_def new_calls_def)

lemma map_le_dom: "m \<subseteq>\<^sub>m m' \<Longrightarrow> dom m \<subseteq> dom m'"
  by (rule map_le_implies_dom_le)

lemma new_calls_trans:
  assumes "new_calls s s'" "new_calls s' s''"
    and "dom (ld_cache s) \<subseteq> dom (ld_cache s')" "dom (ld_cache s') \<subseteq> dom (ld_cache s'')"
  shows "new_calls s s''"
proof -
  obtain a where a: "ld_calls s' = a @ ld_calls s" "distinct a"
    "set a \<subseteq> dom (ld_cache s') - dom (ld_cache s)"
    using assms(1) unfolding new_calls_def by (elim exE conjE)
  obtain b where b: "ld_calls s'' = b @ ld_calls s'" "distinct b"
    "set b \<subseteq> dom (ld_cache s'') - dom (ld_cache s')"
    using assms(2) unfolding new_calls_def by (elim exE conjE)
  have "ld_calls s'' = (b @ a) @ ld_calls s"
    using a b by simp
  moreover have "distinct (b @ a)"
    using a(2,3) b(2,3) unfolding distinct_append by blast
  moreover have "set (b @ a) \<subseteq> dom (ld_cache s'') - dom (ld_cache s)"
    using a(3) b(3) assms(3,4) unfolding set_append by blast
  ultimately show ?thesis
    unfolding new_calls_def by blast
qed

lemma keeps_imp_others: "keeps s s' \<Longrightarrow> keeps_others r s s'"
  using map_le_dom [of "ld_cache s" "ld_cache s'"]
  by (auto simp: keeps_def keeps_others_def others_def map_le_def)

lemma keeps_others_trans:
  assumes "keeps_others r s s'" "keeps_others r s' s''"
  shows "keeps_others r s s''"
proof -
  have d: "dom (ld_cache s) \<subseteq> dom (ld_cache s')" "dom (ld_cache s') \<subseteq> dom (ld_cache s'')"
    using assms by (simp_all add: keeps_others_def)
  have "new_calls s s''"
    using assms d unfolding keeps_others_def by (blast intro: new_calls_trans)
  moreover have "others r s \<subseteq>\<^sub>m others r s''"
    using assms unfolding keeps_others_def by (blast intro: map_le_trans)
  ultimately show ?thesis
    using d unfolding keeps_others_def by blast
qed

lemma run_body_keeps:
  assumes "\<And>q s oc s'. req q s = (oc, s') \<Longrightarrow> keeps s s'"
    and "run_body req r b s = (oc, s')"
  shows "keeps_others r s s'"
  using assms(2)
proof (induction b arbitrary: s)
  case Finish
  then show ?case by (auto intro: keeps_others_refl)
next
  case (Throw v)
  then show ?case by (auto intro: keeps_others_refl)
next
  case (Effect g k)
  have "keeps_others r (s\<lparr>ld_heap := g (ld_heap s)\<rparr>) s'"
    by (rule Effect.IH [OF rangeI]) (use Effect.prems in simp)
  then show ?case
    by (simp add: keeps_others_def others_def new_calls_def)
next
  case (Require q k c)
  obtain o1 s1 where q: "req q s = (o1, s1)" by (cases "req q s")
  have "keeps_others r s s1"
    by (rule keeps_imp_others) (rule assms(1) [OF q])
  moreover have "keeps_others r s1 s'"
  proof (cases o1)
    case (Returned v)
    show ?thesis
      by (rule Require.IH(1) [OF rangeI]) (use Require.prems q Returned in simp)
  next
    case (Threw v)
    show ?thesis
      by (rule Require.IH(2) [OF rangeI]) (use Require.prems q Threw in simp)
  next
    case OutOfFuel
    then show ?thesis
      using Require.prems q by (auto intro: keeps_others_refl)
  qed
  ultimately show ?case
    by (rule keeps_others_trans)
next
  case (SetExports v b)
  let ?s = "s\<lparr>ld_cache := (ld_cache s)
    (r := map_option (\<lambda>m. m\<lparr>mod_exports := v\<rparr>) (ld_cache s r))\<rparr>"
  have "keeps_others r ?s s'"
    by (rule SetExports.IH) (use SetExports.prems in simp)
  moreover have "keeps_others r s ?s"
    by (auto simp: keeps_others_def others_def new_calls_def dom_def map_option_case split: if_splits option.splits)
  ultimately show ?case
    by (rule keeps_others_trans [rotated])
qed

lemma enter_module_cache:
  "enter_module e r s = (v, s1) \<Longrightarrow>
   ld_cache s1 = (ld_cache s)(r \<mapsto> fresh_module r v) \<and> ld_calls s1 = ld_calls s"
  by (auto simp: enter_module_def Let_def split: prod.splits)

lemma leave_module_keeps:
  assumes "keeps_others r s s'" "leave_module r (oc, s') = (oc', s'')"
  shows "keeps_others r s s''"
  using assms by (auto simp: leave_module_def keeps_others_def others_def new_calls_def
      insert_absorb domI split: outcome.splits option.splits)

lemma keeps_refl: "keeps s s"
  by (simp add: keeps_def new_calls_def)

text \<open>What is left of a run from a state where \<open>r\<close> was not cached.\<close>

lemma keeps_of_others:
  assumes "ld_cache s r = None" and "keeps_others r s1 s'"
    and "ld_cache s1 = (ld_cache s)(r \<mapsto> m)" and "ld_calls s1 = pre @ ld_calls s"
    and "pre = [] \<or> pre = [r]"
  shows "keeps s s'"
proof -
  obtain new where new: "ld_calls s' = new @ ld_calls s1" "distinct new"
    "set new \<subseteq> dom (ld_cache s') - dom (ld_cache s1)"
    using assms(2) unfolding keeps_others_def new_calls_def by (elim conjE exE)
  have r: "r \<in> dom (ld_cache s')"
    using assms(2,3) unfolding keeps_others_def by auto
  have le: "ld_cache s \<subseteq>\<^sub>m ld_cache s'"
  proof (unfold map_le_def, intro ballI)
    fix k assume k: "k \<in> dom (ld_cache s)"
    then have "k \<noteq> r" using assms(1) by auto
    then have "others r s1 k = ld_cache s k" "others r s' k = ld_cache s' k"
      using assms(3) by (simp_all add: others_def)
    with k show "ld_cache s k = ld_cache s' k"
      using assms(2) unfolding keeps_others_def map_le_def by (metis domI domD)
  qed
  have "distinct (new @ pre)"
    using new(2,3) assms(3,5) by auto
  moreover have "set (new @ pre) \<subseteq> dom (ld_cache s') - dom (ld_cache s)"
    using new(3) assms(1,3,5) r by (auto simp: domIff)
  moreover have "ld_calls s' = (new @ pre) @ ld_calls s"
    using new(1) assms(4) by simp
  ultimately show ?thesis
    unfolding keeps_def new_calls_def using le by blast
qed


lemma webpack_require_cached:
  "ld_cache s r = Some m \<Longrightarrow> webpack_require f e r s = (Returned (mod_exports m), s)"
  by (cases f) auto

lemma webpack_require_keeps: "webpack_require f e r s = (oc, s') \<Longrightarrow> keeps s s'"
proof (induction f arbitrary: r s oc s')
  case 0
  then show ?case by (auto simp: keeps_refl split: option.splits)
next
  case (Suc f)
  show ?case
  proof (cases "ld_cache s r")
    case (Some m)
    then show ?thesis using Suc.prems by (auto simp: keeps_refl)
  next
    case None
    obtain v s1 where e: "enter_module e r s = (v, s1)"
      by (cases "enter_module e r s")
    note c = enter_module_cache [OF e]
    show ?thesis
    proof (cases "bd_factories e r")
      case no: None
      have "s' = s1" using Suc.prems None e no by simp
      then show ?thesis
        using keeps_of_others [of s r s1 s' _ "[]"] None c
        by (auto intro: keeps_others_refl)
    next
      case (Some factory)
      let ?s = "s1\<lparr>ld_calls := r # ld_calls s1\<rparr>"
      obtain o1 s2 where b: "run_body (webpack_require f e) r (factory v) ?s = (o1, s2)"
        by (cases "run_body (webpack_require f e) r (factory v) ?s")
      have l: "leave_module r (o1, s2) = (oc, s')"
        using Suc.prems None e Some b by simp
      have "keeps_others r ?s s2"
        by (rule run_body_keeps [OF Suc.IH b])
      then have "keeps_others r ?s s'"
        by (rule leave_module_keeps [OF _ l])
      then show ?thesis
        by (rule keeps_of_others [OF None, where pre = "[r]"]) (use c in simp_all)
    qed
  qed
qed

lemma webpack_require_frame:
  "webpack_require f e r s = (oc, s') \<Longrightarrow> ld_cache s \<subseteq>\<^sub>m ld_cache s'"
  by (drule webpack_require_keeps) (simp add: keeps_def)

lemma webpack_require_returned:
  assumes "webpack_require f e r s = (Returned v, s')"
  obtains m where "ld_cache s' r = Some m" "mod_exports m = v"
  using assms by (cases f) (auto simp: leave_module_def Let_def
      split: option.splits outcome.splits prod.splits)

lemma require_caches:
  assumes "webpack_require f e r s = (oc, s')" "oc \<noteq> OutOfFuel"
  shows "r \<in> dom (ld_cache s')"
proof (cases f)
  case 0
  with assms show ?thesis by (auto split: option.splits)
next
  case (Suc f')
  show ?thesis
  proof (cases "ld_cache s r")
    case (Some m)
    with assms Suc show ?thesis by auto
  next
    case None
    obtain v s1 where e: "enter_module e r s = (v, s1)"
      by (cases "enter_module e r s")
    note c = enter_module_cache [OF e]
    show ?thesis
    proof (cases "bd_factories e r")
      case no: None
      then show ?thesis using assms Suc None e c by auto
    next
      case (Some factory)
      let ?b = "run_body (webpack_require f' e) r (factory v) (s1\<lparr>ld_calls := r # ld_calls s1\<rparr>)"
      obtain o1 s2 where b: "?b = (o1, s2)"
        by (cases ?b)
      have "leave_module r (o1, s2) = (oc, s')"
        using assms(1) Suc None e Some b by simp
      moreover have "r \<in> dom (ld_cache s2)"
        using run_body_keeps [OF webpack_require_keeps b] c unfolding keeps_others_def by auto
      ultimately show ?thesis
        by (auto simp: leave_module_def split: outcome.splits)
    qed
  qed
qed

section \<open>Enough fuel\<close>

text \<open>The modules of the bundle that are not cached yet: each nested require takes one.\<close>

definition unloaded :: "('h, 'v) js_bundle \<Rightarrow> ('h, 'v) loader \<Rightarrow> nat set" where
  "unloaded e s = dom (bd_factories e) - dom (ld_cache s)"

lemma unloaded_mono:
  "dom (ld_cache s) \<subseteq> dom (ld_cache s') \<Longrightarrow> unloaded e s' \<subseteq> unloaded e s"
  unfolding unloaded_def by blast

lemma run_body_fuel:
  assumes "\<And>q s oc s'. D \<subseteq> dom (ld_cache s) \<Longrightarrow> req q s = (oc, s') \<Longrightarrow> oc \<noteq> OutOfFuel"
    and "\<And>q s oc s'. req q s = (oc, s') \<Longrightarrow> keeps s s'"
    and "D \<subseteq> dom (ld_cache s)" and "run_body req r b s = (oc, s')"
  shows "oc \<noteq> OutOfFuel"
  using assms(3,4)
proof (induction b arbitrary: s)
  case (Effect g k)
  show ?case
    by (rule Effect.IH [OF rangeI, where s = "s\<lparr>ld_heap := g (ld_heap s)\<rparr>"])
      (use Effect.prems in auto)
next
  case (Require q k c)
  obtain o1 s1 where q: "req q s = (o1, s1)" by (cases "req q s")
  have D: "D \<subseteq> dom (ld_cache s1)"
    using Require.prems(1) assms(2) [OF q] map_le_dom by (fastforce simp: keeps_def)
  show ?case
  proof (cases o1)
    case (Returned v)
    show ?thesis
      by (rule Require.IH(1) [OF rangeI D]) (use Require.prems q Returned in simp)
  next
    case (Threw v)
    show ?thesis
      by (rule Require.IH(2) [OF rangeI D]) (use Require.prems q Threw in simp)
  next
    case OutOfFuel
    then show ?thesis
      using assms(1) [OF Require.prems(1) q] by simp
  qed
next
  case (SetExports v b)
  show ?case
    by (rule SetExports.IH [where s = "s\<lparr>ld_cache := (ld_cache s)
          (r := map_option (\<lambda>m. m\<lparr>mod_exports := v\<rparr>) (ld_cache s r))\<rparr>"])
      (use SetExports.prems in \<open>auto split: if_splits\<close>)
qed auto

lemma webpack_require_fuel:
  assumes "finite (dom (bd_factories e))" and "card (unloaded e s) \<le> f"
    and "webpack_require (Suc f) e r s = (oc, s')"
  shows "oc \<noteq> OutOfFuel"
  using assms(2,3)
proof (induction f arbitrary: r s oc s' rule: less_induct)
  case (less f)
  show ?case
  proof (cases "ld_cache s r")
    case (Some m)
    then show ?thesis using less.prems by auto
  next
    case None
    obtain v s1 where e: "enter_module e r s = (v, s1)"
      by (cases "enter_module e r s")
    note c = enter_module_cache [OF e]
    show ?thesis
    proof (cases "bd_factories e r")
      case no: None
      then show ?thesis using less.prems None e by auto
    next
      case (Some factory)
      let ?s = "s1\<lparr>ld_calls := r # ld_calls s1\<rparr>"
      obtain o1 s2 where b: "run_body (webpack_require f e) r (factory v) ?s = (o1, s2)"
        by (cases "run_body (webpack_require f e) r (factory v) ?s")
      have l: "leave_module r (o1, s2) = (oc, s')"
        using less.prems None e Some b by simp
      have r: "r \<in> unloaded e s"
        using None Some by (auto simp: unloaded_def)
      have fin: "finite (unloaded e s)"
        using assms(1) by (simp add: unloaded_def)
      have pos: "0 < f"
        using less.prems(1) r fin card_gt_0_iff [of "unloaded e s"] by (metis empty_iff le_zero_eq neq0_conv)
      have dec: "card (unloaded e t) \<le> f - 1" if "dom (ld_cache ?s) \<subseteq> dom (ld_cache t)" for t
      proof -
        have "unloaded e t \<subseteq> unloaded e s - {r}"
          using that c unfolding unloaded_def by auto
        then have "card (unloaded e t) \<le> card (unloaded e s - {r})"
          using fin by (intro card_mono) auto
        then show ?thesis
          using r fin less.prems(1) by simp
      qed
      have "o1 \<noteq> OutOfFuel"
      proof (rule run_body_fuel [OF _ webpack_require_keeps subset_refl b])
        fix q t oc' t'
        assume t: "dom (ld_cache ?s) \<subseteq> dom (ld_cache t)"
          and q: "webpack_require f e q t = (oc', t')"
        show "oc' \<noteq> OutOfFuel"
          by (rule less.IH [of "f - 1", OF _ dec [OF t]]) (use pos q in simp_all)
      qed
      moreover have "r \<in> dom (ld_cache s2)"
        using run_body_keeps [OF webpack_require_keeps b] c
        unfolding keeps_others_def by auto
      ultimately show ?thesis
        using l by (auto simp: leave_module_def split: outcome.splits)
    qed
  qed
qed


section \<open>Properties\<close>

text \<open>One require after another, whatever their outcome.\<close>

inductive loads :: "('h, 'v) js_bundle \<Rightarrow> ('h, 'v) loader \<Rightarrow> ('h, 'v) loader \<Rightarrow> bool" for e where
  loads_refl: "loads e s s"
| loads_step: "loads e s s' \<Longrightarrow> webpack_require f e r s' = (oc, s'') \<Longrightarrow> loads e s s''"

lemma loads_frame: "loads e s s' \<Longrightarrow> ld_cache s \<subseteq>\<^sub>m ld_cache s'"
  by (induction rule: loads.induct) (auto intro: map_le_trans dest: webpack_require_frame)

lemma loads_frameD: "loads e s s' \<Longrightarrow> ld_cache s r = Some m \<Longrightarrow> ld_cache s' r = Some m"
  using loads_frame by (fastforce simp: map_le_def dom_def)

text \<open>A bundle of two modules that require each other; the entry module sets its exports
  to what it got from module 7, module 7 stores the half-loaded exports of the entry.\<close>

definition cyclic_bundle :: "(nat, nat) js_bundle" where
  "cyclic_bundle =
     \<lparr>bd_factories = [479 \<mapsto> (\<lambda>x. Require 7 (\<lambda>v. SetExports (v + 100) Finish) Throw),
                      7 \<mapsto> (\<lambda>x. Require 479 (\<lambda>v. SetExports (v + 10) Finish) Throw)],
      bd_new_object = (\<lambda>h. (h, Suc h)), bd_type_error = 999\<rparr>"

lemmas loader_eval = bundle_boot_def cyclic_bundle_def enter_module_def leave_module_def
  fresh_module_def numeral_eq_Suc

text \<open>C31: Loading a bundle ends and evaluates each module at most once: with one unit of fuel
  more than the bundle has modules the entry require returns or throws (never runs out of
  fuel), every factory was called at most once, and every module it was called for is in the
  cache.\<close>

theorem bundle_boot_terminates:
  assumes "finite (dom (bd_factories e))" and "card (dom (bd_factories e)) < f"
    and "bundle_boot f e h = (oc, s)"
  shows "oc \<noteq> OutOfFuel \<and> distinct (ld_calls s) \<and> set (ld_calls s) \<subseteq> dom (ld_cache s)"
proof -
  let ?s0 = "\<lparr>ld_cache = Map.empty, ld_heap = h, ld_calls = []\<rparr>"
  obtain f' where f: "f = Suc f'" "card (unloaded e ?s0) \<le> f'"
    using assms(2) by (cases f) (auto simp: unloaded_def)
  have run: "webpack_require (Suc f') e 479 ?s0 = (oc, s)"
    using assms(3) f(1) unfolding bundle_boot_def by simp
  have "oc \<noteq> OutOfFuel"
    by (rule webpack_require_fuel [OF assms(1) f(2) run])
  moreover have "distinct (ld_calls s) \<and> set (ld_calls s) \<subseteq> dom (ld_cache s)"
    using webpack_require_keeps [OF run] by (auto simp: keeps_def new_calls_def)
  ultimately show ?thesis by blast
qed

theorem bundle_boot_terminates_witness:
  "\<exists>s. bundle_boot 3 cyclic_bundle 5 = (Returned 115, s) \<and> ld_calls s = [7, 479] \<and>
     distinct (ld_calls s) \<and> set (ld_calls s) \<subseteq> dom (ld_cache s)"
proof -
  have fin: "finite (dom (bd_factories cyclic_bundle))" "card (dom (bd_factories cyclic_bundle)) < 3"
    by (simp_all add: cyclic_bundle_def)
  obtain s where s: "bundle_boot 3 cyclic_bundle 5 = (Returned 115, s)" "ld_calls s = [7, 479]"
    by (simp add: loader_eval)
  show ?thesis
    using bundle_boot_terminates [OF fin s(1)] s by blast
qed

text \<open>A require is stable: what it returned is returned again, at once and without running
  anything, after any further requires of any modules; and a module whose factory threw stays
  in the cache half-initialised, so requiring it again does not run the factory again but
  returns the exports it had reached.\<close>

lemma require_stable:
  assumes "webpack_require f e r s = (oc, s1)" and "oc \<noteq> OutOfFuel" and "loads e s1 s2"
  shows "\<exists>m. ld_cache s1 r = Some m \<and> (\<forall>v. oc = Returned v \<longrightarrow> mod_exports m = v) \<and>
           (\<forall>f'. webpack_require f' e r s2 = (Returned (mod_exports m), s2))"
proof -
  obtain m where m: "ld_cache s1 r = Some m" "\<And>v. oc = Returned v \<Longrightarrow> mod_exports m = v"
  proof (cases oc)
    case (Returned v)
    with assms(1) show ?thesis
      by (auto elim: webpack_require_returned intro: that)
  next
    case (Threw x)
    have "r \<in> dom (ld_cache s1)"
      using require_caches [OF assms(1)] Threw by simp
    with Threw show ?thesis
      by (auto intro: that)
  next
    case OutOfFuel
    with assms(2) show ?thesis by simp
  qed
  have "ld_cache s2 r = Some m"
    by (rule loads_frameD [OF assms(3) m(1)])
  then show ?thesis
    using m webpack_require_cached by blast
qed

text \<open>Module 3 sets its exports and then throws.\<close>

definition throwing_bundle :: "(nat, nat) js_bundle" where
  "throwing_bundle =
     \<lparr>bd_factories = [3 \<mapsto> (\<lambda>x. SetExports 41 (Throw 8)), 4 \<mapsto> (\<lambda>x. Finish)],
      bd_new_object = (\<lambda>h. (h, Suc h)), bd_type_error = 999\<rparr>"

lemma require_stable_witness:
  "\<exists>s1 s2. webpack_require 2 throwing_bundle 3 \<lparr>ld_cache = Map.empty, ld_heap = 5, ld_calls = []\<rparr>
              = (Threw 8, s1) \<and>
     webpack_require 2 throwing_bundle 4 s1 = (Returned 6, s2) \<and>
     (\<forall>f'. webpack_require f' throwing_bundle 3 s2 = (Returned 41, s2))"
proof -
  note ev = throwing_bundle_def enter_module_def leave_module_def fresh_module_def numeral_eq_Suc
  obtain s1 where s1: "webpack_require 2 throwing_bundle 3
      \<lparr>ld_cache = Map.empty, ld_heap = 5, ld_calls = []\<rparr> = (Threw 8, s1)"
    and m1: "ld_cache s1 = [3 \<mapsto> \<lparr>mod_i = 3, mod_l = False, mod_exports = 41\<rparr>]" "ld_heap s1 = 6"
    by (simp add: ev)
  obtain s2 where s2: "webpack_require 2 throwing_bundle 4 s1 = (Returned 6, s2)"
    using m1 by (simp add: ev)
  have ld: "loads throwing_bundle s1 s2"
    by (rule loads_step [OF loads_refl s2])
  have "\<forall>f'. webpack_require f' throwing_bundle 3 s2 = (Returned 41, s2)"
    using require_stable [OF s1 _ ld] m1(1) by auto
  with s1 s2 show ?thesis by blast
qed

end
