(* ===== verification/JsStrings.thy ===== *)
theory JsStrings
  imports Prelude GoStrings
begin

text \<open>
  The part of the JavaScript standard library the swagger-ui functions use: strings as lists
  of 16-bit code units, \<open>encodeURIComponent\<close> and \<open>decodeURIComponent\<close> (a URIError is \<open>None\<close>),
  and plain objects as property lists in the order \<open>Object.keys\<close> returns.
\<close>

section \<open>Strings\<close>

type_synonym js_string = "nat list"

definition js :: "string \<Rightarrow> js_string" where
  "js s = map of_char s"

definition js_ok :: "js_string \<Rightarrow> bool" where
  "js_ok s = (\<forall>c \<in> set s. c < 65536)"

lemma js_ok_simps [simp]:
  "js_ok []" "js_ok (c # s) \<longleftrightarrow> c < 65536 \<and> js_ok s" "js_ok (s @ t) \<longleftrightarrow> js_ok s \<and> js_ok t"
  by (auto simp: js_ok_def)

definition high_surrogate :: "nat \<Rightarrow> bool" where
  "high_surrogate c \<longleftrightarrow> 55296 \<le> c \<and> c < 56320"

definition low_surrogate :: "nat \<Rightarrow> bool" where
  "low_surrogate c \<longleftrightarrow> 56320 \<le> c \<and> c < 57344"

definition surrogate_pair :: "nat \<Rightarrow> nat \<Rightarrow> nat" where
  "surrogate_pair c d = (c - 55296) * 1024 + (d - 56320) + 65536"

definition utf16 :: "nat \<Rightarrow> js_string" where
  "utf16 cp =
     (if cp < 65536 then [cp]
      else [55296 + (cp - 65536) div 1024, 56320 + (cp - 65536) mod 1024])"

section \<open>UTF-8 and percent encoding\<close>

definition scalar :: "nat \<Rightarrow> bool" where
  "scalar cp \<longleftrightarrow> cp < 1114112 \<and> \<not> (55296 \<le> cp \<and> cp < 57344)"

definition utf8 :: "nat \<Rightarrow> nat list" where
  "utf8 cp =
     (if cp < 128 then [cp]
      else if cp < 2048 then [192 + cp div 64, 128 + cp mod 64]
      else if cp < 65536
        then [224 + cp div 4096, 128 + cp div 64 mod 64, 128 + cp mod 64]
      else [240 + cp div 262144, 128 + cp div 4096 mod 64, 128 + cp div 64 mod 64,
            128 + cp mod 64])"

definition hex_digit :: "nat \<Rightarrow> nat" where
  "hex_digit n = (if n < 10 then 48 + n else 55 + n)"

definition hex_value :: "nat \<Rightarrow> nat option" where
  "hex_value c =
     (if 48 \<le> c \<and> c \<le> 57 then Some (c - 48)
      else if 65 \<le> c \<and> c \<le> 70 then Some (c - 55)
      else if 97 \<le> c \<and> c \<le> 102 then Some (c - 87)
      else None)"

definition pct :: "nat \<Rightarrow> js_string" where
  "pct b = [37, hex_digit (b div 16), hex_digit (b mod 16)]"

definition pct_bytes :: "nat list \<Rightarrow> js_string" where
  "pct_bytes bs = concat (map pct bs)"

definition unreserved :: "nat \<Rightarrow> bool" where
  "unreserved c \<longleftrightarrow>
     (48 \<le> c \<and> c \<le> 57) \<or> (65 \<le> c \<and> c \<le> 90) \<or> (97 \<le> c \<and> c \<le> 122) \<or>
     List.member [45, 95, 46, 33, 126, 42, 39, 40, 41] c"

fun encodeURIComponent :: "js_string \<Rightarrow> js_string option" where
  "encodeURIComponent [] = Some []"
| "encodeURIComponent (c # s) =
     (if unreserved c then map_option (Cons c) (encodeURIComponent s)
      else if low_surrogate c then None
      else if high_surrogate c
        then (case s of
                [] \<Rightarrow> None
              | d # s' \<Rightarrow>
                  if low_surrogate d
                  then map_option (append (pct_bytes (utf8 (surrogate_pair c d)))) (encodeURIComponent s')
                  else None)
      else map_option (append (pct_bytes (utf8 c))) (encodeURIComponent s))"

fun pct_byte :: "js_string \<Rightarrow> (nat \<times> js_string) option" where
  "pct_byte (p # a # b # s) =
     (if p = 37
      then (case (hex_value a, hex_value b) of
              (Some x, Some y) \<Rightarrow> Some (16 * x + y, s)
            | _ \<Rightarrow> None)
      else None)"
| "pct_byte _ = None"

primrec take_pct :: "nat \<Rightarrow> js_string \<Rightarrow> (nat list \<times> js_string) option" where
  "take_pct 0 s = Some ([], s)"
| "take_pct (Suc n) s =
     (case pct_byte s of
        None \<Rightarrow> None
      | Some (b, t) \<Rightarrow> map_option (\<lambda>(bs, u). (b # bs, u)) (take_pct n t))"

text \<open>The number of octets announced by the first one; 0 when it cannot start a sequence.\<close>

definition octets :: "nat \<Rightarrow> nat" where
  "octets b = (if b < 128 then 1 else if b < 192 then 0 else if b < 224 then 2
     else if b < 240 then 3 else if b < 248 then 4 else 0)"

definition cont :: "nat \<Rightarrow> bool" where
  "cont b \<longleftrightarrow> 128 \<le> b \<and> b < 192"

fun utf8_decode :: "nat list \<Rightarrow> nat option" where
  "utf8_decode [a] = (if a < 128 then Some a else None)"
| "utf8_decode [a, b] =
     (let cp = (a - 192) * 64 + (b - 128)
      in if cont b \<and> 128 \<le> cp then Some cp else None)"
| "utf8_decode [a, b, c] =
     (let cp = (a - 224) * 4096 + (b - 128) * 64 + (c - 128)
      in if cont b \<and> cont c \<and> 2048 \<le> cp \<and> scalar cp then Some cp else None)"
| "utf8_decode [a, b, c, d] =
     (let cp = (a - 240) * 262144 + (b - 128) * 4096 + (c - 128) * 64 + (d - 128)
      in if cont b \<and> cont c \<and> cont d \<and> 65536 \<le> cp \<and> scalar cp then Some cp else None)"
| "utf8_decode _ = None"

text \<open>One character of the input: a literal one, or an escape sequence.\<close>

definition decode_char :: "js_string \<Rightarrow> (js_string \<times> js_string) option" where
  "decode_char s =
     (case s of
        [] \<Rightarrow> None
      | c # t \<Rightarrow>
          if c \<noteq> 37 then Some ([c], t)
          else (case pct_byte s of
                  None \<Rightarrow> None
                | Some (b, _) \<Rightarrow>
                    if octets b = 0 then None
                    else (case take_pct (octets b) s of
                            None \<Rightarrow> None
                          | Some (bs, u) \<Rightarrow>
                              map_option (\<lambda>cp. (utf16 cp, u)) (utf8_decode bs))))"

lemma pct_byte_shorter: "pct_byte s = Some (b, t) \<Longrightarrow> length t < length s"
  by (cases s rule: pct_byte.cases) (auto split: if_splits option.splits)

lemma take_pct_shorter: "take_pct n s = Some (bs, t) \<Longrightarrow> length t \<le> length s"
  by (induction n arbitrary: s bs)
    (force split: option.splits dest: pct_byte_shorter)+

lemma take_pct_strict:
  assumes "take_pct n s = Some (bs, t)" "0 < n"
  shows "length t < length s"
proof -
  obtain m where n: "n = Suc m"
    using assms(2) by (cases n) auto
  obtain b u bs' where "pct_byte s = Some (b, u)" "take_pct m u = Some (bs', t)"
    using assms(1) by (auto simp: n split: option.splits)
  then show ?thesis
    using pct_byte_shorter take_pct_shorter by (metis le_less_trans)
qed

lemma decode_char_shorter: "decode_char s = Some (x, t) \<Longrightarrow> length t < length s"
  by (auto simp: decode_char_def split: list.splits if_splits option.splits
      dest!: take_pct_strict)

function decodeURIComponent :: "js_string \<Rightarrow> js_string option" where
  "decodeURIComponent s =
     (if s = [] then Some []
      else case decode_char s of
             None \<Rightarrow> None
           | Some (x, t) \<Rightarrow> map_option (append x) (decodeURIComponent t))"
  by pat_completeness auto
termination
  by (relation "measure length") (auto simp: decode_char_shorter)

declare decodeURIComponent.simps [simp del]

lemma decode_Nil [simp]: "decodeURIComponent [] = Some []"
  by (simp add: decodeURIComponent.simps)

lemma decode_step:
  "decode_char (c # s) = Some (x, t) \<Longrightarrow>
   decodeURIComponent (c # s) = map_option (append x) (decodeURIComponent t)"
  by (simp add: decodeURIComponent.simps [of "c # s"])

lemma decode_plain: "c \<noteq> 37 \<Longrightarrow> decodeURIComponent (c # s) = map_option (Cons c) (decodeURIComponent s)"
  using decode_step [of c s "[c]" s]
  by (cases "decodeURIComponent s") (auto simp: decode_char_def)

section \<open>The round trip\<close>

lemma hex_value_digit [simp]: "n < 16 \<Longrightarrow> hex_value (hex_digit n) = Some n"
  by (auto simp: hex_value_def hex_digit_def)

lemma pct_byte_pct [simp]: "b < 256 \<Longrightarrow> pct_byte (pct b @ s) = Some (b, s)"
  by (simp add: pct_def)

lemma take_pct_bytes:
  "\<forall>b \<in> set bs. b < 256 \<Longrightarrow> take_pct (length bs) (pct_bytes bs @ s) = Some (bs, s)"
  by (induction bs) (auto simp: pct_bytes_def)

lemma utf8_bytes: "scalar cp \<Longrightarrow> b \<in> set (utf8 cp) \<Longrightarrow> b < 256"
  by (auto simp: utf8_def scalar_def split: if_splits)

lemma utf8_octets: "scalar cp \<Longrightarrow> octets (hd (utf8 cp)) = length (utf8 cp)"
  by (auto simp: utf8_def scalar_def octets_def)

lemma three_digits: "(n::nat) = n div 4096 * 4096 + n div 64 mod 64 * 64 + n mod 64"
proof -
  have "n div 64 = n div 64 div 64 * 64 + n div 64 mod 64"
    by simp
  then have "n div 64 = n div 4096 * 64 + n div 64 mod 64"
    by (simp add: div_mult2_eq [symmetric])
  moreover have "n = n div 64 * 64 + n mod 64"
    by simp
  ultimately show ?thesis by linarith
qed

lemma four_digits:
  "(n::nat) = n div 262144 * 262144 + n div 4096 mod 64 * 4096 + n div 64 mod 64 * 64 + n mod 64"
proof -
  have "n div 4096 = n div 4096 div 64 * 64 + n div 4096 mod 64"
    by simp
  then have "n div 4096 = n div 262144 * 64 + n div 4096 mod 64"
    by (simp add: div_mult2_eq [symmetric])
  with three_digits [of n] show ?thesis by linarith
qed

lemma utf8_roundtrip: "scalar cp \<Longrightarrow> utf8_decode (utf8 cp) = Some cp"
  using three_digits [of cp] four_digits [of cp] div_mult_mod_eq [of cp 64]
  by (auto simp: utf8_def cont_def scalar_def Let_def)

lemma utf8_nonempty [simp]: "utf8 cp \<noteq> []"
  by (simp add: utf8_def)

lemma decode_utf8:
  assumes "scalar cp"
  shows "decodeURIComponent (pct_bytes (utf8 cp) @ t) = map_option (append (utf16 cp)) (decodeURIComponent t)"
proof -
  obtain b bs where bs: "utf8 cp = b # bs" by (cases "utf8 cp") auto
  have b: "\<forall>b \<in> set (b # bs). b < 256"
    using utf8_bytes [OF assms] bs by simp
  obtain u where u: "pct_bytes (b # bs) @ t = 37 # u"
    by (simp add: pct_bytes_def pct_def)
  have "pct_byte (pct_bytes (b # bs) @ t) = Some (b, pct_bytes bs @ t)"
    using b by (simp add: pct_bytes_def)
  then have hd: "pct_byte (37 # u) = Some (b, pct_bytes bs @ t)"
    by (simp only: u)
  have oc: "octets b = length (b # bs)"
    using utf8_octets [OF assms] bs by simp
  have "take_pct (length (b # bs)) (37 # u) = Some (b # bs, t)"
    using take_pct_bytes [OF b, of t] by (simp only: u)
  then have "decode_char (37 # u) = Some (utf16 cp, t)"
    using utf8_roundtrip [OF assms]
    by (simp only: decode_char_def list.case hd option.case prod.case oc bs) simp
  then show ?thesis
    unfolding bs u by (rule decode_step)
qed

lemma utf16_pair:
  assumes "high_surrogate c" "low_surrogate d"
  shows "scalar (surrogate_pair c d) \<and> utf16 (surrogate_pair c d) = [c, d]"
proof -
  obtain i where i: "c = 55296 + i" "i < 1024"
    using assms(1) by (auto simp: high_surrogate_def nat_le_iff_add)
  obtain k where k: "d = 56320 + k" "k < 1024"
    using assms(2) by (auto simp: low_surrogate_def nat_le_iff_add)
  have "(i * 1024 + k) div 1024 = i" "(i * 1024 + k) mod 1024 = k"
    using k by simp_all
  then show ?thesis
    using i k by (simp add: surrogate_pair_def utf16_def scalar_def)
qed

text \<open>What one step of the encoder does: a literal unit, or the escapes of a code point.\<close>

lemma encode_ConsE:
  assumes "encodeURIComponent (c # s) = Some t" "js_ok (c # s)"
  obtains (plain) u where "unreserved c" "encodeURIComponent s = Some u" "t = c # u"
  | (escape) cp s' u where "c # s = utf16 cp @ s'" "scalar cp" "encodeURIComponent s' = Some u"
      "t = pct_bytes (utf8 cp) @ u"
proof -
  consider (a) "unreserved c" | (b) "\<not> unreserved c" "high_surrogate c"
    | (c) "\<not> unreserved c" "\<not> high_surrogate c" "\<not> low_surrogate c"
    using assms(1) by (auto split: if_splits)
  then show ?thesis
  proof cases
    case a
    with assms(1) show ?thesis by (auto intro: plain)
  next
    case b
    have "\<not> low_surrogate c"
      using b by (auto simp: high_surrogate_def low_surrogate_def)
    with assms(1) b obtain d s' u where d: "s = d # s'" "low_surrogate d"
        "encodeURIComponent s' = Some u" "t = pct_bytes (utf8 (surrogate_pair c d)) @ u"
      by (auto split: list.splits if_splits)
    show ?thesis
      by (rule escape [of "surrogate_pair c d" s' u]) (use utf16_pair [OF b(2) d(2)] d in simp_all)
  next
    case c
    with assms(1) obtain u where u: "encodeURIComponent s = Some u" "t = pct_bytes (utf8 c) @ u"
      by auto
    show ?thesis
      by (rule escape [of c s u])
        (use c u assms(2) in \<open>auto simp: scalar_def utf16_def high_surrogate_def low_surrogate_def\<close>)
  qed
qed

lemma utf16_nonempty [simp]: "utf16 cp \<noteq> []"
  by (simp add: utf16_def)

lemma encode_induct [consumes 2, case_names Nil plain escape]:
  assumes "encodeURIComponent s = Some t" "js_ok s"
    and "P [] []"
    and "\<And>c s u. unreserved c \<Longrightarrow> P s u \<Longrightarrow> P (c # s) (c # u)"
    and "\<And>cp s u. scalar cp \<Longrightarrow> P s u \<Longrightarrow> P (utf16 cp @ s) (pct_bytes (utf8 cp) @ u)"
  shows "P s t"
  using assms(1,2)
proof (induction s arbitrary: t rule: length_induct)
  case (1 s)
  show ?case
  proof (cases s)
    case Nil
    with 1 assms(3) show ?thesis by simp
  next
    case (Cons c s')
    from 1(2,3) [unfolded Cons] show ?thesis
    proof (cases rule: encode_ConsE)
      case (plain u)
      with 1 Cons assms(4) show ?thesis by simp
    next
      case (escape cp s'' u)
      have "length s'' < length s"
        using escape(1) Cons by (metis utf16_nonempty length_append length_greater_0_conv less_add_same_cancel2)
      moreover have "js_ok s''"
        using escape(1) 1(3) Cons by (metis js_ok_simps(3))
      ultimately have "P s'' u"
        using 1(1) escape(3) by blast
      then show ?thesis
        using assms(5) [OF escape(2)] escape(1,4) Cons by simp
    qed
  qed
qed

lemma encode_decode:
  "encodeURIComponent s = Some t \<Longrightarrow> js_ok s \<Longrightarrow> decodeURIComponent t = Some s"
proof (induction rule: encode_induct)
  case (plain c s u)
  then have "c \<noteq> 37" by (auto simp: unreserved_def)
  then show ?case
    using plain by (simp add: decode_plain)
next
  case (escape cp s u)
  then show ?case by (simp add: decode_utf8)
qed simp

text \<open>An encoded component holds only unreserved characters and escapes.\<close>

lemma hex_digit_unreserved: "n < 16 \<Longrightarrow> unreserved (hex_digit n)"
  unfolding unreserved_def hex_digit_def by (cases "n < 10") simp_all

lemma pct_chars: "b < 256 \<Longrightarrow> c \<in> set (pct b) \<Longrightarrow> c = 37 \<or> unreserved c"
  unfolding pct_def using hex_digit_unreserved [of "b div 16"] hex_digit_unreserved [of "b mod 16"]
  by (simp add: div_less_iff_less_mult) blast

lemma pct_bytes_chars: "scalar cp \<Longrightarrow> c \<in> set (pct_bytes (utf8 cp)) \<Longrightarrow> c = 37 \<or> unreserved c"
  unfolding pct_bytes_def using utf8_bytes pct_chars by auto

lemma encode_chars:
  "encodeURIComponent s = Some t \<Longrightarrow> js_ok s \<Longrightarrow> \<forall>c \<in> set t. c = 37 \<or> unreserved c"
  by (induction rule: encode_induct) (auto dest: pct_bytes_chars)

lemma encode_no_separator:
  assumes "encodeURIComponent s = Some t" "js_ok s"
  shows "38 \<notin> set t" "61 \<notin> set t"
  using encode_chars [OF assms] by (auto simp: unreserved_def)

lemma utf16_ok: "scalar cp \<Longrightarrow> js_ok (utf16 cp)"
  by (auto simp: utf16_def scalar_def)

lemma cont_bound: "cont b \<Longrightarrow> b - 128 < 64"
  by (auto simp: cont_def)

lemma utf8_decode_scalar:
  assumes "utf8_decode bs = Some cp" "length bs = octets (hd bs)"
  shows "scalar cp"
proof (cases bs rule: utf8_decode.cases)
  case (2 a b)
  then have "a < 224" using assms(2) by (auto simp: octets_def split: if_splits)
  then have "(a - 192) * 64 < 2048" by simp
  moreover have "cp = (a - 192) * 64 + (b - 128)" "cont b"
    using assms(1) 2 by (auto simp: Let_def split: if_splits)
  ultimately show ?thesis
    using cont_bound [of b] by (simp add: scalar_def)
qed (use assms(1) in \<open>auto simp: Let_def scalar_def split: if_splits\<close>)

lemma take_pct_length: "take_pct n s = Some (bs, t) \<Longrightarrow> length bs = n"
  by (induction n arbitrary: s bs) (auto split: option.splits)

lemma take_pct_hd:
  "take_pct n s = Some (bs, t) \<Longrightarrow> 0 < n \<Longrightarrow> pct_byte s = Some (b, u) \<Longrightarrow> hd bs = b"
  by (cases n) (auto split: option.splits)

lemma pct_byte_suffix: "pct_byte s = Some (b, t) \<Longrightarrow> js_ok s \<Longrightarrow> js_ok t"
  by (cases s rule: pct_byte.cases) (auto split: if_splits option.splits)

lemma take_pct_ok: "take_pct n s = Some (bs, t) \<Longrightarrow> js_ok s \<Longrightarrow> js_ok t"
  by (induction n arbitrary: s bs) (auto split: option.splits dest: pct_byte_suffix)

lemma decode_char_ok:
  assumes "decode_char s = Some (x, t)" "js_ok s"
  shows "js_ok x \<and> js_ok t"
proof (cases s)
  case (Cons c u)
  show ?thesis
  proof (cases "c = 37")
    case False
    then show ?thesis using assms Cons by (auto simp: decode_char_def)
  next
    case True
    then obtain b v bs cp where b: "pct_byte s = Some (b, v)" "octets b \<noteq> 0"
        "take_pct (octets b) s = Some (bs, t)" "utf8_decode bs = Some cp" "x = utf16 cp"
      using assms(1) Cons by (auto simp: decode_char_def split: option.splits if_splits)
    have "hd bs = b"
      by (rule take_pct_hd [OF b(3) _ b(1)]) (use b(2) in simp)
    then have "scalar cp"
      using utf8_decode_scalar [OF b(4)] take_pct_length [OF b(3)] by simp
    then show ?thesis
      using b(5) take_pct_ok [OF b(3) assms(2)] by (simp add: utf16_ok)
  qed
qed (use assms in \<open>simp add: decode_char_def\<close>)

lemma decode_ok: "decodeURIComponent s = Some t \<Longrightarrow> js_ok s \<Longrightarrow> js_ok t"
proof (induction s arbitrary: t rule: decodeURIComponent.induct)
  case (1 s)
  show ?case
  proof (cases "s = []")
    case True
    then show ?thesis using 1 by simp
  next
    case False
    then obtain x u v where x: "decode_char s = Some (x, u)" "decodeURIComponent u = Some v" "t = x @ v"
      using 1 by (auto simp: decodeURIComponent.simps [of s] split: option.splits)
    show ?thesis
      using decode_char_ok [OF x(1) "1.prems"(2)] "1.IH" [OF False x(1) refl x(2)] x(3) by simp
  qed
qed

section \<open>Plain objects\<close>

text \<open>
  The own properties of an object in the order of \<open>Object.keys\<close>: array indices in ascending
  order, then the other keys in the order of their creation.  Assigning a string to the key
  \<open>__proto__\<close> of an object literal calls the inherited setter, which ignores it.
\<close>

type_synonym 'v js_object = "(js_string \<times> 'v) list"

fun decimal :: "nat \<Rightarrow> js_string" where
  "decimal n = (if n < 10 then [48 + n] else decimal (n div 10) @ [48 + n mod 10])"

declare decimal.simps [simp del]

text \<open>A key is an array index when it is the decimal form of a number below 2^32 - 1.\<close>

definition array_index :: "js_string \<Rightarrow> nat option" where
  "array_index k =
     (let n = foldl (\<lambda>a c. 10 * a + (c - 48)) 0 k
      in if k = decimal n \<and> n < 4294967295 then Some n else None)"

lemma decimal_digits: "c \<in> set (decimal n) \<Longrightarrow> 48 \<le> c \<and> c \<le> 57"
proof (induction n rule: decimal.induct)
  case (1 n)
  then show ?case
    by (cases "n < 10") (auto simp: decimal.simps [of n])
qed

lemma array_index_nondigit:
  assumes "\<not> (48 \<le> c \<and> c \<le> 57)"
  shows "array_index (c # s) = None"
proof -
  have "c # s \<noteq> decimal n" for n
    using decimal_digits [of c n] assms by (metis list.set_intros(1))
  then show ?thesis by (simp add: array_index_def Let_def)
qed

lemma decimal_1: "decimal (Suc 0) = [49]" and decimal_2: "decimal (Suc (Suc 0)) = [50]"
  by (simp_all add: decimal.simps)

lemma array_index_inj: "array_index k = Some n \<Longrightarrow> array_index k' = Some n \<Longrightarrow> k = k'"
  by (auto simp: array_index_def Let_def split: if_splits)

definition key_before :: "js_string \<Rightarrow> js_string \<Rightarrow> bool" where
  "key_before k k' =
     (case (array_index k, array_index k') of
        (Some i, Some j) \<Rightarrow> i < j
      | (Some i, None) \<Rightarrow> True
      | (None, Some j) \<Rightarrow> False
      | (None, None) \<Rightarrow> k \<noteq> k')"

fun js_insert :: "js_string \<Rightarrow> 'v \<Rightarrow> 'v js_object \<Rightarrow> 'v js_object" where
  "js_insert k v [] = [(k, v)]"
| "js_insert k v (p # m) =
     (if array_index k \<noteq> None \<and> key_before k (fst p) then (k, v) # p # m
      else p # js_insert k v m)"

definition proto_key :: js_string where
  "proto_key = js ''__proto__''"

definition js_set :: "js_string \<Rightarrow> 'v \<Rightarrow> 'v js_object \<Rightarrow> 'v js_object" where
  "js_set k v m =
     (if k = proto_key then m
      else if List.member (map fst m) k
        then map (\<lambda>p. if fst p = k then (k, v) else p) m
      else js_insert k v m)"

definition js_delete :: "js_string \<Rightarrow> 'v js_object \<Rightarrow> 'v js_object" where
  "js_delete k m = filter (\<lambda>p. fst p \<noteq> k) m"

definition obj_ok :: "'v js_object \<Rightarrow> bool" where
  "obj_ok m \<longleftrightarrow> sorted_wrt key_before (map fst m) \<and> proto_key \<notin> fst ` set m"

lemma key_before_irrefl: "\<not> key_before k k"
  by (auto simp: key_before_def split: option.splits)

lemma obj_ok_distinct: "obj_ok m \<Longrightarrow> distinct (map fst m)"
proof -
  have "sorted_wrt key_before ks \<Longrightarrow> distinct ks" for ks
    by (induction ks) (auto dest: key_before_irrefl [THEN notE, rotated])
  then show "obj_ok m \<Longrightarrow> distinct (map fst m)"
    by (simp add: obj_ok_def)
qed

lemma js_insert_append:
  "\<forall>p \<in> set m. key_before (fst p) k \<Longrightarrow> js_insert k v m = m @ [(k, v)]"
  by (induction m) (auto simp: key_before_def split: option.splits)

lemma js_set_append: "obj_ok (m @ [(k, v)]) \<Longrightarrow> js_set k v m = m @ [(k, v)]"
  using obj_ok_distinct [of "m @ [(k, v)]"]
  by (auto simp: js_set_def obj_ok_def sorted_wrt_append js_insert_append)

text \<open>An object is what its properties, set one after another, build.\<close>

lemma js_set_rebuild: "obj_ok (m @ n) \<Longrightarrow> fold (\<lambda>(k, v). js_set k v) n m = m @ n"
proof (induction n arbitrary: m)
  case (Cons p n)
  have "obj_ok (m @ [p])"
    using Cons.prems by (auto simp: obj_ok_def sorted_wrt_append)
  then have "js_set (fst p) (snd p) m = m @ [p]"
    using js_set_append [of m "fst p" "snd p"] by simp
  with Cons.IH [of "m @ [p]"] Cons.prems show ?case
    by (simp add: case_prod_beta)
qed simp

lemma js_insert_keys: "fst ` set (js_insert k v m) = insert k (fst ` set m)"
  by (induction m) auto

lemma key_before_total: "k \<noteq> k' \<Longrightarrow> \<not> key_before k k' \<Longrightarrow> key_before k' k"
  using array_index_inj [of k _ k']
  by (auto simp: key_before_def split: option.splits) (metis linorder_neqE_nat)

lemma key_before_trans:
  "array_index k \<noteq> None \<Longrightarrow> key_before k p \<Longrightarrow> key_before p q \<Longrightarrow> key_before k q"
  by (auto simp: key_before_def split: option.splits)

lemma key_before_new: "array_index k = None \<Longrightarrow> k \<noteq> p \<Longrightarrow> key_before p k"
  by (auto simp: key_before_def split: option.splits)

lemma js_insert_sorted:
  "sorted_wrt key_before (map fst m) \<Longrightarrow> k \<notin> fst ` set m \<Longrightarrow>
   sorted_wrt key_before (map fst (js_insert k v m))"
proof (induction m)
  case (Cons p m)
  show ?case
  proof (cases "array_index k \<noteq> None \<and> key_before k (fst p)")
    case True
    then show ?thesis
      using Cons.prems key_before_trans by fastforce
  next
    case False
    moreover have "k \<noteq> fst p"
      using Cons.prems(2) by auto
    ultimately have "key_before (fst p) k"
      using key_before_new [of k "fst p"] key_before_total [of k "fst p"] by blast
    moreover have "\<forall>x \<in> fst ` set m. key_before (fst p) x"
      using Cons.prems(1) by simp
    ultimately have "\<forall>x \<in> fst ` set (js_insert k v m). key_before (fst p) x"
      unfolding js_insert_keys by simp
    then show ?thesis
      using False Cons by auto
  qed
qed simp

lemma js_set_map_keys:
  "map fst (map (\<lambda>p. if fst p = k then (k, v) else p) m) = map fst m"
  by (induction m) auto

lemma js_set_cases:
  "js_set k v m =
     (if k = proto_key then m
      else if k \<in> fst ` set m then map (\<lambda>p. if fst p = k then (k, v) else p) m
      else js_insert k v m)"
  by (simp add: js_set_def)

lemma js_set_ok [simp]:
  assumes "obj_ok m"
  shows "obj_ok (js_set k v m)"
proof -
  have "obj_ok (map (\<lambda>p. if fst p = k then (k, v) else p) m)"
    using assms unfolding obj_ok_def list.set_map [symmetric] js_set_map_keys .
  moreover have "obj_ok (js_insert k v m)" if "k \<noteq> proto_key" "k \<notin> fst ` set m"
    using assms that js_insert_sorted [of m k v] by (simp add: obj_ok_def js_insert_keys)
  ultimately show ?thesis
    using assms by (simp add: js_set_cases)
qed

lemma map_of_js_insert: "k \<notin> fst ` set m \<Longrightarrow> map_of (js_insert k v m) = (map_of m)(k \<mapsto> v)"
  by (induction m) (auto simp: fun_eq_iff)

lemma map_of_js_replace:
  "k \<in> fst ` set m \<Longrightarrow>
   map_of (map (\<lambda>p. if fst p = k then (k, v) else p) m) = (map_of m)(k \<mapsto> v)"
proof (induction m)
  case (Cons p m)
  show ?case
  proof (cases "k \<in> fst ` set m")
    case True
    with Cons.IH show ?thesis by (auto simp: fun_eq_iff)
  next
    case False
    have "map (\<lambda>p. if fst p = k then (k, v) else p) m = m"
      by (rule map_idI) (use False in force)
    with Cons.prems False show ?thesis by (auto simp: fun_eq_iff)
  qed
qed simp

lemma js_get_set [simp]:
  "k \<noteq> proto_key \<Longrightarrow> map_of (js_set k v m) = (map_of m)(k \<mapsto> v)"
  by (auto simp: js_set_cases map_of_js_insert map_of_js_replace)

lemma set_js_insert [simp]: "set (js_insert k v m) = insert (k, v) (set m)"
  by (induction m) auto

lemma js_set_subset: "set (js_set k v m) \<subseteq> insert (k, v) (set m)"
  by (auto simp: js_set_def split: if_splits)

end
