(* ===== verification/SwaggerUrl.thy ===== *)
theory SwaggerUrl
  imports JsStrings
begin

text \<open>
  The URL sanitizer bundled on line 2 of swagger-ui.js (the module that exports
  \<open>sanitizeUrl\<close>, and its wrapper in core/utils), and the part of the URL parser of the same
  bundle that reads the scheme.  Swagger UI passes every link and every authorization URL of a
  specification through the sanitizer; the property is that no URL parser then finds a scheme
  that runs script.
\<close>

section \<open>Regular expressions of the module\<close>

text \<open>\<open>/[\u0000-\u001F\u007F-\u009F\u2000-\u200D\uFEFF]/\<close>\<close>

definition ctrl_unit :: "nat \<Rightarrow> bool" where
  "ctrl_unit c \<longleftrightarrow>
     c \<le> 31 \<or> (127 \<le> c \<and> c \<le> 159) \<or> (8192 \<le> c \<and> c \<le> 8205) \<or> c = 65279"

text \<open>\<open>String.prototype.trim\<close>: white space and line terminators of ECMAScript.\<close>

definition line_terminator :: "nat \<Rightarrow> bool" where
  "line_terminator c \<longleftrightarrow> List.member [10, 13, 8232, 8233] c"

definition space_unit :: "nat \<Rightarrow> bool" where
  "space_unit c \<longleftrightarrow>
     List.member [9, 11, 12, 32, 160, 5760, 8239, 8287, 12288, 65279] c \<or>
     (8192 \<le> c \<and> c \<le> 8202) \<or> line_terminator c"

definition strip :: "(nat \<Rightarrow> bool) \<Rightarrow> js_string \<Rightarrow> js_string" where
  "strip P s = rev (dropWhile P (rev (dropWhile P s)))"

definition trim :: "js_string \<Rightarrow> js_string" where
  "trim s = strip space_unit s"

definition digit_unit :: "nat \<Rightarrow> bool" where
  "digit_unit c \<longleftrightarrow> 48 \<le> c \<and> c \<le> 57"

definition alpha_unit :: "nat \<Rightarrow> bool" where
  "alpha_unit c \<longleftrightarrow> (65 \<le> c \<and> c \<le> 90) \<or> (97 \<le> c \<and> c \<le> 122)"

text \<open>\<open>\w\<close>\<close>

definition word_unit :: "nat \<Rightarrow> bool" where
  "word_unit c \<longleftrightarrow> alpha_unit c \<or> digit_unit c \<or> c = 95"

definition lower_unit :: "nat \<Rightarrow> nat" where
  "lower_unit c = (if 65 \<le> c \<and> c \<le> 90 then c + 32 else c)"

text \<open>The positions \<open>^\<close> matches under the flag \<open>m\<close>, as the rest of the string at each.\<close>

fun later_lines :: "js_string \<Rightarrow> js_string list" where
  "later_lines [] = []"
| "later_lines (c # s) = (if line_terminator c then [s] else []) @ later_lines s"

definition lines_of :: "js_string \<Rightarrow> js_string list" where
  "lines_of s = s # later_lines s"

section \<open>The sanitizer\<close>

text \<open>The first match of \<open>/^([^:]+):/gm\<close>.\<close>

definition scheme_match :: "js_string \<Rightarrow> js_string option" where
  "scheme_match t =
     map_option (\<lambda>l. takeWhile (\<lambda>c. c \<noteq> 58) l @ [58])
       (find (\<lambda>l. l \<noteq> [] \<and> hd l \<noteq> 58 \<and> List.member l 58) (lines_of t))"

definition unsafe_schemes :: "js_string list" where
  "unsafe_schemes = [js ''javascript'', js ''data'', js ''vbscript'']"

definition is_prefix :: "js_string \<Rightarrow> js_string \<Rightarrow> bool" where
  "is_prefix p s \<longleftrightarrow> take (length p) s = p"

text \<open>\<open>/^([^\w]*)(javascript|data|vbscript)/im\<close>; the words begin with a word character, so
  the class before them matches the longest run of others.\<close>

definition unsafe_match :: "js_string \<Rightarrow> bool" where
  "unsafe_match s \<longleftrightarrow>
     list_ex (\<lambda>l. list_ex (\<lambda>w. is_prefix w (map lower_unit (dropWhile (\<lambda>c. \<not> word_unit c) l)))
                unsafe_schemes) (lines_of s)"

definition about_blank :: js_string where
  "about_blank = js ''about:blank''"

definition cleaned :: "js_string \<Rightarrow> js_string" where
  "cleaned e = trim (filter (\<lambda>c. \<not> ctrl_unit c) e)"

definition sanitizeUrl :: "js_string \<Rightarrow> js_string" where
  "sanitizeUrl e =
     (if e = [] then about_blank
      else let t = cleaned e
        in if t \<noteq> [] \<and> List.member [46, 47] (hd t) then t
           else (case scheme_match t of
                   None \<Rightarrow> t
                 | Some s \<Rightarrow> if unsafe_match s then about_blank else t))"

text \<open>The wrapper of core/utils; \<open>None\<close> is a value that is not a string.\<close>

definition utils_sanitizeUrl :: "js_string option \<Rightarrow> js_string" where
  "utils_sanitizeUrl v =
     (case v of None \<Rightarrow> [] | Some e \<Rightarrow> if e = [] then [] else sanitizeUrl e)"

definition requiresValidationURL :: "js_string \<Rightarrow> bool" where
  "requiresValidationURL e \<longleftrightarrow>
     \<not> (e = [] \<or> sublist (js ''localhost'') e \<or> sublist (js ''127.0.0.1'') e \<or> e = js ''none'')"

section \<open>The scheme the URL parser reads\<close>

text \<open>The states \<open>he\<close> and \<open>me\<close> of \<open>URL.parse\<close>.  The class of a scheme is
  \<open>/[\d+-.a-z]/i\<close>: the dash makes a range, so the comma is in it.\<close>

definition scheme_unit :: "nat \<Rightarrow> bool" where
  "scheme_unit c \<longleftrightarrow> alpha_unit c \<or> digit_unit c \<or> (43 \<le> c \<and> c \<le> 46)"

fun scheme_state :: "js_string \<Rightarrow> js_string option" where
  "scheme_state [] = None"
| "scheme_state (c # s) =
     (if scheme_unit c then map_option (Cons (lower_unit c)) (scheme_state s)
      else if c = 58 then Some [] else None)"

definition URL_input :: "js_string \<Rightarrow> js_string" where
  "URL_input s = filter (\<lambda>c. \<not> List.member [9, 10, 13] c) (strip (\<lambda>c. c \<le> 32) s)"

definition URL_scheme :: "js_string \<Rightarrow> js_string option" where
  "URL_scheme s =
     (case URL_input s of
        [] \<Rightarrow> None
      | c # t \<Rightarrow> if alpha_unit c then scheme_state (c # t) else None)"

section \<open>Lemmas\<close>

lemma strip_nonempty: "strip P s = c # t \<Longrightarrow> \<not> P c \<and> \<not> P (last (c # t))"
proof
  assume a: "strip P s = c # t"
  let ?u = "dropWhile P s"
  have r: "dropWhile P (rev ?u) = rev (c # t)"
    using a unfolding strip_def by (metis rev_rev_ident)
  then show "\<not> P (last (c # t))"
    by (metis hd_dropWhile hd_rev list.distinct(1) rev_is_Nil_conv)
  obtain v where v: "rev ?u = v @ rev (c # t)"
    using r by (metis takeWhile_dropWhile_id)
  then have "?u = (c # t) @ rev v"
    by (metis rev_append rev_rev_ident)
  then show "\<not> P c"
    by (metis append_Cons hd_dropWhile list.distinct(1) list.sel(1))
qed

lemma strip_id: "s \<noteq> [] \<Longrightarrow> \<not> P (hd s) \<Longrightarrow> \<not> P (last s) \<Longrightarrow> strip P s = s"
  by (metis dropWhile_eq_self_iff hd_rev rev_rev_ident strip_def)

lemma strip_Nil [simp]: "strip P [] = []"
  by (simp add: strip_def)

lemma strip_idem: "strip P (strip P s) = strip P s"
  using strip_nonempty [of P s] strip_id [of "strip P s" P] by (cases "strip P s") auto

lemma set_strip: "set (strip P s) \<subseteq> set s"
  by (auto simp: strip_def dest!: set_dropWhileD)

lemma cleaned_units: "c \<in> set (cleaned e) \<Longrightarrow> \<not> ctrl_unit c"
  using set_strip by (force simp: cleaned_def trim_def)

lemma cleaned_idem: "cleaned (cleaned e) = cleaned e"
proof -
  have "filter (\<lambda>c. \<not> ctrl_unit c) (cleaned e) = cleaned e"
    by (simp add: cleaned_units)
  then have "cleaned (cleaned e) = strip space_unit (cleaned e)"
    by (simp add: cleaned_def trim_def)
  then show ?thesis
    by (simp add: strip_idem cleaned_def trim_def)
qed

lemma URL_input_cleaned: "URL_input (cleaned e) = cleaned e"
proof (cases "cleaned e")
  case (Cons c t)
  have ends: "\<not> space_unit c" "\<not> space_unit (last (c # t))"
    using strip_nonempty [of space_unit "filter (\<lambda>c. \<not> ctrl_unit c) e" c t] Cons
    by (auto simp: cleaned_def trim_def)
  have units: "\<not> ctrl_unit d" if "d \<in> set (c # t)" for d
    using cleaned_units [of d e] that Cons by simp
  have low: "\<not> d \<le> 32" if "d \<in> set (c # t)" "\<not> space_unit d" for d
    using units [OF that(1)] that(2)
    by (auto simp: ctrl_unit_def space_unit_def le_less dest: le_neq_implies_less)
  have "strip (\<lambda>c. c \<le> 32) (c # t) = c # t"
    using low [of c] low [OF last_in_set] ends by (intro strip_id) (simp_all del: last.simps)
  moreover have "filter (\<lambda>c. \<not> List.member [9, 10, 13] c) (c # t) = c # t"
    using units by (intro filter_True ballI) (fastforce simp: ctrl_unit_def)
  ultimately show ?thesis
    by (simp add: URL_input_def Cons)
qed (simp add: URL_input_def)

lemma scheme_stateE:
  assumes "scheme_state s = Some w"
  obtains p r where "s = p @ 58 # r" "\<forall>c \<in> set p. scheme_unit c" "map lower_unit p = w"
  using assms
proof (induction s arbitrary: w thesis)
  case (Cons c s)
  show ?case
  proof (cases "scheme_unit c")
    case True
    then obtain v where v: "scheme_state s = Some v" "w = lower_unit c # v"
      using Cons.prems(2) by auto
    show ?thesis
    proof (rule Cons.IH [OF _ v(1)])
      fix p r assume "s = p @ 58 # r" "\<forall>c \<in> set p. scheme_unit c" "map lower_unit p = v"
      then show ?thesis
        using Cons.prems(1) [of "c # p" r] True v(2) by simp
    qed
  next
    case False
    then show ?thesis
      using Cons.prems(1) [of "[]" s] Cons.prems(2) by (auto split: if_splits)
  qed
qed simp

lemma scheme_unit_colon: "\<not> scheme_unit 58"
  by (simp add: scheme_unit_def alpha_unit_def digit_unit_def)

text \<open>A string the parser reads a scheme from is matched by the expression of the sanitizer at
  its first position, and the match is the scheme as written.\<close>

lemma scheme_match_scheme:
  assumes "URL_scheme (cleaned e) = Some w"
  obtains p where "scheme_match (cleaned e) = Some (p @ [58])" "map lower_unit p = w"
    "p \<noteq> []" "alpha_unit (hd p)" "hd (cleaned e) = hd p" "cleaned e \<noteq> []" "\<forall>c \<in> set p. scheme_unit c"
proof -
  obtain c t where ct: "cleaned e = c # t" "alpha_unit c" "scheme_state (c # t) = Some w"
    using assms by (auto simp: URL_scheme_def URL_input_cleaned split: list.splits if_splits)
  obtain p r where p: "c # t = p @ 58 # r" "\<forall>c \<in> set p. scheme_unit c" "map lower_unit p = w"
    using ct(3) by (rule scheme_stateE)
  have "c \<noteq> 58"
    using ct(2) by (auto simp: alpha_unit_def)
  then obtain q where q: "p = c # q"
    using p(1) by (cases p) auto
  have n: "58 \<notin> set p"
    using p(2) scheme_unit_colon by blast
  then have "takeWhile (\<lambda>c. c \<noteq> 58) (c # t) = p"
    unfolding p(1) by (subst takeWhile_append2) auto
  moreover have "List.member (c # t) 58"
    unfolding p(1) by (simp add:)
  ultimately have "scheme_match (cleaned e) = Some (p @ [58])"
    using \<open>c \<noteq> 58\<close> by (simp add: scheme_match_def lines_of_def ct(1) del: takeWhile.simps)
  then show thesis
    using that [of p] q ct(1,2) p(2,3) n by simp
qed

lemma is_prefix_iff: "is_prefix p s \<longleftrightarrow> (\<exists>t. s = p @ t)"
  by (metis append_eq_conv_conj append_take_drop_id is_prefix_def)

lemma unsafe_no_colon: "w \<in> set unsafe_schemes \<Longrightarrow> 58 \<notin> set w \<and> w \<noteq> []"
  by (auto simp: unsafe_schemes_def js_def)

lemma later_lines_none: "\<forall>c \<in> set s. \<not> line_terminator c \<Longrightarrow> later_lines s = []"
  by (induction s) auto

lemma unsafe_scheme_matched:
  assumes "p \<noteq> []" "alpha_unit (hd p)" "\<forall>c \<in> set p. scheme_unit c"
  shows "unsafe_match (p @ [58]) \<longleftrightarrow> (\<exists>w \<in> set unsafe_schemes. is_prefix w (map lower_unit p))"
proof -
  have "dropWhile (\<lambda>c. \<not> word_unit c) (p @ [58]) = p @ [58]"
    using assms(1,2) by (cases p) (auto simp: word_unit_def)
  moreover have "\<not> line_terminator c" if "c \<in> set (p @ [58])" for c
    using that assms(3)
    by (auto simp: line_terminator_def scheme_unit_def alpha_unit_def digit_unit_def)
  then have "later_lines (p @ [58]) = []"
    by (simp add: later_lines_none)
  moreover have "is_prefix w (u @ [lower_unit 58]) \<longleftrightarrow> is_prefix w u" if "w \<in> set unsafe_schemes" for w u
  proof
    assume "is_prefix w (u @ [lower_unit 58])"
    then obtain t where t: "u @ [58] = w @ t"
      by (auto simp: is_prefix_iff lower_unit_def)
    then show "is_prefix w u"
      using unsafe_no_colon [OF that]
      by (cases t rule: rev_cases) (auto simp: is_prefix_iff)
  qed (auto simp: is_prefix_iff)
  ultimately show ?thesis
    by (simp add: unsafe_match_def lines_of_def list_ex_iff)
qed

lemma sanitizeUrl_cases:
  "sanitizeUrl e = about_blank \<or> sanitizeUrl e = cleaned e"
  by (simp add: sanitizeUrl_def Let_def split: option.split)

lemma sanitizeUrl_scheme:
  assumes "URL_scheme (cleaned e) = Some w" "e \<noteq> []"
  shows "sanitizeUrl e =
    (if \<exists>u \<in> set unsafe_schemes. is_prefix u w then about_blank else cleaned e)"
proof -
  obtain p where p: "scheme_match (cleaned e) = Some (p @ [58])" "map lower_unit p = w"
    "p \<noteq> []" "alpha_unit (hd p)" "hd (cleaned e) = hd p" "\<forall>c \<in> set p. scheme_unit c"
    using scheme_match_scheme [OF assms(1)] by metis
  have "\<not> List.member [46, 47] (hd (cleaned e))"
    using p(4,5) by (auto simp: alpha_unit_def)
  then show ?thesis
    using unsafe_scheme_matched [OF p(3,4,6)] p(1,2) assms(2)
    by (simp add: sanitizeUrl_def Let_def)
qed

lemma about_blank_scheme: "URL_scheme about_blank = Some (js ''about'')"
  by (simp add: URL_scheme_def URL_input_def strip_def about_blank_def js_def alpha_unit_def
      scheme_unit_def digit_unit_def lower_unit_def)

lemma cleaned_about_blank: "cleaned about_blank = about_blank"
  by (simp add: cleaned_def trim_def strip_def about_blank_def js_def ctrl_unit_def space_unit_def
      line_terminator_def)

lemma sanitizeUrl_about_blank: "sanitizeUrl about_blank = about_blank"
  using sanitizeUrl_cases [of about_blank] by (simp add: cleaned_about_blank)

lemma sanitizeUrl_no_script:
  assumes "URL_scheme (sanitizeUrl e) = Some w"
  shows "\<not> (\<exists>u \<in> set unsafe_schemes. is_prefix u w)"
proof (cases "sanitizeUrl e = about_blank")
  case True
  then show ?thesis
    using assms by (auto simp: about_blank_scheme unsafe_schemes_def is_prefix_def js_def)
next
  case False
  then have "sanitizeUrl e = cleaned e" "e \<noteq> []"
    using sanitizeUrl_cases [of e] by (auto simp: sanitizeUrl_def)
  then show ?thesis
    using sanitizeUrl_scheme [of e w] assms False by (metis (no_types, lifting))
qed

lemma sanitizeUrl_idem:
  assumes "sanitizeUrl e \<noteq> []"
  shows "sanitizeUrl (sanitizeUrl e) = sanitizeUrl e"
proof (cases "sanitizeUrl e = about_blank")
  case False
  then have "sanitizeUrl e = cleaned e" "e \<noteq> []"
    using sanitizeUrl_cases [of e] by (auto simp: sanitizeUrl_def)
  moreover have "sanitizeUrl (cleaned e) = sanitizeUrl e" if "cleaned e \<noteq> []" "e \<noteq> []"
    using that by (simp add: sanitizeUrl_def cleaned_idem)
  ultimately show ?thesis
    using assms by simp
qed (simp add: sanitizeUrl_about_blank)

text \<open>What is kept: a relative URL, text without a colon, and text that does not hold any of the
  three words.\<close>

lemma later_lines_sublist: "l \<in> set (later_lines s) \<Longrightarrow> sublist l s"
  by (induction s) (auto simp: sublist_Cons_right split: if_splits)

lemma lines_of_sublist: "l \<in> set (lines_of s) \<Longrightarrow> sublist l s"
  by (auto simp: lines_of_def later_lines_sublist)

lemma scheme_match_sublist:
  assumes "scheme_match t = Some s"
  shows "sublist s t" and "58 \<in> set t"
proof -
  obtain l where l: "l \<in> set (lines_of t)" "58 \<in> set l" "s = takeWhile (\<lambda>c. c \<noteq> 58) l @ [58]"
    using assms unfolding scheme_match_def by (auto simp: find_Some_iff) (metis nth_mem)
  obtain p r where p: "l = p @ 58 # r" "58 \<notin> set p"
    using split_list_first [OF l(2)] by blast
  have "takeWhile (\<lambda>c. c \<noteq> 58) (p @ 58 # r) = p"
    using p(2) by (subst takeWhile_append2) auto
  then have "s = p @ [58]"
    using l(3) p(1) by simp
  then have "l = [] @ s @ r"
    using p(1) by simp
  then have "sublist s l"
    unfolding sublist_def by blast
  then show "sublist s t"
    using lines_of_sublist [OF l(1)] by (rule sublist_order.order.trans)
  show "58 \<in> set t"
    using lines_of_sublist [OF l(1)] l(2) set_mono_sublist by blast
qed

lemma sublist_map: "sublist xs ys \<Longrightarrow> sublist (map f xs) (map f ys)"
  by (metis map_append sublist_def)

lemma unsafe_match_sublist:
  assumes "unsafe_match s"
  shows "\<exists>u \<in> set unsafe_schemes. sublist u (map lower_unit s)"
proof -
  obtain l w where l: "l \<in> set (lines_of s)" "w \<in> set unsafe_schemes"
    "is_prefix w (map lower_unit (dropWhile (\<lambda>c. \<not> word_unit c) l))"
    using assms by (auto simp: unsafe_match_def list_ex_iff)
  have "sublist w (map lower_unit (dropWhile (\<lambda>c. \<not> word_unit c) l))"
    using l(3) by (auto simp: is_prefix_iff)
  also have "sublist \<dots> (map lower_unit l)"
    by (intro sublist_map suffix_imp_sublist suffix_dropWhile)
  also have "sublist \<dots> (map lower_unit s)"
    by (intro sublist_map lines_of_sublist l(1))
  finally show ?thesis
    using l(2) by blast
qed

lemma sanitizeUrl_kept:
  assumes "e \<noteq> []"
    and "(cleaned e \<noteq> [] \<and> hd (cleaned e) \<in> {46, 47}) \<or> 58 \<notin> set (cleaned e) \<or>
      \<not> (\<exists>u \<in> set unsafe_schemes. sublist u (map lower_unit (cleaned e)))"
  shows "sanitizeUrl e = cleaned e"
proof -
  have "\<not> unsafe_match s" if "scheme_match (cleaned e) = Some s"
      "\<not> (cleaned e \<noteq> [] \<and> hd (cleaned e) \<in> {46, 47})" for s
    using that(2) assms(2) scheme_match_sublist [OF that(1)] unsafe_match_sublist [of s]
    by (meson sublist_map sublist_order.order.trans)
  then show ?thesis
    using assms(1) by (auto simp: sanitizeUrl_def Let_def split: option.splits)
qed

lemma sanitizeUrl_twice:
  "sanitizeUrl (sanitizeUrl e) = (if sanitizeUrl e = [] then about_blank else sanitizeUrl e)"
  using sanitizeUrl_idem by (simp add: sanitizeUrl_def)

text \<open>A query that holds no colon does not change the scheme of what it is appended to.\<close>

lemma scheme_state_query:
  "scheme_state (u @ s # q) = Some w \<Longrightarrow> \<not> scheme_unit s \<Longrightarrow> s \<noteq> 58 \<Longrightarrow> scheme_state u = Some w"
  by (induction u arbitrary: w) (auto split: if_splits)

lemma URL_scheme_query:
  assumes "URL_scheme (cleaned e @ s # q) = Some w" "\<not> scheme_unit s" "s \<noteq> 58" "\<forall>c \<in> set (s # q). 32 < c"
  shows "URL_scheme (cleaned e) = Some w"
proof -
  let ?x = "cleaned e @ s # q"
  have a: "alpha_unit c \<longrightarrow> scheme_unit c" for c
    by (simp add: scheme_unit_def)
  have first: "32 < hd ?x"
  proof (cases "cleaned e")
    case (Cons c t)
    have "c \<notin> {..31}" "\<not> space_unit c"
      using cleaned_units [of c e] strip_nonempty [of space_unit "filter (\<lambda>c. \<not> ctrl_unit c) e" c t] Cons
      by (auto simp: cleaned_def trim_def ctrl_unit_def)
    then have "c \<noteq> 32" "\<not> c \<le> 31"
      by (auto simp: space_unit_def)
    then show ?thesis
      by (simp add: Cons)
  qed (use assms(4) in simp)
  have "32 < last ?x"
    using assms(4) last_in_set [of "s # q"] by (metis last_appendR list.distinct(1))
  then have "strip (\<lambda>c. c \<le> 32) ?x = ?x"
    using first by (intro strip_id) (simp_all del: last.simps)
  moreover have "c \<notin> {9, 10, 13}" if "c \<in> set ?x" for c
    using that assms(4) cleaned_units [of c e] by (auto simp: ctrl_unit_def)
  then have "filter (\<lambda>c. \<not> List.member [9, 10, 13] c) ?x = ?x"
    by (intro filter_True) auto
  ultimately have i: "URL_input ?x = ?x"
    by (simp only: URL_input_def)
  show ?thesis
  proof (cases "cleaned e")
    case Nil
    then show ?thesis
      using assms(1,2) a i by (auto simp: URL_scheme_def split: if_splits)
  next
    case (Cons c t)
    have "URL_input ?x = c # t @ s # q"
      unfolding i by (simp add: Cons)
    then have "(if alpha_unit c then scheme_state (c # t @ s # q) else None) = Some w"
      using assms(1) unfolding URL_scheme_def by simp
    then have x: "alpha_unit c" "scheme_state ((c # t) @ s # q) = Some w"
      by (auto simp del: scheme_state.simps split: if_splits)
    then show ?thesis
      using scheme_state_query [OF x(2) assms(2,3)]
      unfolding URL_scheme_def URL_input_cleaned by (simp add: Cons del: scheme_state.simps)
  qed
qed

text \<open>C21: The URL sanitizer of swagger-ui is safe: whatever the string, a parser that reads the
  result finds no scheme that runs script, also one hidden behind control characters, white
  space, line separators or capitals.  Harmless URLs are kept, up to the removal of control
  characters and of the white space around them: one that begins with a slash or a dot, one
  without a colon, and one that holds none of the three words in any capitals; a URL with a
  scheme is replaced by about:blank exactly when the scheme begins with one of the words, and
  nothing else than about:blank replaces a URL.  Sanitizing the result again changes it in one
  case, when nothing was left of the string: then the second run gives about:blank.\<close>

theorem sanitizeUrl_safe:
  "(\<forall>w. URL_scheme (sanitizeUrl e) = Some w \<longrightarrow> \<not> (\<exists>u \<in> set unsafe_schemes. is_prefix u w)) \<and>
   (sanitizeUrl e = about_blank \<or> sanitizeUrl e = cleaned e) \<and>
   (\<forall>w. e \<noteq> [] \<and> URL_scheme (cleaned e) = Some w \<longrightarrow>
      (sanitizeUrl e = cleaned e \<longleftrightarrow>
         cleaned e = about_blank \<or> \<not> (\<exists>u \<in> set unsafe_schemes. is_prefix u w))) \<and>
   (e \<noteq> [] \<and>
      ((cleaned e \<noteq> [] \<and> hd (cleaned e) \<in> {46, 47}) \<or> 58 \<notin> set (cleaned e) \<or>
       \<not> (\<exists>u \<in> set unsafe_schemes. sublist u (map lower_unit (cleaned e)))) \<longrightarrow>
      sanitizeUrl e = cleaned e) \<and>
   sanitizeUrl (sanitizeUrl e) = (if sanitizeUrl e = [] then about_blank else sanitizeUrl e)"
proof (intro conjI allI impI)
  show "sanitizeUrl e = cleaned e \<longleftrightarrow>
      cleaned e = about_blank \<or> \<not> (\<exists>u \<in> set unsafe_schemes. is_prefix u w)"
    if "e \<noteq> [] \<and> URL_scheme (cleaned e) = Some w" for w
    using sanitizeUrl_scheme that by auto
  show "sanitizeUrl e = cleaned e"
    if "e \<noteq> [] \<and> ((cleaned e \<noteq> [] \<and> hd (cleaned e) \<in> {46, 47}) \<or> 58 \<notin> set (cleaned e) \<or>
       \<not> (\<exists>u \<in> set unsafe_schemes. sublist u (map lower_unit (cleaned e))))"
    using that by (intro sanitizeUrl_kept) simp_all
qed (fact sanitizeUrl_no_script sanitizeUrl_cases sanitizeUrl_twice)+

definition ex_hidden_script :: js_string where
  "ex_hidden_script = [1, 32] @ js ''Java'' @ [8205, 9] @ js ''Script:alert(1)''"

text \<open>A link inside the site whose query holds one of the words is kept.\<close>

definition ex_relative :: js_string where
  "ex_relative = [32] @ js ''/docs?next=javascript:''"

theorem sanitizeUrl_safe_witness:
  "sanitizeUrl ex_hidden_script = about_blank \<and>
   \<not> URL_scheme (sanitizeUrl ex_hidden_script) = Some (js ''javascript'') \<and>
   sanitizeUrl ex_relative = js ''/docs?next=javascript:'' \<and>
   sanitizeUrl (sanitizeUrl [32]) = about_blank"
proof -
  have unsafe: "js ''javascript'' \<in> set unsafe_schemes"
    "is_prefix (js ''javascript'') (js ''javascript'')"
    by (simp_all add: unsafe_schemes_def is_prefix_def)
  have c: "cleaned ex_hidden_script = js ''JavaScript:alert(1)''"
    "cleaned ex_relative = js ''/docs?next=javascript:''" "cleaned [32] = []"
    by (simp_all add: cleaned_def trim_def strip_def ex_hidden_script_def ex_relative_def js_def
        ctrl_unit_def space_unit_def line_terminator_def)
  have "URL_scheme (cleaned ex_hidden_script) = Some (js ''javascript'')"
    unfolding URL_scheme_def URL_input_cleaned unfolding c
    by (simp add: js_def alpha_unit_def scheme_unit_def digit_unit_def lower_unit_def)
  then have "sanitizeUrl ex_hidden_script = about_blank"
    using sanitizeUrl_scheme [of ex_hidden_script] unsafe
    by (auto simp: ex_hidden_script_def)
  moreover have "ex_relative \<noteq> []" "cleaned ex_relative \<noteq> []" "hd (cleaned ex_relative) = 47"
    unfolding c by (simp_all add: ex_relative_def js_def)
  then have "sanitizeUrl ex_relative = cleaned ex_relative"
    using sanitizeUrl_safe [of ex_relative] by simp
  moreover have "sanitizeUrl [32] = []"
    using sanitizeUrl_safe [of "[32]"] c(3) by simp
  then have "sanitizeUrl (sanitizeUrl [32]) = about_blank"
    by (simp add: sanitizeUrl_def)
  moreover have "\<not> URL_scheme (sanitizeUrl ex_hidden_script) = Some (js ''javascript'')"
    using sanitizeUrl_safe [of ex_hidden_script] unsafe by blast
  ultimately show ?thesis
    by (simp add: c(2))
qed

end
