(* ===== verification/SwaggerSearch.thy ===== *)
theory SwaggerSearch
  imports JsStrings
begin

text \<open>
  The top bar of the standalone preset (swagger-ui-standalone-preset.js, line 2): the query
  string functions \<open>parseSearch\<close> and \<open>serializeSearch\<close> of its core/utils module and the handlers
  of the Topbar component of plugins/topbar.  A thrown URIError or TypeError is \<open>None\<close>.
  \<open>window.location.search\<close> is an argument and, when a handler replaces it, a result.
\<close>

section \<open>parseSearch and serializeSearch\<close>

text \<open>\<open>r[1] && decodeURIComponent(r[1]) || ""\<close>\<close>

definition param_value :: "js_string list \<Rightarrow> js_string option" where
  "param_value rest =
     (case rest of
        [] \<Rightarrow> Some []
      | v # _ \<Rightarrow> if v = [] then Some [] else decodeURIComponent v)"

fun parse_params :: "js_string list \<Rightarrow> js_string js_object \<Rightarrow> js_string js_object option" where
  "parse_params [] m = Some m"
| "parse_params (x # xs) m =
     (let r = split_on 61 x
      in case decodeURIComponent (hd r) of
           None \<Rightarrow> None
         | Some k \<Rightarrow>
             (case param_value (tl r) of
                None \<Rightarrow> None
              | Some v \<Rightarrow> parse_params xs (js_set k v m)))"

definition parseSearch :: "js_string \<Rightarrow> js_string js_object option" where
  "parseSearch search =
     (if search = [] then Some [] else parse_params (split_on 38 (drop 1 search)) [])"

fun serialize_params :: "js_string js_object \<Rightarrow> js_string list option" where
  "serialize_params [] = Some []"
| "serialize_params (p # m) =
     (case (encodeURIComponent (fst p), encodeURIComponent (snd p)) of
        (Some a, Some b) \<Rightarrow> map_option (Cons (a @ 61 # b)) (serialize_params m)
      | _ \<Rightarrow> None)"

definition serializeSearch :: "js_string js_object \<Rightarrow> js_string option" where
  "serializeSearch m = map_option (join_with 38) (serialize_params m)"

definition params_ok :: "js_string js_object \<Rightarrow> bool" where
  "params_ok m \<longleftrightarrow> obj_ok m \<and> (\<forall>(k, v) \<in> set m. js_ok k \<and> js_ok v)"

lemma serialize_parse:
  "serialize_params m = Some ps \<Longrightarrow> \<forall>(k, v) \<in> set m. js_ok k \<and> js_ok v \<Longrightarrow>
   parse_params ps acc = Some (fold (\<lambda>(k, v). js_set k v) m acc) \<and>
   (\<forall>p \<in> set ps. 38 \<notin> set p) \<and> length ps = length m"
proof (induction m arbitrary: ps acc)
  case (Cons p m)
  obtain a b qs where e: "encodeURIComponent (fst p) = Some a" "encodeURIComponent (snd p) = Some b"
    "serialize_params m = Some qs" "ps = (a @ 61 # b) # qs"
    using Cons.prems(1) by (auto split: option.splits)
  have ok: "js_ok (fst p)" "js_ok (snd p)"
    using Cons.prems(2) by (auto simp: case_prod_beta)
  note d = encode_decode [OF e(1) ok(1)] encode_decode [OF e(2) ok(2)]
  note n = encode_no_separator [OF e(1) ok(1)] encode_no_separator [OF e(2) ok(2)]
  have "split_on 61 (a @ 61 # b) = [a, b]"
    using n by (simp add: split_on_append split_on_nosep)
  moreover have "param_value [b] = Some (snd p)"
    using d(2) by (auto simp: param_value_def)
  ultimately show ?case
    using Cons.IH [OF e(3)] Cons.prems(2) d(1) n e(4) by (simp add: case_prod_beta)
qed simp

lemma parse_params_ok:
  "parse_params xs m = Some m' \<Longrightarrow> \<forall>x \<in> set xs. js_ok x \<Longrightarrow> params_ok m \<Longrightarrow> params_ok m'"
proof (induction xs arbitrary: m)
  case (Cons x xs)
  obtain k v where k: "decodeURIComponent (hd (split_on 61 x)) = Some k"
    "param_value (tl (split_on 61 x)) = Some v" "parse_params xs (js_set k v m) = Some m'"
    using Cons.prems(1) by (auto simp: Let_def split: option.splits)
  have parts: "js_ok y" if "y \<in> set (split_on 61 x)" for y
  proof -
    have "set y \<subseteq> set x"
      using that join_split [of 61 x] by (metis join_with_subset)
    then show ?thesis
      using Cons.prems(2) by (auto simp: js_ok_def)
  qed
  have "js_ok k"
    using decode_ok [OF k(1)] parts by simp
  moreover have "js_ok v"
  proof (cases "tl (split_on 61 x)")
    case Nil
    then show ?thesis using k(2) by (simp add: param_value_def)
  next
    case (Cons w ws)
    then have "js_ok w"
      using parts [of w] by (metis list.set_intros(1) list.set_sel(2) split_on_nonempty)
    then show ?thesis
      using k(2) Cons decode_ok by (auto simp: param_value_def split: if_splits)
  qed
  ultimately have "params_ok (js_set k v m)"
    using Cons.prems(3) js_set_subset [of k v m] by (auto simp: params_ok_def)
  then show ?case
    using Cons.IH [OF k(3)] Cons.prems(2) by simp
qed simp

lemma parseSearch_ok:
  assumes "parseSearch s = Some m" "js_ok s"
  shows "params_ok m"
proof -
  have "js_ok x" if "x \<in> set (split_on 38 (drop 1 s))" for x
  proof -
    have "set x \<subseteq> set (drop 1 s)"
      using that join_split [of 38 "drop 1 s"] by (metis join_with_subset)
    then show ?thesis
      using assms(2) set_drop_subset [of 1 s] by (auto simp: js_ok_def)
  qed
  then show ?thesis
    using assms parse_params_ok [of "split_on 38 (drop 1 s)" "[]" m]
    by (auto simp: parseSearch_def params_ok_def obj_ok_def split: if_splits)
qed

lemma parse_serializeSearch:
  assumes "serializeSearch m = Some t" "params_ok m" "m \<noteq> []"
  shows "parseSearch (63 # t) = Some m"
proof -
  obtain ps where ps: "serialize_params m = Some ps" "t = join_with 38 ps"
    using assms(1) by (auto simp: serializeSearch_def)
  have ok: "\<forall>(k, v) \<in> set m. js_ok k \<and> js_ok v" "obj_ok m"
    using assms(2) by (auto simp: params_ok_def)
  note sp = serialize_parse [OF ps(1) ok(1)]
  have "split_on 38 t = ps"
    using sp assms(3) ps(2) by (auto intro!: split_join)
  moreover have "fold (\<lambda>(k, v). js_set k v) m [] = m"
    using js_set_rebuild [of "[]" m] ok(2) by simp
  ultimately show ?thesis
    using sp by (simp add: parseSearch_def)
qed

section \<open>The Topbar component\<close>

record api_spec =
  as_url :: js_string
  as_name :: js_string

text \<open>The fields of \<open>getConfigs()\<close> the component reads; a missing \<open>urls\<close> or primary name is
  the empty one, which the code does not distinguish.\<close>

record topbar_configs =
  tc_urls :: "api_spec list"
  tc_primaryName :: js_string
  tc_persistAuthorization :: bool

record topbar =
  tb_url :: js_string
  tb_selectedIndex :: nat

datatype topbar_call = RestoreAuthorization | UpdateUrl js_string | Download js_string

definition primaryName_key :: js_string where
  "primaryName_key = js ''urls.primaryName''"

definition topbar_new :: "js_string \<Rightarrow> topbar" where
  "topbar_new url = \<lparr>tb_url = url, tb_selectedIndex = 0\<rparr>"

definition loadSpec :: "topbar_configs \<Rightarrow> js_string \<Rightarrow> topbar_call list" where
  "loadSpec c url =
     (if tc_persistAuthorization c then [] else [RestoreAuthorization]) @ [UpdateUrl url, Download url]"

text \<open>The search string of the replaced location.\<close>

definition setSearch :: "api_spec \<Rightarrow> js_string \<Rightarrow> js_string option" where
  "setSearch spec search =
     Option.bind (parseSearch search)
       (\<lambda>m. map_option (Cons 63) (serializeSearch (js_set primaryName_key (as_name spec) m)))"

fun select_urls ::
  "js_string \<Rightarrow> (nat \<times> api_spec) list \<Rightarrow> topbar \<times> js_string \<Rightarrow> (topbar \<times> js_string) option" where
  "select_urls url [] st = Some st"
| "select_urls url ((i, spec) # xs) (tb, search) =
     (if as_url spec = url
      then Option.bind (setSearch spec search)
             (\<lambda>search'. select_urls url xs (tb\<lparr>tb_selectedIndex := i\<rparr>, search'))
      else select_urls url xs (tb, search))"

definition setSelectedUrl ::
  "topbar_configs \<Rightarrow> js_string \<Rightarrow> topbar \<times> js_string \<Rightarrow> (topbar \<times> js_string) option" where
  "setSelectedUrl c url st =
     (if tc_urls c \<noteq> [] \<and> url \<noteq> [] then select_urls url (enumerate 0 (tc_urls c)) st else Some st)"

definition onUrlSelect ::
  "topbar_configs \<Rightarrow> js_string \<Rightarrow> topbar \<times> js_string \<Rightarrow>
   (topbar_call list \<times> topbar \<times> js_string) option" where
  "onUrlSelect c url st = map_option (Pair (loadSpec c url)) (setSelectedUrl c url st)"

text \<open>\<open>urls[targetIndex].url\<close> of an index out of range is a TypeError.\<close>

definition componentDidMount ::
  "topbar_configs \<Rightarrow> topbar \<Rightarrow> (topbar_call list \<times> topbar) option" where
  "componentDidMount c tb =
     (let urls = tc_urls c
      in if urls = [] then Some ([], tb)
         else
           let r = (if tc_primaryName c = [] then tb_selectedIndex tb
                    else fold (\<lambda>(i, spec) r. if as_name spec = tc_primaryName c then i else r)
                           (enumerate 0 urls) (tb_selectedIndex tb))
           in if r < length urls
              then Some (loadSpec c (as_url (urls ! r)), tb\<lparr>tb_selectedIndex := r\<rparr>)
              else None)"

section \<open>The configuration of a page\<close>

text \<open>The options of \<open>SwaggerUI(opts)\<close> that decide what the bar starts with; a missing \<open>configUrl\<close>
  is the empty one.\<close>

record ui_options =
  uo_queryConfigEnabled :: bool
  uo_configUrl :: js_string
  uo_configs :: topbar_configs

text \<open>How a page starts: with a configuration of the bar; with the configuration another file
  holds, which is fetched first; or with the text of a parameter \<open>urls\<close> where the list of
  definitions is expected.\<close>

datatype page_start = StartWith topbar_configs | FetchConfig js_string | UrlsText js_string

definition queryConfig :: "ui_options \<Rightarrow> js_string \<Rightarrow> js_string js_object option" where
  "queryConfig opts search =
     (if uo_queryConfigEnabled opts then parseSearch search else Some [])"

text \<open>\<open>deepExtend\<close> lets the query win; its values are strings, which \<open>persistAuthorization\<close> is
  tested as.\<close>

definition query_over :: "js_string js_object \<Rightarrow> js_string \<Rightarrow> js_string \<Rightarrow> js_string" where
  "query_over q key v = (case map_of q key of None \<Rightarrow> v | Some w \<Rightarrow> w)"

definition merged_configs :: "topbar_configs \<Rightarrow> js_string js_object \<Rightarrow> topbar_configs" where
  "merged_configs c q =
     c\<lparr>tc_primaryName := query_over q primaryName_key (tc_primaryName c),
       tc_persistAuthorization :=
         (case map_of q (js ''persistAuthorization'') of
            None \<Rightarrow> tc_persistAuthorization c
          | Some v \<Rightarrow> v \<noteq> [])\<rparr>"

definition SwaggerUI :: "ui_options \<Rightarrow> js_string \<Rightarrow> page_start option" where
  "SwaggerUI opts search =
     (case queryConfig opts search of
        None \<Rightarrow> None
      | Some q \<Rightarrow>
          let config = query_over q (js ''config'') [];
              configUrl = (if config \<noteq> [] then config
                           else query_over q (js ''configUrl'') (uo_configUrl opts))
          in Some (if configUrl \<noteq> [] then FetchConfig configUrl
                   else case map_of q (js ''urls'') of
                          Some us \<Rightarrow> UrlsText us
                        | None \<Rightarrow> StartWith (merged_configs (uo_configs opts) q)))"

section \<open>Properties\<close>

lemma primaryName_key_facts [simp]: "primaryName_key \<noteq> proto_key" "js_ok primaryName_key"
  by (simp_all add: primaryName_key_def proto_key_def js_def)

lemma setSearchE:
  assumes "setSearch spec search = Some s'" "js_ok search" "js_ok (as_name spec)"
  obtains m where "parseSearch search = Some m" "params_ok m"
    "parseSearch s' = Some (js_set primaryName_key (as_name spec) m)"
proof -
  obtain m t where m: "parseSearch search = Some m"
    "serializeSearch (js_set primaryName_key (as_name spec) m) = Some t" "s' = 63 # t"
    using assms(1) by (auto simp: setSearch_def Option.bind_eq_Some_conv)
  let ?m = "js_set primaryName_key (as_name spec) m"
  have ok: "params_ok m"
    by (rule parseSearch_ok [OF m(1) assms(2)])
  then have "params_ok ?m"
    using assms(3) js_set_subset [of primaryName_key "as_name spec" m]
    by (auto simp: params_ok_def)
  moreover have "?m \<noteq> []"
    using js_get_set [of primaryName_key "as_name spec" m] by (metis fun_upd_same map_of.simps(1) option.distinct(1) primaryName_key_facts(1))
  ultimately show ?thesis
    using that [OF m(1) ok] parse_serializeSearch [OF m(2)] m(3) by blast
qed

text \<open>Replacing the query string loses nothing: after \<open>setSearch\<close> the new query string
  parses to the parameters the old one had, percent-decoded and in the same order, with
  urls.primaryName set to the chosen name, whatever characters (separators, percent signs,
  characters outside ASCII or the BMP) keys, values and the name contain.\<close>

lemma setSearch_roundtrip:
  assumes "setSearch spec search = Some s'" and "js_ok search" and "js_ok (as_name spec)"
  shows "\<exists>m. parseSearch search = Some m \<and>
             parseSearch s' = Some (js_set primaryName_key (as_name spec) m)"
  using setSearchE [OF assms] by metis

text \<open>A query string \<open>?a=%26%F0%9F%98%80&7\<close> and a name with separators and a two-byte
  character.\<close>

definition ex_search :: js_string where
  "ex_search = js ''?a=%26%F0%9F%98%80&7''"

definition ex_spec :: api_spec where
  "ex_spec = \<lparr>as_url = js ''./swagger.yaml'', as_name = js ''K & k='' @ [233]\<rparr>"

definition ex_search' :: js_string where
  "ex_search' = js ''?7=&a=%26%F0%9F%98%80&urls.primaryName=K%20%26%20k%3D%C3%A9''"

lemma ex_decode: "decodeURIComponent (js ''%26%F0%9F%98%80'') = Some [38, 55357, 56832]"
  by (rule encode_decode)
    (simp_all add: js_def unreserved_def high_surrogate_def low_surrogate_def surrogate_pair_def
      pct_bytes_def pct_def utf8_def hex_digit_def)

lemma ex_setSearch: "setSearch ex_spec ex_search = Some ex_search'"
proof -
  have p: "parseSearch ex_search = Some [(js ''7'', []), (js ''a'', [38, 55357, 56832])]"
    using ex_decode
    by (simp add: parseSearch_def ex_search_def js_def Let_def decode_plain param_value_def
        js_set_def proto_key_def array_index_def decimal.simps key_before_def)
  show ?thesis
    unfolding setSearch_def p ex_search'_def
    by (simp add: serializeSearch_def ex_spec_def js_def js_set_def proto_key_def
        primaryName_key_def array_index_def decimal.simps unreserved_def high_surrogate_def
        low_surrogate_def surrogate_pair_def pct_bytes_def pct_def utf8_def hex_digit_def)
qed

lemma setSearch_roundtrip_witness:
  "\<exists>m. parseSearch ex_search = Some m \<and>
       parseSearch ex_search' = Some (js_set primaryName_key (as_name ex_spec) m)"
  by (rule setSearch_roundtrip [OF ex_setSearch])
    (simp_all add: ex_search_def ex_spec_def js_def)

lemma select_urls_append:
  "select_urls url (xs @ ys) st = Option.bind (select_urls url xs st) (select_urls url ys)"
proof (induction xs arbitrary: st)
  case (Cons x xs)
  then show ?case
    by (cases x; cases st) (auto simp: Option.bind_assoc intro!: Option.bind_cong)
qed simp

lemma select_urls_none:
  "\<forall>e \<in> set us. as_url e \<noteq> url \<Longrightarrow> select_urls url (enumerate n us) st = Some st"
  by (induction us arbitrary: n) (cases st; auto)+

lemma distinct_splitE:
  assumes "distinct (map f us)" "i < length us"
  obtains xs ys where "us = xs @ us ! i # ys" "length xs = i"
    "\<forall>e \<in> set xs. f e \<noteq> f (us ! i)" "\<forall>e \<in> set ys. f e \<noteq> f (us ! i)"
proof (rule that)
  show us: "us = take i us @ us ! i # drop (Suc i) us" and "length (take i us) = i"
    using assms(2) by (simp_all add: id_take_nth_drop)
  have "distinct (map f (take i us) @ f (us ! i) # map f (drop (Suc i) us))"
    using assms(1) us by (metis list.simps(9) map_append)
  then show "\<forall>e \<in> set (take i us). f e \<noteq> f (us ! i)" "\<forall>e \<in> set (drop (Suc i) us). f e \<noteq> f (us ! i)"
    by (metis (no_types, lifting) distinct.simps(2) distinct_append image_eqI list.set_map
        disjoint_iff list.set_intros(1))+
qed

lemma select_urls_at:
  assumes "distinct (map as_url us)" "i < length us"
  shows "select_urls (as_url (us ! i)) (enumerate 0 us) (tb, s) =
           map_option (Pair (tb\<lparr>tb_selectedIndex := i\<rparr>)) (setSearch (us ! i) s)"
proof -
  obtain xs ys where us: "us = xs @ us ! i # ys" "length xs = i"
    and ne: "\<forall>e \<in> set xs. as_url e \<noteq> as_url (us ! i)" "\<forall>e \<in> set ys. as_url e \<noteq> as_url (us ! i)"
    using distinct_splitE [OF assms] by metis
  have "select_urls (as_url (us ! i)) (enumerate 0 (xs @ us ! i # ys)) (tb, s) =
      map_option (Pair (tb\<lparr>tb_selectedIndex := i\<rparr>)) (setSearch (us ! i) s)"
    using ne us(2)
    by (simp add: enumerate_append_eq select_urls_append select_urls_none map_option_case
        Option.bind_def split: option.splits)
  then show ?thesis
    by (simp only: us(1) [symmetric])
qed

lemma fold_index_none:
  "\<forall>e \<in> set us. as_name e \<noteq> n \<Longrightarrow>
   fold (\<lambda>(i, spec) r. if as_name spec = n then i else r) (enumerate k us) r = r"
  by (induction us arbitrary: k) auto

lemma fold_index_at:
  assumes "distinct (map as_name us)" "i < length us"
  shows "fold (\<lambda>(j, spec) r. if as_name spec = as_name (us ! i) then j else r) (enumerate 0 us) r = i"
proof -
  obtain xs ys where us: "us = xs @ us ! i # ys" "length xs = i"
    and ne: "\<forall>e \<in> set xs. as_name e \<noteq> as_name (us ! i)" "\<forall>e \<in> set ys. as_name e \<noteq> as_name (us ! i)"
    using distinct_splitE [OF assms] by metis
  have "fold (\<lambda>(j, spec) r. if as_name spec = as_name (us ! i) then j else r)
      (enumerate 0 (xs @ us ! i # ys)) r = i"
    using ne us(2) by (simp add: enumerate_append_eq fold_index_none)
  then show ?thesis
    by (simp only: us(1) [symmetric])
qed

lemma query_over_set:
  "k \<noteq> primaryName_key \<Longrightarrow> query_over (js_set primaryName_key n q) k v = query_over q k v"
  by (simp add: query_over_def)

lemma other_keys [simp]:
  "js ''config'' \<noteq> primaryName_key" "js ''configUrl'' \<noteq> primaryName_key" "js ''urls'' \<noteq> primaryName_key"
  "js ''persistAuthorization'' \<noteq> primaryName_key"
  by (simp_all add: primaryName_key_def js_def)

text \<open>With the option on, a name written to the query string is the primary name of the next
  start, and nothing else of the start changes; with the option off the query is not read.\<close>

lemma SwaggerUI_primaryName:
  assumes "uo_queryConfigEnabled opts" and "parseSearch search = Some q"
    and "SwaggerUI opts search = Some (StartWith c)"
    and "parseSearch search' = Some (js_set primaryName_key n q)"
  shows "SwaggerUI opts search' = Some (StartWith (c\<lparr>tc_primaryName := n\<rparr>))"
proof -
  have "merged_configs (uo_configs opts) (js_set primaryName_key n q) =
      merged_configs (uo_configs opts) q\<lparr>tc_primaryName := n\<rparr>"
    by (simp add: merged_configs_def query_over_def)
  then show ?thesis
    using assms
    by (auto simp: SwaggerUI_def queryConfig_def query_over_set Let_def split: if_splits option.splits)
qed

lemma SwaggerUI_no_query:
  "\<not> uo_queryConfigEnabled opts \<Longrightarrow> SwaggerUI opts search =
     Some (if uo_configUrl opts \<noteq> [] then FetchConfig (uo_configUrl opts) else StartWith (uo_configs opts))"
  by (simp add: SwaggerUI_def queryConfig_def query_over_def merged_configs_def)

text \<open>C32: A definition chosen in the top bar survives a reload of the page exactly when the page
  was configured to read its query string.  A page that started from a query string (up to a
  primary name written since) has definitions with different URLs and names; choosing the URL of
  the i-th one makes i the selected index and writes its name to the query string.  With
  queryConfigEnabled the page that starts with that query string mounts with index i selected and
  loads the same URL.  Without it, as in the shipped index.html and by default, the query string
  is not read: the page starts with the primary name of its options, whatever was chosen.\<close>

theorem topbar_reload:
  assumes "SwaggerUI opts search = Some (StartWith (c\<lparr>tc_primaryName := p\<rparr>))"
    and "distinct (map as_url (tc_urls c))" and "distinct (map as_name (tc_urls c))"
    and "i < length (tc_urls c)"
    and "as_url (tc_urls c ! i) \<noteq> []" and "as_name (tc_urls c ! i) \<noteq> []"
    and "js_ok search" and "js_ok (as_name (tc_urls c ! i))"
    and "onUrlSelect c (as_url (tc_urls c ! i)) (tb, search) = Some (calls, tb', search')"
  shows "tb_selectedIndex tb' = i \<and> calls = loadSpec c (as_url (tc_urls c ! i)) \<and>
    (\<exists>q. parseSearch search = Some q \<and>
       parseSearch search' = Some (js_set primaryName_key (as_name (tc_urls c ! i)) q)) \<and>
    (\<exists>c'. SwaggerUI opts search' = Some (StartWith c') \<and>
       (if uo_queryConfigEnabled opts
        then componentDidMount c' (topbar_new url0) = Some (calls, \<lparr>tb_url = url0, tb_selectedIndex = i\<rparr>)
        else c' = uo_configs opts))"
proof -
  let ?spec = "tc_urls c ! i"
  let ?c' = "if uo_queryConfigEnabled opts then c\<lparr>tc_primaryName := as_name ?spec\<rparr> else uo_configs opts"
  have ne: "tc_urls c \<noteq> []" using assms(4) by auto
  have sel: "setSearch ?spec search = Some search'" "tb' = tb\<lparr>tb_selectedIndex := i\<rparr>"
    "calls = loadSpec c (as_url ?spec)"
    using assms(9) ne assms(5)
    by (auto simp: onUrlSelect_def setSelectedUrl_def select_urls_at [OF assms(2,4)])
  obtain q where q: "parseSearch search = Some q"
    "parseSearch search' = Some (js_set primaryName_key (as_name ?spec) q)"
    using setSearchE [OF sel(1) assms(7,8)] by metis
  have "SwaggerUI opts search' = Some (StartWith ?c')"
    using SwaggerUI_primaryName [OF _ q(1) assms(1) q(2)] assms(1)
      SwaggerUI_no_query [of opts search] SwaggerUI_no_query [of opts search']
    by (cases "uo_queryConfigEnabled opts") (auto split: if_splits)
  moreover have "componentDidMount (c\<lparr>tc_primaryName := as_name ?spec\<rparr>) (topbar_new url0) =
      Some (calls, \<lparr>tb_url = url0, tb_selectedIndex = i\<rparr>)"
    using ne assms(4,6) sel(3)
    by (simp add: componentDidMount_def topbar_new_def Let_def fold_index_at [OF assms(3,4)] loadSpec_def)
  ultimately show ?thesis
    using sel q by auto
qed

text \<open>Two definitions, and a page that reads its query string or does not.\<close>

definition ex_configs :: topbar_configs where
  "ex_configs =
     \<lparr>tc_urls = [\<lparr>as_url = js ''./a.json'', as_name = js ''A''\<rparr>, ex_spec],
      tc_primaryName = js ''A'', tc_persistAuthorization = False\<rparr>"

definition ex_options :: "bool \<Rightarrow> ui_options" where
  "ex_options b = \<lparr>uo_queryConfigEnabled = b, uo_configUrl = [], uo_configs = ex_configs\<rparr>"

lemma ex_start: "SwaggerUI (ex_options b) ex_search = Some (StartWith (ex_configs\<lparr>tc_primaryName := js ''A''\<rparr>))"
proof -
  have "parseSearch ex_search = Some [(js ''7'', []), (js ''a'', [38, 55357, 56832])]"
    using ex_decode
    by (simp add: parseSearch_def ex_search_def js_def Let_def decode_plain param_value_def
        js_set_def proto_key_def array_index_def decimal.simps key_before_def)
  then show ?thesis
    by (simp add: SwaggerUI_def queryConfig_def query_over_def merged_configs_def ex_options_def
        ex_configs_def js_def primaryName_key_def)
qed

theorem topbar_reload_witness:
  "(\<exists>c. SwaggerUI (ex_options True) ex_search' = Some (StartWith c) \<and>
     componentDidMount c (topbar_new []) =
       Some (loadSpec ex_configs (as_url ex_spec), \<lparr>tb_url = [], tb_selectedIndex = 1\<rparr>)) \<and>
   SwaggerUI (ex_options False) ex_search' = Some (StartWith ex_configs) \<and>
   tc_primaryName ex_configs = js ''A'' \<and> as_name ex_spec = js ''K & k='' @ [233]"
proof -
  have sel: "onUrlSelect ex_configs (as_url (tc_urls ex_configs ! 1)) (topbar_new [], ex_search) =
      Some (loadSpec ex_configs (as_url ex_spec), \<lparr>tb_url = [], tb_selectedIndex = 1\<rparr>, ex_search')"
    by (simp add: onUrlSelect_def setSelectedUrl_def ex_configs_def ex_setSearch topbar_new_def)
      (simp add: ex_spec_def js_def ex_setSearch)
  have c: "distinct (map as_url (tc_urls ex_configs))" "distinct (map as_name (tc_urls ex_configs))"
    "1 < length (tc_urls ex_configs)" "as_url (tc_urls ex_configs ! 1) \<noteq> []"
    "as_name (tc_urls ex_configs ! 1) \<noteq> []" "js_ok ex_search" "js_ok (as_name (tc_urls ex_configs ! 1))"
    by (simp_all add: ex_configs_def ex_spec_def ex_search_def js_def)
  note r = topbar_reload [OF ex_start c sel, of _ "[]"]
  show ?thesis
    using r [of True] r [of False] by (simp add: ex_options_def ex_configs_def ex_spec_def)
qed

end
