(* ===== verification/SwaggerUtils.thy ===== *)
theory SwaggerUtils
  imports JsStrings
begin

text \<open>
  Functions of swagger-ui's core/utils module, as minified on line 2 of the bundles: the
  conversion of multipart form data with repeated keys (\<open>createObjWithHashedKeys\<close>,
  swagger-ui.js), \<open>deeplyStripKey\<close> (swagger-ui-es-bundle.js) and the PKCE code verifier of the
  OAuth2 flow (\<open>generateCodeVerifier\<close>, swagger-ui-es-bundle-core.js).
\<close>

section \<open>Form data with repeated keys\<close>

text \<open>A value of a form entry: a string, or a File (its identity), which is always truthy.\<close>

datatype form_value = FormString js_string | FormFile nat

fun truthy :: "form_value \<Rightarrow> bool" where
  "truthy (FormString s) \<longleftrightarrow> s \<noteq> []"
| "truthy (FormFile _) \<longleftrightarrow> True"

type_synonym form_entries = "(js_string \<times> form_value) list"

record track_key =
  containsMultiple :: bool
  track_length :: nat

definition hashIdx :: js_string where
  "hashIdx = js ''_**[]''"

definition hashed_key :: "js_string \<Rightarrow> nat \<Rightarrow> js_string" where
  "hashed_key k n = k @ hashIdx @ decimal n"

text \<open>
  \<open>newObj\<close> and \<open>trackKeys\<close> are object literals, so a key of \<open>Object.prototype\<close> reads an
  inherited function, which is truthy; the module is strict code, so the update of that
  function's \<open>length\<close> throws a TypeError (\<open>None\<close>).  For the key \<open>__proto__\<close> the update
  would write to \<open>Object.prototype\<close> itself; it is refused here like the other keys, and the
  properties exclude it.
\<close>

definition object_prototype_keys :: "js_string list" where
  "object_prototype_keys =
     map js [''constructor'', ''__defineGetter__'', ''__defineSetter__'', ''hasOwnProperty'',
       ''__lookupGetter__'', ''__lookupSetter__'', ''isPrototypeOf'', ''propertyIsEnumerable'',
       ''toString'', ''valueOf'', ''__proto__'', ''toLocaleString'']"

type_synonym hash_state = "form_value js_object \<times> track_key js_object"

definition hash_pair :: "js_string \<Rightarrow> form_value \<Rightarrow> hash_state \<Rightarrow> hash_state option" where
  "hash_pair k v st =
     (let (newObj, trackKeys) = st
      in if List.member object_prototype_keys k then None
         else if \<not> (case map_of newObj k of Some w \<Rightarrow> truthy w | None \<Rightarrow> False) \<and>
                 \<not> (case map_of trackKeys k of Some t \<Rightarrow> containsMultiple t | None \<Rightarrow> False)
           then Some (js_set k v newObj, trackKeys)
         else
           let (newObj1, t) =
             (case map_of trackKeys k of
                Some t \<Rightarrow> (newObj, t)
              | None \<Rightarrow>
                  (js_delete k
                     (case map_of newObj k of
                        Some w \<Rightarrow> js_set (hashed_key k 1) w newObj
                      | None \<Rightarrow> newObj),
                   \<lparr>containsMultiple = True, track_length = 1\<rparr>));
             t' = t\<lparr>track_length := track_length t + 1\<rparr>
           in Some (js_set (hashed_key k (track_length t')) v newObj1, js_set k t' trackKeys))"

fun hash_pairs :: "form_entries \<Rightarrow> hash_state \<Rightarrow> hash_state option" where
  "hash_pairs [] st = Some st"
| "hash_pairs ((k, v) # es) st = Option.bind (hash_pair k v st) (hash_pairs es)"

definition createObjWithHashedKeys :: "form_entries \<Rightarrow> form_value js_object option" where
  "createObjWithHashedKeys es = map_option fst (hash_pairs es ([], []))"

text \<open>The multimap a form is: the values of a key, in order.\<close>

definition values_of :: "form_entries \<Rightarrow> js_string \<Rightarrow> form_value list" where
  "values_of es k = map snd (filter (\<lambda>e. fst e = k) es)"

lemma values_of_simps [simp]:
  "values_of [] k = []"
  "values_of (es @ [(k', v)]) k = values_of es k @ (if k' = k then [v] else [])"
  by (simp_all add: values_of_def)

lemma js_delete_get [simp]: "map_of (js_delete k m) = (map_of m)(k := None)"
  by (induction m) (auto simp: js_delete_def fun_eq_iff)

lemma decimal_nonempty [simp]: "decimal n \<noteq> []"
  by (subst decimal.simps) simp

lemma decimal_value: "foldl (\<lambda>a c. 10 * a + (c - 48)) 0 (decimal n) = n"
proof (induction n rule: decimal.induct)
  case (1 n)
  then show ?case
    by (cases "n < 10") (simp_all add: decimal.simps [of n])
qed

lemma decimal_inj: "decimal m = decimal n \<longleftrightarrow> m = n"
  using decimal_value by metis

lemma hashed_key_form: "hashed_key k n = (k @ [95, 42, 42, 91]) @ 93 # decimal n"
  by (simp add: hashed_key_def hashIdx_def js_def)

lemma no_bracket: "93 \<notin> set (decimal n)"
  using decimal_digits by force

lemma hashed_key_inj [simp]: "hashed_key k m = hashed_key k' n \<longleftrightarrow> k = k' \<and> m = n"
proof
  assume "hashed_key k m = hashed_key k' n"
  then show "k = k' \<and> m = n"
    using append_sep_inj [OF _ no_bracket no_bracket, of "k @ [95, 42, 42, 91]" m "k' @ [95, 42, 42, 91]" n]
    by (simp add: hashed_key_form decimal_inj)
qed simp

lemma hashed_key_neq [simp]: "hashed_key k n \<noteq> k" "k \<noteq> hashed_key k n"
  by (auto simp: hashed_key_form dest: arg_cong [where f = length])

lemma hashed_key_not_proto [simp]: "hashed_key k n \<noteq> proto_key"
proof
  assume "hashed_key k n = proto_key"
  then have "93 \<in> set proto_key"
    by (metis hashed_key_form in_set_conv_decomp)
  then show False
    by (simp add: proto_key_def js_def)
qed

text \<open>The keys the properties are about: none of \<open>Object.prototype\<close>, none that looks like a
  hashed form of another.\<close>

definition plain_keys :: "js_string set \<Rightarrow> bool" where
  "plain_keys K \<longleftrightarrow>
     K \<inter> set object_prototype_keys = {} \<and> (\<forall>k \<in> K. \<forall>k' \<in> K. \<forall>n. k \<noteq> hashed_key k' n)"

text \<open>What the object must show for a multimap: a single value under its own key, repeated
  values under the numbered keys and nothing under the key itself.\<close>

definition represents :: "form_value js_object \<Rightarrow> js_string \<Rightarrow> form_value list \<Rightarrow> bool" where
  "represents m k vs \<longleftrightarrow>
     map_of m k = (if length vs = 1 then Some (vs ! 0) else None) \<and>
     (\<forall>i. map_of m (hashed_key k i) =
        (if 2 \<le> length vs \<and> 1 \<le> i \<and> i \<le> length vs then Some (vs ! (i - 1)) else None))"

definition tracks :: "track_key js_object \<Rightarrow> js_string \<Rightarrow> form_value list \<Rightarrow> bool" where
  "tracks a k vs \<longleftrightarrow>
     map_of a k =
       (if 2 \<le> length vs then Some \<lparr>containsMultiple = True, track_length = length vs\<rparr> else None)"

lemma proto_in_prototype: "proto_key \<in> set object_prototype_keys"
  by (simp add: proto_key_def object_prototype_keys_def)

text \<open>The values of a key that are kept.  The test \<open>newObj[key]\<close> takes an empty string for an
  absent value, so the empty strings before the first other value are lost, all but the last when
  there is no other value.\<close>

definition kept :: "form_value list \<Rightarrow> form_value list" where
  "kept vs =
     (if vs \<noteq> [] \<and> list_all (\<lambda>v. \<not> truthy v) vs then [last vs]
      else dropWhile (\<lambda>v. \<not> truthy v) vs)"

definition replaced :: "form_value list \<Rightarrow> bool" where
  "replaced ks \<longleftrightarrow> ks = [] \<or> (length ks = 1 \<and> \<not> truthy (hd ks))"

lemma kept_Nil [simp]: "kept [] = []"
  by (simp add: kept_def)

lemma kept_snoc: "kept (vs @ [v]) = (if replaced (kept vs) then [v] else kept vs @ [v])"
proof (cases "list_all (\<lambda>v. \<not> truthy v) vs")
  case True
  then have "dropWhile (\<lambda>v. \<not> truthy v) vs = []" "vs \<noteq> [] \<longrightarrow> \<not> truthy (last vs)"
    by (simp_all add: list_all_iff)
  then show ?thesis
    using True by (auto simp: kept_def replaced_def dropWhile_append2 list_all_iff)
next
  case False
  then obtain x where x: "x \<in> set vs" "truthy x"
    by (auto simp: list_all_iff)
  have "dropWhile (\<lambda>v. \<not> truthy v) vs \<noteq> []"
    using x by auto
  then have "truthy (hd (dropWhile (\<lambda>v. \<not> truthy v) vs))"
    using hd_dropWhile [of "\<lambda>v. \<not> truthy v" vs] by simp
  then show ?thesis
    using False x by (auto simp: kept_def replaced_def dropWhile_append1)
qed

lemma kept_truthy: "list_all truthy vs \<Longrightarrow> kept vs = vs"
  by (cases vs) (auto simp: kept_def)

text \<open>One entry, for a key whose kept values are \<open>ks k\<close>.\<close>

definition add_kept :: "js_string \<Rightarrow> form_value \<Rightarrow> (js_string \<Rightarrow> form_value list) \<Rightarrow> js_string \<Rightarrow> form_value list" where
  "add_kept k v ks = ks(k := if replaced (ks k) then [v] else ks k @ [v])"

lemma js_set_keys: "fst ` set (js_set k v m) \<subseteq> insert k (fst ` set m)"
  using image_mono [OF js_set_subset [of k v m], of fst] by simp

lemma js_delete_keys: "fst ` set (js_delete k m) \<subseteq> fst ` set m"
  by (auto simp: js_delete_def)

lemma hash_pair_step:
  assumes "plain_keys K" and "k \<in> K"
    and "\<forall>x \<in> K. represents m x (ks x) \<and> tracks a x (ks x)"
    and "ks k \<noteq> [] \<Longrightarrow> truthy (hd (ks k)) \<or> length (ks k) = 1"
    and "fst ` set m \<subseteq> K \<union> {hashed_key x i | x i. x \<in> K}"
  shows "\<exists>m' a'. hash_pair k v (m, a) = Some (m', a') \<and>
           (\<forall>x \<in> K. represents m' x (add_kept k v ks x) \<and> tracks a' x (add_kept k v ks x)) \<and>
           fst ` set m' \<subseteq> K \<union> {hashed_key x i | x i. x \<in> K}"
proof -
  have k: "k \<notin> set object_prototype_keys" "k \<noteq> proto_key"
    using assms(1,2) proto_in_prototype unfolding plain_keys_def by blast+
  have kh: "x \<noteq> hashed_key y n" if "x \<in> K" "y \<in> K" for x y n
    using assms(1) that unfolding plain_keys_def by blast
  have r: "represents m k (ks k)" "tracks a k (ks k)"
    using assms(2,3) by blast+
  let ?F = "K \<union> {hashed_key x i | x i. x \<in> K}"
  have keys: "fst ` set (js_set (hashed_key k i) w o') \<subseteq> ?F" if "fst ` set o' \<subseteq> ?F" for i w o'
    by (rule subset_trans [OF js_set_keys]) (use that assms(2) in blast)
  consider (none) "replaced (ks k)" | (one) w where "ks k = [w]" "truthy w"
    | (many) "2 \<le> length (ks k)" "\<not> replaced (ks k)"
    using assms(4) unfolding replaced_def
    by (cases "ks k" rule: list.exhaust [case_product list.exhaust [of "tl (ks k)"]]) auto
  then show ?thesis
  proof cases
    case none
    then have "hash_pair k v (m, a) = Some (js_set k v m, a)"
      using r k(1) by (cases "ks k") (auto simp: hash_pair_def represents_def tracks_def replaced_def)
    moreover have "represents (js_set k v m) x (add_kept k v ks x) \<and> tracks a x (add_kept k v ks x)"
      if "x \<in> K" for x
      using assms(3) that none k kh [OF assms(2) that] kh [OF that assms(2)]
      by (auto simp: represents_def tracks_def replaced_def add_kept_def)
    moreover have "fst ` set (js_set k v m) \<subseteq> K \<union> {hashed_key x i | x i. x \<in> K}"
      by (rule subset_trans [OF js_set_keys]) (use assms(2,5) in blast)
    ultimately show ?thesis by blast
  next
    case (one w)
    let ?m = "js_set (hashed_key k 2) v (js_delete k (js_set (hashed_key k 1) w m))"
    let ?a = "js_set k \<lparr>containsMultiple = True, track_length = 2\<rparr> a"
    have "hash_pair k v (m, a) = Some (?m, ?a)"
      using r k(1) one by (simp add: hash_pair_def represents_def tracks_def Let_def numeral_2_eq_2)
    moreover have "represents ?m x (add_kept k v ks x) \<and> tracks ?a x (add_kept k v ks x)" if "x \<in> K" for x
      using assms(3) that one k kh [OF assms(2) that] kh [OF that assms(2)]
      by (auto simp: represents_def tracks_def add_kept_def replaced_def)
    moreover have "fst ` set ?m \<subseteq> K \<union> {hashed_key x i | x i. x \<in> K}"
      by (rule keys [OF subset_trans [OF js_delete_keys keys [OF assms(5)]]])
    ultimately show ?thesis by blast
  next
    case many
    let ?n = "Suc (length (ks k))"
    let ?m = "js_set (hashed_key k ?n) v m"
    let ?a = "js_set k \<lparr>containsMultiple = True, track_length = ?n\<rparr> a"
    have "hash_pair k v (m, a) = Some (?m, ?a)"
      using r k(1) many by (simp add: hash_pair_def represents_def tracks_def Let_def)
    moreover have "represents ?m x (add_kept k v ks x) \<and> tracks ?a x (add_kept k v ks x)" if "x \<in> K" for x
      using assms(3) that many k kh [OF assms(2) that] kh [OF that assms(2)]
      by (auto simp: represents_def tracks_def nth_append add_kept_def)
    moreover note keys [OF assms(5)]
    ultimately show ?thesis by blast
  qed
qed

lemma hash_pairs_snoc:
  "hash_pairs (es @ [(k, v)]) st = Option.bind (hash_pairs es st) (hash_pair k v)"
proof (induction es arbitrary: st)
  case Nil
  then show ?case by (cases "hash_pair k v st") auto
next
  case (Cons e es)
  then show ?case
    by (cases e) (auto simp: Option.bind_assoc intro!: Option.bind_cong)
qed

lemma kept_first:
  assumes "kept vs \<noteq> []"
  shows "truthy (hd (kept vs)) \<or> length (kept vs) = 1"
proof (cases "list_all (\<lambda>v. \<not> truthy v) vs")
  case False
  then show ?thesis
    using assms hd_dropWhile [of "\<lambda>v. \<not> truthy v" vs] by (simp add: kept_def)
qed (use assms in \<open>auto simp: kept_def split: if_splits\<close>)

lemma hash_pairs_represents:
  assumes "plain_keys K"
  shows "fst ` set es \<subseteq> K \<Longrightarrow>
     \<exists>m a. hash_pairs es ([], []) = Some (m, a) \<and>
       (\<forall>x \<in> K. represents m x (kept (values_of es x)) \<and> tracks a x (kept (values_of es x))) \<and>
       fst ` set m \<subseteq> K \<union> {hashed_key x i | x i. x \<in> K}"
proof (induction es rule: rev_induct)
  case Nil
  then show ?case by (simp add: represents_def tracks_def)
next
  case (snoc e es)
  obtain k v where e: "e = (k, v)" by (cases e)
  obtain m a where m: "hash_pairs es ([], []) = Some (m, a)"
    "\<forall>x \<in> K. represents m x (kept (values_of es x)) \<and> tracks a x (kept (values_of es x))"
    "fst ` set m \<subseteq> K \<union> {hashed_key x i | x i. x \<in> K}"
    using snoc by auto
  have k: "k \<in> K"
    using snoc.prems e by auto
  have ks: "add_kept k v (\<lambda>x. kept (values_of es x)) = (\<lambda>x. kept (values_of (es @ [(k, v)]) x))"
    by (auto simp: add_kept_def fun_eq_iff kept_snoc)
  obtain m' a' where "hash_pair k v (m, a) = Some (m', a')"
    "\<forall>x \<in> K. represents m' x (kept (values_of (es @ [(k, v)]) x)) \<and>
       tracks a' x (kept (values_of (es @ [(k, v)]) x))"
    "fst ` set m' \<subseteq> K \<union> {hashed_key x i | x i. x \<in> K}"
    using hash_pair_step [OF assms k, of m "\<lambda>x. kept (values_of es x)" a v] m(2,3) kept_first
    unfolding ks by blast
  then show ?case
    using m(1) e by (simp add: hash_pairs_snoc)
qed

lemma hash_pairs_prototype:
  "k \<in> fst ` set es \<Longrightarrow> k \<in> set object_prototype_keys \<Longrightarrow> hash_pairs es st = None"
proof (induction es arbitrary: st)
  case (Cons e es)
  then show ?case
    by (cases e; cases st) (auto simp: hash_pair_def Option.bind_def split: option.split)
qed simp

text \<open>C34: What an object made of form data holds, for all entries whose keys are not the hashed
  form of one another.  Without a key of Object.prototype the conversion succeeds: a key with one
  kept value is bound to it, the i-th of several kept values of a key is bound to the key followed
  by the marker and i with nothing left under the key itself, and the object has no other keys.
  All values of a key are kept when they are non-empty strings or files; empty strings before the
  first such value of their key are lost, and of empty strings alone the last one is kept.  With a
  key of Object.prototype among the entries (constructor, toString and so on, __proto__ apart) the
  conversion throws.\<close>

theorem createObjWithHashedKeys_refines:
  "(plain_keys (fst ` set es) \<longrightarrow>
      (\<exists>m. createObjWithHashedKeys es = Some m \<and>
         (\<forall>k \<in> fst ` set es. represents m k (kept (values_of es k)) \<and>
            (list_all truthy (values_of es k) \<longrightarrow> kept (values_of es k) = values_of es k)) \<and>
         fst ` set m \<subseteq> fst ` set es \<union> {hashed_key k i | k i. k \<in> fst ` set es})) \<and>
   (\<forall>k \<in> fst ` set es. k \<in> set object_prototype_keys \<and> k \<noteq> proto_key \<longrightarrow>
      createObjWithHashedKeys es = None)"
proof (intro conjI impI ballI)
  assume "plain_keys (fst ` set es)"
  from hash_pairs_represents [OF this subset_refl]
  show "\<exists>m. createObjWithHashedKeys es = Some m \<and>
      (\<forall>k \<in> fst ` set es. represents m k (kept (values_of es k)) \<and>
         (list_all truthy (values_of es k) \<longrightarrow> kept (values_of es k) = values_of es k)) \<and>
      fst ` set m \<subseteq> fst ` set es \<union> {hashed_key k i | k i. k \<in> fst ` set es}"
    by (auto simp: createObjWithHashedKeys_def kept_truthy)
next
  fix k assume "k \<in> fst ` set es" "k \<in> set object_prototype_keys \<and> k \<noteq> proto_key"
  then show "createObjWithHashedKeys es = None"
    by (simp add: createObjWithHashedKeys_def hash_pairs_prototype)
qed

text \<open>A repeated key, a file, and a key whose first value is empty.\<close>

definition ex_form :: form_entries where
  "ex_form = [(js ''f'', FormString (js ''apple'')), (js ''g'', FormFile 3), (js ''h'', FormString []),
     (js ''f'', FormString (js ''fig'')), (js ''h'', FormString (js ''x'')), (js ''f'', FormString [])]"

definition ex_proto_form :: form_entries where
  "ex_proto_form = [(js ''f'', FormString (js ''apple'')), (js ''toString'', FormFile 3)]"

theorem createObjWithHashedKeys_refines_witness:
  "(\<exists>m. createObjWithHashedKeys ex_form = Some m \<and>
     represents m (js ''f'') [FormString (js ''apple''), FormString (js ''fig''), FormString []] \<and>
     represents m (js ''g'') [FormFile 3] \<and> represents m (js ''h'') [FormString (js ''x'')]) \<and>
   createObjWithHashedKeys ex_proto_form = None"
proof -
  have len: "length (hashed_key k n) \<noteq> 1" for k n
    by (simp add: hashed_key_form)
  have "k \<noteq> hashed_key k' n" if "length k = 1" for k k' n
    using len that by metis
  then have k: "plain_keys (fst ` set ex_form)"
    by (simp add: plain_keys_def ex_form_def object_prototype_keys_def js_def)
  have vs: "kept (values_of ex_form (js ''f'')) = [FormString (js ''apple''), FormString (js ''fig''), FormString []]"
    "kept (values_of ex_form (js ''g'')) = [FormFile 3]" "kept (values_of ex_form (js ''h'')) = [FormString (js ''x'')]"
    "js ''f'' \<in> fst ` set ex_form" "js ''g'' \<in> fst ` set ex_form" "js ''h'' \<in> fst ` set ex_form"
    by (simp_all add: ex_form_def values_of_def kept_def js_def)
  have "js ''toString'' \<in> fst ` set ex_proto_form" "js ''toString'' \<in> set object_prototype_keys"
    "js ''toString'' \<noteq> proto_key"
    by (simp_all add: ex_proto_form_def object_prototype_keys_def proto_key_def js_def)
  then have "createObjWithHashedKeys ex_proto_form = None"
    using conjunct2 [OF createObjWithHashedKeys_refines [of ex_proto_form]] by blast
  moreover obtain m where "createObjWithHashedKeys ex_form = Some m"
    "\<forall>k \<in> fst ` set ex_form. represents m k (kept (values_of ex_form k))"
    using conjunct1 [OF createObjWithHashedKeys_refines [of ex_form]] k by blast
  ultimately show ?thesis
    unfolding vs(1-3) [symmetric] using vs(4-6) by blast
qed

text \<open>An empty string is lost when its key occurs again: the empty value is taken for a
  missing one (the test is the truthiness of \<open>newObj[key]\<close>), so the next value of the key
  overwrites it and the result is that of the form without the empty entry.\<close>

lemma empty_value_lost:
  assumes "k \<notin> set object_prototype_keys"
  shows "createObjWithHashedKeys ((k, FormString []) # (k, v) # es) = createObjWithHashedKeys ((k, v) # es)"
proof -
  have "k \<noteq> proto_key"
    using assms proto_in_prototype by blast
  then show ?thesis
    using assms by (simp add: createObjWithHashedKeys_def hash_pair_def js_set_def)
qed

lemma empty_value_lost_witness:
  "createObjWithHashedKeys [(js ''a'', FormString []), (js ''a'', FormString (js ''x''))] =
     Some [(js ''a'', FormString (js ''x''))]"
proof -
  have "js ''a'' \<notin> set object_prototype_keys"
    by (simp add: object_prototype_keys_def js_def)
  from empty_value_lost [OF this] show ?thesis
    by (simp add: createObjWithHashedKeys_def hash_pair_def object_prototype_keys_def js_def
        js_set_def proto_key_def)
qed

section \<open>PKCE code verifiers\<close>

text \<open>\<open>Buffer.toString("base64")\<close> (RFC 4648) of a list of octets.\<close>

definition base64_digit :: "nat \<Rightarrow> nat" where
  "base64_digit n =
     (if n < 26 then 65 + n else if n < 52 then 71 + n else if n < 62 then n - 4
      else if n = 62 then 43 else 47)"

fun base64 :: "nat list \<Rightarrow> js_string" where
  "base64 [] = []"
| "base64 [a] = [base64_digit (a div 4), base64_digit (a mod 4 * 16), 61, 61]"
| "base64 [a, b] =
     [base64_digit (a div 4), base64_digit (a mod 4 * 16 + b div 16), base64_digit (b mod 16 * 4), 61]"
| "base64 (a # b # c # bs) =
     base64_digit (a div 4) # base64_digit (a mod 4 * 16 + b div 16) #
     base64_digit (b mod 16 * 4 + c div 64) # base64_digit (c mod 64) # base64 bs"

definition replace_all :: "nat \<Rightarrow> js_string \<Rightarrow> js_string \<Rightarrow> js_string" where
  "replace_all c r s = concat (map (\<lambda>x. if x = c then r else [x]) s)"

definition b64toB64UrlEncoded :: "js_string \<Rightarrow> js_string" where
  "b64toB64UrlEncoded s =
     replace_all 61 [] (replace_all 47 (js ''_'') (replace_all 43 (js ''-'') s))"

text \<open>The argument is what \<open>randomBytes(32)\<close> returned.\<close>

definition generateCodeVerifier :: "nat list \<Rightarrow> js_string" where
  "generateCodeVerifier bytes = b64toB64UrlEncoded (base64 bytes)"

text \<open>\<open>sha256\<close> is the digest of the sha.js package.\<close>

definition createCodeChallenge :: "(js_string \<Rightarrow> nat list) \<Rightarrow> js_string \<Rightarrow> js_string" where
  "createCodeChallenge sha256 codeVerifier = b64toB64UrlEncoded (base64 (sha256 codeVerifier))"

definition url_digit :: "nat \<Rightarrow> nat" where
  "url_digit n =
     (if n < 26 then 65 + n else if n < 52 then 71 + n else if n < 62 then n - 4
      else if n = 62 then 45 else 95)"

definition verifier_char :: "nat \<Rightarrow> bool" where
  "verifier_char c \<longleftrightarrow>
     (48 \<le> c \<and> c \<le> 57) \<or> (65 \<le> c \<and> c \<le> 90) \<or> (97 \<le> c \<and> c \<le> 122) \<or> c = 45 \<or> c = 95"

lemma b64url_simps [simp]:
  "b64toB64UrlEncoded [] = []"
  "b64toB64UrlEncoded (61 # s) = b64toB64UrlEncoded s"
  "n < 64 \<Longrightarrow> b64toB64UrlEncoded (base64_digit n # s) = url_digit n # b64toB64UrlEncoded s"
  by (auto simp: b64toB64UrlEncoded_def replace_all_def js_def base64_digit_def url_digit_def)

lemma url_digit_char: "n < 64 \<Longrightarrow> verifier_char (url_digit n)"
  by (auto simp: url_digit_def verifier_char_def)

lemma url_digit_inj: "m < 64 \<Longrightarrow> n < 64 \<Longrightarrow> url_digit m = url_digit n \<longleftrightarrow> m = n"
  by (auto simp: url_digit_def split: if_splits)

fun octets64 :: "nat list \<Rightarrow> nat list" where
  "octets64 [] = []"
| "octets64 [a] = [a div 4, a mod 4 * 16]"
| "octets64 [a, b] = [a div 4, a mod 4 * 16 + b div 16, b mod 16 * 4]"
| "octets64 (a # b # c # bs) =
     a div 4 # (a mod 4 * 16 + b div 16) # (b mod 16 * 4 + c div 64) # c mod 64 # octets64 bs"

lemma sextet: "(a::nat) < 256 \<Longrightarrow> a div 4 < 64" "a mod 4 * 16 < 64"
proof -
  have "a mod 4 < 4" by simp
  then show "a mod 4 * 16 < 64" by linarith
qed simp

lemma sextets:
  assumes "(a::nat) < 256" "b < 256"
  shows "a mod 4 * 16 + b div 16 < 64" "b mod 16 * 4 < 64" "b mod 16 * 4 + a div 64 < 64"
proof -
  have "a mod 4 < 4" "b div 16 < 16" "b mod 16 < 16" "a div 64 < 4" "a div 4 < 64"
    using assms by simp_all
  then show "a mod 4 * 16 + b div 16 < 64" "b mod 16 * 4 < 64" "b mod 16 * 4 + a div 64 < 64"
    by linarith+
qed

lemma verifier_octets:
  "\<forall>b \<in> set bs. b < 256 \<Longrightarrow>
   b64toB64UrlEncoded (base64 bs) = map url_digit (octets64 bs) \<and> (\<forall>n \<in> set (octets64 bs). n < 64)"
  by (induction bs rule: octets64.induct) (simp_all add: sextet sextets)

lemma div_mod_eqI: "(a::nat) div n = b div n \<Longrightarrow> a mod n = b mod n \<Longrightarrow> a = b"
  by (metis div_mult_mod_eq)

lemma digits_eq:
  assumes "p * n + q = p' * n + q'" "q < n" "q' < (n::nat)"
  shows "p = p' \<and> q = q'"
proof -
  have "(p * n + q) div n = p" "(p' * n + q') div n = p'"
    using assms(2,3) by simp_all
  with assms(1) show ?thesis by simp
qed

lemma octets64_inj:
  "length bs = length cs \<Longrightarrow> \<forall>b \<in> set bs. b < 256 \<Longrightarrow> \<forall>c \<in> set cs. c < 256 \<Longrightarrow>
   octets64 bs = octets64 cs \<Longrightarrow> bs = cs"
proof (induction bs arbitrary: cs rule: octets64.induct)
  case 1
  then show ?case by simp
next
  case (2 a)
  then obtain x where "cs = [x]" by (cases cs) auto
  with 2 show ?case by (auto intro: div_mod_eqI [of a 4 x])
next
  case (3 a b)
  then obtain x y where cs: "cs = [x, y]" by (cases cs rule: octets64.cases) auto
  with 3 have "a mod 4 = x mod 4 \<and> b div 16 = y div 16"
    by (intro digits_eq [where n = 16]) (simp_all add: div_less_iff_less_mult)
  with 3 cs show ?case by (auto intro: div_mod_eqI [of a 4 x] div_mod_eqI [of b 16 y])
next
  case (4 a b c bs)
  then obtain x y z ds where cs: "cs = x # y # z # ds"
    by (cases cs rule: octets64.cases) auto
  with 4 have ab: "a mod 4 = x mod 4 \<and> b div 16 = y div 16"
    by (intro digits_eq [where n = 16]) (simp_all add: div_less_iff_less_mult)
  from 4 cs have bc: "b mod 16 = y mod 16 \<and> c div 64 = z div 64"
    by (intro digits_eq [where n = 4]) (simp_all add: div_less_iff_less_mult)
  have "a = x" "b = y" "c = z"
    using 4 cs ab bc
    by (auto intro: div_mod_eqI [of a 4 x] div_mod_eqI [of b 16 y] div_mod_eqI [of c 64 z])
  moreover have "bs = ds"
    using 4 cs by simp
  ultimately show ?case using cs by simp
qed

lemma octets64_length: "length (octets64 bs) = (length bs * 4 + 2) div 3"
  by (induction bs rule: octets64.induct) auto

text \<open>A code verifier made from 32 random octets has the form RFC 7636 asks for: 43
  characters, all letters, digits, hyphen or underscore (no padding, nothing that needs
  escaping in a URL), and different random octets give different verifiers.\<close>

lemma generateCodeVerifier_correct:
  assumes "length bs = 32" and "\<forall>b \<in> set bs. b < 256"
  shows "length (generateCodeVerifier bs) = 43 \<and> (\<forall>c \<in> set (generateCodeVerifier bs). verifier_char c) \<and>
    (\<forall>cs. length cs = 32 \<and> (\<forall>b \<in> set cs. b < 256) \<and>
       generateCodeVerifier cs = generateCodeVerifier bs \<longrightarrow> cs = bs)"
proof (intro conjI allI impI)
  note v = verifier_octets [OF assms(2)]
  show "length (generateCodeVerifier bs) = 43"
    using v by (simp add: generateCodeVerifier_def octets64_length assms(1))
  show "\<forall>c \<in> set (generateCodeVerifier bs). verifier_char c"
    using v url_digit_char by (simp add: generateCodeVerifier_def)
  fix cs
  assume c: "length cs = 32 \<and> (\<forall>b \<in> set cs. b < 256) \<and> generateCodeVerifier cs = generateCodeVerifier bs"
  then have w: "\<forall>b \<in> set cs. b < 256" "map url_digit (octets64 cs) = map url_digit (octets64 bs)"
    using v verifier_octets [of cs] by (simp_all add: generateCodeVerifier_def)
  have "inj_on url_digit (set (octets64 cs) \<union> set (octets64 bs))"
    using v verifier_octets [OF w(1)] url_digit_inj by (auto simp: inj_on_def)
  then have "octets64 cs = octets64 bs"
    using w(2) by (simp add: inj_on_map_eq_map)
  then show "cs = bs"
    using octets64_inj w(1) assms c by simp
qed

lemma generateCodeVerifier_correct_witness:
  "length (generateCodeVerifier (replicate 32 255)) = 43 \<and>
   list_all verifier_char (generateCodeVerifier (replicate 32 255)) \<and>
   generateCodeVerifier (replicate 32 254) \<noteq> generateCodeVerifier (replicate 32 255)"
proof -
  have ok: "length (replicate 32 (n::nat)) = 32" "n < 256 \<Longrightarrow> \<forall>b \<in> set (replicate 32 n). b < 256" for n
    by simp_all
  have g: "length (generateCodeVerifier (replicate 32 255)) = 43 \<and>
      (\<forall>c \<in> set (generateCodeVerifier (replicate 32 255)). verifier_char c) \<and>
      (\<forall>cs. length cs = 32 \<and> (\<forall>b \<in> set cs. b < 256) \<and>
         generateCodeVerifier cs = generateCodeVerifier (replicate 32 255) \<longrightarrow> cs = replicate 32 255)"
    by (rule generateCodeVerifier_correct [OF ok]) simp
  have "replicate 32 (254::nat) \<noteq> replicate 32 255"
    by (simp only: replicate_eq_replicate) simp
  moreover have "254 < (256::nat)" by simp
  note ok(1) [of 254] ok(2) [OF this]
  ultimately show ?thesis using g unfolding list_all_iff by blast
qed

end
