(* ===== verification/SwaggerOAuth.thy ===== *)
theory SwaggerOAuth
  imports SwaggerUrl SwaggerSearch SwaggerUtils
begin

text \<open>
  The OAuth2 dialog of swagger-ui (swagger-ui.js, line 2): the function of the Auth component
  that sends the browser to the authorization URL, and the changes of the chosen scopes.  A
  thrown exception is a completion of its own, with the state at the throw.  The digest, the
  random octets, the date and the url-parse package are arguments.
\<close>

section \<open>Data\<close>

datatype js_scopes = ScopesArray "js_string list" | ScopesList "js_string list" | ScopesOther

text \<open>The state of the component, which is the object \<open>auth\<close> of the flow; \<open>None\<close> is a value
  that is not a string.  A schema without a flow has the empty one, which no case names.\<close>

record oauth_auth =
  au_name :: js_string
  au_flow :: js_string
  au_authorizationUrl :: js_string
  au_tokenUrl :: js_string
  au_scopes :: js_scopes
  au_clientId :: "js_string option"
  au_clientSecret :: "js_string option"
  au_username :: js_string
  au_password :: js_string
  au_passwordType :: js_string
  au_codeVerifier :: "js_string option"
  au_code :: "js_string option"

text \<open>\<open>authConfigs\<close>, set by \<open>initOAuth\<close>; an empty separator is a missing one, and an additional
  parameter may be undefined.\<close>

record oauth_configs =
  oc_scopeSeparator :: js_string
  oc_realm :: "js_string option"
  oc_usePkce :: bool
  oc_useBasicAuthentication :: bool
  oc_additionalQueryStringParams :: "js_string option js_object"

record oauth_env =
  oe_configs :: oauth_configs
  oe_oauth2RedirectUrl :: "js_string option"
  oe_currentServer :: js_string
  oe_date :: js_string
  oe_randomBytes :: "nat list"
  oe_sha256 :: "js_string \<Rightarrow> nat list"
  oe_urlParse :: "js_string \<Rightarrow> js_string \<Rightarrow> js_string"

datatype auth_level = Warning | Error

record auth_error =
  ae_authId :: js_string
  ae_level :: auth_level
  ae_message :: js_string

datatype oauth_callback = PreAuthorizeImplicit | AccessCodeBasic | AccessCodeForm

text \<open>\<open>window.swaggerUIRedirectOauth2\<close>; the state is deleted once a code has arrived.\<close>

record oauth_redirect =
  rd_auth :: oauth_auth
  rd_state :: "js_string option"
  rd_redirectUrl :: js_string
  rd_callback :: oauth_callback

datatype oauth_call =
    AuthorizePassword oauth_auth
  | AuthorizeApplication oauth_auth
  | NewAuthErr auth_error

record oauth_win =
  ow_auth :: oauth_auth
  ow_redirect :: "oauth_redirect option"
  ow_opened :: "js_string list"
  ow_calls :: "oauth_call list"

datatype 'a js_completion = Normal 'a | Throw 'a

section \<open>btoa\<close>

text \<open>\<open>Buffer.from(s, "utf-8")\<close>; a surrogate without its partner becomes U+FFFD.\<close>

fun buffer_utf8 :: "js_string \<Rightarrow> nat list" where
  "buffer_utf8 [] = []"
| "buffer_utf8 [c] = (if high_surrogate c \<or> low_surrogate c then [239, 191, 189] else utf8 c)"
| "buffer_utf8 (c # d # s) =
     (if high_surrogate c \<and> low_surrogate d then utf8 (surrogate_pair c d) @ buffer_utf8 s
      else (if high_surrogate c \<or> low_surrogate c then [239, 191, 189] else utf8 c) @ buffer_utf8 (d # s))"

definition btoa :: "js_string \<Rightarrow> js_string" where
  "btoa s = base64 (buffer_utf8 s)"

section \<open>The authorization request\<close>

definition code_flow :: "js_string \<Rightarrow> bool" where
  "code_flow f \<longleftrightarrow> List.member (map js [''accessCode'', ''authorizationCode'', ''authorization_code'']) f"

definition response_type :: "js_string \<Rightarrow> js_string list" where
  "response_type f =
     (if code_flow f then [js ''response_type=code'']
      else if f = js ''implicit'' then [js ''response_type=token''] else [])"

definition scope_list :: "js_scopes \<Rightarrow> js_string list" where
  "scope_list u = (case u of ScopesArray xs \<Rightarrow> xs | ScopesList xs \<Rightarrow> xs | ScopesOther \<Rightarrow> [])"

fun join_text :: "js_string \<Rightarrow> js_string list \<Rightarrow> js_string" where
  "join_text v [] = []"
| "join_text v [x] = x"
| "join_text v (x # y # ys) = x @ v @ join_text v (y # ys)"

text \<open>\<open>d.push(k + "=" + encodeURIComponent(v))\<close> for each pair; a URIError is \<open>None\<close>.\<close>

fun push_params :: "(js_string \<times> js_string) list \<Rightarrow> js_string list option" where
  "push_params [] = Some []"
| "push_params ((k, v) # ps) =
     (case encodeURIComponent v of
        None \<Rightarrow> None
      | Some e \<Rightarrow> map_option (Cons (k @ 61 # e)) (push_params ps))"

definition client_params :: "oauth_auth \<Rightarrow> (js_string \<times> js_string) list" where
  "client_params t = (case au_clientId t of None \<Rightarrow> [] | Some p \<Rightarrow> [(js ''client_id'', p)])"

definition request_params ::
  "oauth_configs \<Rightarrow> oauth_auth \<Rightarrow> js_string \<Rightarrow> js_string \<Rightarrow> (js_string \<times> js_string) list" where
  "request_params cfg t h g =
     (let m = scope_list (au_scopes t);
          v = if oc_scopeSeparator cfg = [] then [32] else oc_scopeSeparator cfg
      in [(js ''redirect_uri'', h)] @
         (if m = [] then [] else [(js ''scope'', join_text v m)]) @
         [(js ''state'', g)] @
         (case oc_realm cfg of None \<Rightarrow> [] | Some r \<Rightarrow> [(js ''realm'', r)]))"

definition use_pkce :: "oauth_configs \<Rightarrow> js_string \<Rightarrow> bool" where
  "use_pkce cfg f \<longleftrightarrow> code_flow f \<and> oc_usePkce cfg"

definition defined_params :: "js_string option js_object \<Rightarrow> js_string js_object" where
  "defined_params m = concat (map (\<lambda>(k, v). case v of None \<Rightarrow> [] | Some w \<Rightarrow> [(k, w)]) m)"

definition authorize_url :: "oauth_env \<Rightarrow> oauth_auth \<Rightarrow> js_string list \<Rightarrow> js_string" where
  "authorize_url env t d =
     (let j = au_authorizationUrl t;
          s = oe_currentServer env;
          u = utils_sanitizeUrl (Some j)
      in (if s = [] then u else oe_urlParse env u s) @
         (if List.member j 63 then 38 else 63) # join_with 38 d)"

definition authorize_callback :: "oauth_configs \<Rightarrow> js_string \<Rightarrow> oauth_callback" where
  "authorize_callback cfg f =
     (if f = js ''implicit'' then PreAuthorizeImplicit
      else if oc_useBasicAuthentication cfg then AccessCodeBasic else AccessCodeForm)"

definition no_redirect_error :: "oauth_auth \<Rightarrow> auth_error" where
  "no_redirect_error t = \<lparr>ae_authId = au_name t, ae_level = Error,
     ae_message = js ''oauth2RedirectUrl configuration is not passed. Oauth2 authorization cannot be performed.''\<rparr>"

definition oauth2_authorize :: "oauth_env \<Rightarrow> oauth_win \<Rightarrow> oauth_win js_completion" where
  "oauth2_authorize env w =
     (let t = ow_auth w; cfg = oe_configs env; f = au_flow t
      in if f = js ''password'' then Normal (w\<lparr>ow_calls := ow_calls w @ [AuthorizePassword t]\<rparr>)
         else if List.member (map js [''application'', ''clientCredentials'', ''client_credentials'']) f
           then Normal (w\<lparr>ow_calls := ow_calls w @ [AuthorizeApplication t]\<rparr>)
         else case push_params (client_params t) of
           None \<Rightarrow> Throw w
         | Some cs \<Rightarrow>
             (case oe_oauth2RedirectUrl env of
                None \<Rightarrow> Normal (w\<lparr>ow_calls := ow_calls w @ [NewAuthErr (no_redirect_error t)]\<rparr>)
              | Some h \<Rightarrow>
                  let g = btoa (oe_date env)
                  in case push_params (request_params cfg t h g) of
                       None \<Rightarrow> Throw w
                     | Some ps \<Rightarrow>
                         let y = generateCodeVerifier (oe_randomBytes env);
                             b = createCodeChallenge (oe_sha256 env) y;
                             pkce = (if use_pkce cfg f
                                     then [js ''code_challenge='' @ b, js ''code_challenge_method=S256'']
                                     else []);
                             t' = (if use_pkce cfg f then t\<lparr>au_codeVerifier := Some y\<rparr> else t);
                             w' = w\<lparr>ow_auth := t'\<rparr>
                         in case serialize_params (defined_params (oc_additionalQueryStringParams cfg)) of
                              None \<Rightarrow> Throw w'
                            | Some es \<Rightarrow>
                                Normal (w'\<lparr>
                                  ow_redirect := Some \<lparr>rd_auth = t', rd_state = Some g,
                                    rd_redirectUrl = h, rd_callback = authorize_callback cfg f\<rparr>,
                                  ow_opened := ow_opened w @
                                    [authorize_url env t' (response_type f @ cs @ ps @ pkce @ es)]\<rparr>)))"

section \<open>The scopes of the dialog\<close>

text \<open>The check boxes: a scope is appended when it is missing, and every copy of it removed.\<close>

definition onScopeChange :: "bool \<Rightarrow> js_string \<Rightarrow> js_string list \<Rightarrow> js_string list" where
  "onScopeChange checked value scopes =
     (if checked \<and> \<not> List.member scopes value then scopes @ [value]
      else if \<not> checked \<and> List.member scopes value then filter (\<lambda>x. x \<noteq> value) scopes
      else scopes)"

definition selectScopes :: "bool \<Rightarrow> js_string list \<Rightarrow> js_string list" where
  "selectScopes all allowed = (if all then allowed else [])"

lemma onScopeChange_set:
  "set (onScopeChange checked value scopes) =
     (if checked then insert value (set scopes) else set scopes - {value})"
  "distinct scopes \<Longrightarrow> distinct (onScopeChange checked value scopes)"
  by (auto simp: onScopeChange_def)

section \<open>What a server reads from the query\<close>

definition decode_pair :: "js_string \<Rightarrow> (js_string \<times> js_string) option" where
  "decode_pair p =
     (let k = takeWhile (\<lambda>c. c \<noteq> 61) p
      in case (decodeURIComponent k, decodeURIComponent (drop (Suc (length k)) p)) of
           (Some a, Some b) \<Rightarrow> Some (a, b)
         | _ \<Rightarrow> None)"

definition decode_query :: "js_string \<Rightarrow> (js_string \<times> js_string) list option" where
  "decode_query q = those (map decode_pair (split_on 38 q))"

text \<open>The parameters of the request, before any encoding.\<close>

definition authorize_pairs :: "oauth_env \<Rightarrow> oauth_auth \<Rightarrow> js_string \<Rightarrow> (js_string \<times> js_string) list" where
  "authorize_pairs env t h =
     (let cfg = oe_configs env; f = au_flow t
      in (if code_flow f then [(js ''response_type'', js ''code'')]
          else if f = js ''implicit'' then [(js ''response_type'', js ''token'')] else []) @
         client_params t @ request_params cfg t h (btoa (oe_date env)) @
         (if use_pkce cfg f
          then [(js ''code_challenge'',
                 createCodeChallenge (oe_sha256 env) (generateCodeVerifier (oe_randomBytes env))),
                (js ''code_challenge_method'', js ''S256'')]
          else []) @
         defined_params (oc_additionalQueryStringParams cfg))"

definition pairs_ok :: "(js_string \<times> js_string) list \<Rightarrow> bool" where
  "pairs_ok ps \<longleftrightarrow> list_all (\<lambda>(k, v). js_ok k \<and> js_ok v) ps"

definition plain_text :: "js_string \<Rightarrow> bool" where
  "plain_text s \<longleftrightarrow> list_all unreserved s"

text \<open>A parameter the code has encoded: the pair it stands for, and no separator inside.\<close>

definition encodes :: "js_string \<Rightarrow> js_string \<times> js_string \<Rightarrow> bool" where
  "encodes e p \<longleftrightarrow> decode_pair e = Some p \<and> (\<forall>c \<in> set e. c = 61 \<or> c = 37 \<or> unreserved c)"

lemma unreserved_not: "\<not> unreserved 38" "\<not> unreserved 61" "\<not> unreserved 37" "\<not> unreserved 58"
    "\<not> unreserved 43" "\<not> unreserved 63" "\<not> unreserved 34" "\<not> unreserved 92" "\<not> unreserved 44"
  by (auto simp: unreserved_def)

lemma plain_text_decode: "plain_text s \<Longrightarrow> decodeURIComponent s = Some s"
proof (induction s)
  case (Cons c s)
  then have "c \<noteq> 37"
    using unreserved_not(3) by (auto simp: plain_text_def)
  then show ?case
    using Cons by (simp add: decode_plain plain_text_def)
qed simp

lemma encodesI:
  assumes "encodeURIComponent v = Some e" "js_ok v" "decodeURIComponent k = Some a"
    "\<forall>c \<in> set k. c = 37 \<or> unreserved c"
  shows "encodes (k @ 61 # e) (a, v)"
proof -
  have "61 \<notin> set k"
    using assms(4) unreserved_not(2) by auto
  then have "takeWhile (\<lambda>c. c \<noteq> 61) (k @ 61 # e) = k"
    by (subst takeWhile_append2) auto
  then show ?thesis
    using assms(3,4) encode_decode [OF assms(1,2)] encode_chars [OF assms(1,2)]
    by (auto simp: encodes_def decode_pair_def Let_def)
qed

lemma encodes_plain:
  assumes "plain_text k" "plain_text v"
  shows "encodes (k @ 61 # v) (k, v)"
proof -
  have "61 \<notin> set k"
    using assms(1) unreserved_not(2) by (auto simp: plain_text_def list_all_iff)
  then have "takeWhile (\<lambda>c. c \<noteq> 61) (k @ 61 # v) = k"
    by (subst takeWhile_append2) auto
  then show ?thesis
    using assms plain_text_decode
    by (auto simp: encodes_def decode_pair_def Let_def plain_text_def list_all_iff)
qed

lemma push_params_encodes:
  "push_params ps = Some es \<Longrightarrow> pairs_ok ps \<Longrightarrow> list_all (plain_text \<circ> fst) ps \<Longrightarrow> list_all2 encodes es ps"
proof (induction ps arbitrary: es)
  case (Cons p ps)
  obtain k v where p: "p = (k, v)" by fastforce
  obtain e fs where e: "encodeURIComponent v = Some e" "push_params ps = Some fs" "es = (k @ 61 # e) # fs"
    using Cons.prems(1) p by (auto split: option.splits)
  have "encodes (k @ 61 # e) (k, v)"
    using Cons.prems(2,3) p e(1) plain_text_decode
    by (intro encodesI) (auto simp: pairs_ok_def plain_text_def list_all_iff)
  then show ?case
    using Cons.IH [OF e(2)] Cons.prems(2,3) p e(3) by (simp add: pairs_ok_def)
qed simp

lemma serialize_params_encodes:
  "serialize_params ps = Some es \<Longrightarrow> pairs_ok ps \<Longrightarrow> list_all2 encodes es ps"
proof (induction ps arbitrary: es)
  case (Cons p ps)
  obtain a b fs where e: "encodeURIComponent (fst p) = Some a" "encodeURIComponent (snd p) = Some b"
    "serialize_params ps = Some fs" "es = (a @ 61 # b) # fs"
    using Cons.prems(1) by (auto split: option.splits)
  have ok: "js_ok (fst p)" "js_ok (snd p)"
    using Cons.prems(2) by (auto simp: pairs_ok_def case_prod_beta)
  have "encodes (a @ 61 # b) (fst p, snd p)"
    using e ok encode_decode encode_chars by (intro encodesI) blast+
  then show ?case
    using Cons.IH [OF e(3)] Cons.prems(2) e(4) by (simp add: pairs_ok_def)
qed simp

lemma those_Some [simp]: "those (map Some xs) = Some xs"
  by (induction xs) auto

lemma encodes_member: "list_all2 encodes es ps \<Longrightarrow> e \<in> set es \<Longrightarrow> \<exists>p. encodes e p"
  by (induction rule: list_all2_induct) auto

lemma decode_query_encodes:
  assumes "list_all2 encodes es ps" "es \<noteq> []"
  shows "decode_query (join_with 38 es) = Some ps"
proof -
  have "\<forall>e \<in> set es. 38 \<notin> set e"
  proof
    fix e
    assume "e \<in> set es"
    then obtain p where "encodes e p"
      using encodes_member [OF assms(1)] by blast
    then show "38 \<notin> set e"
      using unreserved_not(1) by (auto simp: encodes_def)
  qed
  then have "split_on 38 (join_with 38 es) = es"
    using assms(2) by (simp add: split_join)
  moreover have "map decode_pair es = map Some ps"
    using assms(1) by (auto simp: encodes_def list_all2_conv_all_nth intro: nth_equalityI)
  ultimately show ?thesis
    by (simp add: decode_query_def)
qed


lemma base64_digit_ok [simp]: "base64_digit n < 65536"
  by (simp add: base64_digit_def) arith

lemma base64_ok: "js_ok (base64 bs)"
  by (induction bs rule: base64.induct) simp_all

lemma challenge_plain:
  assumes "\<forall>b \<in> set (sha256 v). b < 256"
  shows "plain_text (createCodeChallenge sha256 v)"
proof -
  have "verifier_char c \<Longrightarrow> unreserved c" for c
    by (auto simp: verifier_char_def unreserved_def)
  then show ?thesis
    using verifier_octets [OF assms] url_digit_char
    by (auto simp: createCodeChallenge_def plain_text_def list_all_iff)
qed

lemma literal_params:
  "plain_text (js ''client_id'')" "plain_text (js ''redirect_uri'')" "plain_text (js ''scope'')"
  "plain_text (js ''state'')" "plain_text (js ''realm'')" "plain_text (js ''code_challenge'')"
  by (simp_all add: plain_text_def js_def unreserved_def)

lemma literal_pairs:
  "encodes (js ''response_type=code'') (js ''response_type'', js ''code'')"
  "encodes (js ''response_type=token'') (js ''response_type'', js ''token'')"
  "encodes (js ''code_challenge_method=S256'') (js ''code_challenge_method'', js ''S256'')"
  "plain_text b \<Longrightarrow> encodes (js ''code_challenge='' @ b) (js ''code_challenge'', b)"
  using encodes_plain [of "js ''response_type''" "js ''code''"]
    encodes_plain [of "js ''response_type''" "js ''token''"]
    encodes_plain [of "js ''code_challenge_method''" "js ''S256''"]
    encodes_plain [of "js ''code_challenge''" b]
  by (simp_all add: plain_text_def js_def unreserved_def)

lemma request_keys_plain:
  "list_all (plain_text \<circ> fst) (client_params t)"
  "list_all (plain_text \<circ> fst) (request_params cfg t h g)"
  by (auto simp: client_params_def request_params_def literal_params Let_def split: option.split)

definition direct_flow :: "js_string \<Rightarrow> bool" where
  "direct_flow f \<longleftrightarrow>
     List.member (map js [''password'', ''application'', ''clientCredentials'', ''client_credentials'']) f"

text \<open>A normal completion with a redirect URL: the parameters that were pushed, and the state.\<close>

lemma authorize_NormalE:
  assumes "oauth2_authorize env w = Normal w'" "oe_oauth2RedirectUrl env = Some h"
    "\<not> direct_flow (au_flow (ow_auth w))" "pairs_ok (authorize_pairs env (ow_auth w) h)"
    "\<forall>v. \<forall>b \<in> set (oe_sha256 env v). b < 256"
  obtains d t' where
    "list_all2 encodes d (authorize_pairs env (ow_auth w) h)" "d \<noteq> []"
    "t' = (if use_pkce (oe_configs env) (au_flow (ow_auth w))
           then (ow_auth w)\<lparr>au_codeVerifier := Some (generateCodeVerifier (oe_randomBytes env))\<rparr>
           else ow_auth w)"
    "w' = w\<lparr>ow_auth := t',
       ow_redirect := Some \<lparr>rd_auth = t', rd_state = Some (btoa (oe_date env)), rd_redirectUrl = h,
         rd_callback = authorize_callback (oe_configs env) (au_flow (ow_auth w))\<rparr>,
       ow_opened := ow_opened w @ [authorize_url env t' d]\<rparr>"
proof -
  let ?t = "ow_auth w" and ?cfg = "oe_configs env" and ?g = "btoa (oe_date env)"
  let ?y = "generateCodeVerifier (oe_randomBytes env)"
  let ?pkce = "if use_pkce ?cfg (au_flow ?t)
    then [js ''code_challenge='' @ createCodeChallenge (oe_sha256 env) ?y,
          js ''code_challenge_method=S256''] else []"
  obtain cs ps es where e: "push_params (client_params ?t) = Some cs"
    "push_params (request_params ?cfg ?t h ?g) = Some ps"
    "serialize_params (defined_params (oc_additionalQueryStringParams ?cfg)) = Some es"
    and w': "w' = w\<lparr>ow_auth := if use_pkce ?cfg (au_flow ?t) then ?t\<lparr>au_codeVerifier := Some ?y\<rparr> else ?t,
       ow_redirect := Some \<lparr>rd_auth = if use_pkce ?cfg (au_flow ?t) then ?t\<lparr>au_codeVerifier := Some ?y\<rparr> else ?t,
         rd_state = Some ?g, rd_redirectUrl = h, rd_callback = authorize_callback ?cfg (au_flow ?t)\<rparr>,
       ow_opened := ow_opened w @ [authorize_url env
         (if use_pkce ?cfg (au_flow ?t) then ?t\<lparr>au_codeVerifier := Some ?y\<rparr> else ?t)
         (response_type (au_flow ?t) @ cs @ ps @ ?pkce @ es)]\<rparr>"
    using assms(1-3)
    by (auto simp: oauth2_authorize_def direct_flow_def Let_def split: option.splits if_splits)
  have ok: "pairs_ok (client_params ?t)" "pairs_ok (request_params ?cfg ?t h ?g)"
    "pairs_ok (defined_params (oc_additionalQueryStringParams ?cfg))"
    using assms(4) by (simp_all add: authorize_pairs_def pairs_ok_def Let_def)
  note enc = push_params_encodes [OF e(1) ok(1) request_keys_plain(1)]
    push_params_encodes [OF e(2) ok(2) request_keys_plain(2)] serialize_params_encodes [OF e(3) ok(3)]
  have "plain_text (createCodeChallenge (oe_sha256 env) ?y)"
    using challenge_plain assms(5) by blast
  then have "list_all2 encodes (response_type (au_flow ?t) @ cs @ ps @ ?pkce @ es)
      (authorize_pairs env ?t h)"
    using enc unfolding authorize_pairs_def Let_def
    by (intro list_all2_appendI) (simp_all add: response_type_def literal_pairs)
  moreover have "ps \<noteq> []"
    using e(2) by (auto simp: request_params_def Let_def split: option.splits)
  ultimately show thesis
    using that w' by auto
qed

lemma encoded_query_units:
  assumes "list_all2 encodes d ps" "c \<in> set (join_with 38 d)"
  shows "c \<noteq> 58 \<and> 32 < c"
proof -
  have "c = 38 \<or> (\<exists>e \<in> set d. c \<in> set e)"
    using assms(2) by (induction "38 :: nat" d rule: join_with.induct) auto
  moreover have "c = 61 \<or> c = 37 \<or> unreserved c" if "e \<in> set d" "c \<in> set e" for e
    using that encodes_member [OF assms(1)] by (force simp: encodes_def)
  ultimately have "c = 38 \<or> c = 61 \<or> c = 37 \<or> unreserved c"
    by blast
  then show ?thesis
    by (auto simp: unreserved_def)
qed

lemma authorize_url_no_script:
  assumes "list_all2 encodes d ps" "oe_currentServer env = []"
    "URL_scheme (authorize_url env t d) = Some v"
  shows "\<not> (\<exists>u \<in> set unsafe_schemes. is_prefix u v)"
proof -
  let ?j = "au_authorizationUrl t"
  let ?s = "if List.member ?j 63 then 38 else 63 :: nat"
  have s: "\<not> scheme_unit ?s" "?s \<noteq> 58" "32 < ?s"
    by (auto simp: scheme_unit_def alpha_unit_def digit_unit_def)
  have q: "\<forall>c \<in> set (?s # join_with 38 d). 32 < c"
    using encoded_query_units [OF assms(1)] s(3) by auto
  obtain e where e: "utils_sanitizeUrl (Some ?j) = cleaned e" "?j \<noteq> [] \<longrightarrow> cleaned e = sanitizeUrl ?j" "?j = [] \<longrightarrow> cleaned e = []"
  proof (cases "?j = []")
    case True
    then show ?thesis
      using that [of "[]"] by (simp add: utils_sanitizeUrl_def cleaned_def trim_def)
  next
    case False
    then show ?thesis
      using that [of about_blank] that [of ?j] sanitizeUrl_cases [of ?j]
      by (auto simp: utils_sanitizeUrl_def cleaned_about_blank)
  qed
  have "URL_scheme (cleaned e) = Some v"
    using assms(2,3) URL_scheme_query [OF _ s(1,2) q] e(1)
    by (simp add: authorize_url_def Let_def)
  then show ?thesis
    using e(2,3) sanitizeUrl_no_script by (cases "?j = []") (auto simp: URL_scheme_def URL_input_def)
qed

text \<open>C24: The authorization request of the OAuth2 dialog is what the flow asks for.  When the
  function completes for a flow that goes through the browser, it opens one window, whose query
  decodes to exactly the parameters of the request in their order (response type, client,
  redirect URL, scopes joined by the separator, state, realm, the PKCE challenge of a fresh
  verifier, the configured extra ones), whatever characters their values hold; the state, the
  redirect URL, the verifier and the callback that the redirect page needs are stored with it.
  The address before the query is the sanitized authorization URL of the specification, resolved
  against the server when one is selected; without a server the address has no scheme that runs
  script, whatever the specification names.\<close>

theorem authorize_request_correct:
  assumes "oauth2_authorize env w = Normal w'" "oe_oauth2RedirectUrl env = Some h"
    "\<not> direct_flow (au_flow (ow_auth w))" "pairs_ok (authorize_pairs env (ow_auth w) h)"
    "\<forall>v. \<forall>b \<in> set (oe_sha256 env v). b < 256"
  shows "\<exists>u s q. ow_opened w' = ow_opened w @ [u @ s # q] \<and> (s = 63 \<or> s = 38) \<and>
    (s = 38 \<longleftrightarrow> 63 \<in> set (au_authorizationUrl (ow_auth w))) \<and>
    u = (if oe_currentServer env = [] then utils_sanitizeUrl (Some (au_authorizationUrl (ow_auth w)))
         else oe_urlParse env (utils_sanitizeUrl (Some (au_authorizationUrl (ow_auth w)))) (oe_currentServer env)) \<and>
    decode_query q = Some (authorize_pairs env (ow_auth w) h) \<and>
    (oe_currentServer env = [] \<longrightarrow>
      (\<forall>v. URL_scheme (u @ s # q) = Some v \<longrightarrow> \<not> (\<exists>x \<in> set unsafe_schemes. is_prefix x v))) \<and>
    ow_redirect w' = Some \<lparr>rd_auth = ow_auth w', rd_state = Some (btoa (oe_date env)),
      rd_redirectUrl = h, rd_callback = authorize_callback (oe_configs env) (au_flow (ow_auth w))\<rparr> \<and>
    au_codeVerifier (ow_auth w') =
      (if use_pkce (oe_configs env) (au_flow (ow_auth w))
       then Some (generateCodeVerifier (oe_randomBytes env)) else au_codeVerifier (ow_auth w)) \<and>
    ow_calls w' = ow_calls w"
proof -
  obtain d t' where d: "list_all2 encodes d (authorize_pairs env (ow_auth w) h)" "d \<noteq> []"
    and t': "t' = (if use_pkce (oe_configs env) (au_flow (ow_auth w))
           then (ow_auth w)\<lparr>au_codeVerifier := Some (generateCodeVerifier (oe_randomBytes env))\<rparr>
           else ow_auth w)"
    and w': "w' = w\<lparr>ow_auth := t',
       ow_redirect := Some \<lparr>rd_auth = t', rd_state = Some (btoa (oe_date env)), rd_redirectUrl = h,
         rd_callback = authorize_callback (oe_configs env) (au_flow (ow_auth w))\<rparr>,
       ow_opened := ow_opened w @ [authorize_url env t' d]\<rparr>"
    by (rule authorize_NormalE [OF assms])
  have "au_authorizationUrl t' = au_authorizationUrl (ow_auth w)"
    using t' by simp
  then obtain u s where u: "authorize_url env t' d = u @ s # join_with 38 d" "s = 63 \<or> s = 38"
    "s = 38 \<longleftrightarrow> 63 \<in> set (au_authorizationUrl (ow_auth w))"
    "u = (if oe_currentServer env = [] then utils_sanitizeUrl (Some (au_authorizationUrl (ow_auth w)))
       else oe_urlParse env (utils_sanitizeUrl (Some (au_authorizationUrl (ow_auth w)))) (oe_currentServer env))"
    using that [of "if oe_currentServer env = [] then utils_sanitizeUrl (Some (au_authorizationUrl (ow_auth w)))
       else oe_urlParse env (utils_sanitizeUrl (Some (au_authorizationUrl (ow_auth w)))) (oe_currentServer env)"
      "if List.member (au_authorizationUrl (ow_auth w)) 63 then 38 else 63"]
    by (simp add: authorize_url_def Let_def)
  have "\<forall>v. URL_scheme (u @ s # join_with 38 d) = Some v \<longrightarrow>
      \<not> (\<exists>x \<in> set unsafe_schemes. is_prefix x v)" if "oe_currentServer env = []"
    using authorize_url_no_script [OF d(1) that, of t'] u(1) by metis
  then show ?thesis
    using decode_query_encodes [OF d] w' t' u(1-3)
    by (intro exI [of _ u] exI [of _ s] exI [of _ "join_with 38 d"] conjI) (simp_all add: u(4) [symmetric])
qed

definition ex_oauth_auth :: oauth_auth where
  "ex_oauth_auth = \<lparr>au_name = js ''kii'', au_flow = js ''accessCode'',
     au_authorizationUrl = js ''https://a/b?c'', au_tokenUrl = js ''https://a/t'',
     au_scopes = ScopesArray [js ''r w'', js ''x''], au_clientId = Some (js ''i&d''),
     au_clientSecret = Some (js ''s''), au_username = [], au_password = [],
     au_passwordType = js ''basic'', au_codeVerifier = None, au_code = None\<rparr>"

definition ex_oauth_env :: oauth_env where
  "ex_oauth_env = \<lparr>oe_configs = \<lparr>oc_scopeSeparator = [], oc_realm = None, oc_usePkce = True,
       oc_useBasicAuthentication = False,
       oc_additionalQueryStringParams = [(js ''p'', Some (js ''=''))]\<rparr>,
     oe_oauth2RedirectUrl = Some (js ''https://b/''), oe_currentServer = [], oe_date = js ''Mon'',
     oe_randomBytes = [0], oe_sha256 = (\<lambda>v. map (\<lambda>c. c mod 256) v), oe_urlParse = (\<lambda>u s. u)\<rparr>"

definition ex_oauth_win :: oauth_win where
  "ex_oauth_win = \<lparr>ow_auth = ex_oauth_auth, ow_redirect = None, ow_opened = [], ow_calls = []\<rparr>"

lemma ex_encoded:
  "encodeURIComponent (js ''i&d'') = Some (js ''i%26d'')"
  "encodeURIComponent (js ''https://b/'') = Some (js ''https%3A%2F%2Fb%2F'')"
  "encodeURIComponent (js ''r w x'') = Some (js ''r%20w%20x'')"
  "encodeURIComponent (js ''='') = Some (js ''%3D'')"
  "encodeURIComponent (js ''p'') = Some (js ''p'')"
  "btoa (js ''Mon'') = js ''TW9u''" "encodeURIComponent (js ''TW9u'') = Some (js ''TW9u'')"
  by (simp_all add: js_def unreserved_def low_surrogate_def high_surrogate_def pct_bytes_def pct_def
      utf8_def hex_digit_def btoa_def base64_digit_def)

lemma ex_flow [simp]:
  "js ''accessCode'' \<noteq> js ''password''" "js ''accessCode'' \<noteq> js ''implicit''"
  "\<not> direct_flow (js ''accessCode'')" "code_flow (js ''accessCode'')"
  "js ''accessCode'' \<notin> {js ''application'', js ''clientCredentials'', js ''client_credentials''}"
  by (simp_all add: js_def direct_flow_def code_flow_def)

lemma ex_scopes: "js ''r w'' @ 32 # js ''x'' = js ''r w x''"
  by (simp add: js_def)

lemma ex_authorize: "\<exists>w'. oauth2_authorize ex_oauth_env ex_oauth_win = Normal w'"
  using ex_flow(5)
  by (simp add: oauth2_authorize_def ex_oauth_env_def ex_oauth_win_def ex_oauth_auth_def Let_def
      client_params_def request_params_def scope_list_def defined_params_def ex_encoded ex_scopes)

lemma ex_pairs_ok: "pairs_ok (authorize_pairs ex_oauth_env ex_oauth_auth (js ''https://b/''))"
proof -
  have t [simp]: "js_ok (js s)" for s
  proof -
    have "of_char c < (65536 :: nat)" for c :: char
      by (rule order_less_trans [OF nat_of_char_less_256]) simp
    then show ?thesis
      by (auto simp: js_ok_def js_def)
  qed
  have "plain_text v \<Longrightarrow> js_ok v" for v
    by (auto simp: plain_text_def list_all_iff js_ok_def unreserved_def)
  moreover have "plain_text (createCodeChallenge (oe_sha256 ex_oauth_env) v)" for v
    by (intro challenge_plain) (auto simp: ex_oauth_env_def)
  ultimately show ?thesis
    by (simp add: authorize_pairs_def pairs_ok_def Let_def client_params_def request_params_def
        ex_oauth_auth_def defined_params_def scope_list_def ex_scopes ex_encoded)
      (simp add: ex_oauth_env_def ex_scopes ex_encoded defined_params_def scope_list_def)
qed

theorem authorize_request_correct_witness:
  "\<exists>w' u s q. oauth2_authorize ex_oauth_env ex_oauth_win = Normal w' \<and> ow_opened w' = [u @ s # q] \<and>
     decode_query q = Some (authorize_pairs ex_oauth_env ex_oauth_auth (js ''https://b/'')) \<and>
     au_codeVerifier (ow_auth w') = Some (generateCodeVerifier [0])"
proof -
  obtain w' where w': "oauth2_authorize ex_oauth_env ex_oauth_win = Normal w'"
    using ex_authorize by blast
  have "oe_oauth2RedirectUrl ex_oauth_env = Some (js ''https://b/'')" "ow_auth ex_oauth_win = ex_oauth_auth"
    "\<not> direct_flow (au_flow ex_oauth_auth)" "\<forall>v. \<forall>b \<in> set (oe_sha256 ex_oauth_env v). b < 256"
    "use_pkce (oe_configs ex_oauth_env) (au_flow ex_oauth_auth)" "oe_randomBytes ex_oauth_env = [0]"
    "ow_opened ex_oauth_win = []"
    by (simp_all add: ex_oauth_env_def ex_oauth_win_def ex_oauth_auth_def use_pkce_def)
  then show ?thesis
    using authorize_request_correct [OF w', of "js ''https://b/''"] ex_pairs_ok w' by auto
qed

end
