(* ===== verification/SwaggerJson.thy ===== *)
theory SwaggerJson
  imports JsStrings
begin

text \<open>
  \<open>deeplyStripKey\<close> of swagger-ui's core/utils (swagger-ui-es-bundle.js, line 2): the removal of
  a key such as \<open>$$ref\<close> from a resolved specification, at every depth of its objects.
\<close>

section \<open>JSON values\<close>

datatype json =
    JNull
  | JBool bool
  | JNumber js_string
  | JString js_string
  | JArray "json list"
  | JObject "(js_string \<times> json) list"

text \<open>
  The code copies an object with \<open>Object.assign({}, input)\<close>, which drops an own property
  \<open>__proto__\<close>, and then visits the keys in order, deleting a property or replacing its value
  in place.  Everything but objects (null, arrays and scalars) is returned as it is, and so is
  every input when the key is empty.
\<close>

fun deeplyStripKey :: "js_string \<Rightarrow> (json \<Rightarrow> js_string \<Rightarrow> bool) \<Rightarrow> json \<Rightarrow> json"
and strip_props :: "js_string \<Rightarrow> (json \<Rightarrow> js_string \<Rightarrow> bool) \<Rightarrow> (js_string \<times> json) list \<Rightarrow>
  (js_string \<times> json) list" where
  "deeplyStripKey key P (JObject m) = (if key = [] then JObject m else JObject (strip_props key P m))"
| "deeplyStripKey key P j = j"
| "strip_props key P [] = []"
| "strip_props key P (p # m) =
     (if fst p = proto_key \<or> fst p = key \<and> P (snd p) (fst p) then strip_props key P m
      else (fst p, deeplyStripKey key P (snd p)) # strip_props key P m)"

text \<open>The default of the third argument.\<close>

abbreviation always :: "json \<Rightarrow> js_string \<Rightarrow> bool" where
  "always \<equiv> \<lambda>v k. True"

fun json_get :: "js_string list \<Rightarrow> json \<Rightarrow> json option" where
  "json_get [] j = Some j"
| "json_get (k # ks) (JObject m) = Option.bind (map_of m k) (json_get ks)"
| "json_get (k # ks) j = None"

section \<open>Properties\<close>

lemma strip_props_get:
  "map_of (strip_props key always m) k =
     (if k = key \<or> k = proto_key then None else map_option (deeplyStripKey key always) (map_of m k))"
  by (induction m) auto

lemma strip_get_object:
  "key \<noteq> [] \<Longrightarrow>
   json_get (k # ks) (deeplyStripKey key always j) =
     (if k = key \<or> k = proto_key then None
      else Option.bind (json_get [k] j) (\<lambda>v. json_get ks (deeplyStripKey key always v)))"
  by (cases j) (auto simp: strip_props_get Option.bind_map_option comp_def)

lemma json_get_Cons: "json_get (k # ks) j = Option.bind (json_get [k] j) (json_get ks)"
  by (cases j) (auto split: Option.bind_split)

text \<open>Stripping a key removes it at every depth and nothing else: a path of keys of the
  result leads nowhere when it goes through the stripped key (or through \<open>__proto__\<close>), and
  otherwise to the stripped form of what it leads to in the input (arrays and scalars are
  left as they are).\<close>

lemma deeplyStripKey_correct:
  assumes "key \<noteq> []"
  shows "json_get path (deeplyStripKey key always j) =
    (if key \<in> set path \<or> proto_key \<in> set path then None
     else map_option (deeplyStripKey key always) (json_get path j))"
proof (induction path arbitrary: j)
  case (Cons k ks)
  show ?case
  proof (cases "k = key \<or> k = proto_key")
    case True
    then show ?thesis
      using strip_get_object [OF assms, of k ks j] by auto
  next
    case False
    show ?thesis
    proof (cases "json_get [k] j")
      case None
      then show ?thesis
        using strip_get_object [OF assms, of k ks j] json_get_Cons [of k ks j] by simp
    next
      case (Some v)
      then show ?thesis
        using strip_get_object [OF assms, of k ks j] json_get_Cons [of k ks j] Cons.IH [of v] False
        by auto
    qed
  qed
qed simp

definition ex_json :: json where
  "ex_json = JObject
     [(js ''a'', JObject [(js ''$$ref'', JString []), (js ''b'', JBool True)]), (js ''$$ref'', JNull)]"

lemma deeplyStripKey_correct_witness:
  "json_get [js ''a'', js ''$$ref''] (deeplyStripKey (js ''$$ref'') always ex_json) = None \<and>
   json_get [js ''a''] (deeplyStripKey (js ''$$ref'') always ex_json) =
     Some (JObject [(js ''b'', JBool True)])"
  using deeplyStripKey_correct [of "js ''$$ref''" "[js ''a'', js ''$$ref'']" ex_json]
    deeplyStripKey_correct [of "js ''$$ref''" "[js ''a'']" ex_json]
  by (simp add: js_def ex_json_def proto_key_def)

end
