(* ===== verification/SwaggerErr.thy ===== *)
theory SwaggerErr
  imports SwaggerJson
begin

text \<open>
  The err plugin of swagger-ui (swagger-ui.js, line 2): the reducers that collect and clear
  errors, with the transformer they run over the messages, and the wrapper of the core that
  applies a reducer to the state.  An error is the list of its fields.  The object with the
  default fields belongs to the module, and the code assigns to it, so it is part of the state.
\<close>

section \<open>Values\<close>

text \<open>A number is the text of its value, so zero is the text 0.\<close>

fun json_truthy :: "json \<Rightarrow> bool" where
  "json_truthy JNull \<longleftrightarrow> False"
| "json_truthy (JBool b) \<longleftrightarrow> b"
| "json_truthy (JNumber s) \<longleftrightarrow> s \<noteq> js ''0''"
| "json_truthy (JString s) \<longleftrightarrow> s \<noteq> []"
| "json_truthy _ \<longleftrightarrow> True"

text \<open>\<open>===\<close> between a value of the state and one of an action: a list or a map of the state is
  an object of its own.\<close>

fun json_same :: "json \<Rightarrow> json \<Rightarrow> bool" where
  "json_same (JArray _) _ \<longleftrightarrow> False"
| "json_same (JObject _) _ \<longleftrightarrow> False"
| "json_same a b \<longleftrightarrow> a = b"

type_synonym js_fields = "json js_object"

text \<open>\<open>Object.assign(target, source)\<close>\<close>

definition object_assign :: "js_fields \<Rightarrow> js_fields \<Rightarrow> js_fields" where
  "object_assign target source = fold (\<lambda>(k, v). js_set k v) source target"

section \<open>Messages\<close>

definition seekStr :: js_string where
  "seekStr = js ''is not of a type(s)''"

fun find_sub :: "js_string \<Rightarrow> js_string \<Rightarrow> nat option" where
  "find_sub p [] = (if p = [] then Some 0 else None)"
| "find_sub p (c # s) =
     (if take (length p) (c # s) = p then Some 0 else map_option Suc (find_sub p s))"

text \<open>The reduction over the types: the rest of them, and how many there are.\<close>

fun new_message :: "nat \<Rightarrow> js_string list \<Rightarrow> js_string" where
  "new_message n [] = []"
| "new_message n [c] = (if 1 < n then js ''or '' @ c else c)"
| "new_message n (c # d # cs) =
     c @ (if d \<noteq> [] \<and> 2 < n then js '', '' else if d \<noteq> [] then js '' '' else []) @
     new_message n (d # cs)"

definition makeNewMessage :: "js_string list \<Rightarrow> js_string" where
  "makeNewMessage types = js ''should be a'' @ new_message (length types) types"

definition transform_message :: "js_string \<Rightarrow> js_string" where
  "transform_message m =
     (case find_sub seekStr m of
        None \<Rightarrow> m
      | Some i \<Rightarrow> take i m @ makeNewMessage (split_on 44 (drop (i + length seekStr) m)))"

definition message_key :: js_string where
  "message_key = js ''message''"

text \<open>A message that is missing or has no \<open>indexOf\<close> is a TypeError; a list has one.\<close>

definition transform_error :: "js_fields \<Rightarrow> js_fields option" where
  "transform_error err =
     (case map_of err message_key of
        Some (JString m) \<Rightarrow>
          Some (if find_sub seekStr m = None then err
                else js_set message_key (JString (transform_message m)) err)
      | Some (JArray _) \<Rightarrow> Some err
      | _ \<Rightarrow> None)"

text \<open>An exception leaves the list as it was; the second transformer is disabled in the code.\<close>

definition transformErrors :: "js_fields list \<Rightarrow> js_fields list" where
  "transformErrors errors =
     (case those (map transform_error errors) of None \<Rightarrow> errors | Some es \<Rightarrow> es)"

section \<open>The reducers\<close>

record err_state =
  er_default :: js_fields
  er_errors :: "js_fields list option"

datatype err_action =
    NewThrownErr js_fields
  | NewThrownErrBatch "js_fields list"
  | NewSpecErr js_fields
  | NewSpecErrBatch "js_fields list"
  | NewAuthErr js_fields
  | Clear js_fields

definition type_key :: js_string where
  "type_key = js ''type''"

definition typed :: "string \<Rightarrow> js_fields" where
  "typed t = [(type_key, JString (js t))]"

definition DEFAULT_ERROR_STRUCTURE :: js_fields where
  "DEFAULT_ERROR_STRUCTURE = [(js ''line'', JNumber (js ''0'')), (js ''level'', JString (js ''error'')),
     (message_key, JString (js ''Unknown error''))]"

definition the_errors :: "err_state \<Rightarrow> js_fields list" where
  "the_errors s = (case er_errors s of None \<Rightarrow> [] | Some es \<Rightarrow> es)"

text \<open>\<open>Object.assign(DEFAULT_ERROR_STRUCTURE, err, {type: t})\<close> changes its first argument.\<close>

definition add_error :: "string \<Rightarrow> js_fields \<Rightarrow> js_fields \<times> js_fields list \<Rightarrow> js_fields \<times> js_fields list" where
  "add_error t err st =
     (let r = object_assign (object_assign (fst st) err) (typed t) in (r, snd st @ [r]))"

definition clear_keeps :: "js_fields \<Rightarrow> js_fields \<Rightarrow> bool" where
  "clear_keeps payload err \<longleftrightarrow>
     list_all (\<lambda>(k, v). case map_of payload k of
        None \<Rightarrow> True | Some w \<Rightarrow> \<not> json_truthy w \<or> \<not> json_same v w) err"

text \<open>\<open>sortBy\<close> is the stable sort of the immutable package by the field \<open>line\<close>.\<close>

fun err_reduce :: "(js_fields list \<Rightarrow> js_fields list) \<Rightarrow> err_state \<Rightarrow> err_action \<Rightarrow> err_state" where
  "err_reduce sortBy s (NewThrownErr payload) =
     (let (d, es) = add_error ''thrown'' payload (er_default s, the_errors s)
      in \<lparr>er_default = d, er_errors = Some (transformErrors es)\<rparr>)"
| "err_reduce sortBy s (NewThrownErrBatch payload) =
     (let (d, es) = fold (add_error ''thrown'') payload (er_default s, the_errors s)
      in \<lparr>er_default = d, er_errors = Some (transformErrors es)\<rparr>)"
| "err_reduce sortBy s (NewSpecErr payload) =
     s\<lparr>er_errors := Some (transformErrors (sortBy (the_errors s @ [object_assign payload (typed ''spec'')])))\<rparr>"
| "err_reduce sortBy s (NewSpecErrBatch payload) =
     (let (d, es) = fold (add_error ''spec'') payload (er_default s, the_errors s)
      in \<lparr>er_default = d, er_errors = Some (transformErrors es)\<rparr>)"
| "err_reduce sortBy s (NewAuthErr payload) =
     s\<lparr>er_errors := Some (transformErrors
       (the_errors s @ [object_assign (object_assign [] payload) (typed ''auth'')]))\<rparr>"
| "err_reduce sortBy s (Clear payload) =
     (case er_errors s of None \<Rightarrow> s | Some es \<Rightarrow> s\<lparr>er_errors := Some (filter (clear_keeps payload) es)\<rparr>)"

definition err_init :: err_state where
  "err_init = \<lparr>er_default = DEFAULT_ERROR_STRUCTURE, er_errors = None\<rparr>"

section \<open>What is kept and cleared\<close>

lemma object_assign_get:
  "proto_key \<notin> fst ` set src \<Longrightarrow>
   map_of (object_assign t src) k = (case map_of (rev src) k of None \<Rightarrow> map_of t k | Some v \<Rightarrow> Some v)"
  unfolding object_assign_def
  by (induction src arbitrary: t) (auto simp: map_add_def split: option.splits)

lemma type_key_facts [simp]: "type_key \<noteq> proto_key" "message_key \<noteq> proto_key" "type_key \<noteq> message_key"
  by (simp_all add: type_key_def message_key_def proto_key_def js_def)

lemma typed_simps [simp]: "proto_key \<notin> fst ` set (typed t)"
    "map_of (rev (typed t)) k = (if k = type_key then Some (JString (js t)) else None)"
  using type_key_facts(1) by (auto simp: typed_def simp del: type_key_facts dest: sym)

lemma transform_error_other:
  "transform_error e = Some e' \<Longrightarrow> k \<noteq> message_key \<Longrightarrow> map_of e' k = map_of e k"
  by (auto simp: transform_error_def split: option.splits json.splits if_splits)

lemma those_all2: "those xs = Some ys \<Longrightarrow> list_all2 (\<lambda>x y. x = Some y) xs ys"
  by (induction xs arbitrary: ys) (auto split: option.splits)

lemma transformErrors_other:
  "k \<noteq> message_key \<Longrightarrow> map (\<lambda>e. map_of e k) (transformErrors es) = map (\<lambda>e. map_of e k) es"
proof (cases "those (map transform_error es)")
  case (Some fs)
  assume k: "k \<noteq> message_key"
  have "list_all2 (\<lambda>x y. x = Some y) (map transform_error es) fs"
    using those_all2 [OF Some] .
  then have "map (\<lambda>e. map_of e k) fs = map (\<lambda>e. map_of e k) es"
    using transform_error_other [OF _ k]
    by (auto simp: list_all2_conv_all_nth intro!: nth_equalityI)
  then show ?thesis
    by (simp add: transformErrors_def Some)
qed (simp add: transformErrors_def)

text \<open>The value of a field in the last report that has one, or its default.\<close>

definition latest :: "js_fields list \<Rightarrow> js_string \<Rightarrow> json option" where
  "latest ps k =
     fold (\<lambda>p v. case map_of (rev p) k of None \<Rightarrow> v | Some w \<Rightarrow> Some w) ps
       (map_of DEFAULT_ERROR_STRUCTURE k)"

definition throw_errors :: "(js_fields list \<Rightarrow> js_fields list) \<Rightarrow> js_fields list \<Rightarrow> err_state" where
  "throw_errors sortBy ps = fold (\<lambda>p s. err_reduce sortBy s (NewThrownErr p)) ps err_init"

lemma latest_snoc:
  "latest (ps @ [p]) k = (case map_of (rev p) k of None \<Rightarrow> latest ps k | Some w \<Rightarrow> Some w)"
  by (simp add: latest_def split: option.split)

lemma throw_errors_snoc:
  "throw_errors sortBy (ps @ [p]) =
     (let r = object_assign (object_assign (er_default (throw_errors sortBy ps)) p) (typed ''thrown'')
      in \<lparr>er_default = r, er_errors = Some (transformErrors (the_errors (throw_errors sortBy ps) @ [r]))\<rparr>)"
  by (simp add: throw_errors_def add_error_def Let_def)

lemma throw_errors_default:
  "\<forall>p \<in> set ps. proto_key \<notin> fst ` set p \<Longrightarrow> k \<noteq> type_key \<Longrightarrow>
   map_of (er_default (throw_errors sortBy ps)) k = latest ps k"
proof (induction ps rule: rev_induct)
  case Nil
  then show ?case
    by (simp add: throw_errors_def err_init_def latest_def)
next
  case (snoc p ps)
  then show ?case
    by (simp add: throw_errors_snoc Let_def object_assign_get latest_snoc split: option.split)
qed

lemma throw_errors_fields:
  assumes "k \<noteq> message_key"
  shows "\<forall>p \<in> set ps. proto_key \<notin> fst ` set p \<Longrightarrow>
   map (\<lambda>e. map_of e k) (the_errors (throw_errors sortBy ps)) =
   map (\<lambda>i. if k = type_key then Some (JString (js ''thrown'')) else latest (take (Suc i) ps) k)
     [0..<length ps]"
proof (induction ps rule: rev_induct)
  case Nil
  then show ?case
    by (simp add: throw_errors_def err_init_def the_errors_def)
next
  case (snoc p ps)
  let ?r = "object_assign (object_assign (er_default (throw_errors sortBy ps)) p) (typed ''thrown'')"
  have p: "proto_key \<notin> fst ` set p"
    using snoc.prems by simp
  have "map_of ?r k = (if k = type_key then Some (JString (js ''thrown'')) else latest (ps @ [p]) k)"
    using p throw_errors_default [of ps k sortBy] snoc.prems
    by (simp add: object_assign_get latest_snoc split: option.split)
  moreover have "the_errors (throw_errors sortBy (ps @ [p])) =
      transformErrors (the_errors (throw_errors sortBy ps) @ [?r])"
    by (simp add: throw_errors_snoc Let_def the_errors_def)
  ultimately show ?case
    using snoc transformErrors_other [OF assms] by simp
qed

text \<open>The errors swagger-ui shows for a sequence of exceptions do not hold what each
  exception said: the module's object with the default fields is the target of the assignment,
  so the i-th error has, in every field but its type and the rewritten message, the value of
  the last report up to it that had the field, and the default only when none had.\<close>

lemma thrown_errors_inherit:
  assumes "\<forall>p \<in> set ps. proto_key \<notin> fst ` set p" "i < length ps" "k \<noteq> message_key" "k \<noteq> type_key"
  shows "length (the_errors (throw_errors sortBy ps)) = length ps \<and>
    map_of (the_errors (throw_errors sortBy ps) ! i) k = latest (take (Suc i) ps) k \<and>
    map_of (the_errors (throw_errors sortBy ps) ! i) type_key = Some (JString (js ''thrown''))"
proof -
  note f = throw_errors_fields [OF assms(3,1), of sortBy]
    throw_errors_fields [OF type_key_facts(3) assms(1), of sortBy]
  have l: "length (the_errors (throw_errors sortBy ps)) = length ps"
    using arg_cong [OF f(1), of length] by simp
  show ?thesis
    using l arg_cong [OF f(1), of "\<lambda>xs. xs ! i"] arg_cong [OF f(2), of "\<lambda>xs. xs ! i"] assms(2,4)
    by simp
qed

definition line_key :: js_string where
  "line_key = js ''line''"

definition ex_thrown :: "js_fields list" where
  "ex_thrown = [[(line_key, JNumber (js ''7'')), (message_key, JString (js ''a''))],
     [(message_key, JString (js ''b''))]]"

lemma thrown_errors_inherit_witness:
  "map_of (the_errors (throw_errors id ex_thrown) ! 1) line_key = Some (JNumber (js ''7'')) \<and>
   map_of (ex_thrown ! 1) line_key = None"
proof -
  have l: "line_key \<noteq> message_key" "line_key \<noteq> type_key" "line_key \<noteq> proto_key"
    by (simp_all add: line_key_def message_key_def type_key_def proto_key_def js_def)
  have p: "\<forall>p \<in> set ex_thrown. proto_key \<notin> fst ` set p" "1 < length ex_thrown"
    using l(3) by (auto simp: ex_thrown_def dest: sym)
  have "latest (take (Suc 1) ex_thrown) line_key = Some (JNumber (js ''7''))"
    using l by (simp add: ex_thrown_def latest_def)
  then show ?thesis
    using thrown_errors_inherit [OF p l(1,2), of id] l by (simp add: ex_thrown_def)
qed

text \<open>A filter of several fields removes the errors that agree with it in any of them.  The
  authorization dialog clears by the id of its scheme, the type and the source; that removes the
  errors of every other scheme too.\<close>

lemma clear_any_field:
  assumes "er_errors s = Some es" "map_of f k = Some w" "json_truthy w" "json_same w w"
  shows "\<forall>e \<in> set (the_errors (err_reduce sortBy s (Clear f))). (k, w) \<notin> set e"
proof -
  have "\<not> clear_keeps f e" if "(k, w) \<in> set e" for e
    using that assms(2-4) by (force simp: clear_keeps_def list_all_iff)
  then show ?thesis
    using assms(1) by (auto simp: the_errors_def)
qed

definition auth_filter :: "js_string \<Rightarrow> js_fields" where
  "auth_filter name = [(js ''authId'', JString name), (type_key, JString (js ''auth'')),
     (js ''source'', JString (js ''auth''))]"

lemma auth_clear_all:
  assumes "er_errors s = Some es" "e \<in> set (the_errors (err_reduce sortBy s (Clear (auth_filter name))))"
  shows "(type_key, JString (js ''auth'')) \<notin> set e"
proof -
  have "map_of (auth_filter name) type_key = Some (JString (js ''auth''))"
    by (simp add: auth_filter_def type_key_def js_def)
  then show ?thesis
    using clear_any_field [OF assms(1)] assms(2) by (auto simp: js_def)
qed

end
