(* ===== verification/SwaggerToken.thy ===== *)
theory SwaggerToken
  imports SwaggerOAuth SwaggerErr
begin

text \<open>
  What follows the authorization request of an OAuth2 flow: the token requests of the auth
  plugin's actions and the handling of their answer (swagger-ui.js, line 2), and the redirect
  page \<open>oauth2-redirect.html\<close>, which hands the code of the authorization server back to the
  window that opened it.
\<close>

section \<open>Form bodies\<close>

text \<open>\<open>encodeURIComponent(r).replace(/%20/g, "+")\<close>\<close>

fun plus_spaces :: "js_string \<Rightarrow> js_string" where
  "plus_spaces (a # b # c # s) =
     (if a = 37 \<and> b = 50 \<and> c = 48 then 43 # plus_spaces s else a # plus_spaces (b # c # s))"
| "plus_spaces s = s"

text \<open>\<open>None\<close> is undefined, which is left out like the empty string.\<close>

fun form_params :: "(js_string \<times> js_string option) list \<Rightarrow> js_string list option" where
  "form_params [] = Some []"
| "form_params ((n, r) # ps) =
     (case r of
        None \<Rightarrow> form_params ps
      | Some v \<Rightarrow>
          if v = [] then form_params ps
          else (case encodeURIComponent v of
                  None \<Rightarrow> None
                | Some e \<Rightarrow> map_option (Cons (n @ 61 # plus_spaces e)) (form_params ps)))"

definition buildFormData :: "(js_string \<times> js_string option) list \<Rightarrow> js_string option" where
  "buildFormData ps = map_option (join_with 38) (form_params ps)"

section \<open>Token requests\<close>

record auth_request =
  ar_body :: js_string
  ar_name :: js_string
  ar_url :: js_string
  ar_headers :: "js_string js_object"
  ar_auth :: oauth_auth

text \<open>The text of a value in a concatenation.\<close>

definition js_text :: "js_string option \<Rightarrow> js_string" where
  "js_text v = (case v of None \<Rightarrow> js ''undefined'' | Some s \<Rightarrow> s)"

definition basic_header :: "oauth_auth \<Rightarrow> js_string js_object" where
  "basic_header t = [(js ''Authorization'',
     js ''Basic '' @ btoa (js_text (au_clientId t) @ [58] @ js_text (au_clientSecret t)))]"

definition token_request ::
  "oauth_auth \<Rightarrow> js_string js_object \<Rightarrow> (js_string \<times> js_string option) list \<Rightarrow> auth_request option" where
  "token_request t headers ps =
     map_option (\<lambda>b. \<lparr>ar_body = b, ar_name = au_name t, ar_url = au_tokenUrl t, ar_headers = headers,
       ar_auth = t\<rparr>) (buildFormData ps)"

definition scopes_text :: "oauth_auth \<Rightarrow> js_string option" where
  "scopes_text t =
     (case au_scopes t of ScopesOther \<Rightarrow> None | u \<Rightarrow> Some (join_text [32] (scope_list u)))"

definition nonempty :: "js_string option \<Rightarrow> bool" where
  "nonempty v \<longleftrightarrow> v \<noteq> None \<and> v \<noteq> Some []"

definition authorizePassword :: "oauth_auth \<Rightarrow> auth_request option" where
  "authorizePassword t =
     Option.bind (scopes_text t) (\<lambda>sc.
       let p = [(js ''grant_type'', Some (js ''password'')), (js ''scope'', Some sc),
                (js ''username'', Some (au_username t)), (js ''password'', Some (au_password t))]
       in if au_passwordType t = js ''request-body'' then
            token_request t []
              (p @ (if nonempty (au_clientId t) then [(js ''client_id'', au_clientId t)] else []) @
               (if nonempty (au_clientSecret t) then [(js ''client_secret'', au_clientSecret t)] else []))
          else if au_passwordType t = js ''basic'' then token_request t (basic_header t) p
          else token_request t [] p)"

definition authorizeApplication :: "oauth_auth \<Rightarrow> auth_request option" where
  "authorizeApplication t =
     Option.bind (scopes_text t) (\<lambda>sc.
       token_request t (basic_header t)
         [(js ''grant_type'', Some (js ''client_credentials'')), (js ''scope'', Some sc)])"

definition authorizeAccessCodeWithFormParams :: "oauth_auth \<Rightarrow> js_string \<Rightarrow> auth_request option" where
  "authorizeAccessCodeWithFormParams t redirectUrl =
     token_request t []
       [(js ''grant_type'', Some (js ''authorization_code'')), (js ''code'', au_code t),
        (js ''client_id'', au_clientId t), (js ''client_secret'', au_clientSecret t),
        (js ''redirect_uri'', Some redirectUrl), (js ''code_verifier'', au_codeVerifier t)]"

definition authorizeAccessCodeWithBasicAuthentication ::
  "oauth_auth \<Rightarrow> js_string \<Rightarrow> auth_request option" where
  "authorizeAccessCodeWithBasicAuthentication t redirectUrl =
     token_request t (basic_header t)
       [(js ''grant_type'', Some (js ''authorization_code'')), (js ''code'', au_code t),
        (js ''client_id'', au_clientId t), (js ''redirect_uri'', Some redirectUrl),
        (js ''code_verifier'', au_codeVerifier t)]"

section \<open>authorizeRequest\<close>

record fetch_request =
  fr_url :: js_string
  fr_headers :: "js_string js_object"
  fr_body :: js_string

text \<open>\<open>resolve\<close> is the url-parse package: the token URL against the server, or the URL of the
  specification, with the additional parameters in its query.\<close>

definition authorizeRequest :: "(js_string \<Rightarrow> js_string) \<Rightarrow> auth_request \<Rightarrow> fetch_request" where
  "authorizeRequest resolve r =
     \<lparr>fr_url = resolve (ar_url r),
      fr_headers = fold (\<lambda>(k, v). js_set k v) (ar_headers r)
        [(js ''Accept'', js ''application/json, text/plain, */*''),
         (js ''Content-Type'', js ''application/x-www-form-urlencoded''),
         (js ''X-Requested-With'', js ''XMLHttpRequest'')],
      fr_body = ar_body r\<rparr>"

definition json_flag :: "js_string \<Rightarrow> json \<Rightarrow> bool" where
  "json_flag k t = (case json_get [k] t of None \<Rightarrow> False | Some v \<Rightarrow> json_truthy v)"

datatype token_result =
    AuthorizeOauth2 oauth_auth json
  | TokenErr js_string json
  | StatusErr js_string js_string

text \<open>The answer: the parsed body, and whether its status is a success.\<close>

definition handle_response :: "auth_request \<Rightarrow> bool \<Rightarrow> js_string \<Rightarrow> json \<Rightarrow> token_result" where
  "handle_response r ok statusText t =
     (if ok then
        if json_flag (js ''error'') t \<or> json_flag (js ''parseError'') t then TokenErr (ar_name r) t
        else AuthorizeOauth2 (ar_auth r) t
      else StatusErr (ar_name r) statusText)"

section \<open>The implicit flow\<close>

definition unsafe_warning :: js_string where
  "unsafe_warning = js ''Authorization may be unsafe, passed state was changed in server Passed state wasn't returned from auth server''"

text \<open>\<open>delete window.swaggerUIRedirectOauth2\<close>, the warning, then the token or its error.\<close>

definition preAuthorizeImplicit ::
  "oauth_auth \<Rightarrow> json \<Rightarrow> bool \<Rightarrow> auth_error list \<times> token_result" where
  "preAuthorizeImplicit t token isValid =
     ((if au_flow t = js ''accessCode'' \<or> isValid then []
       else [\<lparr>ae_authId = au_name t, ae_level = Warning, ae_message = unsafe_warning\<rparr>]),
      (if json_flag (js ''error'') token then TokenErr (au_name t) token else AuthorizeOauth2 t token))"

section \<open>JSON.parse of the redirect page\<close>

text \<open>The page writes the query as a JSON object of strings and parses it back.  Strings are read
  with their escapes; a text whose members get another value, which takes a backslash that
  shifts the quotes, counts as refused.\<close>

fun hex4 :: "js_string \<Rightarrow> (nat \<times> js_string) option" where
  "hex4 (a # b # c # d # s) =
     (case (hex_value a, hex_value b, hex_value c, hex_value d) of
        (Some x, Some y, Some z, Some u) \<Rightarrow> Some (4096 * x + 256 * y + 16 * z + u, s)
      | _ \<Rightarrow> None)"
| "hex4 _ = None"

definition json_escape :: "nat \<Rightarrow> nat option" where
  "json_escape c =
     map_of [(34, 34), (92, 92), (47, 47), (98, 8), (102, 12), (110, 10), (114, 13), (116, 9)] c"

lemma hex4_shorter: "hex4 s = Some (c, t) \<Longrightarrow> length t < length s"
  by (cases s rule: hex4.cases) (auto split: option.splits)

function json_string :: "js_string \<Rightarrow> (js_string \<times> js_string) option" where
  "json_string [] = None"
| "json_string (c # s) =
     (if c = 34 then Some ([], s)
      else if c = 92 then
        (case s of
           [] \<Rightarrow> None
         | d # u \<Rightarrow>
             if d = 117 then
               (case hex4 u of
                  None \<Rightarrow> None
                | Some (x, v) \<Rightarrow> map_option (\<lambda>(y, z). (x # y, z)) (json_string v))
             else (case json_escape d of
                     None \<Rightarrow> None
                   | Some x \<Rightarrow> map_option (\<lambda>(y, z). (x # y, z)) (json_string u)))
      else if c < 32 then None
      else map_option (\<lambda>(y, z). (c # y, z)) (json_string s))"
  by pat_completeness auto
termination
  by (relation "measure length") (auto dest: hex4_shorter)

lemma json_string_shorter: "json_string s = Some (y, z) \<Longrightarrow> length z < length s"
  by (induction s arbitrary: y z rule: json_string.induct)
    (force split: if_splits list.splits option.splits dest: hex4_shorter)+

definition json_space :: "nat \<Rightarrow> bool" where
  "json_space c \<longleftrightarrow> List.member [9, 10, 13, 32] c"

text \<open>A token of one character, after white space.\<close>

definition json_token :: "nat \<Rightarrow> js_string \<Rightarrow> js_string option" where
  "json_token c s =
     (case dropWhile json_space s of [] \<Rightarrow> None | d # t \<Rightarrow> if d = c then Some t else None)"

lemma json_token_shorter: "json_token c s = Some t \<Longrightarrow> length t < length s"
  using length_dropWhile_le [of json_space s]
  by (auto simp: json_token_def split: list.splits if_splits)

definition json_member :: "js_string \<Rightarrow> ((js_string \<times> js_string) \<times> js_string) option" where
  "json_member s =
     Option.bind (json_token 34 s) (\<lambda>a. Option.bind (json_string a) (\<lambda>(k, b).
       Option.bind (json_token 58 b) (\<lambda>c. Option.bind (json_token 34 c) (\<lambda>d.
         Option.bind (json_string d) (\<lambda>(v, e). Some ((k, v), e))))))"

lemma json_member_shorter: "json_member s = Some (p, e) \<Longrightarrow> length e < length s"
  by (auto simp: json_member_def bind_eq_Some_conv
      dest!: json_token_shorter json_string_shorter)

function json_members :: "js_string \<Rightarrow> (js_string \<times> js_string) list option" where
  "json_members s =
     (case json_member s of
        None \<Rightarrow> None
      | Some (p, e) \<Rightarrow>
          (case json_token 44 e of
             Some t \<Rightarrow> map_option (Cons p) (json_members t)
           | None \<Rightarrow>
               (case json_token 125 e of
                  Some t \<Rightarrow> if dropWhile json_space t = [] then Some [p] else None
                | None \<Rightarrow> None)))"
  by pat_completeness auto
termination
  by (relation "measure length") (auto dest!: json_token_shorter json_member_shorter)

declare json_members.simps [simp del] json_string.simps [simp del]

text \<open>A repeated key keeps its last value.\<close>

fun last_wins :: "(js_string \<times> 'v) list \<Rightarrow> (js_string \<times> 'v) list" where
  "last_wins [] = []"
| "last_wins (p # ms) = (if List.member (map fst ms) (fst p) then last_wins ms else p # last_wins ms)"

definition JSON_parse :: "js_string \<Rightarrow> (js_string \<times> js_string) list option" where
  "JSON_parse s = map_option last_wins (Option.bind (json_token 123 s) json_members)"

section \<open>The redirect page\<close>

text \<open>\<open>'"' + v.replace('=', '":"') + '"'\<close>\<close>

definition quote_piece :: "js_string \<Rightarrow> js_string" where
  "quote_piece v =
     (let k = takeWhile (\<lambda>c. c \<noteq> 61) v
      in 34 # k @ (if List.member v 61 then [34, 58, 34] @ drop (Suc (length k)) v else []) @ [34])"

definition page_query :: "js_string \<Rightarrow> js_string \<Rightarrow> js_string" where
  "page_query hash search =
     (if list_ex (\<lambda>w. sublist w hash) [js ''code'', js ''token'', js ''error''] then drop 1 hash
      else drop 1 search)"

text \<open>\<open>key === "" ? value : decodeURIComponent(value)\<close>\<close>

definition page_reviver :: "js_string \<times> js_string \<Rightarrow> (js_string \<times> js_string) option" where
  "page_reviver p =
     (if fst p = [] then Some p else map_option (Pair (fst p)) (decodeURIComponent (snd p)))"

definition page_params :: "js_string \<Rightarrow> (js_string \<times> js_string) list option" where
  "page_params qp =
     (if qp = [] then Some []
      else Option.bind (JSON_parse (123 # join_with 44 (map quote_piece (split_on 38 qp)) @ [125]))
        (\<lambda>ms. those (map page_reviver ms)))"

datatype callback_arg =
    CodeArg oauth_callback oauth_auth js_string
  | TokenArg oauth_callback oauth_auth "(js_string \<times> js_string) list" bool js_string

definition param_text :: "(js_string \<times> js_string) list \<Rightarrow> string \<Rightarrow> js_string" where
  "param_text qp k = (case map_of qp (js k) of None \<Rightarrow> [] | Some v \<Rightarrow> v)"

definition page_error_message :: "(js_string \<times> js_string) list \<Rightarrow> js_string" where
  "page_error_message qp =
     (if param_text qp ''error'' = []
      then js ''[Authorization failed]: no accessCode received from the server''
      else js ''['' @ param_text qp ''error'' @ js '']: '' @
        (if param_text qp ''error_description'' = [] then js ''no accessCode received from the server. ''
         else param_text qp ''error_description'' @ js ''. '') @
        (if param_text qp ''error_uri'' = [] then [] else js ''More info: '' @ param_text qp ''error_uri''))"

text \<open>The function \<open>run\<close>; \<open>None\<close> is an exception, after which the page stays open.\<close>

definition redirect_run ::
  "oauth_redirect \<Rightarrow> js_string \<Rightarrow> js_string \<Rightarrow>
   (oauth_redirect \<times> auth_error list \<times> callback_arg option) option" where
  "redirect_run r hash search =
     map_option (\<lambda>qp.
       let isValid = (map_of qp (js ''state'') = rd_state r); t = rd_auth r
       in if code_flow (au_flow t) \<and> \<not> nonempty (au_code t) then
            let warning = (if isValid then []
                  else [\<lparr>ae_authId = au_name t, ae_level = Warning, ae_message = unsafe_warning\<rparr>])
            in if param_text qp ''code'' \<noteq> [] then
                 let t' = t\<lparr>au_code := Some (param_text qp ''code'')\<rparr>
                 in (r\<lparr>rd_state := None, rd_auth := t'\<rparr>, warning,
                     Some (CodeArg (rd_callback r) t' (rd_redirectUrl r)))
               else (r, warning @ [\<lparr>ae_authId = au_name t, ae_level = Error,
                       ae_message = page_error_message qp\<rparr>], None)
          else (r, [], Some (TokenArg (rd_callback r) t qp isValid (rd_redirectUrl r))))
       (page_params (page_query hash search))"

text \<open>The callback a code is handed to.\<close>

definition code_callback :: "oauth_callback \<Rightarrow> oauth_auth \<Rightarrow> js_string \<Rightarrow> auth_request option" where
  "code_callback cb t url =
     (case cb of
        AccessCodeForm \<Rightarrow> authorizeAccessCodeWithFormParams t url
      | AccessCodeBasic \<Rightarrow> authorizeAccessCodeWithBasicAuthentication t url
      | PreAuthorizeImplicit \<Rightarrow> None)"

section \<open>Lemmas on form bodies\<close>

text \<open>A form parser: the plus sign is a space.\<close>

definition decode_form :: "js_string \<Rightarrow> (js_string \<times> js_string) list option" where
  "decode_form q = decode_query (map (\<lambda>c. if c = 43 then 32 else c) q)"

lemma plus_spaces_other: "a \<noteq> 37 \<Longrightarrow> plus_spaces (a # s) = a # plus_spaces s"
  by (cases s; cases "tl s") auto

lemma plus_spaces_pct:
  assumes "b < 256" "b \<noteq> 32"
  shows "plus_spaces (pct b @ s) = pct b @ plus_spaces s"
proof -
  have h: "hex_digit n \<noteq> 37" for n
    by (simp add: hex_digit_def)
  have "\<not> (b div 16 = 2 \<and> b mod 16 = 0)"
    using assms(2) div_mult_mod_eq [of b 16] by presburger
  then have "\<not> (hex_digit (b div 16) = 50 \<and> hex_digit (b mod 16) = 48)"
    by (auto simp: hex_digit_def split: if_splits)
  then show ?thesis
    using h by (simp add: pct_def plus_spaces_other)
qed

lemma plus_spaces_pcts:
  "\<forall>b \<in> set bs. b < 256 \<and> b \<noteq> 32 \<Longrightarrow> plus_spaces (pct_bytes bs @ s) = pct_bytes bs @ plus_spaces s"
  by (induction bs) (simp_all add: pct_bytes_def plus_spaces_pct)

lemma utf8_not_space: "scalar cp \<Longrightarrow> cp \<noteq> 32 \<Longrightarrow> b \<in> set (utf8 cp) \<Longrightarrow> b \<noteq> 32"
  by (auto simp: utf8_def split: if_splits)

lemma unplus_id: "43 \<notin> set s \<Longrightarrow> map (\<lambda>c. if c = 43 then 32 else c :: nat) s = s"
  by (induction s) auto

lemma encode_form_value:
  "encodeURIComponent v = Some e \<Longrightarrow> js_ok v \<Longrightarrow>
   decodeURIComponent (map (\<lambda>c. if c = 43 then 32 else c) (plus_spaces e)) = Some v \<and>
   (\<forall>c \<in> set (plus_spaces e). c = 37 \<or> c = 43 \<or> unreserved c)"
proof (induction rule: encode_induct)
  case (plain c s u)
  then have "c \<noteq> 37" "c \<noteq> 43"
    using unreserved_not by auto
  then show ?case
    using plain by (simp add: plus_spaces_other decode_plain)
next
  case (escape cp s u)
  show ?case
  proof (cases "cp = 32")
    case True
    have "pct_bytes (utf8 cp) = [37, 50, 48]" "utf16 cp = [32]"
      by (simp_all add: True pct_bytes_def utf8_def pct_def hex_digit_def utf16_def)
    then show ?thesis
      using escape by (simp add: decode_plain)
  next
    case False
    have p: "plus_spaces (pct_bytes (utf8 cp) @ u) = pct_bytes (utf8 cp) @ plus_spaces u"
      using utf8_bytes [OF escape(1)] utf8_not_space [OF escape(1) False] by (intro plus_spaces_pcts) blast
    have "43 \<notin> set (pct_bytes (utf8 cp))"
      using pct_bytes_chars [OF escape(1), of 43] unreserved_not(5) by auto
    then show ?thesis
      using escape p pct_bytes_chars [OF escape(1)]
      by (auto simp: unplus_id decode_utf8)
  qed
qed simp

definition form_pairs :: "(js_string \<times> js_string option) list \<Rightarrow> (js_string \<times> js_string) list" where
  "form_pairs ps = concat (map (\<lambda>(n, r). case r of None \<Rightarrow> [] | Some v \<Rightarrow> if v = [] then [] else [(n, v)]) ps)"

abbreviation unplus :: "js_string \<Rightarrow> js_string" where
  "unplus \<equiv> map (\<lambda>c. if c = 43 then 32 else c)"

lemma form_params_decode:
  "form_params ps = Some es \<Longrightarrow> pairs_ok (form_pairs ps) \<Longrightarrow> list_all (plain_text \<circ> fst) ps \<Longrightarrow>
   map (decode_pair \<circ> unplus) es = map Some (form_pairs ps) \<and> (\<forall>e \<in> set es. 38 \<notin> set e)"
proof (induction ps arbitrary: es)
  case (Cons p ps)
  obtain n r where p: "p = (n, r)" by fastforce
  show ?case
  proof (cases "nonempty r")
    case False
    then have "form_params (p # ps) = form_params ps" "form_pairs (p # ps) = form_pairs ps"
      by (auto simp: p nonempty_def form_pairs_def split: option.split)
    then show ?thesis
      using Cons.IH [of es] Cons.prems by simp
  next
    case True
    then obtain v where v: "r = Some v" "v \<noteq> []"
      by (auto simp: nonempty_def)
    obtain e fs where e: "encodeURIComponent v = Some e" "form_params ps = Some fs"
      "es = (n @ 61 # plus_spaces e) # fs"
      using Cons.prems(1) v p by (auto split: option.splits)
    have ok: "js_ok v" "pairs_ok (form_pairs ps)"
      using Cons.prems(2) v p by (simp_all add: form_pairs_def pairs_ok_def)
    have n: "plain_text n"
      using Cons.prems(3) p by simp
    then have n': "61 \<notin> set n" "43 \<notin> set n" "38 \<notin> set n"
      using unreserved_not by (auto simp: plain_text_def list_all_iff)
    note ev = encode_form_value [OF e(1) ok(1)]
    have "takeWhile (\<lambda>c. c \<noteq> 61) (n @ 61 # unplus (plus_spaces e)) = n"
      using n'(1) by (subst takeWhile_append2) auto
    then have "decode_pair (unplus (n @ 61 # plus_spaces e)) = Some (n, v)"
      using ev plain_text_decode [OF n] by (simp add: decode_pair_def unplus_id [OF n'(2)] Let_def)
    moreover have "38 \<notin> set (plus_spaces e)"
      using ev unreserved_not(1) by auto
    ultimately show ?thesis
      using Cons.IH [OF e(2) ok(2)] Cons.prems(3) e(3) n'(3) v p by (simp add: form_pairs_def)
  qed
qed (simp add: form_pairs_def)

lemma buildFormData_decode:
  assumes "buildFormData ps = Some q" "pairs_ok (form_pairs ps)" "list_all (plain_text \<circ> fst) ps"
    "form_pairs ps \<noteq> []"
  shows "decode_form q = Some (form_pairs ps)"
proof -
  obtain es where es: "form_params ps = Some es" "q = join_with 38 es"
    using assms(1) by (auto simp: buildFormData_def)
  note d = form_params_decode [OF es(1) assms(2,3)]
  have ne: "es \<noteq> []"
    using d assms(4) by auto
  have "unplus q = join_with 38 (map unplus es)"
    unfolding es(2) by (induction "38 :: nat" es rule: join_with.induct) simp_all
  moreover have "\<forall>e \<in> set (map unplus es). 38 \<notin> set e"
    using d by auto
  ultimately have "split_on 38 (unplus q) = map unplus es"
    using ne split_join [of "map unplus es" 38] by simp
  then show ?thesis
    using d by (simp add: decode_form_def decode_query_def comp_def)
qed

section \<open>Lemmas on the redirect page\<close>

definition quotable :: "js_string \<Rightarrow> bool" where
  "quotable s \<longleftrightarrow> list_all (\<lambda>c. 32 \<le> c \<and> c \<noteq> 34 \<and> c \<noteq> 92) s"

lemma json_string_plain: "quotable k \<Longrightarrow> json_string (k @ 34 # s) = Some (k, s)"
  by (induction k) (simp_all add: json_string.simps quotable_def)

lemma json_token_simps [simp]:
  "\<not> json_space d \<Longrightarrow> json_token c (d # s) = (if d = c then Some s else None)" "json_token c [] = None"
  by (simp_all add: json_token_def)

lemma json_space_simps [simp]:
  "\<not> json_space 34" "\<not> json_space 44" "\<not> json_space 58" "\<not> json_space 123" "\<not> json_space 125"
  by (simp_all add: json_space_def)

lemma json_member_plain:
  "quotable k \<Longrightarrow> quotable v \<Longrightarrow>
   json_member (34 # k @ 34 # 58 # 34 # v @ 34 # s) = Some ((k, v), s)"
  by (simp add: json_member_def json_string_plain)

definition member_text :: "js_string \<times> js_string \<Rightarrow> js_string" where
  "member_text p = 34 # fst p @ 34 # 58 # 34 # snd p @ [34]"

lemma json_members_plain:
  "ms \<noteq> [] \<Longrightarrow> \<forall>p \<in> set ms. quotable (fst p) \<and> quotable (snd p) \<Longrightarrow>
   json_members (join_with 44 (map member_text ms) @ [125]) = Some ms"
proof (induction ms)
  case (Cons p ms)
  obtain k v where p: "p = (k, v)" by fastforce
  show ?case
  proof (cases ms)
    case Nil
    then show ?thesis
      using Cons.prems(2) json_member_plain [of k v "[125]"]
      by (simp add: p member_text_def json_members.simps)
  next
    case (Cons p' ms')
    let ?r = "join_with 44 (map member_text ms) @ [125]"
    have "join_with 44 (map member_text (p # ms)) @ [125] = 34 # k @ 34 # 58 # 34 # v @ 34 # 44 # ?r"
      by (simp add: Cons p member_text_def)
    moreover have "json_members ?r = Some ms"
      using Cons.IH Cons.prems(2) Cons by simp
    ultimately show ?thesis
      using Cons.prems(2) json_member_plain [of k v "44 # ?r"] by (simp add: p json_members.simps)
  qed
qed simp

lemma last_wins_distinct: "distinct (map fst ms) \<Longrightarrow> last_wins ms = ms"
  by (induction ms) auto

lemma quote_piece_param:
  assumes "61 \<notin> set k"
  shows "quote_piece (k @ 61 # e) = member_text (k, e)"
proof -
  have "takeWhile (\<lambda>c. c \<noteq> 61) (k @ 61 # e) = k"
    using assms by (subst takeWhile_append2) auto
  then show ?thesis
    by (simp add: quote_piece_def member_text_def Let_def)
qed

lemma push_params_pieces:
  "push_params ps = Some es \<Longrightarrow> pairs_ok ps \<Longrightarrow> list_all (plain_text \<circ> fst) ps \<Longrightarrow>
   [] \<notin> fst ` set ps \<Longrightarrow>
   \<exists>ms. map quote_piece es = map member_text ms \<and> map fst ms = map fst ps \<and>
     map page_reviver ms = map Some ps \<and>
     (\<forall>p \<in> set ms. quotable (fst p) \<and> quotable (snd p))"
proof (induction ps arbitrary: es)
  case (Cons p ps)
  obtain k v where p: "p = (k, v)" by fastforce
  obtain e fs where e: "encodeURIComponent v = Some e" "push_params ps = Some fs" "es = (k @ 61 # e) # fs"
    using Cons.prems(1) p by (auto split: option.splits)
  have ok: "js_ok v" "pairs_ok ps" "plain_text k" "list_all (plain_text \<circ> fst) ps"
    "k \<noteq> []" "[] \<notin> fst ` set ps"
    using Cons.prems(2-4) p by (auto simp: pairs_ok_def comp_def)
  obtain ms where ms: "map quote_piece fs = map member_text ms" "map fst ms = map fst ps"
    "map page_reviver ms = map Some ps"
    "\<forall>p \<in> set ms. quotable (fst p) \<and> quotable (snd p)"
    using Cons.IH [OF e(2) ok(2,4,6)] by blast
  have u: "unreserved c \<Longrightarrow> 32 \<le> c \<and> c \<noteq> 34 \<and> c \<noteq> 92" for c
    by (auto simp: unreserved_def)
  have "61 \<notin> set k" "quotable k"
    using ok(3) u unreserved_not(2) by (auto simp: plain_text_def quotable_def list_all_iff)
  moreover have "quotable e"
    using encode_chars [OF e(1) ok(1)] u by (force simp: quotable_def list_all_iff)
  moreover have "page_reviver (k, e) = Some (k, v)"
    using encode_decode [OF e(1) ok(1)] ok(5) by (simp add: page_reviver_def)
  ultimately show ?case
    using ms e(3) p by (intro exI [of _ "(k, e) # ms"]) (simp add: quote_piece_param)
qed simp

text \<open>What the page reads from a query a server has encoded.\<close>

lemma page_params_correct:
  assumes "push_params ps = Some es" "pairs_ok ps" "list_all (plain_text \<circ> fst) ps" "ps \<noteq> []"
    "distinct (map fst ps)" "[] \<notin> fst ` set ps"
  shows "page_params (join_with 38 es) = Some ps"
proof -
  obtain ms where ms: "map quote_piece es = map member_text ms" "map fst ms = map fst ps"
    "map page_reviver ms = map Some ps"
    "\<forall>p \<in> set ms. quotable (fst p) \<and> quotable (snd p)"
    using push_params_pieces [OF assms(1-3,6)] by blast
  note enc = push_params_encodes [OF assms(1-3)]
  have es: "es \<noteq> []"
    using enc assms(4) by auto
  have "\<forall>e \<in> set es. 38 \<notin> set e"
  proof
    fix e
    assume "e \<in> set es"
    then obtain p where "encodes e p"
      using encodes_member [OF enc] by blast
    then show "38 \<notin> set e"
      using unreserved_not(1) by (auto simp: encodes_def)
  qed
  then have sp: "split_on 38 (join_with 38 es) = es"
    using es by (simp add: split_join)
  have ne: "join_with 38 es \<noteq> []"
  proof
    assume "join_with 38 es = []"
    then have "es = [[]]"
      using sp by simp
    then show False
      using assms(1) by (cases ps) (auto split: option.splits)
  qed
  have ms_ne: "ms \<noteq> []"
    using ms(2) assms(4) by auto
  have "JSON_parse (123 # join_with 44 (map quote_piece es) @ [125]) = Some ms"
    using json_members_plain [OF ms_ne ms(4)] ms(1,2) assms(5)
    by (simp add: JSON_parse_def last_wins_distinct)
  then show ?thesis
    using ne ms(3) by (simp add: page_params_def sp)
qed

lemma page_query_search [simp]: "page_query [] (c # q) = q"
  by (simp add: page_query_def js_def)

text \<open>A warning is the only effect of a state that does not match.\<close>

definition page_warning :: "oauth_redirect \<Rightarrow> (js_string \<times> js_string) list \<Rightarrow> auth_error list" where
  "page_warning r ps =
     (if map_of ps (js ''state'') = rd_state r then []
      else [\<lparr>ae_authId = au_name (rd_auth r), ae_level = Warning, ae_message = unsafe_warning\<rparr>])"

lemma redirect_run_code:
  assumes "push_params ps = Some es" "pairs_ok ps" "list_all (plain_text \<circ> fst) ps" "ps \<noteq> []"
    "distinct (map fst ps)" "[] \<notin> fst ` set ps"
    "code_flow (au_flow (rd_auth r))" "\<not> nonempty (au_code (rd_auth r))"
  shows "redirect_run r [] (63 # join_with 38 es) = Some
    (let code = param_text ps ''code''; t = (rd_auth r)\<lparr>au_code := Some code\<rparr>
     in if code \<noteq> []
        then (r\<lparr>rd_state := None, rd_auth := t\<rparr>, page_warning r ps,
              Some (CodeArg (rd_callback r) t (rd_redirectUrl r)))
        else (r, page_warning r ps @ [\<lparr>ae_authId = au_name (rd_auth r), ae_level = Error,
               ae_message = page_error_message ps\<rparr>], None))"
  using assms(7,8) page_params_correct [OF assms(1-6)]
  by (simp add: redirect_run_def Let_def page_warning_def)

text \<open>A parameter without an equals sign gives a text that is no JSON object: the page throws.\<close>

lemma page_flag_throws: "page_params (js ''code=k&x'') = None"
proof -
  have p: "split_on 38 (js ''code=k&x'') = [js ''code=k'', js ''x'']"
    by (simp add: js_def)
  have q: "123 # join_with 44 (map quote_piece [js ''code=k'', js ''x'']) @ [125] =
      123 # 34 # js ''code'' @ 34 # 58 # 34 # js ''k'' @ 34 # 44 # 34 # js ''x'' @ 34 # [125]"
    by (simp add: quote_piece_def js_def Let_def)
  have k: "quotable (js ''code'')" "quotable (js ''k'')" "quotable (js ''x'')"
    by (simp_all add: quotable_def js_def)
  have "json_members (34 # js ''x'' @ 34 # [125]) = None"
    by (simp add: json_members.simps json_member_def json_string_plain [OF k(3)])
  then have "JSON_parse (123 # join_with 44 (map quote_piece [js ''code=k'', js ''x'']) @ [125]) = None"
    unfolding q JSON_parse_def
    using json_member_plain [OF k(1,2), of "44 # 34 # js ''x'' @ 34 # [125]"]
    by (simp add: json_members.simps [of "34 # js ''code'' @ _"])
  moreover have "js ''code=k&x'' \<noteq> []"
    by (simp add: js_def)
  ultimately show ?thesis
    by (simp add: page_params_def p)
qed

text \<open>A state that does not match is reported, and the code taken all the same.\<close>

lemma mismatch_only_warns:
  assumes "redirect_run r hash search = Some (r', errs, Some (CodeArg cb t url))"
    "page_params (page_query hash search) = Some ps" "map_of ps (js ''state'') \<noteq> rd_state r"
  shows "au_code t = Some (param_text ps ''code'') \<and> length errs = 1"
  using assms by (auto simp: redirect_run_def Let_def split: if_splits)

section \<open>The code exchange\<close>

text \<open>The parameters of the token request of the two callbacks.\<close>

definition exchange_pairs :: "oauth_callback \<Rightarrow> oauth_auth \<Rightarrow> js_string \<Rightarrow> (js_string \<times> js_string) list" where
  "exchange_pairs cb t url = form_pairs
     ([(js ''grant_type'', Some (js ''authorization_code'')), (js ''code'', au_code t),
       (js ''client_id'', au_clientId t)] @
      (if cb = AccessCodeForm then [(js ''client_secret'', au_clientSecret t)] else []) @
      [(js ''redirect_uri'', Some url), (js ''code_verifier'', au_codeVerifier t)])"

lemma exchange_keys_plain:
  "plain_text (js ''grant_type'')" "plain_text (js ''code'')" "plain_text (js ''client_id'')"
  "plain_text (js ''client_secret'')" "plain_text (js ''redirect_uri'')" "plain_text (js ''code_verifier'')"
  by (simp_all add: plain_text_def js_def unreserved_def)

lemma js_eq_Nil [simp]: "js s = [] \<longleftrightarrow> s = []"
  by (simp add: js_def)

lemma code_callback_body:
  assumes "code_callback cb t url = Some q" "pairs_ok (exchange_pairs cb t url)"
  shows "decode_form (ar_body q) = Some (exchange_pairs cb t url) \<and> ar_url q = au_tokenUrl t \<and>
    ar_auth q = t"
proof -
  have ne: "exchange_pairs cb t url \<noteq> []"
    by (simp add: exchange_pairs_def form_pairs_def)
  show ?thesis
  proof (cases cb)
    case PreAuthorizeImplicit
    then show ?thesis
      using assms(1) by (simp add: code_callback_def)
  next
    case AccessCodeBasic
    then show ?thesis
      using assms ne buildFormData_decode [OF _ assms(2) [unfolded exchange_pairs_def]]
      by (auto simp: code_callback_def authorizeAccessCodeWithBasicAuthentication_def token_request_def
          exchange_keys_plain exchange_pairs_def)
  next
    case AccessCodeForm
    then show ?thesis
      using assms ne buildFormData_decode [OF _ assms(2) [unfolded exchange_pairs_def]]
      by (auto simp: code_callback_def authorizeAccessCodeWithFormParams_def token_request_def
          exchange_keys_plain exchange_pairs_def)
  qed
qed

text \<open>C20: The authorization code flow, from the dialog through the server and the redirect page
  to the token request.  When the dialog has opened the authorization URL with PKCE, and the
  server redirects to the page with a code and the state it was given, then the page reports no
  warning, takes the code and calls back, and the body of the token request decodes to the code
  as the server meant it, the same redirect URL as in the authorization request and the
  verifier whose digest that request carried as its challenge.\<close>

theorem code_exchange_correct:
  assumes "oauth2_authorize env w = Normal w'" "oe_oauth2RedirectUrl env = Some h"
    "use_pkce (oe_configs env) (au_flow (ow_auth w))" "pairs_ok (authorize_pairs env (ow_auth w) h)"
    "\<forall>v. \<forall>b \<in> set (oe_sha256 env v). b < 256" "\<not> nonempty (au_code (ow_auth w))"
    and "push_params [(js ''code'', code), (js ''state'', btoa (oe_date env))] = Some es"
    and "js_ok code" "code \<noteq> []"
    and "redirect = the (ow_redirect w')"
    and "v = generateCodeVerifier (oe_randomBytes env)"
    and "t = (ow_auth w)\<lparr>au_codeVerifier := Some v, au_code := Some code\<rparr>"
  shows "redirect_run redirect [] (63 # join_with 38 es) =
      Some (redirect\<lparr>rd_state := None, rd_auth := t\<rparr>, [], Some (CodeArg (rd_callback redirect) t h)) \<and>
    (js ''code_challenge'', createCodeChallenge (oe_sha256 env) v) \<in> set (authorize_pairs env (ow_auth w) h) \<and>
    (js ''redirect_uri'', h) \<in> set (authorize_pairs env (ow_auth w) h) \<and>
    (\<forall>q. code_callback (rd_callback redirect) t h = Some q \<and>
         pairs_ok (exchange_pairs (rd_callback redirect) t h) \<longrightarrow>
       decode_form (ar_body q) = Some (exchange_pairs (rd_callback redirect) t h) \<and>
       ar_url q = au_tokenUrl (ow_auth w)) \<and>
    (js ''code'', code) \<in> set (exchange_pairs (rd_callback redirect) t h) \<and>
    (v \<noteq> [] \<longrightarrow> (js ''code_verifier'', v) \<in> set (exchange_pairs (rd_callback redirect) t h))"
proof -
  have direct: "\<not> direct_flow (au_flow (ow_auth w))" and flow: "code_flow (au_flow (ow_auth w))"
    using assms(3) by (auto simp: use_pkce_def code_flow_def direct_flow_def js_def)
  have r: "redirect = \<lparr>rd_auth = (ow_auth w)\<lparr>au_codeVerifier := Some v\<rparr>,
      rd_state = Some (btoa (oe_date env)), rd_redirectUrl = h,
      rd_callback = authorize_callback (oe_configs env) (au_flow (ow_auth w))\<rparr>"
    by (rule authorize_NormalE [OF assms(1,2) direct assms(4,5)]) (use assms(3,10,11) in simp)
  let ?ps = "[(js ''code'', code), (js ''state'', btoa (oe_date env))]"
  have ps: "pairs_ok ?ps" "list_all (plain_text \<circ> fst) ?ps" "?ps \<noteq> []" "distinct (map fst ?ps)"
    "[] \<notin> fst ` set ?ps" "param_text ?ps ''code'' = code" "map_of ?ps (js ''state'') = Some (btoa (oe_date env))"
    using assms(8) base64_ok
    by (simp_all add: pairs_ok_def btoa_def plain_text_def unreserved_def param_text_def js_def)
  have "redirect_run redirect [] (63 # join_with 38 es) =
      Some (redirect\<lparr>rd_state := None, rd_auth := t\<rparr>, [], Some (CodeArg (rd_callback redirect) t h))"
    using redirect_run_code [OF assms(7) ps(1-5), of redirect] ps(6,7) flow assms(6,9,12) r
    by (simp add: Let_def page_warning_def)
  moreover have "(js ''code_challenge'', createCodeChallenge (oe_sha256 env) v) \<in> set (authorize_pairs env (ow_auth w) h)"
    "(js ''redirect_uri'', h) \<in> set (authorize_pairs env (ow_auth w) h)"
    using assms(3,11) by (simp_all add: authorize_pairs_def request_params_def Let_def)
  moreover have "(js ''code'', code) \<in> set (exchange_pairs (rd_callback redirect) t h)"
    "v \<noteq> [] \<longrightarrow> (js ''code_verifier'', v) \<in> set (exchange_pairs (rd_callback redirect) t h)"
    using assms(9,12) by (simp_all add: exchange_pairs_def form_pairs_def)
  ultimately show ?thesis
    using code_callback_body [of "rd_callback redirect" t h] assms(12) by simp
qed

lemma ex_redirect:
  "push_params [(js ''code'', js ''k''), (js ''state'', btoa (oe_date ex_oauth_env))] =
     Some [js ''code=k'', js ''state=TW9u'']"
  by (simp add: ex_oauth_env_def ex_encoded) (simp add: js_def unreserved_def)

theorem code_exchange_correct_witness:
  "\<exists>w' r. oauth2_authorize ex_oauth_env ex_oauth_win = Normal w' \<and>
     redirect_run (the (ow_redirect w')) [] (js ''?code=k&state=TW9u'') =
       Some (r, [], Some (CodeArg (rd_callback (the (ow_redirect w')))
         (ex_oauth_auth\<lparr>au_codeVerifier := Some (generateCodeVerifier [0]), au_code := Some (js ''k'')\<rparr>)
         (js ''https://b/'')))"
proof -
  obtain w' where w': "oauth2_authorize ex_oauth_env ex_oauth_win = Normal w'"
    using ex_authorize by blast
  have e: "oe_oauth2RedirectUrl ex_oauth_env = Some (js ''https://b/'')" "ow_auth ex_oauth_win = ex_oauth_auth"
    "\<forall>v. \<forall>b \<in> set (oe_sha256 ex_oauth_env v). b < 256"
    "use_pkce (oe_configs ex_oauth_env) (au_flow ex_oauth_auth)" "oe_randomBytes ex_oauth_env = [0]"
    "\<not> nonempty (au_code ex_oauth_auth)"
    by (simp_all add: ex_oauth_env_def ex_oauth_win_def ex_oauth_auth_def use_pkce_def nonempty_def)
  have k: "js_ok (js ''k'')" "js ''k'' \<noteq> []"
    by (simp_all add: js_def)
  have q: "63 # join_with 38 [js ''code=k'', js ''state=TW9u''] = js ''?code=k&state=TW9u''"
    by (simp add: js_def)
  show ?thesis
    using code_exchange_correct [OF w' e(1) _ _ e(3) _ ex_redirect k refl refl refl]
      e ex_pairs_ok w' q by auto
qed

end
