(* ===== verification/SwaggerAuth.thy ===== *)
theory SwaggerAuth
  imports SwaggerOAuth SwaggerErr
begin

text \<open>
  The auth plugin of swagger-ui (swagger-ui.js, line 2): the reducers over the authorizations
  the user has given, the selectors that decide which security requirements they satisfy, the
  preauthorization calls of the embedding page, and the wrapper of the core that keeps the state
  when a reducer throws.
\<close>

section \<open>The state\<close>

text \<open>\<open>authorized\<close> is a Map from the names of security schemes to what was given for them; it is
  missing until the first authorization.\<close>

record auth_state =
  st_showDefinitions :: json
  st_authorized :: "(js_string \<Rightarrow> json option) option"
  st_configs :: "json option"

datatype auth_action =
    ShowAuthPopup json
  | Authorize "(js_string \<times> json) list"
  | AuthorizeOauth2Action js_string js_fields json
  | Logout "js_string list"
  | ConfigureAuth json
  | RestoreAuthorization js_fields

definition authorized :: "auth_state \<Rightarrow> js_string \<Rightarrow> json option" where
  "authorized s = (case st_authorized s of None \<Rightarrow> Map.empty | Some m \<Rightarrow> m)"

section \<open>Reducers\<close>

text \<open>The text of a value in a concatenation; \<open>show\<close> is the one of a list or a map.\<close>

fun json_text :: "(json \<Rightarrow> js_string) \<Rightarrow> json option \<Rightarrow> js_string" where
  "json_text show None = js ''undefined''"
| "json_text show (Some (JString s)) = s"
| "json_text show (Some (JNumber s)) = s"
| "json_text show (Some JNull) = js ''null''"
| "json_text show (Some (JBool b)) = (if b then js ''true'' else js ''false'')"
| "json_text show (Some j) = show j"

definition username_key :: js_string where
  "username_key = js ''username''"

definition password_key :: js_string where
  "password_key = js ''password''"

definition value_key :: js_string where
  "value_key = js ''value''"

definition schema_key :: js_string where
  "schema_key = js ''schema''"

definition header_key :: js_string where
  "header_key = js ''header''"

text \<open>\<open>{username, header}\<close>; a property that is undefined is left out.\<close>

definition basic_value :: "(json \<Rightarrow> js_string) \<Rightarrow> json \<Rightarrow> json" where
  "basic_value show a =
     (let c = json_get [value_key, username_key] a; u = json_get [value_key, password_key] a
      in JObject ((case c of None \<Rightarrow> [] | Some x \<Rightarrow> [(username_key, x)]) @
           [(header_key, JString (js ''Basic '' @ btoa (json_text show c @ [58] @ json_text show u)))]))"

text \<open>\<open>setIn\<close> of a key under an entry: a missing entry is a new Map, a list ignores the key, and
  another value is a TypeError.\<close>

definition set_under :: "js_string \<Rightarrow> json \<Rightarrow> json option \<Rightarrow> json option" where
  "set_under k v e =
     (case e of
        None \<Rightarrow> Some (JObject [(k, v)])
      | Some (JObject ps) \<Rightarrow> Some (JObject (js_set k v ps))
      | Some (JArray xs) \<Rightarrow> Some (JArray xs)
      | _ \<Rightarrow> None)"

definition authorize_entry ::
  "(json \<Rightarrow> js_string) \<Rightarrow> js_string \<Rightarrow> json \<Rightarrow> (js_string \<Rightarrow> json option) \<Rightarrow> (js_string \<Rightarrow> json option) option" where
  "authorize_entry show r a m =
     (if a = JNull then None
      else case json_get [schema_key, type_key] a of
             Some (JString i) \<Rightarrow>
               if i = js ''apiKey'' \<or> i = js ''http'' then Some (m(r \<mapsto> a))
               else if i = js ''basic'' then
                 Option.bind (set_under value_key (basic_value show a) (m r)) (\<lambda>e.
                   Option.bind (set_under schema_key (the (json_get [schema_key] a)) (Some e)) (\<lambda>e'.
                     Some (m(r \<mapsto> e'))))
               else Some m
           | _ \<Rightarrow> Some m)"

fun authorize_entries ::
  "(json \<Rightarrow> js_string) \<Rightarrow> (js_string \<times> json) list \<Rightarrow> (js_string \<Rightarrow> json option) \<Rightarrow>
   (js_string \<Rightarrow> json option) option" where
  "authorize_entries show [] m = Some m"
| "authorize_entries show ((r, a) # es) m = Option.bind (authorize_entry show r a m) (authorize_entries show es)"

text \<open>\<open>Object.assign({}, token)\<close>: the properties of an object, the units of a string, the items
  of an array, nothing of the other values.\<close>

fun assign_copy :: "json \<Rightarrow> js_fields" where
  "assign_copy (JObject m) = object_assign [] m"
| "assign_copy (JString s) = map (\<lambda>(i, c). (decimal i, JString [c])) (enumerate 0 s)"
| "assign_copy (JArray xs) = map (\<lambda>(i, x). (decimal i, x)) (enumerate 0 xs)"
| "assign_copy _ = []"

definition oauth_entry :: "js_string \<Rightarrow> js_fields \<Rightarrow> json \<Rightarrow> json" where
  "oauth_entry name auth token =
     JObject (js_set (js ''token'') (JObject (assign_copy token)) ((js ''name'', JString name) # auth))"

fun auth_reduce :: "(json \<Rightarrow> js_string) \<Rightarrow> auth_state \<Rightarrow> auth_action \<Rightarrow> auth_state option" where
  "auth_reduce show s (ShowAuthPopup p) = Some (s\<lparr>st_showDefinitions := p\<rparr>)"
| "auth_reduce show s (Authorize es) =
     map_option (\<lambda>m. s\<lparr>st_authorized := Some m\<rparr>) (authorize_entries show es (authorized s))"
| "auth_reduce show s (AuthorizeOauth2Action name auth token) =
     Some (s\<lparr>st_authorized := Some ((authorized s)(name \<mapsto> oauth_entry name auth token))\<rparr>)"
| "auth_reduce show s (Logout names) =
     map_option (\<lambda>m. s\<lparr>st_authorized := Some (fold (\<lambda>k m. m(k := None)) names m)\<rparr>) (st_authorized s)"
| "auth_reduce show s (ConfigureAuth p) = Some (s\<lparr>st_configs := Some p\<rparr>)"
| "auth_reduce show s (RestoreAuthorization p) = Some (s\<lparr>st_authorized := Some (map_of p)\<rparr>)"

text \<open>\<open>makeReducer\<close> of the core: a reducer that throws changes nothing.\<close>

definition makeReducer :: "('s \<Rightarrow> 'a \<Rightarrow> 's option) \<Rightarrow> 's \<Rightarrow> 'a \<Rightarrow> 's" where
  "makeReducer redFn s a = (case redFn s a of None \<Rightarrow> s | Some s' \<Rightarrow> s')"

section \<open>Selectors and preauthorization\<close>

definition definitionsToAuthorize :: "(js_string \<times> json) list \<Rightarrow> (js_string \<times> json) list" where
  "definitionsToAuthorize definitions = definitions"

text \<open>A requirement maps the names of schemes to their scopes; \<open>sec.get(name)\<close> is a list, which
  is truthy.\<close>

type_synonym requirement = "(js_string \<times> json) list"

definition definitionsForRequirements ::
  "(js_string \<times> json) list \<Rightarrow> requirement list \<Rightarrow> (js_string \<times> json) list" where
  "definitionsForRequirements definitions securities =
     filter (\<lambda>(name, _). list_ex (\<lambda>sec. case map_of sec name of None \<Rightarrow> False | Some v \<Rightarrow> json_truthy v)
       securities) (definitionsToAuthorize definitions)"

text \<open>\<open>None\<close> is the null of an argument that is no list.\<close>

definition isAuthorized :: "auth_state \<Rightarrow> requirement list option \<Rightarrow> bool option" where
  "isAuthorized s securities =
     map_option (\<lambda>secs. filter (\<lambda>security. \<not> List.member
         (map (\<lambda>(key, _). case authorized s key of None \<Rightarrow> False | Some e \<Rightarrow> json_truthy e) security) False)
       secs \<noteq> [])
     securities"

text \<open>The definition of a scheme is looked up in the specification; \<open>None\<close> when it has none.\<close>

definition preauthorizeBasic :: "js_fields \<Rightarrow> js_string \<Rightarrow> json \<Rightarrow> json \<Rightarrow> auth_action option" where
  "preauthorizeBasic definitions key username password =
     (case map_of definitions key of
        Some d \<Rightarrow>
          if json_truthy d then
            Some (Authorize [(key, JObject [(value_key, JObject [(username_key, username), (password_key, password)]),
              (schema_key, d)])])
          else None
      | None \<Rightarrow> None)"

definition preauthorizeApiKey :: "js_fields \<Rightarrow> js_string \<Rightarrow> json \<Rightarrow> auth_action option" where
  "preauthorizeApiKey definitions key apiKeyValue =
     (case map_of definitions key of
        Some d \<Rightarrow>
          if json_truthy d then
            Some (Authorize [(key, JObject [(value_key, apiKeyValue), (schema_key, d)])])
          else None
      | None \<Rightarrow> None)"

section \<open>Reachable states\<close>

definition auth_init :: auth_state where
  "auth_init = \<lparr>st_showDefinitions = JNull, st_authorized = None, st_configs = None\<rparr>"

text \<open>An entry is a Map, and the entry of a basic scheme holds no password.\<close>

definition entry_ok :: "json \<Rightarrow> bool" where
  "entry_ok e \<longleftrightarrow> (\<exists>ps. e = JObject ps) \<and>
     (json_get [schema_key, type_key] e = Some (JString (js ''basic'')) \<longrightarrow>
        json_get [value_key, password_key] e = None)"

definition auth_ok :: "auth_state \<Rightarrow> bool" where
  "auth_ok s \<longleftrightarrow> (\<forall>k e. authorized s k = Some e \<longrightarrow> entry_ok e)"

text \<open>What the rest of the program dispatches: a token comes with the state of an OAuth2 dialog,
  whose schema is not of type basic, and a restored map is one that was stored.\<close>

fun action_ok :: "auth_action \<Rightarrow> bool" where
  "action_ok (AuthorizeOauth2Action name auth token) \<longleftrightarrow>
     json_get [schema_key, type_key] (JObject auth) \<noteq> Some (JString (js ''basic''))"
| "action_ok (RestoreAuthorization p) \<longleftrightarrow> (\<forall>e \<in> snd ` set p. entry_ok e)"
| "action_ok _ \<longleftrightarrow> True"

inductive auth_reachable :: "(json \<Rightarrow> js_string) \<Rightarrow> auth_state \<Rightarrow> bool" for text_of where
  init: "auth_reachable text_of auth_init"
| step: "auth_reachable text_of s \<Longrightarrow> action_ok a \<Longrightarrow>
    auth_reachable text_of (makeReducer (auth_reduce text_of) s a)"

lemma auth_keys [simp]:
  "value_key \<noteq> schema_key" "schema_key \<noteq> value_key" "value_key \<noteq> proto_key" "schema_key \<noteq> proto_key"
  "username_key \<noteq> password_key" "password_key \<noteq> username_key" "header_key \<noteq> password_key"
  "password_key \<noteq> header_key" "js ''token'' \<noteq> schema_key" "js ''name'' \<noteq> schema_key" "js ''token'' \<noteq> proto_key"
  "schema_key \<noteq> js ''token''" "schema_key \<noteq> js ''name''"
  by (simp_all add: value_key_def schema_key_def username_key_def password_key_def header_key_def
      proto_key_def js_def)

lemma json_get_set:
  "k \<noteq> proto_key \<Longrightarrow> json_get (k' # ks) (JObject (js_set k v ps)) =
     (if k' = k then json_get ks v else json_get (k' # ks) (JObject ps))"
  by simp

lemma basic_value_password: "json_get [password_key] (basic_value show a) = None"
  by (simp add: basic_value_def Let_def split: option.split)

lemma set_under_object:
  "e = None \<or> (\<exists>ps. e = Some (JObject ps)) \<Longrightarrow> \<exists>qs. set_under k v e = Some (JObject qs) \<and>
     (k \<noteq> proto_key \<longrightarrow> (\<forall>k' ks. json_get (k' # ks) (JObject qs) =
        (if k' = k then json_get ks v else Option.bind e (json_get (k' # ks)))))"
  by (auto simp: set_under_def)

lemma json_get_Some_object: "json_get (k # ks) a = Some v \<Longrightarrow> \<exists>ps. a = JObject ps"
  by (cases a) auto

lemma authorize_entry_ok:
  assumes "authorize_entry show r a m = Some m'" "\<forall>k e. m k = Some e \<longrightarrow> entry_ok e" "m' k = Some e"
  shows "entry_ok e"
proof (cases "json_get [schema_key, type_key] a")
  case None
  then show ?thesis
    using assms by (auto simp: authorize_entry_def split: if_splits)
next
  case (Some t)
  obtain ps where ps: "a = JObject ps"
    using json_get_Some_object [OF Some] by blast
  show ?thesis
  proof (cases "t = JString (js ''apiKey'') \<or> t = JString (js ''http'')")
    case True
    then have "m' = m(r \<mapsto> a)"
      using assms(1) Some ps by (auto simp: authorize_entry_def)
    moreover have "entry_ok a"
      using True Some ps by (auto simp: entry_ok_def) (simp_all add: js_def)
    ultimately show ?thesis
      using assms(2,3) by (auto split: if_splits)
  next
    case False
    show ?thesis
    proof (cases "t = JString (js ''basic'')")
      case True
      have mr: "m r = None \<or> (\<exists>ps. m r = Some (JObject ps))"
        using assms(2) by (cases "m r") (auto simp: entry_ok_def)
      obtain qs where qs: "set_under value_key (basic_value show a) (m r) = Some (JObject qs)"
        "\<And>k' ks. json_get (k' # ks) (JObject qs) =
          (if k' = value_key then json_get ks (basic_value show a) else Option.bind (m r) (json_get (k' # ks)))"
        using set_under_object [OF mr, of value_key "basic_value show a"] by auto
      let ?sc = "the (json_get [schema_key] a)"
      obtain us where us: "set_under schema_key ?sc (Some (JObject qs)) = Some (JObject us)"
        "\<And>k' ks. json_get (k' # ks) (JObject us) =
          (if k' = schema_key then json_get ks ?sc else json_get (k' # ks) (JObject qs))"
        using set_under_object [of "Some (JObject qs)" schema_key ?sc] by auto
      have "m' = m(r \<mapsto> JObject us)"
        using assms(1) Some ps True False qs(1) us(1) by (auto simp: authorize_entry_def)
      moreover have "json_get [value_key, password_key] (JObject us) = None"
        unfolding us(2) qs(2) by (simp add: basic_value_password)
      ultimately show ?thesis
        using assms(2,3) by (auto simp: entry_ok_def split: if_splits)
    next
      case basic: False
      then have "m' = m"
        using assms(1) Some ps False by (auto simp: authorize_entry_def split: json.splits if_splits)
      then show ?thesis
        using assms(2,3) by blast
    qed
  qed
qed

lemma authorize_entries_ok:
  "authorize_entries show es m = Some m' \<Longrightarrow> \<forall>k e. m k = Some e \<longrightarrow> entry_ok e \<Longrightarrow>
   m' k = Some e \<Longrightarrow> entry_ok e"
proof (induction es arbitrary: m)
  case (Cons p es)
  obtain r a where p: "p = (r, a)" by fastforce
  obtain n where n: "authorize_entry show r a m = Some n" "authorize_entries show es n = Some m'"
    using Cons.prems(1) p by (auto simp: bind_eq_Some_conv)
  show ?case
    by (rule Cons.IH [OF n(2) _ Cons.prems(3)]) (use authorize_entry_ok [OF n(1) Cons.prems(2)] in blast)
qed simp

lemma oauth_entry_ok:
  assumes "action_ok (AuthorizeOauth2Action name auth token)"
  shows "entry_ok (oauth_entry name auth token)"
proof -
  have "json_get [schema_key, type_key] (oauth_entry name auth token) =
      json_get [schema_key, type_key] (JObject auth)"
    unfolding oauth_entry_def by (subst json_get_set) simp_all
  then show ?thesis
    using assms by (simp add: entry_ok_def oauth_entry_def)
qed

lemma fold_remove: "fold (\<lambda>k m. m(k := None)) names m k = (if k \<in> set names then None else m k)"
  by (induction names arbitrary: m) auto

lemma auth_reduce_ok:
  assumes "auth_reduce show s a = Some s'" "auth_ok s" "action_ok a"
  shows "auth_ok s'"
proof (cases a)
  case (Authorize es)
  then obtain m where m: "authorize_entries show es (authorized s) = Some m" "s' = s\<lparr>st_authorized := Some m\<rparr>"
    using assms(1) by auto
  then show ?thesis
    using authorize_entries_ok [OF m(1)] assms(2) by (auto simp: auth_ok_def authorized_def)
next
  case (AuthorizeOauth2Action name auth token)
  then have "authorized s' k = (if k = name then Some (oauth_entry name auth token) else authorized s k)" for k
    using assms(1) by (auto simp: authorized_def)
  then show ?thesis
    using assms(2,3) oauth_entry_ok AuthorizeOauth2Action by (auto simp: auth_ok_def split: if_splits)
next
  case (RestoreAuthorization p)
  then show ?thesis
    using assms by (force simp: auth_ok_def authorized_def dest: map_of_SomeD)
qed (use assms in \<open>auto simp: auth_ok_def authorized_def fold_remove split: if_splits\<close>)

lemma auth_reachable_ok: "auth_reachable show s \<Longrightarrow> auth_ok s"
proof (induction rule: auth_reachable.induct)
  case init
  then show ?case
    by (simp add: auth_ok_def auth_init_def authorized_def)
next
  case (step s a)
  then show ?case
    using auth_reduce_ok by (auto simp: makeReducer_def split: option.split)
qed

lemma isAuthorized_ok:
  assumes "auth_ok s"
  shows "isAuthorized s (Some secs) = Some (\<exists>sec \<in> set secs. \<forall>key \<in> fst ` set sec. authorized s key \<noteq> None)"
proof -
  have "(case authorized s key of None \<Rightarrow> False | Some e \<Rightarrow> json_truthy e) \<longleftrightarrow> authorized s key \<noteq> None" for key
    using assms by (auto simp: auth_ok_def entry_ok_def split: option.split) fastforce
  then show ?thesis
    by (force simp: isAuthorized_def filter_empty_conv image_iff case_prod_beta)
qed

text \<open>C22: The authorizations swagger-ui keeps, after any sequence of logins, tokens, logouts and
  restored sessions, also when a reducer throws: the user is authorized for an operation exactly
  when one of its security requirements has an authorization for every scheme it names; after a
  logout that no longer counts for a requirement that names a scheme logged out, and nothing
  else changes; and no entry of a basic scheme keeps the password beside the header made of it.\<close>

theorem isAuthorized_correct:
  assumes "auth_reachable text_of s"
  shows "isAuthorized s (Some secs) =
      Some (\<exists>sec \<in> set secs. \<forall>key \<in> fst ` set sec. authorized s key \<noteq> None) \<and>
    isAuthorized (makeReducer (auth_reduce text_of) s (Logout names)) (Some secs) =
      Some (\<exists>sec \<in> set secs. \<forall>key \<in> fst ` set sec. key \<notin> set names \<and> authorized s key \<noteq> None) \<and>
    (\<forall>key e. authorized s key = Some e \<and>
       json_get [schema_key, type_key] e = Some (JString (js ''basic'')) \<longrightarrow>
       json_get [value_key, password_key] e = None)"
proof (intro conjI)
  note ok = auth_reachable_ok [OF assms]
  show "isAuthorized s (Some secs) =
      Some (\<exists>sec \<in> set secs. \<forall>key \<in> fst ` set sec. authorized s key \<noteq> None)"
    by (rule isAuthorized_ok [OF ok])
  let ?s = "makeReducer (auth_reduce text_of) s (Logout names)"
  have "auth_ok ?s"
    using auth_reachable.step [OF assms, of "Logout names"] by (intro auth_reachable_ok) simp
  moreover have "authorized ?s key = (if key \<in> set names then None else authorized s key)" for key
    by (cases "st_authorized s") (simp_all add: makeReducer_def authorized_def fold_remove)
  ultimately show "isAuthorized ?s (Some secs) =
      Some (\<exists>sec \<in> set secs. \<forall>key \<in> fst ` set sec. key \<notin> set names \<and> authorized s key \<noteq> None)"
    by (auto simp: isAuthorized_ok)
  show "\<forall>key e. authorized s key = Some e \<and>
       json_get [schema_key, type_key] e = Some (JString (js ''basic'')) \<longrightarrow>
       json_get [value_key, password_key] e = None"
    using ok by (auto simp: auth_ok_def entry_ok_def)
qed

definition ex_basic :: auth_action where
  "ex_basic = the (preauthorizeBasic [(js ''b'', JObject [(type_key, JString (js ''basic''))])] (js ''b'')
     (JString (js ''me'')) (JString (js ''pw'')))"

definition ex_auth_state :: auth_state where
  "ex_auth_state = makeReducer (auth_reduce (\<lambda>_. [])) auth_init ex_basic"

theorem isAuthorized_correct_witness:
  "isAuthorized ex_auth_state (Some [[(js ''b'', JArray [])], [(js ''c'', JArray [])]]) = Some True \<and>
   isAuthorized (makeReducer (auth_reduce (\<lambda>_. [])) ex_auth_state (Logout [js ''b'']))
     (Some [[(js ''b'', JArray [])], [(js ''c'', JArray [])]]) = Some False"
proof -
  have r: "auth_reachable (\<lambda>_. []) ex_auth_state"
    unfolding ex_auth_state_def
    by (intro auth_reachable.step auth_reachable.init) (simp add: ex_basic_def preauthorizeBasic_def)
  have "json_get [schema_key, type_key] (JObject [(value_key, v), (schema_key, JObject [(type_key, t)])]) = Some t" for v t
    by simp
  then have "authorized ex_auth_state (js ''b'') \<noteq> None" "authorized ex_auth_state (js ''c'') = None"
    by (simp_all add: ex_auth_state_def ex_basic_def preauthorizeBasic_def makeReducer_def auth_init_def
        authorized_def authorize_entry_def set_under_def) (simp_all add: js_def)
  then show ?thesis
    using isAuthorized_correct [OF r, of "[[(js ''b'', JArray [])], [(js ''c'', JArray [])]]" "[js ''b'']"]
    by auto
qed

end
