(* ===== verification/SwaggerCurl.thy ===== *)
theory SwaggerCurl
  imports SwaggerUrl SwaggerUtils
begin

text \<open>
  The request-snippets plugin (swagger-ui.js, line 2): \<open>curlify\<close>, which writes a request as a
  curl command, with the quoting functions for bash, cmd and PowerShell.  The property reads the
  bash command back with a lexer for the part of the shell's grammar it is written in.
\<close>

section \<open>Keys and quoting\<close>

text \<open>The text before the first occurrence.\<close>

fun before :: "js_string \<Rightarrow> js_string \<Rightarrow> js_string" where
  "before p [] = []"
| "before p (c # s) = (if is_prefix p (c # s) then [] else c # before p s)"

definition extractKey :: "js_string \<Rightarrow> js_string" where
  "extractKey k = (if sublist hashIdx k then trim (before hashIdx k) else k)"

text \<open>\<open>/^[_\/-]/\<close>\<close>

definition unquoted_start :: "js_string \<Rightarrow> bool" where
  "unquoted_start s \<longleftrightarrow> s \<noteq> [] \<and> List.member [95, 47, 45] (hd s)"

definition escapeShell :: "js_string \<Rightarrow> js_string" where
  "escapeShell s =
     (if s = js ''-d '' \<or> unquoted_start s then s
      else 39 # replace_all 39 [39, 92, 39, 39] s @ [39])"

fun replace_backslash_quote :: "js_string \<Rightarrow> js_string" where
  "replace_backslash_quote (c # d # s) =
     (if c = 92 \<and> d = 34 then [92, 92, 34] @ replace_backslash_quote s
      else c # replace_backslash_quote (d # s))"
| "replace_backslash_quote s = s"

definition escapeCMD :: "js_string \<Rightarrow> js_string" where
  "escapeCMD s =
     (let t = replace_all 10 [94, 10]
            (replace_all 34 [34, 34] (replace_backslash_quote (replace_all 94 [94, 94] s)))
      in if t = js ''-d '' then js ''-d '' @ [94, 10]
         else if unquoted_start t then t else 34 # t @ [34])"

fun replace_first :: "nat \<Rightarrow> js_string \<Rightarrow> js_string \<Rightarrow> js_string" where
  "replace_first c r [] = []"
| "replace_first c r (x # s) = (if x = c then r @ s else x # replace_first c r s)"

definition escapePowershell :: "js_string \<Rightarrow> js_string" where
  "escapePowershell s =
     (if s = js ''-d '' then s
      else if List.member s 10 then
        [64, 34, 10] @ replace_first 36 [96, 36] (replace_all 96 [96, 96] (replace_all 34 [92, 34] s)) @
        [10, 34, 64]
      else if unquoted_start s then s
      else 39 # replace_all 39 [39, 39] (replace_all 34 [34, 34] s) @ [39])"

section \<open>JSON.stringify of a string\<close>

definition hex_lower :: "nat \<Rightarrow> nat" where
  "hex_lower n = (if n < 10 then 48 + n else 87 + n)"

definition json_unicode :: "nat \<Rightarrow> js_string" where
  "json_unicode c = [92, 117, hex_lower (c div 4096), hex_lower (c div 256 mod 16),
     hex_lower (c div 16 mod 16), hex_lower (c mod 16)]"

definition json_unit :: "nat \<Rightarrow> js_string" where
  "json_unit c =
     (if c = 34 then [92, 34] else if c = 92 then [92, 92] else if c = 8 then [92, 98]
      else if c = 12 then [92, 102] else if c = 10 then [92, 110] else if c = 13 then [92, 114]
      else if c = 9 then [92, 116] else if c < 32 then json_unicode c else [c])"

text \<open>A surrogate without its partner is escaped.\<close>

fun json_units :: "js_string \<Rightarrow> js_string" where
  "json_units [] = []"
| "json_units [c] = (if high_surrogate c \<or> low_surrogate c then json_unicode c else json_unit c)"
| "json_units (c # d # s) =
     (if high_surrogate c \<and> low_surrogate d then c # d # json_units s
      else (if high_surrogate c \<or> low_surrogate c then json_unicode c else json_unit c) @
        json_units (d # s))"

definition json_quote :: "js_string \<Rightarrow> js_string" where
  "json_quote s = 34 # json_units s @ [34]"

section \<open>curlify\<close>

datatype curl_value = CurlString js_string | CurlFile js_string js_string

text \<open>A body that is neither a string, a Map nor a File is the text \<open>JSON.stringify\<close> makes of it.\<close>

datatype curl_body =
    BodyString js_string
  | BodyMap "(js_string \<times> curl_value) list"
  | BodyFile js_string
  | BodyOther js_string

record curl_request =
  cr_curlOptions :: "js_string list option"
  cr_method :: js_string
  cr_url :: js_string
  cr_headers :: "(js_string \<times> js_string) list"
  cr_body :: "curl_body option"

definition join_lines :: "js_string list \<Rightarrow> js_string" where
  "join_lines xs = (case xs of [] \<Rightarrow> [] | x # ys \<Rightarrow> x @ concat (map (\<lambda>y. js '','' @ [10] @ y) ys))"

fun body_member :: "js_string \<times> curl_value \<Rightarrow> js_string" where
  "body_member (k, CurlFile name typ) =
     js ''  '' @ [34] @ extractKey k @ [34] @ js '': {'' @ [10] @ js ''    '' @ [34] @ js ''name'' @ [34] @
     js '': '' @ [34] @ name @ [34] @
     (if typ = [] then []
      else [44, 10] @ js ''    '' @ [34] @ js ''type'' @ [34] @ js '': '' @ [34] @ typ @ [34]) @
     [10] @ js ''  }''"
| "body_member (k, CurlString v) = js ''  '' @ [34] @ extractKey k @ [34] @ js '': '' @ json_quote v"

definition getStringBodyOfMap :: "(js_string \<times> curl_value) list \<Rightarrow> js_string" where
  "getStringBodyOfMap es = [123, 10] @ join_lines (map body_member es) @ [10, 125]"

fun form_part :: "js_string \<times> curl_value \<Rightarrow> js_string" where
  "form_part (k, CurlFile name typ) =
     extractKey k @ js ''=@'' @ name @ (if typ = [] then [] else js '';type='' @ typ)"
| "form_part (k, CurlString v) = extractKey k @ js ''='' @ v"

definition addWords :: "(js_string \<Rightarrow> js_string) \<Rightarrow> js_string list \<Rightarrow> js_string" where
  "addWords esc ws = 32 # join_with 32 (map esc ws)"

definition addWordsWithoutLeadingSpace :: "(js_string \<Rightarrow> js_string) \<Rightarrow> js_string list \<Rightarrow> js_string" where
  "addWordsWithoutLeadingSpace esc ws = join_with 32 (map esc ws)"

text \<open>\<open>addNewLine\<close> and \<open>addIndent\<close>\<close>

definition new_line :: "js_string \<Rightarrow> js_string" where
  "new_line nl = 32 # nl @ [32, 32]"

definition multipart_header :: "js_string \<times> js_string \<Rightarrow> bool" where
  "multipart_header p \<longleftrightarrow> map lower_unit (fst p) = js ''content-type'' \<and>
     map lower_unit (snd p) = js ''multipart/form-data''"

definition form_method :: "js_string \<Rightarrow> bool" where
  "form_method m \<longleftrightarrow> List.member (map js [''POST'', ''PUT'', ''PATCH'']) m"

definition truthy_body :: "curl_body option \<Rightarrow> curl_body option" where
  "truthy_body b = (if b = Some (BodyString []) then None else b)"

definition body_text :: "curl_body \<Rightarrow> js_string" where
  "body_text b =
     (case b of BodyString s \<Rightarrow> s | BodyOther s \<Rightarrow> s | BodyMap es \<Rightarrow> getStringBodyOfMap es | BodyFile name \<Rightarrow> name)"

text \<open>Reading the entries of a multipart body that is not a Map is a TypeError.\<close>

definition curl_body_part ::
  "(js_string \<Rightarrow> js_string) \<Rightarrow> js_string \<Rightarrow> curl_request \<Rightarrow> js_string option" where
  "curl_body_part esc nl r =
     (case truthy_body (cr_body r) of
        None \<Rightarrow> Some (if cr_method r = js ''POST''
                      then new_line nl @ addWordsWithoutLeadingSpace esc [js ''-d '' @ [39, 39]] else [])
      | Some b \<Rightarrow>
          if list_ex multipart_header (cr_headers r) \<and> form_method (cr_method r) then
            (case b of
               BodyMap es \<Rightarrow>
                 Some (concat (map (\<lambda>e. new_line nl @ addWordsWithoutLeadingSpace esc [js ''-F''] @
                   addWords esc [form_part e]) es))
             | _ \<Rightarrow> None)
          else
            (case b of
               BodyFile name \<Rightarrow>
                 Some (new_line nl @ addWordsWithoutLeadingSpace esc
                   [js ''--data-binary '' @ [39, 64] @ name @ [39]])
             | _ \<Rightarrow>
                 Some (new_line nl @ addWordsWithoutLeadingSpace esc [js ''-d ''] @
                   addWordsWithoutLeadingSpace esc [body_text b])))"

definition curlify ::
  "(js_string \<Rightarrow> js_string) \<Rightarrow> js_string \<Rightarrow> js_string \<Rightarrow> curl_request \<Rightarrow> js_string option" where
  "curlify esc nl ext r =
     map_option (\<lambda>body.
       js ''curl'' @ ext @
       (case cr_curlOptions r of None \<Rightarrow> [] | Some os \<Rightarrow> addWords esc os) @
       addWords esc [js ''-X'', cr_method r] @
       new_line nl @ addWordsWithoutLeadingSpace esc [cr_url r] @
       concat (map (\<lambda>(h, v). new_line nl @ addWordsWithoutLeadingSpace esc [js ''-H'', h @ js '': '' @ v])
         (cr_headers r)) @
       body)
     (curl_body_part esc nl r)"

definition requestSnippetGenerator_curl_bash :: "curl_request \<Rightarrow> js_string option" where
  "requestSnippetGenerator_curl_bash r = curlify escapeShell [92, 10] [] r"

definition requestSnippetGenerator_curl_cmd :: "curl_request \<Rightarrow> js_string option" where
  "requestSnippetGenerator_curl_cmd r = curlify escapeCMD [94, 10] [] r"

definition requestSnippetGenerator_curl_powershell :: "curl_request \<Rightarrow> js_string option" where
  "requestSnippetGenerator_curl_powershell r = curlify escapePowershell [96, 10] (js ''.exe'') r"

section \<open>What bash reads\<close>

text \<open>Words of a simple command: plain characters, single quotes, a backslash before a character
  and before a line end.  Anything else (an expansion, a separator, a redirection) is \<open>None\<close>.\<close>

definition bash_plain :: "nat \<Rightarrow> bool" where
  "bash_plain c \<longleftrightarrow> alpha_unit c \<or> digit_unit c \<or> List.member [45, 95, 46, 47, 58, 61, 64] c"

definition flush :: "js_string option \<Rightarrow> js_string list option \<Rightarrow> js_string list option" where
  "flush w r = (case w of None \<Rightarrow> r | Some x \<Rightarrow> map_option (Cons x) r)"

definition extend :: "js_string option \<Rightarrow> js_string \<Rightarrow> js_string option" where
  "extend w t = Some ((case w of None \<Rightarrow> [] | Some x \<Rightarrow> x) @ t)"

fun bash_lex :: "bool \<Rightarrow> js_string \<Rightarrow> js_string option \<Rightarrow> js_string list option" where
  "bash_lex True [] w = None"
| "bash_lex True (c # s) w =
     (if c = 39 then bash_lex False s w else bash_lex True s (extend w [c]))"
| "bash_lex False [] w = flush w (Some [])"
| "bash_lex False [c] w =
     (if c = 32 then flush w (Some []) else if bash_plain c then Some [the (extend w [c])] else None)"
| "bash_lex False (c # d # s) w =
     (if c = 32 then flush w (bash_lex False (d # s) None)
      else if c = 39 then bash_lex True (d # s) (extend w [])
      else if c = 92 then (if d = 10 then bash_lex False s w else bash_lex False s (extend w [d]))
      else if bash_plain c then bash_lex False (d # s) (extend w [c])
      else None)"

definition bash_words :: "js_string \<Rightarrow> js_string list option" where
  "bash_words s = bash_lex False s None"

lemma extend_extend [simp]: "extend (extend w s) t = extend w (s @ t)" "extend w s \<noteq> None"
  by (simp_all add: extend_def)

lemma bash_plain_not: "bash_plain c \<Longrightarrow> c \<noteq> 32 \<and> c \<noteq> 39 \<and> c \<noteq> 92"
  by (auto simp: bash_plain_def alpha_unit_def digit_unit_def)

lemma lex_plain_char: "bash_plain c \<Longrightarrow> bash_lex False (c # s) w = bash_lex False s (extend w [c])"
  using bash_plain_not [of c] by (cases s) (auto simp: flush_def extend_def)

lemma lex_plain:
  "list_all bash_plain t \<Longrightarrow> t \<noteq> [] \<Longrightarrow> bash_lex False (t @ s) w = bash_lex False s (extend w t)"
proof (induction t arbitrary: w)
  case (Cons c t)
  then show ?case
    by (cases "t = []") (simp_all add: lex_plain_char)
qed simp

lemma lex_space: "bash_lex False (32 # s) w = flush w (bash_lex False s None)"
  by (cases s) (auto simp: flush_def)

lemma lex_open: "bash_lex False (39 # s) w = bash_lex True s (extend w [])"
  by (cases s) (auto simp: bash_plain_def alpha_unit_def digit_unit_def)

lemma lex_escape: "bash_lex False (92 # 39 # s) w = bash_lex False s (extend w [39])"
  by simp

lemma lex_continuation: "bash_lex False (92 # 10 # s) w = bash_lex False s w"
  by simp

lemma lex_quoted:
  "bash_lex True (replace_all 39 [39, 92, 39, 39] t @ 39 # s) w = bash_lex False s (if t = [] then w else extend w t)"
proof (induction t arbitrary: w)
  case Nil
  then show ?case
    by (simp add: replace_all_def)
next
  case (Cons c t)
  show ?case
  proof (cases "c = 39")
    case True
    have "bash_lex True (replace_all 39 [39, 92, 39, 39] (c # t) @ 39 # s) w =
        bash_lex False (92 # 39 # 39 # replace_all 39 [39, 92, 39, 39] t @ 39 # s) w"
      by (simp add: True replace_all_def)
    also have "\<dots> = bash_lex True (replace_all 39 [39, 92, 39, 39] t @ 39 # s) (extend w [39])"
      unfolding lex_escape lex_open by simp
    finally show ?thesis
      unfolding Cons.IH by (simp add: True)
  next
    case False
    then have "bash_lex True (replace_all 39 [39, 92, 39, 39] (c # t) @ 39 # s) w =
        bash_lex True (replace_all 39 [39, 92, 39, 39] t @ 39 # s) (extend w [c])"
      by (simp add: replace_all_def)
    then show ?thesis
      unfolding Cons.IH by simp
  qed
qed

text \<open>A text that bash reads as one word, and one that continues a command by some words.\<close>

definition word_text :: "js_string \<Rightarrow> js_string \<Rightarrow> bool" where
  "word_text t w \<longleftrightarrow> (\<forall>s. bash_lex False (t @ s) None = bash_lex False s (Some w))"

definition emits :: "js_string \<Rightarrow> js_string list \<Rightarrow> bool" where
  "emits t ws \<longleftrightarrow> (\<forall>s w. bash_lex False (t @ s) (Some w) =
     map_option (\<lambda>r. butlast (w # ws) @ r) (bash_lex False s (Some (last (w # ws)))))"

lemma word_text_quoted: "\<not> unquoted_start w \<Longrightarrow> word_text (escapeShell w) w"
proof -
  assume a: "\<not> unquoted_start w"
  then have "w \<noteq> js ''-d ''"
    by (auto simp: unquoted_start_def js_def)
  then have "escapeShell w = 39 # replace_all 39 [39, 92, 39, 39] w @ [39]"
    using a by (simp add: escapeShell_def)
  then show ?thesis
    by (simp add: word_text_def lex_open lex_quoted) (simp add: extend_def)
qed

lemma word_text_plain: "list_all bash_plain t \<Longrightarrow> t \<noteq> [] \<Longrightarrow> word_text t t"
  by (simp add: word_text_def lex_plain) (simp add: extend_def)

lemma emits_Nil [intro, simp]: "emits [] []"
  by (simp add: emits_def option.map_ident)

lemma emits_append: "emits s xs \<Longrightarrow> emits t ys \<Longrightarrow> emits (s @ t) (xs @ ys)"
  by (cases ys rule: rev_cases; cases xs rule: rev_cases)
    (simp_all add: emits_def butlast_append option.map_comp option.map_ident comp_def)

lemma emits_space: "word_text t w \<Longrightarrow> emits (32 # t) [w]"
  by (simp add: emits_def word_text_def lex_space flush_def)

lemma emits_line: "word_text t w \<Longrightarrow> emits (new_line [92, 10] @ t) [w]"
  by (simp add: emits_def word_text_def new_line_def lex_space flush_def lex_continuation)

lemma emits_concat: "\<forall>x \<in> set xs. emits (f x) (g x) \<Longrightarrow> emits (concat (map f xs)) (concat (map g xs))"
  by (induction xs) (auto intro: emits_append)

lemma bash_words_command:
  assumes "word_text t w" "emits u ws"
  shows "bash_words (t @ u) = Some (w # ws)"
proof -
  have "bash_words (t @ u) = bash_lex False (u @ []) (Some w)"
    using assms(1) by (simp add: bash_words_def word_text_def)
  also have "\<dots> = Some (butlast (w # ws) @ [last (w # ws)])"
    using assms(2) by (simp only: emits_def) (simp add: flush_def)
  finally show ?thesis
    by simp
qed

text \<open>The command line a request stands for.\<close>

definition curl_argv :: "curl_request \<Rightarrow> js_string list" where
  "curl_argv r =
     [js ''curl'', js ''-X'', cr_method r, cr_url r] @
     concat (map (\<lambda>(h, v). [js ''-H'', h @ js '': '' @ v]) (cr_headers r)) @
     (case truthy_body (cr_body r) of
        None \<Rightarrow> if cr_method r = js ''POST'' then [js ''-d'', []] else []
      | Some b \<Rightarrow>
          if list_ex multipart_header (cr_headers r) \<and> form_method (cr_method r) then
            (case b of BodyMap es \<Rightarrow> concat (map (\<lambda>e. [js ''-F'', form_part e]) es) | _ \<Rightarrow> [])
          else [js ''-d'', body_text b])"

text \<open>The words that are quoted at all.\<close>

definition curl_quoted :: "curl_request \<Rightarrow> bool" where
  "curl_quoted r \<longleftrightarrow> cr_curlOptions r = None \<and> \<not> unquoted_start (cr_method r) \<and>
     \<not> unquoted_start (cr_url r) \<and>
     list_all (\<lambda>(h, v). \<not> unquoted_start (h @ js '': '' @ v)) (cr_headers r) \<and>
     (case cr_body r of
        None \<Rightarrow> True
      | Some (BodyMap es) \<Rightarrow> list_all (\<lambda>e. \<not> unquoted_start (form_part e)) es
      | Some (BodyFile name) \<Rightarrow> False
      | Some b \<Rightarrow> \<not> unquoted_start (body_text b))"

lemma escapeShell_flags [simp]:
  "escapeShell (js ''-X'') = js ''-X''" "escapeShell (js ''-H'') = js ''-H''"
  "escapeShell (js ''-F'') = js ''-F''" "escapeShell (js ''-d '') = js ''-d''  @ [32]"
  "escapeShell (js ''-d '' @ [39, 39]) = js ''-d''  @ [32, 39, 39]"
  by (simp_all add: escapeShell_def unquoted_start_def js_def)

lemma word_text_flags [simp]:
  "word_text (js ''-X'') (js ''-X'')" "word_text (js ''-H'') (js ''-H'')" "word_text (js ''-F'') (js ''-F'')"
  "word_text (js ''-d'') (js ''-d'')" "word_text (js ''curl'') (js ''curl'')" "word_text [39, 39] []"
  by (auto intro!: word_text_plain simp: js_def bash_plain_def alpha_unit_def digit_unit_def)
    (simp add: word_text_def lex_open extend_def)

lemma emits_line_two:
  assumes "word_text s x" "word_text t y"
  shows "emits (new_line [92, 10] @ s @ 32 # t) [x, y]"
  using emits_append [OF emits_line [OF assms(1)] emits_space [OF assms(2)]] by simp

lemma getStringBodyOfMap_quoted: "\<not> unquoted_start (getStringBodyOfMap es)"
  by (simp add: getStringBodyOfMap_def unquoted_start_def)

lemma curl_body_part_emits:
  assumes "curl_body_part escapeShell [92, 10] r = Some t" "curl_quoted r"
  shows "\<exists>ws. emits t ws \<and> curl_argv r =
    [js ''curl'', js ''-X'', cr_method r, cr_url r] @
    concat (map (\<lambda>(h, v). [js ''-H'', h @ js '': '' @ v]) (cr_headers r)) @ ws"
proof (cases "truthy_body (cr_body r)")
  case None
  have "emits (new_line [92, 10] @ js ''-d'' @ [32, 39, 39]) [js ''-d'', []]"
    using emits_line_two [of "js ''-d''" "js ''-d''" "[39, 39]" "[]"] by simp
  then show ?thesis
    using assms None by (auto simp: curl_body_part_def curl_argv_def addWordsWithoutLeadingSpace_def)
next
  case (Some b)
  then have b: "cr_body r = Some b"
    by (auto simp: truthy_body_def split: if_splits)
  show ?thesis
  proof (cases "list_ex multipart_header (cr_headers r) \<and> form_method (cr_method r)")
    case True
    then obtain es where es: "b = BodyMap es"
      using assms(1) Some by (auto simp: curl_body_part_def split: curl_body.splits)
    have "emits (new_line [92, 10] @ js ''-F'' @ 32 # escapeShell (form_part e)) [js ''-F'', form_part e]"
      if "e \<in> set es" for e
      using assms(2) that b es
      by (intro emits_line_two) (auto intro!: word_text_quoted simp: curl_quoted_def list_all_iff)
    then have "emits (concat (map (\<lambda>e. new_line [92, 10] @ js ''-F'' @ 32 # escapeShell (form_part e)) es))
        (concat (map (\<lambda>e. [js ''-F'', form_part e]) es))"
      by (intro emits_concat) blast
    then show ?thesis
      using assms(1) Some True es
      by (auto simp: curl_body_part_def curl_argv_def addWordsWithoutLeadingSpace_def addWords_def)
  next
    case False
    then have q: "\<not> unquoted_start (body_text b)" "\<forall>name. b \<noteq> BodyFile name"
      using assms(2) b getStringBodyOfMap_quoted
      by (auto simp: curl_quoted_def body_text_def split: curl_body.splits)
    have "emits (new_line [92, 10] @ js ''-d'' @ 32 # escapeShell (body_text b)) [js ''-d'', body_text b]"
      using q(1) by (intro emits_line_two word_text_quoted) simp_all
    then show ?thesis
      using assms(1) Some False q(2)
      by (cases b) (auto simp: curl_body_part_def curl_argv_def addWordsWithoutLeadingSpace_def)
  qed
qed

text \<open>C23: The bash command of a request runs curl with the request: when every word it quotes
  starts with something other than an underscore, a slash or a dash, bash reads the generated
  text as one simple command whose arguments are the method, the URL, the headers and the body
  of the request, unit for unit, whatever quotes, line ends or shell operators they hold.\<close>

theorem curl_bash_correct:
  assumes "requestSnippetGenerator_curl_bash r = Some t" "curl_quoted r"
  shows "bash_words t = Some (curl_argv r)"
proof -
  obtain b where b: "curl_body_part escapeShell [92, 10] r = Some b"
    and t: "t = js ''curl'' @ addWords escapeShell [js ''-X'', cr_method r] @
       new_line [92, 10] @ addWordsWithoutLeadingSpace escapeShell [cr_url r] @
       concat (map (\<lambda>(h, v). new_line [92, 10] @
         addWordsWithoutLeadingSpace escapeShell [js ''-H'', h @ js '': '' @ v]) (cr_headers r)) @ b"
    using assms by (auto simp: requestSnippetGenerator_curl_bash_def curlify_def curl_quoted_def)
  obtain ws where ws: "emits b ws" "curl_argv r =
      [js ''curl'', js ''-X'', cr_method r, cr_url r] @
      concat (map (\<lambda>(h, v). [js ''-H'', h @ js '': '' @ v]) (cr_headers r)) @ ws"
    using curl_body_part_emits [OF b assms(2)] by blast
  have m: "emits (addWords escapeShell [js ''-X'', cr_method r]) [js ''-X'', cr_method r]"
    using emits_append [OF emits_space [of "js ''-X''" "js ''-X''"] emits_space [OF word_text_quoted [of "cr_method r"]]]
      assms(2) by (simp add: addWords_def curl_quoted_def)
  have u: "emits (new_line [92, 10] @ addWordsWithoutLeadingSpace escapeShell [cr_url r]) [cr_url r]"
    using assms(2) by (auto simp: addWordsWithoutLeadingSpace_def curl_quoted_def intro: emits_line word_text_quoted)
  have h: "emits (concat (map (\<lambda>(h, v). new_line [92, 10] @
         addWordsWithoutLeadingSpace escapeShell [js ''-H'', h @ js '': '' @ v]) (cr_headers r)))
      (concat (map (\<lambda>(h, v). [js ''-H'', h @ js '': '' @ v]) (cr_headers r)))"
  proof (intro emits_concat ballI)
    fix p
    assume "p \<in> set (cr_headers r)"
    then show "emits (case p of (h, v) \<Rightarrow> new_line [92, 10] @
         addWordsWithoutLeadingSpace escapeShell [js ''-H'', h @ js '': '' @ v])
        (case p of (h, v) \<Rightarrow> [js ''-H'', h @ js '': '' @ v])"
      using assms(2) emits_line_two [of "js ''-H''" "js ''-H''"] word_text_quoted
      by (auto simp: addWordsWithoutLeadingSpace_def curl_quoted_def list_all_iff)
  qed
  have "emits (addWords escapeShell [js ''-X'', cr_method r] @
       (new_line [92, 10] @ addWordsWithoutLeadingSpace escapeShell [cr_url r]) @
       concat (map (\<lambda>(h, v). new_line [92, 10] @
         addWordsWithoutLeadingSpace escapeShell [js ''-H'', h @ js '': '' @ v]) (cr_headers r)) @ b)
      ([js ''-X'', cr_method r] @ [cr_url r] @
       concat (map (\<lambda>(h, v). [js ''-H'', h @ js '': '' @ v]) (cr_headers r)) @ ws)"
    by (intro emits_append m u h ws(1))
  from bash_words_command [OF word_text_flags(5) this] show ?thesis
    using t ws(2) by simp
qed

definition ex_curl :: curl_request where
  "ex_curl = \<lparr>cr_curlOptions = None, cr_method = js ''POST'', cr_url = js ''https://a/$(b)'',
     cr_headers = [(js ''X'', js ''`c` & d'')],
     cr_body = Some (BodyString ([10, 39] @ js ''; rm -r /''))\<rparr>"

theorem curl_bash_correct_witness:
  "\<exists>t. requestSnippetGenerator_curl_bash ex_curl = Some t \<and>
     bash_words t = Some [js ''curl'', js ''-X'', js ''POST'', js ''https://a/$(b)'', js ''-H'',
       js ''X: `c` & d'', js ''-d'', [10, 39] @ js ''; rm -r /'']"
proof -
  have m: "\<not> multipart_header (js ''X'', js ''`c` & d'')"
    by (simp add: multipart_header_def js_def)
  obtain t where t: "requestSnippetGenerator_curl_bash ex_curl = Some t"
    using m by (auto simp: requestSnippetGenerator_curl_bash_def curlify_def curl_body_part_def
        ex_curl_def truthy_body_def)
  moreover have "curl_quoted ex_curl"
    by (simp add: curl_quoted_def ex_curl_def unquoted_start_def body_text_def js_def)
  moreover have "curl_argv ex_curl = [js ''curl'', js ''-X'', js ''POST'', js ''https://a/$(b)'', js ''-H'',
       js ''X: `c` & d'', js ''-d'', [10, 39] @ js ''; rm -r /'']"
    using m by (simp add: curl_argv_def ex_curl_def truthy_body_def body_text_def) (simp add: js_def)
  ultimately show ?thesis
    using curl_bash_correct [of ex_curl t] by auto
qed

text \<open>The other words are written as they are, so that a body such as \<open>/; reboot\<close> ends the
  command and starts another; and the PowerShell quoting escapes the first dollar sign only.\<close>

lemma escapeShell_verbatim: "unquoted_start s \<Longrightarrow> escapeShell s = s"
  by (simp add: escapeShell_def)

lemma curl_body_injects:
  "requestSnippetGenerator_curl_bash (ex_curl\<lparr>cr_headers := [], cr_body := Some (BodyString (js ''/; reboot''))\<rparr>) =
     Some (js ''curl -X '' @ [39] @ js ''POST'' @ [39] @ js '' '' @ [92, 10] @ js ''  '' @ [39] @
       js ''https://a/$(b)'' @ [39] @ js '' '' @ [92, 10] @ js ''  -d /; reboot'')"
  by (simp add: requestSnippetGenerator_curl_bash_def curlify_def curl_body_part_def ex_curl_def
      truthy_body_def addWords_def addWordsWithoutLeadingSpace_def body_text_def new_line_def)
    (simp add: escapeShell_def unquoted_start_def js_def replace_all_def)

lemma powershell_second_dollar:
  "escapePowershell (10 # js ''$a $(b)'') = [64, 34, 10, 10] @ js ''`$a $(b)'' @ [10, 34, 64]"
  by (simp add: escapePowershell_def js_def replace_all_def)

end
