(* ===== verification/SwaggerDeepLink.thy ===== *)
theory SwaggerDeepLink
  imports SwaggerUrl
begin

text \<open>
  The deep-linking plugin of swagger-ui with the part of the layout plugin it wraps
  (swagger-ui.js, line 2): expanding a tag or an operation writes a link to it into the fragment
  of the address, and a page that is loaded with such a fragment expands it again.
\<close>

section \<open>The page\<close>

text \<open>\<open>shown\<close> and \<open>scrollToKey\<close> of the layout state (lists of strings compared by value), and
  \<open>location.hash\<close> with the fragments the session has gone through.\<close>

record deep_page =
  lo_shown :: "js_string list \<Rightarrow> bool option"
  lo_scrollToKey :: "js_string list option"
  pg_hash :: js_string
  pg_history :: "js_string list"

text \<open>The values that are written hold characters only that a URL keeps as they are in a fragment
  (lemma \<open>show_hash_chars\<close>).\<close>

definition setHash :: "js_string \<Rightarrow> deep_page \<Rightarrow> deep_page" where
  "setHash value p =
     (if value \<noteq> [] then p\<lparr>pg_hash := 35 # value, pg_history := pg_history p @ [35 # value]\<rparr>
      else p\<lparr>pg_hash := [], pg_history := pg_history p @ (if pg_hash p = [] then [] else [[]])\<rparr>)"

section \<open>The layout plugin\<close>

text \<open>The action \<open>show(thing, shown = true)\<close> and its reducer.\<close>

definition layout_show :: "js_string list \<Rightarrow> bool option \<Rightarrow> deep_page \<Rightarrow> deep_page" where
  "layout_show thing shown p =
     p\<lparr>lo_shown := (lo_shown p)(thing \<mapsto> (case shown of None \<Rightarrow> True | Some b \<Rightarrow> b))\<rparr>"

definition layout_isShown :: "deep_page \<Rightarrow> js_string list \<Rightarrow> bool \<Rightarrow> bool" where
  "layout_isShown p thing def = (case lo_shown p thing of None \<Rightarrow> def | Some b \<Rightarrow> b)"

definition layout_scrollTo :: "js_string list \<Rightarrow> deep_page \<Rightarrow> deep_page" where
  "layout_scrollTo path p = p\<lparr>lo_scrollToKey := Some path\<rparr>"

text \<open>Whether the element is scrolled to.\<close>

definition readyToScroll :: "js_string list \<Rightarrow> deep_page \<Rightarrow> bool \<times> deep_page" where
  "readyToScroll isShownKey p =
     (if lo_scrollToKey p = Some isShownKey then (True, p\<lparr>lo_scrollToKey := None\<rparr>) else (False, p))"

section \<open>Keys and fragments\<close>

definition operations_type :: js_string where
  "operations_type = js ''operations''"

definition operations_tag_type :: js_string where
  "operations_tag_type = js ''operations-tag''"

definition entry :: "nat \<Rightarrow> js_string list \<Rightarrow> js_string option" where
  "entry i xs = (if i < length xs then Some (xs ! i) else None)"

definition or_empty :: "js_string option \<Rightarrow> js_string" where
  "or_empty x = (case x of None \<Rightarrow> [] | Some s \<Rightarrow> s)"

definition isShownKeyFromUrlHashArray :: "js_string list \<Rightarrow> js_string list" where
  "isShownKeyFromUrlHashArray urlHashArray =
     (let tag = or_empty (entry 0 urlHashArray); operationId = or_empty (entry 1 urlHashArray)
      in if operationId \<noteq> [] then [operations_type, tag, operationId]
         else if tag \<noteq> [] then [operations_tag_type, tag]
         else [])"

text \<open>An entry that is missing is undefined.\<close>

definition urlHashArrayFromIsShownKey :: "js_string list \<Rightarrow> js_string option list" where
  "urlHashArrayFromIsShownKey isShownKey =
     (if entry 0 isShownKey = Some operations_type then [entry 1 isShownKey, entry 2 isShownKey]
      else if entry 0 isShownKey = Some operations_tag_type then [entry 1 isShownKey]
      else [])"

definition encode_entry :: "js_string option \<Rightarrow> js_string option" where
  "encode_entry x = encodeURIComponent (case x of None \<Rightarrow> js ''undefined'' | Some s \<Rightarrow> s)"

definition createDeepLinkPath :: "js_string \<Rightarrow> js_string" where
  "createDeepLinkPath str =
     concat (map (\<lambda>c. if space_unit c then js ''%20'' else [c]) (trim str))"

text \<open>The text \<open>/a/b\<close> of the fragment; \<open>None\<close> is a URIError, which the plugin catches.\<close>

fun hash_path :: "js_string option list \<Rightarrow> js_string option" where
  "hash_path [] = Some []"
| "hash_path (x # xs) =
     Option.bind (encode_entry x) (\<lambda>a. map_option (\<lambda>b. 47 # a @ b) (hash_path xs))"

definition deep_show :: "bool \<Rightarrow> js_string list \<Rightarrow> bool option \<Rightarrow> deep_page \<Rightarrow> deep_page" where
  "deep_show deepLinking tokenArray shown p =
     (let p' = layout_show tokenArray shown p;
          urlHashArray = urlHashArrayFromIsShownKey tokenArray
      in if \<not> deepLinking \<or> urlHashArray = [] then p'
         else if shown \<noteq> Some True then setHash (js ''/'') p'
         else case hash_path urlHashArray of
                None \<Rightarrow> p'
              | Some path \<Rightarrow> setHash (createDeepLinkPath path) p')"

section \<open>Loading a page\<close>

definition skip_unit :: "nat \<Rightarrow> js_string \<Rightarrow> js_string" where
  "skip_unit c s = (if s \<noteq> [] \<and> hd s = c then tl s else s)"

text \<open>The legacy escape of white space, \<open>replace(/_/g, " ")\<close>.\<close>

definition legacy_key :: "js_string list \<Rightarrow> js_string list" where
  "legacy_key = map (map (\<lambda>c. if c = 95 then 32 else c))"

definition parseDeepLinkHash :: "bool \<Rightarrow> js_string \<Rightarrow> deep_page \<Rightarrow> deep_page" where
  "parseDeepLinkHash deepLinking rawHash p =
     (if \<not> deepLinking \<or> rawHash = [] then p
      else let isShownKey = isShownKeyFromUrlHashArray
                 (split_on 47 (skip_unit 47 (skip_unit 33 (drop 1 rawHash))));
               tagId = or_empty (entry 1 isShownKey);
               maybeOperationId = or_empty (entry 2 isShownKey);
               tagIsShownKey = isShownKeyFromUrlHashArray [tagId];
               p1 = (if entry 0 isShownKey = Some operations_type
                     then deep_show deepLinking tagIsShownKey (Some True)
                       (if List.member tagId 95
                        then deep_show deepLinking (legacy_key tagIsShownKey) (Some True) p else p)
                     else p);
               p2 = (if List.member tagId 95 \<or> List.member maybeOperationId 95
                     then deep_show deepLinking (legacy_key isShownKey) (Some True) p1 else p1)
           in layout_scrollTo isShownKey (deep_show deepLinking isShownKey (Some True) p2))"

text \<open>The wrapper of \<open>configs.loaded\<close>; \<open>None\<close> is the URIError of \<open>decodeURIComponent\<close>.\<close>

definition configs_loaded :: "bool \<Rightarrow> deep_page \<Rightarrow> deep_page option" where
  "configs_loaded deepLinking p =
     map_option (\<lambda>hash. parseDeepLinkHash deepLinking hash p) (decodeURIComponent (pg_hash p))"

section \<open>The components\<close>

definition toggleShown :: "bool \<Rightarrow> js_string \<Rightarrow> js_string \<Rightarrow> js_string \<Rightarrow> deep_page \<Rightarrow> deep_page" where
  \<comment> \<open>\<open>OperationContainer\<close>: the state of \<open>isShown\<close> is the one of its last rendering\<close>
  "toggleShown deepLinking docExpansion tag operationId p =
     (let key = [operations_type, tag, operationId]
      in deep_show deepLinking key (Some (\<not> layout_isShown p key (docExpansion = js ''full''))) p)"

definition toggleTag :: "bool \<Rightarrow> js_string \<Rightarrow> js_string \<Rightarrow> deep_page \<Rightarrow> deep_page" where
  \<comment> \<open>the click handler of \<open>OperationTag\<close>\<close>
  "toggleTag deepLinking docExpansion tag p =
     (let key = [operations_tag_type, tag]
      in deep_show deepLinking key
           (Some (\<not> layout_isShown p key (docExpansion = js ''full'' \<or> docExpansion = js ''list''))) p)"

definition reloaded :: "deep_page \<Rightarrow> deep_page" where
  "reloaded p = p\<lparr>lo_shown := \<lambda>_. None, lo_scrollToKey := None\<rparr>"

section \<open>Lemmas\<close>

lemma types_differ [simp]: "operations_type \<noteq> operations_tag_type" "operations_tag_type \<noteq> operations_type"
  by (simp_all add: operations_type_def operations_tag_type_def js_def)

lemma types_no_slash: "47 \<notin> set operations_type" "47 \<notin> set operations_tag_type"
  by (simp_all add: operations_type_def operations_tag_type_def js_def)

lemma entry_simps [simp]:
  "entry 0 (x # xs) = Some x" "entry (Suc i) (x # xs) = entry i xs" "entry i [] = None"
  by (simp_all add: entry_def)

lemma entry_numerals [simp]: "entry 1 (x # xs) = entry 0 xs" "entry 2 (x # xs) = entry 1 xs"
  by (simp_all add: entry_def numeral_2_eq_2)

lemma or_empty_simps [simp]: "or_empty None = []" "or_empty (Some s) = s"
  by (simp_all add: or_empty_def)

lemma decode_encoded:
  "encodeURIComponent s = Some t \<Longrightarrow> js_ok s \<Longrightarrow>
   decodeURIComponent (t @ u) = map_option (append s) (decodeURIComponent u)"
proof (induction rule: encode_induct)
  case (plain c s t)
  then have "c \<noteq> 37" by (auto simp: unreserved_def)
  then show ?case
    using plain by (cases "decodeURIComponent u") (simp_all add: decode_plain)
next
  case (escape cp s t)
  then show ?case
    by (cases "decodeURIComponent u") (simp_all add: decode_utf8)
qed (simp add: option.map_ident)

definition hash_unit :: "nat \<Rightarrow> bool" where
  "hash_unit c \<longleftrightarrow> c = 47 \<or> c = 37 \<or> unreserved c"

lemma hash_unit_not_space: "hash_unit c \<Longrightarrow> \<not> space_unit c"
  by (auto simp: hash_unit_def space_unit_def line_terminator_def unreserved_def)

lemma trim_id: "\<forall>c \<in> set s. \<not> space_unit c \<Longrightarrow> trim s = s"
  unfolding trim_def by (cases "s = []") (simp_all add: strip_id)

lemma createDeepLinkPath_id:
  assumes "\<forall>c \<in> set s. hash_unit c"
  shows "createDeepLinkPath s = s"
proof -
  have ns: "\<forall>c \<in> set s. \<not> space_unit c"
    using assms hash_unit_not_space by blast
  then have "concat (map (\<lambda>c. if space_unit c then js ''%20'' else [c]) s) = s"
    by (induction s) simp_all
  then show ?thesis
    by (simp add: createDeepLinkPath_def trim_id [OF ns])
qed

lemma encode_hash_units:
  "encodeURIComponent s = Some t \<Longrightarrow> js_ok s \<Longrightarrow> \<forall>c \<in> set t. hash_unit c"
  using encode_chars by (auto simp: hash_unit_def)

text \<open>What a click writes, and what is read from it.\<close>

lemma shown_hash:
  assumes "js_ok tag" "encodeURIComponent tag = Some t" "js_ok op" "encodeURIComponent op = Some u"
  shows "createDeepLinkPath (47 # t @ 47 # u) = 47 # t @ 47 # u"
    "createDeepLinkPath (47 # t) = 47 # t"
    "decodeURIComponent (35 # 47 # t @ 47 # u) = Some (35 # 47 # tag @ 47 # op)"
    "decodeURIComponent (35 # 47 # t) = Some (35 # 47 # tag)"
proof -
  note h = encode_hash_units [OF assms(2,1)] encode_hash_units [OF assms(4,3)]
  show "createDeepLinkPath (47 # t @ 47 # u) = 47 # t @ 47 # u" "createDeepLinkPath (47 # t) = 47 # t"
    using h by (auto intro!: createDeepLinkPath_id simp: hash_unit_def)
  show "decodeURIComponent (35 # 47 # t @ 47 # u) = Some (35 # 47 # tag @ 47 # op)"
    "decodeURIComponent (35 # 47 # t) = Some (35 # 47 # tag)"
    using assms encode_decode by (simp_all add: decode_plain decode_encoded)
qed

lemma deep_show_fields [simp]:
  "lo_shown (deep_show d key (Some b) p) = (lo_shown p)(key \<mapsto> b)"
  "lo_scrollToKey (deep_show d key b' p) = lo_scrollToKey p"
  by (simp_all add: deep_show_def Let_def layout_show_def setHash_def split: option.splits)

lemma deep_show_operation:
  assumes "js_ok tag" "encodeURIComponent tag = Some t" "js_ok op" "encodeURIComponent op = Some u"
  shows "pg_hash (deep_show True [operations_type, tag, op] (Some True) p) = 35 # 47 # t @ 47 # u"
    "pg_hash (deep_show True [operations_tag_type, tag] (Some True) p) = 35 # 47 # t"
  using assms shown_hash(1,2) [OF assms]
  by (simp_all add: deep_show_def Let_def urlHashArrayFromIsShownKey_def encode_entry_def setHash_def)

lemma split_no_slash: "x \<in> set (split_on 47 s) \<Longrightarrow> 47 \<notin> set x"
  by (rule split_on_parts)

lemma legacy_no_slash: "\<forall>x \<in> set key. 47 \<notin> set x \<Longrightarrow> x \<in> set (legacy_key key) \<Longrightarrow> 47 \<notin> set x"
  by (auto simp: legacy_key_def split: if_splits)

text \<open>What the fragment \<open>#/s\<close> expands: its key, the tag of an operation, and both with the legacy
  escapes read as spaces.\<close>

definition link_key :: "js_string \<Rightarrow> js_string list" where
  "link_key s = isShownKeyFromUrlHashArray (split_on 47 s)"

definition opened_keys :: "js_string list \<Rightarrow> js_string list list" where
  "opened_keys key =
     (let tagId = or_empty (entry 1 key); tagKey = isShownKeyFromUrlHashArray [tagId]
      in (if entry 0 key = Some operations_type
          then (if List.member tagId 95 then [legacy_key tagKey] else []) @ [tagKey] else []) @
         (if List.member tagId 95 \<or> List.member (or_empty (entry 2 key)) 95
          then [legacy_key key] else []) @ [key])"

lemma parse_opened:
  "parseDeepLinkHash True (35 # 47 # s) p =
     layout_scrollTo (link_key s) (fold (\<lambda>key. deep_show True key (Some True)) (opened_keys (link_key s)) p)"
proof -
  have "skip_unit 47 (skip_unit 33 (drop 1 (35 # 47 # s))) = s"
    by (simp add: skip_unit_def)
  then show ?thesis
    unfolding parseDeepLinkHash_def opened_keys_def link_key_def by (simp add: Let_def)
qed

lemma fold_deep_show:
  "lo_shown (fold (\<lambda>key. deep_show d key (Some True)) ks p) k =
     (if k \<in> set ks then Some True else lo_shown p k)"
  by (induction ks arbitrary: p) auto

lemma key_no_slash:
  "\<forall>x \<in> set xs. 47 \<notin> set x \<Longrightarrow> x \<in> set (isShownKeyFromUrlHashArray xs) \<Longrightarrow> 47 \<notin> set x"
  using types_no_slash
  by (auto simp: isShownKeyFromUrlHashArray_def Let_def or_empty_def entry_def split: if_splits)

lemma opened_keys_cases:
  assumes "k \<in> set (opened_keys key)"
  shows "k = key \<or> k = legacy_key key \<or>
    k = isShownKeyFromUrlHashArray [or_empty (entry 1 key)] \<or>
    k = legacy_key (isShownKeyFromUrlHashArray [or_empty (entry 1 key)])"
  using assms by (auto simp: opened_keys_def Let_def split: if_splits)

lemma opened_no_slash:
  assumes "k \<in> set (opened_keys (link_key s))" "x \<in> set k"
  shows "47 \<notin> set x"
proof -
  let ?tag = "isShownKeyFromUrlHashArray [or_empty (entry 1 (link_key s))]"
  have key: "\<forall>x \<in> set (link_key s). 47 \<notin> set x"
    unfolding link_key_def using key_no_slash [of "split_on 47 s"] split_no_slash [of _ s] by blast
  then have v: "47 \<notin> set (or_empty (entry 1 (link_key s)))"
    unfolding or_empty_def entry_def by (cases "1 < length (link_key s)") simp_all
  have "\<forall>x \<in> set [or_empty (entry 1 (link_key s))]. 47 \<notin> set x"
    using v by (simp only: list.set ball_simps simp_thms)
  from key_no_slash [OF this] have tag: "\<forall>x \<in> set ?tag. 47 \<notin> set x" by blast
  have "k = link_key s \<or> k = legacy_key (link_key s) \<or> k = ?tag \<or> k = legacy_key ?tag"
    using opened_keys_cases [OF assms(1)] .
  then show ?thesis
    using assms(2) key tag legacy_no_slash [OF key] legacy_no_slash [OF tag] by blast
qed

lemma link_key_operation:
  assumes "47 \<notin> set tag" "47 \<notin> set op" "op \<noteq> []"
  shows "link_key (tag @ 47 # op) = [operations_type, tag, op]"
  using assms by (simp add: link_key_def split_on_append split_on_nosep isShownKeyFromUrlHashArray_def)

lemma link_key_tag:
  assumes "47 \<notin> set tag" "tag \<noteq> []"
  shows "link_key tag = [operations_tag_type, tag]"
  using assms by (simp add: link_key_def split_on_nosep isShownKeyFromUrlHashArray_def)

text \<open>The page a link \<open>#/s\<close> is loaded into.\<close>

lemma loaded_link:
  assumes "decodeURIComponent (pg_hash p) = Some (35 # 47 # s)" "lo_shown p = (\<lambda>_. None)"
  obtains r q where "configs_loaded True p = Some r"
    "lo_shown r = (\<lambda>k. if k \<in> set (opened_keys (link_key s)) then Some True else None)"
    "lo_scrollToKey r = Some (link_key s)"
    "pg_hash r = pg_hash (deep_show True (link_key s) (Some True) q)"
proof
  let ?r = "parseDeepLinkHash True (35 # 47 # s) p"
  show "configs_loaded True p = Some ?r"
    by (simp add: configs_loaded_def assms)
  show "lo_shown ?r = (\<lambda>k. if k \<in> set (opened_keys (link_key s)) then Some True else None)"
    by (rule ext) (simp add: parse_opened layout_scrollTo_def fold_deep_show assms(2))
  show "lo_scrollToKey ?r = Some (link_key s)"
    by (simp add: parse_opened layout_scrollTo_def)
  show "pg_hash ?r = pg_hash (deep_show True (link_key s) (Some True)
      (fold (\<lambda>key. deep_show True key (Some True)) (butlast (opened_keys (link_key s))) p))"
    by (simp add: parse_opened layout_scrollTo_def opened_keys_def Let_def)
qed

text \<open>The fragment holds only units that neither the URL parser nor \<open>location.hash\<close> changes.\<close>

lemma show_hash_chars:
  assumes "\<forall>x \<in> set key. js_ok x" "c \<in> set (pg_hash (deep_show True key shown p))"
  shows "c = 35 \<or> hash_unit c \<or> c \<in> set (pg_hash p)"
proof -
  have "hash_unit d" if "\<forall>x. Some x \<in> set es \<longrightarrow> js_ok x" "hash_path es = Some t" "d \<in> set t" for es t d
    using that
  proof (induction es arbitrary: t)
    case (Cons e es)
    have "js_ok (case e of None \<Rightarrow> js ''undefined'' | Some s \<Rightarrow> s)"
      using Cons.prems(1) by (cases e) (simp_all add: js_def)
    note enc = encode_hash_units [OF _ this]
    show ?case
      using Cons enc by (auto simp: encode_entry_def hash_unit_def split: Option.bind_splits)
  qed simp
  moreover have "\<forall>x. Some x \<in> set (urlHashArrayFromIsShownKey key) \<longrightarrow> js_ok x"
    using assms(1) by (auto simp: urlHashArrayFromIsShownKey_def entry_def)
  ultimately have "\<forall>t. hash_path (urlHashArrayFromIsShownKey key) = Some t \<longrightarrow> (\<forall>d \<in> set t. hash_unit d)"
    by blast
  then show ?thesis
    using assms(2) createDeepLinkPath_id
    by (auto simp: deep_show_def Let_def setHash_def layout_show_def hash_unit_def js_def
        split: if_splits option.splits)
qed

text \<open>C33: An operation or a tag that is expanded can be linked to: the page that is loaded with the
  fragment the click wrote expands it again, and with an operation its tag, scrolls to it and
  keeps the fragment, whatever white space, percent signs or characters outside ASCII the names
  hold.  A slash in a name is the only thing that breaks the link, and it always does.\<close>

theorem deep_link_reload:
  assumes "js_ok tag" "encodeURIComponent tag = Some t" "tag \<noteq> []"
    and "js_ok op" "encodeURIComponent op = Some u" "op \<noteq> []"
    and "\<not> layout_isShown p [operations_type, tag, op] (exp = js ''full'')"
    and "\<not> layout_isShown p [operations_tag_type, tag] (exp = js ''full'' \<or> exp = js ''list'')"
    and "q = toggleShown True exp tag op p" "q' = toggleTag True exp tag p"
  shows "\<exists>r r'. configs_loaded True (reloaded q) = Some r \<and> configs_loaded True (reloaded q') = Some r' \<and>
    (lo_shown r [operations_type, tag, op] = Some True \<longleftrightarrow> 47 \<notin> set tag \<and> 47 \<notin> set op) \<and>
    (lo_shown r' [operations_tag_type, tag] = Some True \<longleftrightarrow> 47 \<notin> set tag) \<and>
    (47 \<notin> set tag \<and> 47 \<notin> set op \<longrightarrow> lo_shown r [operations_tag_type, tag] = Some True \<and>
       lo_scrollToKey r = Some [operations_type, tag, op] \<and> pg_hash r = pg_hash q) \<and>
    (47 \<notin> set tag \<longrightarrow> lo_scrollToKey r' = Some [operations_tag_type, tag] \<and> pg_hash r' = pg_hash q')"
proof -
  note enc = assms(1,2,4,5)
  have h: "pg_hash q = 35 # 47 # t @ 47 # u" "pg_hash q' = 35 # 47 # t"
    using assms(7-10) deep_show_operation [OF enc] by (simp_all add: toggleShown_def toggleTag_def Let_def)
  have e: "lo_shown (reloaded q) = (\<lambda>_. None)" "lo_shown (reloaded q') = (\<lambda>_. None)"
    by (simp_all add: reloaded_def)
  have d: "decodeURIComponent (pg_hash (reloaded q)) = Some (35 # 47 # tag @ 47 # op)"
    "decodeURIComponent (pg_hash (reloaded q')) = Some (35 # 47 # tag)"
    using h shown_hash [OF enc] by (simp_all add: reloaded_def)
  obtain r x where r: "configs_loaded True (reloaded q) = Some r"
    "lo_shown r = (\<lambda>k. if k \<in> set (opened_keys (link_key (tag @ 47 # op))) then Some True else None)"
    "lo_scrollToKey r = Some (link_key (tag @ 47 # op))"
    "pg_hash r = pg_hash (deep_show True (link_key (tag @ 47 # op)) (Some True) x)"
    by (rule loaded_link [OF d(1) e(1)])
  obtain r' x' where r': "configs_loaded True (reloaded q') = Some r'"
    "lo_shown r' = (\<lambda>k. if k \<in> set (opened_keys (link_key tag)) then Some True else None)"
    "lo_scrollToKey r' = Some (link_key tag)"
    "pg_hash r' = pg_hash (deep_show True (link_key tag) (Some True) x')"
    by (rule loaded_link [OF d(2) e(2)])
  have k: "link_key (tag @ 47 # op) = [operations_type, tag, op]" if "47 \<notin> set tag" "47 \<notin> set op"
    using link_key_operation that assms(6) by blast
  have op: "lo_shown r [operations_type, tag, op] = Some True \<longleftrightarrow> 47 \<notin> set tag \<and> 47 \<notin> set op"
  proof
    assume "lo_shown r [operations_type, tag, op] = Some True"
    then have "[operations_type, tag, op] \<in> set (opened_keys (link_key (tag @ 47 # op)))"
      by (simp add: r(2) split: if_splits)
    from opened_no_slash [OF this] show "47 \<notin> set tag \<and> 47 \<notin> set op" by simp
  qed (simp add: r(2) k opened_keys_def Let_def)
  have "lo_shown r [operations_tag_type, tag] = Some True \<and>
      lo_scrollToKey r = Some [operations_type, tag, op] \<and> pg_hash r = pg_hash q"
    if "47 \<notin> set tag \<and> 47 \<notin> set op"
    using that r(3,4) deep_show_operation(1) [OF enc] h(1) assms(3)
    by (simp add: r(2) k opened_keys_def Let_def isShownKeyFromUrlHashArray_def)
  moreover have tag: "lo_shown r' [operations_tag_type, tag] = Some True \<longleftrightarrow> 47 \<notin> set tag"
  proof
    assume "lo_shown r' [operations_tag_type, tag] = Some True"
    then have "[operations_tag_type, tag] \<in> set (opened_keys (link_key tag))"
      by (simp add: r'(2) split: if_splits)
    from opened_no_slash [OF this] show "47 \<notin> set tag" by simp
  qed (simp add: r'(2) link_key_tag assms(3) opened_keys_def)
  moreover have "lo_scrollToKey r' = Some [operations_tag_type, tag] \<and> pg_hash r' = pg_hash q'"
    if "47 \<notin> set tag"
    using r'(3,4) link_key_tag [OF that assms(3)] deep_show_operation(2) [OF enc] h(2) by simp
  ultimately show ?thesis
    using r(1) r'(1) op by blast
qed

definition ex_deep_page :: deep_page where
  "ex_deep_page = \<lparr>lo_shown = \<lambda>_. None, lo_scrollToKey = None, pg_hash = [], pg_history = []\<rparr>"

definition ex_link_tag :: js_string where
  "ex_link_tag = js ''a b''"

definition ex_link_op :: js_string where
  "ex_link_op = js ''x_y%''"

theorem deep_link_reload_witness:
  "\<exists>r. configs_loaded True (reloaded (toggleShown True (js ''none'') ex_link_tag ex_link_op ex_deep_page)) = Some r \<and>
     lo_shown r [operations_type, ex_link_tag, ex_link_op] = Some True \<and>
     lo_shown r [operations_tag_type, ex_link_tag] = Some True \<and>
     lo_scrollToKey r = Some [operations_type, ex_link_tag, ex_link_op]"
proof -
  have e: "encodeURIComponent ex_link_tag = Some (js ''a%20b'')" "encodeURIComponent ex_link_op = Some (js ''x_y%25'')"
    by (simp_all add: ex_link_tag_def ex_link_op_def js_def unreserved_def pct_bytes_def pct_def utf8_def hex_digit_def high_surrogate_def low_surrogate_def)
  have s: "47 \<notin> set ex_link_tag" "47 \<notin> set ex_link_op" "js_ok ex_link_tag" "js_ok ex_link_op"
    "ex_link_tag \<noteq> []" "ex_link_op \<noteq> []"
    by (simp_all add: ex_link_tag_def ex_link_op_def js_def)
  have n: "\<not> layout_isShown ex_deep_page key (js ''none'' = js ''full'')"
    "\<not> layout_isShown ex_deep_page key (js ''none'' = js ''full'' \<or> js ''none'' = js ''list'')" for key
    by (simp_all add: layout_isShown_def ex_deep_page_def js_def)
  show ?thesis
    using deep_link_reload [OF s(3) e(1) s(5) s(4) e(2) s(6) n refl refl] s(1,2) by blast
qed

text \<open>An operation that is closed leaves a fragment that opens nothing.\<close>

lemma closed_link:
  assumes "layout_isShown p [operations_type, tag, op] (exp = js ''full'')"
    "q = toggleShown True exp tag op p"
  obtains r where "configs_loaded True (reloaded q) = Some r" "lo_shown r = [[] \<mapsto> True]"
proof -
  have "pg_hash q = js ''#/''"
    using assms by (simp add: toggleShown_def Let_def deep_show_def urlHashArrayFromIsShownKey_def setHash_def js_def)
  then have d: "decodeURIComponent (pg_hash (reloaded q)) = Some (35 # 47 # [])"
    by (simp add: reloaded_def js_def decode_plain)
  have e: "lo_shown (reloaded q) = (\<lambda>_. None)"
    by (simp add: reloaded_def)
  have "opened_keys (link_key []) = [[]]"
    by (simp add: opened_keys_def link_key_def isShownKeyFromUrlHashArray_def)
  then show ?thesis
    using that by (rule_tac loaded_link [OF d e]) (auto simp: fun_eq_iff)
qed

end
