(* ===== verification/Spec2Isabelle.thy ===== *)
theory Spec2Isabelle
  imports OracleGenesis TokenGenesis RewardsFlow FeeAbsPrice AnteChain PrecompileProps Upgrades
    SwaggerLoader SwaggerToken SwaggerAuth SwaggerCurl SwaggerDeepLink
begin

text \<open>
  A verification development for KiiChain, a Cosmos SDK chain written in Go, and for the Swagger
  UI bundles in JavaScript that document its API.  Sources are named relative to \<open>src/\<close>.

  \<^bold>\<open>The program.\<close>  The chain is a set of modules around the SDK: each has a keeper (state in a
  key-value store), a message server, queries, genesis, and code that runs at the beginning or
  the end of a block.  \<open>x/oracle\<close> lets validators vote on exchange rates, tallies the votes by
  weighted median and slashes validators that vote badly; \<open>x/tokenfactory\<close> lets anyone create
  a denom \<open>factory/creator/subdenom\<close> and its admin mint, burn and move it; \<open>x/rewards\<close> pays a
  pool out over time; \<open>x/feeabstraction\<close> lets a fee in the native coin be paid in other tokens at
  prices averaged from the oracle.  \<open>ante/\<close> is what every transaction passes before its messages:
  it routes Cosmos and Ethereum transactions, waives the fee of oracle votes, and guards votes and
  expedited proposals of governance.  \<open>wasmbinding/\<close> lets CosmWasm contracts use the token factory and
  query the modules, \<open>precompiles/\<close> lets EVM contracts query the oracle and transfer through IBC;
  \<open>app/upgrades\<close> migrates the stores when the chain changes its version.
  \<open>client/docs/swagger-ui\<close> holds five minified bundles and the redirect page of OAuth2: a module
  loader (webpack), the top bar that writes the chosen API definition to the query string, and the
  library with the OAuth2 dialog, the auth, err, deep-linking and request-snippets plugins and its
  helpers.

  \<^bold>\<open>Shared theories.\<close>
  \<^item> Prelude: errors and results (\<open>res\<close>, \<open>bindR\<close>), loops with early return (\<open>foldR\<close>, \<open>mapR\<close>,
    \<open>walkR\<close>), the collections \<open>res_simps\<close>, \<open>kv_simps\<close>, \<open>int_simps\<close>.
  \<^item> Store: key-value stores as sorted association lists, with the locale \<open>ordered_store\<close>.
  \<^item> Machine: \<open>int64\<close>, \<open>uint64\<close> and binary64 floats; GoStrings: \<open>strings.Split\<close>, \<open>Join\<close>,
    \<open>strconv\<close>; JsStrings: UTF-16 strings, \<open>encodeURIComponent\<close>, plain JavaScript objects.
  \<^item> Sdk, Chain: the code outside the repository as records of operations with laws in locales
    (\<open>decimals\<close>, \<open>bech32\<close>, \<open>bank\<close>) and instances that satisfy them (\<open>legacy_dec\<close>, \<open>toy_codec\<close>,
    \<open>ledger_bank\<close>).

  \<^bold>\<open>Oracle.\<close>
  \<^item> OracleTypes (\<open>x/oracle/types\<close>): parameters, votes, vote parsing, messages.
  \<^item> OracleBallot (\<open>types/ballot.go\<close>): weighted median, standard deviation, cross rates; the median
    is characterised, does not depend on the sort, and the deviation never fails.
  \<^item> OracleKeeper (\<open>keeper/keeper.go\<close>): stores, feeder delegation, counters, snapshots, time
    weighted averages.  OracleTally (\<open>keeper/ballot.go\<close>, \<open>tally.go\<close>), OracleSlash
    (\<open>keeper/slash.go\<close>), OracleAbci (\<open>abci.go\<close>): the end blocker is a function of the state
    whatever the order of Go maps and of equal rates, and counts every validator once.  What a
    slash window does is specified on the interface of the staking module (\<open>sentenced\<close>, \<open>judged\<close>):
    only bonded validators that are not jailed are slashed.
  \<^item> OracleMsg: message server, ante decorators, queries.  OracleGenesis: genesis, reachable
    states and the validity of their parameters and stores, the round trip of export and import.

  \<^bold>\<open>Token factory.\<close>
  \<^item> TokenTypes (\<open>x/tokenfactory/types\<close>), TokenKeeper (\<open>x/tokenfactory/keeper\<close>): definitions.  The
    store has string keys and one constructor of \<open>tf_value\<close> per kind of record.
  \<^item> TokenBank: denom names round trip; what mint, burn and force transfer do under the bank laws.
    TokenInv: message effects, the invariant \<open>tf_inv\<close> of store and bank metadata, the locale
    \<open>tf_env\<close> of what the keeper relies on.  TokenProps: reachable states, the example keeper.
  \<^item> TokenFactory, TokenGenesis: the properties: effects of messages, protection of a denom by its
    admin, types and index of the store, creation, genesis round trip.  The locale \<open>tf_env_pool\<close>
    extends \<open>tf_env\<close> by the account of the community pool, for the creation fee; it is interpreted
    with the capabilities of the app, which fund the pool, and without.

  \<^bold>\<open>Rewards.\<close>
  \<^item> Rewards (\<open>x/rewards\<close>): definitions; the wall clock of \<open>time.Now()\<close> is an argument.
  \<^item> RewardsTime: bounds of durations in float seconds.  RewardsProps: the locale \<open>release_dec\<close>
    extends \<open>decimals\<close> by division and truncation, interpreted on \<open>legacy_dec\<close>.  RewardsCalc: all
    outcomes of \<open>CalculateReward\<close>.  RewardsInv: the invariant that the pool covers the schedule.
    RewardsFlow: properties of blocks, the release schedule that stops the chain, its end, and
    the clock dependence of \<open>ChangeSchedule\<close>.

  \<^bold>\<open>Fee abstraction.\<close>
  \<^item> FeeAbs (\<open>x/feeabstraction\<close>): definitions: parameters and tokens, conversion of a native fee
    (\<open>keeper/fee.go\<close>), prices (\<open>keeper/oracle.go\<close>), begin blocker, messages, genesis, and the
    decorator that deducts the fee of a Cosmos transaction (\<open>ante/cosmos\<close>).
  \<^item> FeeAbsProps: the locale \<open>erc20_laws\<close> of the ERC20 keeper, \<open>fee_env\<close> of what the conversion
    relies on; which fee is taken, from which balance, and what stays as it was.  FeeAbsPrice:
    the clamped price, the begin blocker on every branch, reachable states, re-import of genesis.
  \<^item> EvmAnte, EvmProps (\<open>ante/evm\<close>): the decorator of an Ethereum transaction; the checks of the
    EVM module are operations of a record, its laws the locale \<open>evm_env\<close>, which names the sequence of
    an account that the nonce is compared with and counted up in.

  \<^bold>\<open>Ante handler.\<close>
  \<^item> Ante (\<open>ante/\<close>): transactions, the context, one definition per decorator; a decorator takes the
    handler that follows it, as \<open>sdk.AnteDecorator\<close> does.  AnteProps: when a transaction is free of
    fees, over all the blocks of a vote period (\<open>within_period\<close>), who may vote, the gas of a signature
    of nested multisignatures.
  \<^item> AnteChain: \<open>NewAnteHandler\<close> composes the decorators in the order of the code; a transaction
    that passes has passed every guard of its route.  The guards look at \<open>MsgVote\<close>s in the transaction
    and directly inside a \<open>MsgExec\<close>, and at expedited proposals in the transaction only; weighted
    votes and deeper nesting pass unseen.  \<open>HandlerOptions_Validate\<close> is the check of the
    options for nil fields.

  \<^bold>\<open>Contracts.\<close>
  \<^item> WasmBind (\<open>wasmbinding/\<close>): the messengers and queriers, over the keepers of the token factory and
    the oracle.  WasmProps: reachable states of a chain with contracts, protection of denoms against
    contracts.  WasmFlow: mints, the queries after a creation, the locale \<open>address_codecs\<close>.
  \<^item> Precompiles, PrecompileProps (\<open>precompiles/\<close>): the oracle and IBC precompiles; the keepers of ibc-go
    are a record of operations.  \<open>message_of\<close> says, for both methods, what every field of the
    transfer must be.

  \<^bold>\<open>Upgrades.\<close>
  \<^item> Upgrades (\<open>app/upgrades\<close>, the store loader of \<open>app/app.go\<close>): the handlers of the four upgrades and the
    migrations of v5.0.0; the locale \<open>erc20_store\<close> is what the erc20 keeper and its store promise.

  \<^bold>\<open>Swagger UI.\<close>  Every bundle is one minified program on one line; the definitions name the
  functions of that line they translate and nothing else of it.
  \<^item> SwaggerLoader: the module loader; factories are parameters given as processes.
  \<^item> SwaggerSearch: \<open>parseSearch\<close>, \<open>serializeSearch\<close>, the selection handlers of the top bar, and how
    \<open>SwaggerUI(opts)\<close> merges the query string into its configuration.  It does so only with
    \<open>queryConfigEnabled\<close>, which client/docs/swagger-ui/index.html sets to false: there the choice is
    written to the query string and not read back.
  \<^item> SwaggerUtils, SwaggerJson: form data with repeated keys (\<open>kept\<close> says which values survive), PKCE
    verifiers, \<open>deeplyStripKey\<close>.
  \<^item> SwaggerUrl: \<open>sanitizeUrl\<close>, against the part of the bundled URL parser that reads a scheme; what
    it replaces and what it keeps.
  \<^item> SwaggerOAuth, SwaggerToken: the authorization code flow.  The dialog opens an authorization
    URL (\<open>oauth2_authorize\<close>), the page \<open>oauth2-redirect.html\<close> reads the answer (\<open>redirect_run\<close>) and
    the actions of the auth plugin make the token request; \<open>code_exchange_correct\<close> composes the
    three.  \<open>decode_query\<close> and \<open>decode_form\<close> are what a server reads, \<open>JSON_parse\<close> is
    \<open>JSON.parse\<close> on objects of strings.
  \<^item> SwaggerErr: collecting and clearing errors; the object of defaults is part of the state since
    the code assigns to it.  SwaggerAuth: the authorizations, their reducers and selectors.
  \<^item> SwaggerCurl: the curl command of a request, read back with a lexer for the words of bash.
  \<^item> SwaggerDeepLink: the fragment a click on a tag or an operation writes, and what it opens again.

  \<^bold>\<open>Errors, time, numbers.\<close>  Every error return and panic is a value \<open>Inl\<close>; text added by wrapping
  is dropped, the sentinel kept.  A time is a number of nanoseconds.  Decimals are integers of
  \<open>10 ^ -18\<close> units; \<open>Int\<close> and \<open>Coin\<close> amounts are unbounded integers (the panics at 256 bits are
  left out where amounts stay below a supply, and stated as bounds where the arithmetic of
  decimals needs them: \<open>2 ^ 128\<close> coins to release, below \<open>2 ^ 315\<close> for products).

  \<^bold>\<open>Fuel.\<close>  Only the loader uses fuel, the depth of nested requires; \<open>bundle_boot_terminates\<close> shows
  that one more than the number of modules is enough.

  \<^bold>\<open>Examples.\<close>  The witnesses of the properties run on small instances of the outside code:
  \<open>legacy_dec\<close>, \<open>toy_codec\<close>, \<open>toy_checks\<close>, \<open>ledger_bank\<close>, \<open>toy_staking_ops\<close>, \<open>toy_tf\<close>, \<open>toy_app_tf\<close>, \<open>toy_rw\<close>,
  \<open>toy_erc20\<close>, \<open>toy_fa\<close>, \<open>toy_dfd\<close>, \<open>toy_gov\<close>, \<open>toy_mono\<close>, \<open>toy_ho\<close>, \<open>toy_cm\<close>, \<open>toy_bech32\<close>, \<open>toy_evm\<close>,
  \<open>toy_ibc\<close>, \<open>erc20_keeper_of_map\<close>.

  \<^bold>\<open>Not modelled.\<close>
  \<^item> The decorators of the SDK, of IBC, of CosmWasm and of Cosmos EVM that \<open>ante/\<close> only lists: they
    are fields of \<open>HandlerOptions\<close>, and the checks of the EVM those of \<open>evm_ops\<close>.
  \<^item> Of \<open>precompiles/\<close> and \<open>wasmbinding/\<close>: JSON and ABI encodings, the set-up of a call and its out-of-gas
    handler, the registration of the plugins.
  \<^item> \<open>app/\<close>, \<open>cmd/\<close>: construction of the SDK application, the command line;
    protobuf code and gateways are generated; simulation and test helpers are test code.
  \<^item> Events, logging and telemetry of the modelled modules, and gas other than the gas a handler
    consumes itself.
  \<^item> The rest of the Swagger UI bundles: React components, the spec, oas3 and filter plugins, schema
    sampling, \<open>fetch\<close> and third-party libraries.
\<close>

end
